(* ===== verification/Prelude.thy ===== *)
theory Prelude
  imports Complex_Main "HOL-Library.AList"
begin

text \<open>
  What the component theories share: the TypeScript containers and string
  operations the sources use (\<open>Map\<close>, \<open>Set\<close>, \<open>trim\<close>, \<open>toLowerCase\<close>,
  \<open>startsWith\<close>, \<open>split\<close>, \<open>findIndex\<close>), the collections of rewrite rules the
  component proofs use, generic list lemmas, and the interfaces (locales) that
  several components satisfy.

  Conventions. A JavaScript string is a \<open>string\<close>, one \<open>char\<close> per code unit
  (code units below 256;
  the one character beyond them a source text uses is written as its UTF-8 bytes). \<open>Map\<close> and plain objects keep insertion order: they are
  association lists with distinct keys. A JavaScript \<open>Set\<close> is a list without
  repetitions in insertion order. \<open>null\<close> and \<open>undefined\<close> are \<open>None\<close>.
\<close>

named_theorems js_simps "rewrite rules of the JavaScript containers and strings"

section \<open>Map\<close>

type_synonym ('k, 'v) jsmap = "('k \<times> 'v) list"

definition js_get :: "('k, 'v) jsmap \<Rightarrow> 'k \<Rightarrow> 'v option" where
  "js_get m k = map_of m k"

definition js_has :: "('k, 'v) jsmap \<Rightarrow> 'k \<Rightarrow> bool" where
  "js_has m k = (map_of m k \<noteq> None)"

definition js_set :: "('k, 'v) jsmap \<Rightarrow> 'k \<Rightarrow> 'v \<Rightarrow> ('k, 'v) jsmap" where
  "js_set m k v = AList.update k v m"

definition js_delete :: "('k, 'v) jsmap \<Rightarrow> 'k \<Rightarrow> ('k, 'v) jsmap" where
  "js_delete m k = filter (\<lambda>e. fst e \<noteq> k) m"

definition js_get_or :: "('k, 'v) jsmap \<Rightarrow> 'k \<Rightarrow> 'v \<Rightarrow> 'v" where
  "js_get_or m k d = (case js_get m k of None \<Rightarrow> d | Some v \<Rightarrow> v)"

definition js_keys :: "('k, 'v) jsmap \<Rightarrow> 'k list" where
  "js_keys m = map fst m"

definition js_values :: "('k, 'v) jsmap \<Rightarrow> 'v list" where
  "js_values m = map snd m"

definition js_wf :: "('k, 'v) jsmap \<Rightarrow> bool" where
  "js_wf m = distinct (map fst m)"

text \<open>\<open>new Map(pairs)\<close>: later pairs overwrite earlier ones in place.\<close>

definition js_map_of_list :: "('k \<times> 'v) list \<Rightarrow> ('k, 'v) jsmap" where
  "js_map_of_list ps = foldl (\<lambda>m p. js_set m (fst p) (snd p)) [] ps"

lemma js_get_empty [simp, js_simps]: "js_get [] k = None"
  by (simp add: js_get_def)

lemma js_get_set [simp, js_simps]:
  "js_get (js_set m k v) k' = (if k' = k then Some v else js_get m k')"
  by (simp add: js_get_def js_set_def update_conv')

lemma js_get_delete [simp, js_simps]:
  "js_get (js_delete m k) k' = (if k' = k then None else js_get m k')"
  by (induction m) (auto simp: js_get_def js_delete_def)

lemma js_has_get [js_simps]: "js_has m k = (js_get m k \<noteq> None)"
  by (simp add: js_has_def js_get_def)

lemma js_get_or_set [simp, js_simps]:
  "js_get_or (js_set m k v) k' d = (if k' = k then v else js_get_or m k' d)"
  by (simp add: js_get_or_def)

lemma js_get_or_delete [simp, js_simps]:
  "js_get_or (js_delete m k) k' d = (if k' = k then d else js_get_or m k' d)"
  by (simp add: js_get_or_def)

lemma js_get_or_empty [simp, js_simps]: "js_get_or [] k d = d"
  by (simp add: js_get_or_def)

lemma js_wf_empty [simp]: "js_wf []"
  by (simp add: js_wf_def)

lemma js_wf_set [simp]: "js_wf m \<Longrightarrow> js_wf (js_set m k v)"
  by (simp add: js_wf_def js_set_def distinct_update)

lemma js_wf_delete [simp]: "js_wf m \<Longrightarrow> js_wf (js_delete m k)"
  by (simp add: js_wf_def js_delete_def distinct_map_filter)

lemma set_keys_js_set [simp]: "set (js_keys (js_set m k v)) = insert k (set (js_keys m))"
  by (auto simp: js_keys_def js_set_def dom_update)

lemma set_keys_js_delete [simp]: "set (js_keys (js_delete m k)) = set (js_keys m) - {k}"
  by (auto simp: js_keys_def js_delete_def)

lemma js_keys_get: "k \<in> set (js_keys m) \<longleftrightarrow> js_get m k \<noteq> None"
  by (force simp: js_keys_def js_get_def map_of_eq_None_iff)

lemma js_get_mem: "js_get m k = Some v \<Longrightarrow> (k, v) \<in> set m"
  by (simp add: js_get_def map_of_SomeD)

lemma js_get_iff: "js_wf m \<Longrightarrow> js_get m k = Some v \<longleftrightarrow> (k, v) \<in> set m"
  by (simp add: js_wf_def js_get_def)

lemma js_wf_list: "js_wf (foldl (\<lambda>m p. js_set m (f p) (g p)) m ps)" if "js_wf m"
  using that by (induction ps arbitrary: m) auto

lemma js_wf_map_of_list [simp]: "js_wf (js_map_of_list ps)"
  by (simp add: js_map_of_list_def js_wf_list)

lemma js_get_map_of_list: "js_get (js_map_of_list ps) k = Some v \<Longrightarrow> (k, v) \<in> set ps"
  by (induction ps rule: rev_induct) (auto simp: js_map_of_list_def split: if_splits)

lemma set_keys_map_of_list: "set (js_keys (js_map_of_list ps)) = fst ` set ps"
proof (induction ps rule: rev_induct)
  case Nil
  then show ?case by (simp add: js_map_of_list_def js_keys_def)
next
  case (snoc p ps)
  then show ?case by (simp add: js_map_of_list_def)
qed

section \<open>Set\<close>

definition set_add :: "'a list \<Rightarrow> 'a \<Rightarrow> 'a list" where
  "set_add s x = (if x \<in> set s then s else s @ [x])"

definition set_of_list :: "'a list \<Rightarrow> 'a list" where
  "set_of_list xs = foldl set_add [] xs"

lemma set_set_add [simp, js_simps]: "set (set_add s x) = insert x (set s)"
  by (auto simp: set_add_def)

lemma distinct_set_add [simp]: "distinct s \<Longrightarrow> distinct (set_add s x)"
  by (simp add: set_add_def)

lemma set_foldl_set_add [simp]: "set (foldl set_add s xs) = set s \<union> set xs"
  by (induction xs arbitrary: s) auto

lemma distinct_foldl_set_add: "distinct s \<Longrightarrow> distinct (foldl set_add s xs)"
  by (induction xs arbitrary: s) auto

lemma set_set_of_list [simp, js_simps]: "set (set_of_list xs) = set xs"
  by (simp add: set_of_list_def)

lemma distinct_set_of_list [simp]: "distinct (set_of_list xs)"
  by (simp add: set_of_list_def distinct_foldl_set_add)

lemma foldl_set_add_distinct:
  "distinct xs \<Longrightarrow> set s \<inter> set xs = {} \<Longrightarrow> foldl set_add s xs = s @ xs"
  by (induction xs arbitrary: s) (auto simp: set_add_def)

lemma set_of_list_distinct: "distinct xs \<Longrightarrow> set_of_list xs = xs"
  by (simp add: set_of_list_def foldl_set_add_distinct)

section \<open>Arrays\<close>

text \<open>\<open>findIndex\<close>: the first index where the predicate holds, \<open>None\<close> for \<open>-1\<close>.\<close>

fun find_index :: "('a \<Rightarrow> bool) \<Rightarrow> 'a list \<Rightarrow> nat option" where
  "find_index P [] = None"
| "find_index P (x # xs) = (if P x then Some 0 else map_option Suc (find_index P xs))"

text \<open>A loop that returns the first result an element yields.\<close>

fun first_match :: "('a \<Rightarrow> 'b option) \<Rightarrow> 'a list \<Rightarrow> 'b option" where
  "first_match f [] = None"
| "first_match f (x # xs) = (case f x of None \<Rightarrow> first_match f xs | Some y \<Rightarrow> Some y)"

lemma first_match_None: "first_match f xs = None \<longleftrightarrow> (\<forall>x\<in>set xs. f x = None)"
  by (induction xs) (auto split: option.splits)

text \<open>\<open>splice(i, 1)\<close> removes one element, \<open>splice(i, 0, x)\<close> inserts one.\<close>

definition remove_at :: "nat \<Rightarrow> 'a list \<Rightarrow> 'a list" where
  "remove_at i xs = take i xs @ drop (Suc i) xs"

definition insert_at :: "nat \<Rightarrow> 'a \<Rightarrow> 'a list \<Rightarrow> 'a list" where
  "insert_at i x xs = take i xs @ [x] @ drop i xs"

lemma find_index_Some:
  "find_index P xs = Some i \<longleftrightarrow> i < length xs \<and> P (xs ! i) \<and> (\<forall>j<i. \<not> P (xs ! j))"
proof (induction xs arbitrary: i)
  case Nil
  then show ?case by simp
next
  case (Cons x xs)
  show ?case
    by (cases i) (auto simp: Cons.IH less_Suc_eq_0_disj)
qed

lemma find_index_None: "find_index P xs = None \<longleftrightarrow> (\<forall>x\<in>set xs. \<not> P x)"
  by (induction xs) auto

lemma remove_at_simps [simp]:
  "remove_at i [] = []"
  "remove_at 0 (x # xs) = xs"
  "remove_at (Suc i) (x # xs) = x # remove_at i xs"
  by (simp_all add: remove_at_def)

lemma length_remove_at [simp]: "i < length xs \<Longrightarrow> length (remove_at i xs) = length xs - 1"
  by (simp add: remove_at_def)

lemma set_remove_at_subset: "set (remove_at i xs) \<subseteq> set xs"
  by (auto simp: remove_at_def dest: in_set_takeD in_set_dropD)

lemma remove_at_split:
  "i < length xs \<Longrightarrow> xs = take i xs @ [xs ! i] @ drop (Suc i) xs"
  by (simp add: id_take_nth_drop)

lemma mset_like_remove_at: "i < length xs \<Longrightarrow> set xs = insert (xs ! i) (set (remove_at i xs))"
  by (subst remove_at_split [of i xs], simp) (simp add: remove_at_def)

lemma insert_at_find_index_eq:
  "(case find_index P xs of None \<Rightarrow> xs @ [x] | Some i \<Rightarrow> insert_at i x xs)
     = takeWhile (\<lambda>y. \<not> P y) xs @ [x] @ dropWhile (\<lambda>y. \<not> P y) xs"
proof (induction xs)
  case Nil
  then show ?case by simp
next
  case (Cons y ys)
  then show ?case
    by (cases "find_index P ys") (auto simp: insert_at_def)
qed

section \<open>Strings\<close>

definition is_space :: "char \<Rightarrow> bool" where
  "is_space c = (let n = of_char c :: nat in 9 \<le> n \<and> n \<le> 13 \<or> n = 32 \<or> n = 160)"

definition js_trim :: "string \<Rightarrow> string" where
  "js_trim s = rev (dropWhile is_space (rev (dropWhile is_space s)))"

definition lower_char :: "char \<Rightarrow> char" where
  "lower_char c = (let n = of_char c :: nat in
     if 65 \<le> n \<and> n \<le> 90 \<or> 192 \<le> n \<and> n \<le> 222 \<and> n \<noteq> 215 then char_of (n + 32) else c)"

definition js_lower :: "string \<Rightarrow> string" where
  "js_lower s = map lower_char s"

fun starts_with :: "string \<Rightarrow> string \<Rightarrow> bool" where
  "starts_with s [] = True"
| "starts_with [] (p # ps) = False"
| "starts_with (c # cs) (p # ps) = (c = p \<and> starts_with cs ps)"

definition ends_with :: "string \<Rightarrow> string \<Rightarrow> bool" where
  "ends_with s p = starts_with (rev s) (rev p)"

fun js_includes :: "string \<Rightarrow> string \<Rightarrow> bool" where
  "js_includes [] p = (p = [])"
| "js_includes (c # cs) p = (starts_with (c # cs) p \<or> js_includes cs p)"

text \<open>\<open>split\<close> with a one-character separator.\<close>

fun js_split :: "char \<Rightarrow> string \<Rightarrow> string list" where
  "js_split sep [] = [[]]"
| "js_split sep (c # cs) =
     (if c = sep then [] # js_split sep cs
      else (case js_split sep cs of [] \<Rightarrow> [[c]] | p # ps \<Rightarrow> (c # p) # ps))"

text \<open>\<open>slice(0, -n)\<close>.\<close>

definition drop_last :: "nat \<Rightarrow> string \<Rightarrow> string" where
  "drop_last n s = take (length s - n) s"

lemma starts_with_append: "starts_with s p \<longleftrightarrow> (\<exists>r. s = p @ r)"
  by (induction s p rule: starts_with.induct) auto

lemma starts_with_same [simp]: "starts_with (p @ r) p"
  by (auto simp: starts_with_append)

lemma ends_with_append: "ends_with s p \<longleftrightarrow> (\<exists>r. s = r @ p)"
proof
  assume "ends_with s p"
  then obtain r where "rev s = rev p @ r" by (auto simp: ends_with_def starts_with_append)
  then have "s = rev r @ p" by (metis rev_append rev_rev_ident)
  then show "\<exists>r. s = r @ p" by blast
qed (auto simp: ends_with_def starts_with_append)

lemma js_split_nonempty [simp]: "js_split sep s \<noteq> []"
  by (induction sep s rule: js_split.induct) (auto split: list.splits)

text \<open>The decimal digits \<open>String(n)\<close> prints.\<close>

fun show_nat :: "nat \<Rightarrow> string" where
  "show_nat n = (if n < 10 then [char_of (48 + n)] else show_nat (n div 10) @ [char_of (48 + n mod 10)])"

declare show_nat.simps [simp del]

definition show_int :: "int \<Rightarrow> string" where
  "show_int i = (if i < 0 then ''-'' @ show_nat (nat (- i)) else show_nat (nat i))"

text \<open>\<open>join\<close>.\<close>

fun js_join :: "string \<Rightarrow> string list \<Rightarrow> string" where
  "js_join sep [] = []"
| "js_join sep [x] = x"
| "js_join sep (x # y # xs) = x @ sep @ js_join sep (y # xs)"

lemma js_split_no_sep: "sep \<notin> set x \<Longrightarrow> js_split sep x = [x]"
  by (induction x) auto

lemma js_split_append: "sep \<notin> set x \<Longrightarrow> js_split sep (x @ sep # rest) = x # js_split sep rest"
  by (induction x) auto

lemma js_split_join:
  "xs \<noteq> [] \<Longrightarrow> \<forall>x\<in>set xs. sep \<notin> set x \<Longrightarrow> js_split sep (js_join [sep] xs) = xs"
  by (induction "[sep]" xs rule: js_join.induct) (auto simp: js_split_no_sep js_split_append)

section \<open>Interfaces\<close>

text \<open>
  A component whose state only changes through its operations, with an invariant
  each operation keeps: the invariant then holds after every sequence of operations.
\<close>

locale invariant_system =
  fixes step :: "'s \<Rightarrow> 'e \<Rightarrow> 's"
    and inv :: "'s \<Rightarrow> bool"
  assumes step_inv: "inv s \<Longrightarrow> inv (step s e)"
begin

lemma run_inv: "inv s \<Longrightarrow> inv (foldl step s es)"
  by (induction es arbitrary: s) (auto intro: step_inv)

lemma run_prefix_inv: "inv s \<Longrightarrow> inv (foldl step s (take n es))"
  by (rule run_inv)

end

text \<open>The keyed store the stateful components are written against.\<close>

locale keyed_store =
  fixes get :: "'m \<Rightarrow> 'k \<Rightarrow> 'v option"
    and put :: "'m \<Rightarrow> 'k \<Rightarrow> 'v \<Rightarrow> 'm"
    and del :: "'m \<Rightarrow> 'k \<Rightarrow> 'm"
  assumes get_put: "get (put m k v) k' = (if k' = k then Some v else get m k')"
    and get_del: "get (del m k) k' = (if k' = k then None else get m k')"
begin

definition tally :: "'m \<Rightarrow> 'k \<Rightarrow> 'v \<Rightarrow> 'v" where
  "tally m k d = (case get m k of None \<Rightarrow> d | Some v \<Rightarrow> v)"

lemma tally_put: "tally (put m k v) k' d = (if k' = k then v else tally m k' d)"
  by (simp add: tally_def get_put)

lemma tally_del: "tally (del m k) k' d = (if k' = k then d else tally m k' d)"
  by (simp add: tally_def get_del)

lemma put_del_other: "k' \<noteq> k \<Longrightarrow> get (put (del m k) k' v) k = None"
  by (simp add: get_put get_del)

end

interpretation js: keyed_store js_get js_set js_delete
  by unfold_locales simp_all

lemma js_tally [js_simps]: "js.tally m k d = js_get_or m k d"
  by (simp add: js.tally_def js_get_or_def)

end
