(* ===== verification/JsonText.thy ===== *)
theory JsonText
  imports Prelude
begin

text \<open>
  JSON values and the text \<open>JSON.stringify\<close> prints for them, which the policy code uses as a
  comparison key. The main fact is that the text determines the value: \<open>stringify_inj\<close>.
  Objects keep insertion order; numbers are integers.
\<close>

datatype json = JNull | JBool bool | JNum int | JStr string
  | JArr "json list" | JObj "(string \<times> json) list"

definition hex_digit :: "nat \<Rightarrow> char" where
  "hex_digit n = (if n < 10 then char_of (48 + n) else char_of (87 + n))"

definition escape_char :: "char \<Rightarrow> string" where
  "escape_char c = (
     if c = CHR 0x22 then [CHR 0x5C, CHR 0x22]
     else if c = CHR 0x5C then [CHR 0x5C, CHR 0x5C]
     else if c = CHR 0x08 then [CHR 0x5C, CHR ''b'']
     else if c = CHR 0x0C then [CHR 0x5C, CHR ''f'']
     else if c = CHR 0x0A then [CHR 0x5C, CHR ''n'']
     else if c = CHR 0x0D then [CHR 0x5C, CHR ''r'']
     else if c = CHR 0x09 then [CHR 0x5C, CHR ''t'']
     else let n = of_char c :: nat in
       if n < 32 then [CHR 0x5C, CHR ''u'', CHR ''0'', CHR ''0'', hex_digit (n div 16), hex_digit (n mod 16)]
       else [c])"

definition quote_json :: "string \<Rightarrow> string" where
  "quote_json s = CHR 0x22 # concat (map escape_char s) @ [CHR 0x22]"

fun stringify :: "json \<Rightarrow> string" where
  "stringify JNull = ''null''"
| "stringify (JBool b) = (if b then ''true'' else ''false'')"
| "stringify (JNum i) = show_int i"
| "stringify (JStr s) = quote_json s"
| "stringify (JArr xs) = ''['' @ js_join '','' (map stringify xs) @ '']''"
| "stringify (JObj ms) =
     ''{'' @ js_join '','' (map (\<lambda>m. quote_json (fst m) @ '':'' @ stringify (snd m)) ms) @ ''}''"

section \<open>The text determines the value\<close>

text \<open>A reader of one escaped character.\<close>

definition hex_value :: "char \<Rightarrow> nat" where
  "hex_value c = (let n = of_char c in if n < 58 then n - 48 else n - 87)"

fun read_char :: "string \<Rightarrow> (char \<times> string) option" where
  "read_char [] = None"
| "read_char (c # cs) = (
     if c = CHR 0x22 then None
     else if c \<noteq> CHR 0x5C then Some (c, cs)
     else case cs of [] \<Rightarrow> None
       | d # ds \<Rightarrow>
           if d = CHR ''u'' then Some (char_of (16 * hex_value (ds ! 2) + hex_value (ds ! 3)), drop 4 ds)
           else Some (if d = CHR ''b'' then CHR 0x08 else if d = CHR ''f'' then CHR 0x0C
             else if d = CHR ''n'' then CHR 0x0A else if d = CHR ''r'' then CHR 0x0D
             else if d = CHR ''t'' then CHR 0x09 else d, ds))"

lemma hex_value_digit: "n < 16 \<Longrightarrow> hex_value (hex_digit n) = n"
  by (simp add: hex_value_def hex_digit_def)

lemma read_char_simps:
  "read_char (CHR 0x22 # cs) = None"
  "c \<noteq> CHR 0x22 \<Longrightarrow> c \<noteq> CHR 0x5C \<Longrightarrow> read_char (c # cs) = Some (c, cs)"
  "read_char (CHR 0x5C # CHR ''u'' # a # b # x # y # ds) = Some (char_of (16 * hex_value x + hex_value y), ds)"
  "read_char (CHR 0x5C # CHR 0x22 # ds) = Some (CHR 0x22, ds)"
  "read_char (CHR 0x5C # CHR 0x5C # ds) = Some (CHR 0x5C, ds)"
  "read_char (CHR 0x5C # CHR ''b'' # ds) = Some (CHR 0x08, ds)"
  "read_char (CHR 0x5C # CHR ''f'' # ds) = Some (CHR 0x0C, ds)"
  "read_char (CHR 0x5C # CHR ''n'' # ds) = Some (CHR 0x0A, ds)"
  "read_char (CHR 0x5C # CHR ''r'' # ds) = Some (CHR 0x0D, ds)"
  "read_char (CHR 0x5C # CHR ''t'' # ds) = Some (CHR 0x09, ds)"
  by (simp_all add: numeral_2_eq_2 numeral_3_eq_3)

declare read_char.simps(2) [simp del]

lemma hex_pair:
  assumes "(of_char c :: nat) < 32"
  shows "char_of (16 * hex_value (hex_digit (of_char c div 16)) + hex_value (hex_digit (of_char c mod 16))) = c"
proof -
  have "(of_char c :: nat) div 16 < 16" "(of_char c :: nat) mod 16 < 16" using assms by simp_all
  then show ?thesis by (simp only: hex_value_digit mult_div_mod_eq char_of_char)
qed

lemma read_escape: "read_char (escape_char c @ r) = Some (c, r)"
proof -
  consider "c = CHR 0x22" | "c = CHR 0x5C" | "c = CHR 0x08" | "c = CHR 0x0C" | "c = CHR 0x0A" | "c = CHR 0x0D"
    | "c = CHR 0x09" | "c \<notin> {CHR 0x22, CHR 0x5C, CHR 0x08, CHR 0x0C, CHR 0x0A, CHR 0x0D, CHR 0x09}"
    by blast
  then show ?thesis
  proof cases
    case 8
    then show ?thesis
      by (cases "(of_char c :: nat) < 32")
        (simp_all only: escape_char_def Let_def insert_iff empty_iff de_Morgan_disj if_False if_True append.simps
          read_char_simps hex_pair simp_thms)
  qed (simp_all add: escape_char_def read_char_simps del: read_char.simps)
qed

lemma escape_unambiguous:
  "concat (map escape_char s) @ CHR 0x22 # r = concat (map escape_char t) @ CHR 0x22 # q \<Longrightarrow> s = t \<and> r = q"
proof (induction s arbitrary: t)
  case Nil
  then show ?case
  proof (cases t)
    case (Cons d ds)
    have "read_char (CHR 0x22 # r) = read_char (escape_char d @ concat (map escape_char ds) @ CHR 0x22 # q)"
      using Nil Cons by simp
    then show ?thesis by (simp only: read_escape read_char_simps option.distinct)
  qed simp
next
  case (Cons c cs)
  show ?case
  proof (cases t)
    case Nil
    have "read_char (escape_char c @ concat (map escape_char cs) @ CHR 0x22 # r) = read_char (CHR 0x22 # q)"
      using Nil Cons.prems by simp
    then show ?thesis by (simp only: read_escape read_char_simps option.distinct)
  next
    case (Cons d ds)
    have "read_char (escape_char c @ concat (map escape_char cs) @ CHR 0x22 # r)
        = read_char (escape_char d @ concat (map escape_char ds) @ CHR 0x22 # q)"
      using Cons Cons.prems by simp
    then have "c = d" "concat (map escape_char cs) @ CHR 0x22 # r = concat (map escape_char ds) @ CHR 0x22 # q"
      by (simp_all only: read_escape option.inject prod.inject)
    then show ?thesis using Cons.IH [of ds] Cons by simp
  qed
qed

lemma quote_unambiguous: "quote_json s @ r = quote_json t @ q \<Longrightarrow> s = t \<and> r = q"
  using escape_unambiguous [of s r t q] by (simp add: quote_json_def)

text \<open>Decimal text.\<close>

definition is_digit :: "char \<Rightarrow> bool" where
  "is_digit c = (48 \<le> (of_char c :: nat) \<and> (of_char c :: nat) \<le> 57)"

definition read_nat :: "string \<Rightarrow> nat" where
  "read_nat s = foldl (\<lambda>n c. 10 * n + (of_char c - 48)) 0 s"

lemma digit_char: "(n::nat) < 10 \<Longrightarrow> of_char (char_of (48 + n)) = 48 + n"
  by simp

lemma digit_is_digit: "(n::nat) < 10 \<Longrightarrow> is_digit (char_of (48 + n))"
  unfolding is_digit_def by (simp only: digit_char) simp

lemma read_show_nat: "read_nat (show_nat n) = n"
proof (induction n rule: show_nat.induct)
  case (1 n)
  show ?case
  proof (cases "n < 10")
    case True
    then show ?thesis
      by (simp only: show_nat.simps [of n] if_True read_nat_def foldl.simps digit_char mult_0_right diff_add_inverse add_0_left add_0)
  next
    case False
    have "n mod 10 < 10" by simp
    moreover have "read_nat (show_nat (n div 10)) = n div 10" using 1 False by blast
    ultimately show ?thesis
      using False by (simp only: show_nat.simps [of n] if_False read_nat_def foldl_append foldl.simps digit_char) simp
  qed
qed

lemma show_nat_digits: "show_nat n \<noteq> [] \<and> (\<forall>c\<in>set (show_nat n). is_digit c)"
proof (induction n rule: show_nat.induct)
  case (1 n)
  have "n mod 10 < 10" by simp
  then show ?case
    using 1 by (cases "n < 10") (simp_all add: show_nat.simps [of n] digit_is_digit ball_Un del: char_of_mod_256)
qed

definition delimited :: "string \<Rightarrow> bool" where
  "delimited r = (r = [] \<or> \<not> is_digit (hd r))"

lemma show_nat_unambiguous:
  assumes "show_nat n @ r = show_nat k @ q" "delimited r" "delimited q"
  shows "n = k \<and> r = q"
proof -
  have tw: "takeWhile is_digit (show_nat x @ y) = show_nat x" if "delimited y" for x y
  proof -
    have "takeWhile is_digit y = []" using that by (cases y) (simp_all add: delimited_def)
    then show ?thesis using show_nat_digits [of x] by (simp only: takeWhile_append2 append_Nil2)
  qed
  have "show_nat n = show_nat k" using tw [OF assms(2)] tw [OF assms(3)] assms(1) by metis
  then show ?thesis using assms(1) read_show_nat same_append_eq by metis
qed

lemma show_nat_not_minus: "show_nat n @ r \<noteq> CHR ''-'' # q"
proof
  assume "show_nat n @ r = CHR ''-'' # q"
  then have "CHR ''-'' \<in> set (show_nat n)"
    using show_nat_digits [of n] by (cases "show_nat n") simp_all
  then have "is_digit (CHR ''-'')" using show_nat_digits by blast
  then show False by (simp add: is_digit_def)
qed

lemma show_int_unambiguous:
  assumes "show_int i @ r = show_int j @ q" "delimited r" "delimited q"
  shows "i = j \<and> r = q"
proof -
  have neg: "show_int k @ z = CHR ''-'' # show_nat (nat (- k)) @ z" if "k < 0" for k z
    using that by (simp add: show_int_def)
  have pos: "show_int k @ z = show_nat (nat k) @ z" if "\<not> k < 0" for k z
    using that by (simp add: show_int_def)
  show ?thesis
  proof (cases "i < 0")
    case True
    then have "j < 0" using assms(1) neg [of i r] pos [of j q] show_nat_not_minus by metis
    then have "show_nat (nat (- i)) @ r = show_nat (nat (- j)) @ q"
      using assms(1) neg [OF True] neg [of j q] by simp
    then have "nat (- i) = nat (- j) \<and> r = q"
      by (rule show_nat_unambiguous [OF _ assms(2,3)])
    then show ?thesis using True \<open>j < 0\<close> by (simp add: eq_nat_nat_iff)
  next
    case False
    then have "\<not> j < 0" using assms(1) pos [of i r] neg [of j q] show_nat_not_minus by metis
    then have "show_nat (nat i) @ r = show_nat (nat j) @ q"
      using assms(1) pos [OF False] pos [of j q] by simp
    then have "nat i = nat j \<and> r = q"
      by (rule show_nat_unambiguous [OF _ assms(2,3)])
    then show ?thesis using False \<open>\<not> j < 0\<close> by (simp add: eq_nat_nat_iff)
  qed
qed

text \<open>Values.\<close>

lemma join_first: "js_join s (x # xs) = x @ concat (map (\<lambda>y. s @ y) xs)"
proof (induction xs arbitrary: x)
  case Nil
  then show ?case by simp
next
  case (Cons y ys)
  then show ?case by simp
qed

lemma delimited_after [simp]:
  "delimited (CHR '','' # r)" "delimited (CHR '']'' # r)" "delimited (CHR ''}'' # r)"
  by (simp_all add: delimited_def is_digit_def)

text \<open>A comma separated list of texts that are each unambiguous before a delimiter is unambiguous
  before its closing bracket.\<close>

lemma tail_unambiguous:
  assumes "\<And>x y r q. x \<in> set xs \<Longrightarrow> f x @ r = f y @ q \<Longrightarrow> delimited r \<Longrightarrow> delimited q \<Longrightarrow> x = y \<and> r = q"
    and "b \<noteq> CHR '',''" "\<And>r. delimited (b # r)"
    and "concat (map (\<lambda>x. '','' @ f x) xs) @ b # r = concat (map (\<lambda>x. '','' @ f x) ys) @ b # q"
  shows "xs = ys \<and> r = q"
  using assms(1,4)
proof (induction xs arbitrary: ys)
  case Nil
  then show ?case using assms(2) by (cases ys) auto
next
  case (Cons x xs)
  show ?case
  proof (cases ys)
    case Nil
    then show ?thesis using Cons.prems(2) assms(2) by simp
  next
    case (Cons y zs)
    have del: "delimited (concat (map (\<lambda>x. '','' @ f x) us) @ b # z)" for us z
      using assms(3) by (cases us) simp_all
    have "f x @ concat (map (\<lambda>x. '','' @ f x) xs) @ b # r = f y @ concat (map (\<lambda>x. '','' @ f x) zs) @ b # q"
      using Cons.prems(2) Cons by simp
    then have "x = y \<and> concat (map (\<lambda>x. '','' @ f x) xs) @ b # r = concat (map (\<lambda>x. '','' @ f x) zs) @ b # q"
      using Cons.prems(1) [of x] del by (meson list.set_intros(1))
    then have eq: "x = y" "concat (map (\<lambda>x. '','' @ f x) xs) @ b # r = concat (map (\<lambda>x. '','' @ f x) zs) @ b # q"
      by blast+
    have "xs = zs \<and> r = q"
      by (rule Cons.IH [OF Cons.prems(1) eq(2)]) simp_all
    then show ?thesis using eq(1) Cons by simp
  qed
qed

lemma joined_unambiguous:
  assumes "\<And>x y r q. x \<in> set xs \<Longrightarrow> f x @ r = f y @ q \<Longrightarrow> delimited r \<Longrightarrow> delimited q \<Longrightarrow> x = y \<and> r = q"
    and "b \<noteq> CHR '',''" "\<And>r. delimited (b # r)" "\<And>x. f x \<noteq> [] \<and> hd (f x) \<noteq> b"
    and "js_join '','' (map f xs) @ b # r = js_join '','' (map f ys) @ b # q"
  shows "xs = ys \<and> r = q"
proof (cases xs)
  case Nil
  then show ?thesis
    using assms(4) [of "hd ys"] assms(5) by (cases ys; cases "f (hd ys)") (auto simp: join_first)
next
  case (Cons x zs)
  have del: "delimited (concat (map (\<lambda>x. '','' @ f x) us) @ b # z)" for us z
    using assms(3) by (cases us) simp_all
  obtain y ws where ys: "ys = y # ws"
    using assms(4) [of x] assms(5) Cons by (cases ys; cases "f x") (auto simp: join_first)
  have "f x @ concat (map (\<lambda>x. '','' @ f x) zs) @ b # r = f y @ concat (map (\<lambda>x. '','' @ f x) ws) @ b # q"
    using assms(5) by (simp add: Cons ys join_first comp_def)
  then have "x = y \<and> concat (map (\<lambda>x. '','' @ f x) zs) @ b # r = concat (map (\<lambda>x. '','' @ f x) ws) @ b # q"
    using assms(1) [of x] del Cons by (meson list.set_intros(1))
  then show ?thesis
    using tail_unambiguous [of zs f b r ws q] assms(1-3) Cons ys by auto
qed

text \<open>The first character tells the kind of value.\<close>

definition kind_of :: "char \<Rightarrow> char" where
  "kind_of c = (if is_digit c \<or> c = CHR ''-'' then CHR ''0'' else c)"

definition json_kind :: "json \<Rightarrow> char" where
  "json_kind j = (case j of JNull \<Rightarrow> CHR ''n'' | JBool b \<Rightarrow> if b then CHR ''t'' else CHR ''f''
     | JNum i \<Rightarrow> CHR ''0'' | JStr s \<Rightarrow> CHR 0x22 | JArr xs \<Rightarrow> CHR ''['' | JObj ms \<Rightarrow> CHR ''{'')"

lemma show_int_head: "show_int i \<noteq> [] \<and> kind_of (hd (show_int i)) = CHR ''0''"
proof (cases "i < 0")
  case True
  then show ?thesis by (simp add: show_int_def kind_of_def)
next
  case False
  then show ?thesis
    using show_nat_digits [of "nat i"] by (cases "show_nat (nat i)") (simp_all add: show_int_def kind_of_def)
qed

lemma stringify_head: "stringify j \<noteq> [] \<and> kind_of (hd (stringify j)) = json_kind j"
  using show_int_head
  by (cases j) (simp_all add: json_kind_def quote_json_def kind_of_def is_digit_def)

lemma stringify_same_kind: "stringify i @ r = stringify j @ q \<Longrightarrow> json_kind i = json_kind j"
  using stringify_head [of i] stringify_head [of j] by (metis hd_append)

lemma stringify_head_not: "kind_of b \<notin> range json_kind \<Longrightarrow> stringify j \<noteq> [] \<and> hd (stringify j) \<noteq> b"
  using stringify_head [of j] by auto

lemma closers: "kind_of CHR '']'' \<notin> range json_kind"
  by (auto simp: kind_of_def is_digit_def json_kind_def split: json.splits if_splits)

lemma stringify_unambiguous:
  "stringify i @ r = stringify j @ q \<Longrightarrow> delimited r \<Longrightarrow> delimited q \<Longrightarrow> i = j \<and> r = q"
proof (induction i arbitrary: j r q rule: stringify.induct)
  case 1
  then show ?case using stringify_same_kind [OF 1(1)]
    by (cases j) (auto simp: json_kind_def split: if_splits)
next
  case (2 b)
  then show ?case using stringify_same_kind [OF 2(1)]
    by (cases j) (auto simp: json_kind_def split: if_splits)
next
  case (3 n)
  obtain k where "j = JNum k" using stringify_same_kind [OF 3(1)]
    by (cases j) (auto simp: json_kind_def split: if_splits)
  then show ?case using show_int_unambiguous [of n r k q] 3 by simp
next
  case (4 s)
  obtain t where "j = JStr t" using stringify_same_kind [OF 4(1)]
    by (cases j) (auto simp: json_kind_def split: if_splits)
  then show ?case using quote_unambiguous [of s r t q] 4 by simp
next
  case (5 xs)
  obtain ys where j: "j = JArr ys" using stringify_same_kind [OF 5(2)]
    by (cases j) (auto simp: json_kind_def split: if_splits)
  have "xs = ys \<and> r = q"
  proof (rule joined_unambiguous [of xs stringify "CHR '']''" r ys q])
    show "js_join '','' (map stringify xs) @ CHR '']'' # r = js_join '','' (map stringify ys) @ CHR '']'' # q"
      using 5(2) j by simp
    show "stringify y \<noteq> [] \<and> hd (stringify y) \<noteq> CHR '']''" for y
      by (rule stringify_head_not [OF closers])
  qed (fact 5(1) | simp)+
  then show ?case using j by simp
next
  case (6 ms)
  let ?f = "\<lambda>m. quote_json (fst m) @ '':'' @ stringify (snd m)"
  obtain ns where j: "j = JObj ns" using stringify_same_kind [OF 6(2)]
    by (cases j) (auto simp: json_kind_def split: if_splits)
  have member: "x = y \<and> r = q"
    if "x \<in> set ms" "?f x @ r = ?f y @ q" "delimited r" "delimited q" for x y r q
  proof -
    have "fst x = fst y \<and> '':'' @ stringify (snd x) @ r = '':'' @ stringify (snd y) @ q"
      using quote_unambiguous [of "fst x" "'':'' @ stringify (snd x) @ r" "fst y"] that(2) by simp
    then show ?thesis using 6(1) [OF that(1) _ that(3,4), of "snd y"] by (simp add: prod_eq_iff)
  qed
  have "ms = ns \<and> r = q"
  proof (rule joined_unambiguous [of ms ?f "CHR ''}''" r ns q])
    show "js_join '','' (map ?f ms) @ CHR ''}'' # r = js_join '','' (map ?f ns) @ CHR ''}'' # q"
      using 6(2) j by simp
    show "?f m \<noteq> [] \<and> hd (?f m) \<noteq> CHR ''}''" for m by (simp add: quote_json_def)
  qed (fact member | simp)+
  then show ?case using j by simp
qed

lemma stringify_inj: "stringify i = stringify j \<longleftrightarrow> i = j"
  using stringify_unambiguous [of i "[]" j "[]"] by (auto simp: delimited_def)

end
