(* ===== verification/Regex.thy ===== *)
theory Regex
  imports Prelude
begin

text \<open>
  The part of the JavaScript regular expressions the sources use: a parser for the pattern syntax, so
  that a component can state a pattern as its source has it, and the backtracking matcher. A HOL string
  literal cannot hold a backslash; in the patterns of this development \<open>~\<close> stands for it, and \<open>~~\<close> for a tilde. A position in the subject is the pair of the characters before it (the nearest first)
  and the characters after it. \<open>rx_ends\<close> lists the positions where a match may end, in the order in which
  the backtracking matcher of the language tries them, so that the first of them is the one \<open>exec\<close> takes.
  Capturing groups group; what they capture is not kept.
\<close>

section \<open>Patterns and flags\<close>

datatype class_item = Range char char | Digits bool | WordChars bool | Spaces bool

datatype regex =
    Empty
  | NotNewline
  | Class bool "class_item list"
  | InputStart
  | InputEnd
  | Boundary bool
  | Seq regex regex
  | Alt regex regex
  | Repeat nat "nat option" bool regex
  | Look bool regex

record rx_flags =
  ignore_case :: bool
  multiline :: bool

section \<open>Reading a pattern\<close>

definition escape_sign :: char where
  "escape_sign = CHR ''~''"

definition is_digit_char :: "char \<Rightarrow> bool" where
  "is_digit_char c = (let n = of_char c :: nat in 48 \<le> n \<and> n \<le> 57)"

definition is_word_char :: "char \<Rightarrow> bool" where
  "is_word_char c = (let n = of_char c :: nat in
     65 \<le> n \<and> n \<le> 90 \<or> 97 \<le> n \<and> n \<le> 122 \<or> 48 \<le> n \<and> n \<le> 57 \<or> n = 95)"

fun read_number :: "nat \<Rightarrow> string \<Rightarrow> nat \<times> string" where
  "read_number acc [] = (acc, [])"
| "read_number acc (c # cs) =
     (if is_digit_char c then read_number (acc * 10 + (of_char c - 48)) cs else (acc, c # cs))"

text \<open>The set an escape names, inside and outside a class.\<close>

definition class_escape :: "char \<Rightarrow> class_item" where
  "class_escape c =
     (if c = CHR ''d'' then Digits True else if c = CHR ''D'' then Digits False
      else if c = CHR ''w'' then WordChars True else if c = CHR ''W'' then WordChars False
      else if c = CHR ''s'' then Spaces True else if c = CHR ''S'' then Spaces False
      else if c = CHR ''n'' then Range (CHR 0x0A) (CHR 0x0A)
      else if c = CHR ''r'' then Range (CHR 0x0D) (CHR 0x0D)
      else if c = CHR ''t'' then Range (CHR 0x09) (CHR 0x09)
      else Range c c)"

text \<open>The items of a class up to its closing bracket.\<close>

fun read_items :: "string \<Rightarrow> (class_item list \<times> string) option" where
  "read_items [] = None"
| "read_items (c # cs) =
     (if c = CHR '']'' then Some ([], cs)
      else if c = escape_sign then
        (case cs of [] \<Rightarrow> None
         | d # ds \<Rightarrow> map_option (\<lambda>(items, rest). (class_escape d # items, rest)) (read_items ds))
      else case cs of
        d # e # es \<Rightarrow>
          if d = CHR ''-'' \<and> e \<noteq> CHR '']'' \<and> e \<noteq> escape_sign
          then map_option (\<lambda>(items, rest). (Range c e # items, rest)) (read_items es)
          else map_option (\<lambda>(items, rest). (Range c c # items, rest)) (read_items cs)
      | _ \<Rightarrow> map_option (\<lambda>(items, rest). (Range c c # items, rest)) (read_items cs))"

definition read_class :: "string \<Rightarrow> (regex \<times> string) option" where
  "read_class s = (case s of
      c # cs \<Rightarrow> if c = CHR ''^'' then map_option (\<lambda>(items, rest). (Class True items, rest)) (read_items cs)
              else map_option (\<lambda>(items, rest). (Class False items, rest)) (read_items s)
    | [] \<Rightarrow> None)"

definition escaped_atom :: "char \<Rightarrow> regex" where
  "escaped_atom c =
     (if c = CHR ''b'' then Boundary True else if c = CHR ''B'' then Boundary False
      else Class False [class_escape c])"

text \<open>A quantifier after an atom, with the \<open>?\<close> that makes it lazy.\<close>

definition lazy_mark :: "(bool \<Rightarrow> regex) \<Rightarrow> string \<Rightarrow> regex \<times> string" where
  "lazy_mark mk s = (case s of
      c # cs \<Rightarrow> if c = CHR ''?'' then (mk False, cs) else (mk True, s)
    | [] \<Rightarrow> (mk True, s))"

definition read_bounds :: "regex \<Rightarrow> string \<Rightarrow> (regex \<times> string) option" where
  "read_bounds r s = (let (lo, s1) = read_number 0 s in
     case s1 of
       c # cs \<Rightarrow>
         if c = CHR ''}'' then Some (lazy_mark (\<lambda>g. Repeat lo (Some lo) g r) cs)
         else if c = CHR '','' then
           (case cs of
              d # ds \<Rightarrow>
                if d = CHR ''}'' then Some (lazy_mark (\<lambda>g. Repeat lo None g r) ds)
                else (let (hi, s2) = read_number 0 cs in
                  case s2 of e # es \<Rightarrow> if e = CHR ''}'' then Some (lazy_mark (\<lambda>g. Repeat lo (Some hi) g r) es) else None
                  | [] \<Rightarrow> None)
            | [] \<Rightarrow> None)
         else None
     | [] \<Rightarrow> None)"

definition read_quantifier :: "regex \<Rightarrow> string \<Rightarrow> (regex \<times> string) option" where
  "read_quantifier r s = (case s of
      [] \<Rightarrow> Some (r, s)
    | c # cs \<Rightarrow>
        if c = CHR ''*'' then Some (lazy_mark (\<lambda>g. Repeat 0 None g r) cs)
        else if c = CHR ''+'' then Some (lazy_mark (\<lambda>g. Repeat 1 None g r) cs)
        else if c = CHR ''?'' then Some (lazy_mark (\<lambda>g. Repeat 0 (Some 1) g r) cs)
        else if c = CHR ''{'' then read_bounds r cs
        else Some (r, s))"

definition close_group :: "(regex \<Rightarrow> regex) \<Rightarrow> (regex \<times> string) option \<Rightarrow> (regex \<times> string) option" where
  "close_group f p = (case p of
      Some (r, c # cs) \<Rightarrow> if c = CHR '')'' then Some (f r, cs) else None
    | _ \<Rightarrow> None)"

text \<open>Disjunction, term sequence and atom. The first argument bounds the nesting of the calls; the length of
  the pattern is more than enough, and a pattern the parser rejects is \<open>None\<close>.\<close>

fun read_alts :: "nat \<Rightarrow> string \<Rightarrow> (regex \<times> string) option"
and read_seq :: "nat \<Rightarrow> string \<Rightarrow> (regex \<times> string) option"
and read_atom :: "nat \<Rightarrow> string \<Rightarrow> (regex \<times> string) option" where
  "read_alts 0 s = None"
| "read_alts (Suc n) s = (case read_seq n s of
      Some (r, c # cs) \<Rightarrow>
        if c = CHR ''|'' then map_option (\<lambda>(q, rest). (Alt r q, rest)) (read_alts n cs) else Some (r, c # cs)
    | p \<Rightarrow> p)"
| "read_seq 0 s = None"
| "read_seq (Suc n) s = (case s of
      [] \<Rightarrow> Some (Empty, [])
    | c # cs \<Rightarrow>
        if c = CHR '')'' \<or> c = CHR ''|'' then Some (Empty, s)
        else case read_atom n s of None \<Rightarrow> None
          | Some (a, s1) \<Rightarrow>
              (case read_quantifier a s1 of None \<Rightarrow> None
               | Some (q, s2) \<Rightarrow> map_option (\<lambda>(r, rest). (Seq q r, rest)) (read_seq n s2)))"
| "read_atom 0 s = None"
| "read_atom (Suc n) s = (case s of
      [] \<Rightarrow> None
    | c # cs \<Rightarrow>
        if c = CHR ''('' then
          (if starts_with cs ''?:'' then close_group (\<lambda>r. r) (read_alts n (drop 2 cs))
           else if starts_with cs ''?='' then close_group (Look True) (read_alts n (drop 2 cs))
           else if starts_with cs ''?!'' then close_group (Look False) (read_alts n (drop 2 cs))
           else close_group (\<lambda>r. r) (read_alts n cs))
        else if c = CHR ''['' then read_class cs
        else if c = CHR ''.'' then Some (NotNewline, cs)
        else if c = CHR ''^'' then Some (InputStart, cs)
        else if c = CHR ''$'' then Some (InputEnd, cs)
        else if c = escape_sign then (case cs of [] \<Rightarrow> None | d # ds \<Rightarrow> Some (escaped_atom d, ds))
        else if c \<in> {CHR ''*'', CHR ''+'', CHR ''?''} then None
        else Some (Class False [Range c c], cs))"

definition parse_regex :: "string \<Rightarrow> regex option" where
  "parse_regex s = (case read_alts (2 * length s + 3) s of Some (r, []) \<Rightarrow> Some r | _ \<Rightarrow> None)"

definition regex_of :: "string \<Rightarrow> regex" where
  "regex_of s = (case parse_regex s of Some r \<Rightarrow> r | None \<Rightarrow> Class False [])"

section \<open>Matching\<close>

type_synonym position = "string \<times> string"

text \<open>Under the \<open>i\<close> flag two characters are the same when they fold to the same character.\<close>

definition upper_char :: "char \<Rightarrow> char" where
  "upper_char c = (let n = of_char c :: nat in
     if 97 \<le> n \<and> n \<le> 122 \<or> 224 \<le> n \<and> n \<le> 254 \<and> n \<noteq> 247 then char_of (n - 32) else c)"

fun in_item :: "char \<Rightarrow> class_item \<Rightarrow> bool" where
  "in_item c (Range a b) = (of_char a \<le> (of_char c :: nat) \<and> (of_char c :: nat) \<le> of_char b)"
| "in_item c (Digits p) = (is_digit_char c = p)"
| "in_item c (WordChars p) = (is_word_char c = p)"
| "in_item c (Spaces p) = (is_space c = p)"

definition in_class :: "rx_flags \<Rightarrow> class_item list \<Rightarrow> char \<Rightarrow> bool" where
  "in_class fl items c =
     (list_ex (in_item c) items \<or>
      ignore_case fl \<and> (list_ex (in_item (lower_char c)) items \<or> list_ex (in_item (upper_char c)) items))"

definition is_line_end :: "char \<Rightarrow> bool" where
  "is_line_end c = (c = CHR 0x0A \<or> c = CHR 0x0D)"

definition word_at :: "string \<Rightarrow> bool" where
  "word_at s = (case s of [] \<Rightarrow> False | c # cs \<Rightarrow> is_word_char c)"

definition at_boundary :: "position \<Rightarrow> bool" where
  "at_boundary p = (word_at (fst p) \<noteq> word_at (snd p))"

definition line_edge :: "rx_flags \<Rightarrow> string \<Rightarrow> bool" where
  "line_edge fl s = (case s of [] \<Rightarrow> True | c # cs \<Rightarrow> multiline fl \<and> is_line_end c)"

definition eat :: "(char \<Rightarrow> bool) \<Rightarrow> position \<Rightarrow> position list" where
  "eat P p = (case snd p of [] \<Rightarrow> [] | c # cs \<Rightarrow> if P c then [(c # fst p, cs)] else [])"

text \<open>The rounds a repetition must make, and those it may make: an optional round that consumes nothing fails.\<close>

fun forced_rounds :: "(position \<Rightarrow> position list) \<Rightarrow> nat \<Rightarrow> position \<Rightarrow> position list" where
  "forced_rounds f 0 p = [p]"
| "forced_rounds f (Suc n) p = concat (map (forced_rounds f n) (f p))"

fun optional_rounds :: "(position \<Rightarrow> position list) \<Rightarrow> bool \<Rightarrow> nat \<Rightarrow> position \<Rightarrow> position list" where
  "optional_rounds f greedy 0 p = [p]"
| "optional_rounds f greedy (Suc n) p =
     (let more = concat (map (optional_rounds f greedy n)
                   (filter (\<lambda>q. length (snd q) < length (snd p)) (f p)))
      in if greedy then more @ [p] else p # more)"

fun rx_ends :: "rx_flags \<Rightarrow> regex \<Rightarrow> position \<Rightarrow> position list" where
  "rx_ends fl Empty p = [p]"
| "rx_ends fl NotNewline p = eat (\<lambda>c. \<not> is_line_end c) p"
| "rx_ends fl (Class neg items) p = eat (\<lambda>c. in_class fl items c \<noteq> neg) p"
| "rx_ends fl InputStart p = (if line_edge fl (fst p) then [p] else [])"
| "rx_ends fl InputEnd p = (if line_edge fl (snd p) then [p] else [])"
| "rx_ends fl (Boundary b) p = (if at_boundary p = b then [p] else [])"
| "rx_ends fl (Seq a b) p = concat (map (rx_ends fl b) (rx_ends fl a p))"
| "rx_ends fl (Alt a b) p = rx_ends fl a p @ rx_ends fl b p"
| "rx_ends fl (Repeat lo hi greedy a) p =
     concat (map (\<lambda>q. optional_rounds (rx_ends fl a) greedy
                        (case hi of None \<Rightarrow> length (snd q) | Some h \<Rightarrow> h - lo) q)
       (forced_rounds (rx_ends fl a) lo p))"
| "rx_ends fl (Look b a) p = (if (rx_ends fl a p \<noteq> []) = b then [p] else [])"

text \<open>\<open>exec\<close>: the text before the leftmost match, the matched text and the text after it.\<close>

fun exec_from :: "rx_flags \<Rightarrow> regex \<Rightarrow> string \<Rightarrow> string \<Rightarrow> (position \<times> position) option" where
  "exec_from fl r before [] = (case rx_ends fl r (before, []) of [] \<Rightarrow> None | q # qs \<Rightarrow> Some ((before, []), q))"
| "exec_from fl r before (c # cs) =
     (case rx_ends fl r (before, c # cs) of
        [] \<Rightarrow> exec_from fl r (c # before) cs
      | q # qs \<Rightarrow> Some ((before, c # cs), q))"

definition matched_text :: "position \<times> position \<Rightarrow> string" where
  "matched_text m = take (length (snd (fst m)) - length (snd (snd m))) (snd (fst m))"

definition rx_exec :: "rx_flags \<Rightarrow> string \<Rightarrow> string \<Rightarrow> string option" where
  "rx_exec fl pat s = map_option matched_text (exec_from fl (regex_of pat) [] s)"

definition rx_test :: "rx_flags \<Rightarrow> string \<Rightarrow> string \<Rightarrow> bool" where
  "rx_test fl pat s = (exec_from fl (regex_of pat) [] s \<noteq> None)"

text \<open>\<open>match\<close> with the \<open>g\<close> flag: all matches from left to right, each search starting where the last match ended,
  or one character later when it was empty.\<close>

fun all_from :: "nat \<Rightarrow> rx_flags \<Rightarrow> regex \<Rightarrow> position \<Rightarrow> string list" where
  "all_from 0 fl r p = []"
| "all_from (Suc n) fl r p =
     (case exec_from fl r (fst p) (snd p) of
        None \<Rightarrow> []
      | Some m \<Rightarrow>
          let next = (if snd (fst m) \<noteq> snd (snd m) then snd m
                      else (case snd (snd m) of [] \<Rightarrow> snd m | c # cs \<Rightarrow> (c # fst (snd m), cs)))
          in matched_text m #
             (if snd next = snd (fst m) then [] else all_from n fl r next))"

definition rx_all :: "rx_flags \<Rightarrow> string \<Rightarrow> string \<Rightarrow> string list" where
  "rx_all fl pat s = all_from (Suc (length s)) fl (regex_of pat) ([], s)"

text \<open>\<open>replace\<close> with the \<open>g\<close> flag and a replacement without dollar signs.\<close>

fun replace_from :: "nat \<Rightarrow> rx_flags \<Rightarrow> regex \<Rightarrow> string \<Rightarrow> position \<Rightarrow> string" where
  "replace_from 0 fl r rep p = snd p"
| "replace_from (Suc n) fl r rep p =
     (case exec_from fl r (fst p) (snd p) of
        None \<Rightarrow> snd p
      | Some m \<Rightarrow>
          let gap = take (length (snd p) - length (snd (fst m))) (snd p) in
          gap @ rep @
            (if snd (fst m) \<noteq> snd (snd m) then replace_from n fl r rep (snd m)
             else (case snd (snd m) of [] \<Rightarrow> []
                   | c # cs \<Rightarrow> c # replace_from n fl r rep (c # fst (snd m), cs))))"

definition rx_replace_all :: "rx_flags \<Rightarrow> string \<Rightarrow> string \<Rightarrow> string \<Rightarrow> string" where
  "rx_replace_all fl pat rep s = replace_from (Suc (length s)) fl (regex_of pat) rep ([], s)"

text \<open>\<open>replace(re, "")\<close> without the \<open>g\<close> flag, and the text from the index \<open>search\<close> returns.\<close>

definition rx_delete :: "rx_flags \<Rightarrow> string \<Rightarrow> string \<Rightarrow> string" where
  "rx_delete fl pat s = (case exec_from fl (regex_of pat) [] s of
      None \<Rightarrow> s
    | Some m \<Rightarrow> rev (fst (fst m)) @ snd (snd m))"

definition rx_search :: "rx_flags \<Rightarrow> string \<Rightarrow> string \<Rightarrow> string option" where
  "rx_search fl pat s = map_option (\<lambda>m. snd (fst m)) (exec_from fl (regex_of pat) [] s)"

text \<open>The first capture of a pattern \<open>a(b)c\<close>, in the order of the backtracking matcher.\<close>

fun capture_from :: "rx_flags \<Rightarrow> regex \<Rightarrow> regex \<Rightarrow> regex \<Rightarrow> string \<Rightarrow> string \<Rightarrow> string option" where
  "capture_from fl a b c before s =
     (case concat (map (\<lambda>p. map (\<lambda>q. (p, q)) (filter (\<lambda>q. rx_ends fl c q \<noteq> []) (rx_ends fl b p)))
             (rx_ends fl a (before, s))) of
        m # ms \<Rightarrow> Some (matched_text m)
      | [] \<Rightarrow> (case s of [] \<Rightarrow> None | d # ds \<Rightarrow> capture_from fl a b c (d # before) ds))"

definition rx_capture :: "rx_flags \<Rightarrow> string \<Rightarrow> string \<Rightarrow> string \<Rightarrow> string \<Rightarrow> string option" where
  "rx_capture fl a b c s = capture_from fl (regex_of a) (regex_of b) (regex_of c) [] s"

text \<open>Escaping a text for a pattern: \<open>replace(/[.*+?^${}()|[\]\\]/g, "\\$&")\<close>, in the notation of this theory.\<close>

definition escape_regex :: "string \<Rightarrow> string" where
  "escape_regex s = concat (map (\<lambda>c. if c \<in> set ''.*+?^${}()|[]~'' \<or> c = CHR 0x5C then [escape_sign, c] else [c]) s)"

abbreviation flag_i :: rx_flags where
  "flag_i \<equiv> \<lparr>ignore_case = True, multiline = False\<rparr>"

abbreviation flag_im :: rx_flags where
  "flag_im \<equiv> \<lparr>ignore_case = True, multiline = True\<rparr>"

abbreviation flag_none :: rx_flags where
  "flag_none \<equiv> \<lparr>ignore_case = False, multiline = False\<rparr>"

section \<open>What a pattern matches\<close>

text \<open>The relation a pattern denotes, without any order or bound on the search, and its agreement with the
  backtracking matcher.\<close>

fun rx_rel :: "rx_flags \<Rightarrow> regex \<Rightarrow> (position \<times> position) set" where
  "rx_rel fl Empty = Id"
| "rx_rel fl NotNewline = {(p, q). \<exists>c cs. p = (fst p, c # cs) \<and> q = (c # fst p, cs) \<and> \<not> is_line_end c}"
| "rx_rel fl (Class neg items) =
     {(p, q). \<exists>c cs. p = (fst p, c # cs) \<and> q = (c # fst p, cs) \<and> in_class fl items c \<noteq> neg}"
| "rx_rel fl InputStart = {(p, q). q = p \<and> line_edge fl (fst p)}"
| "rx_rel fl InputEnd = {(p, q). q = p \<and> line_edge fl (snd p)}"
| "rx_rel fl (Boundary b) = {(p, q). q = p \<and> at_boundary p = b}"
| "rx_rel fl (Seq a b) = rx_rel fl a O rx_rel fl b"
| "rx_rel fl (Alt a b) = rx_rel fl a \<union> rx_rel fl b"
| "rx_rel fl (Repeat lo hi greedy a) =
     (rx_rel fl a ^^ lo) O (case hi of None \<Rightarrow> (rx_rel fl a)\<^sup>* | Some h \<Rightarrow> (\<Union>k\<le>h - lo. rx_rel fl a ^^ k))"
| "rx_rel fl (Look b a) = {(p, q). q = p \<and> (p \<in> Domain (rx_rel fl a)) = b}"

definition advances :: "position \<Rightarrow> position \<Rightarrow> bool" where
  "advances p q = (\<exists>w. snd p = w @ snd q \<and> fst q = rev w @ fst p)"

lemma advances_refl [simp, intro]: "advances p p"
  by (simp add: advances_def)

lemma advances_trans: "advances p q \<Longrightarrow> advances q r \<Longrightarrow> advances p r"
  unfolding advances_def by (metis append.assoc rev_append)

lemma advances_shorter: "advances p q \<Longrightarrow> q = p \<or> length (snd q) < length (snd p)"
  by (cases p; cases q) (auto simp: advances_def)

lemma eat_mem: "q \<in> set (eat P p) \<longleftrightarrow> (\<exists>c cs. p = (fst p, c # cs) \<and> q = (c # fst p, cs) \<and> P c)"
  by (cases p) (auto simp: eat_def split: list.splits if_splits)

lemma forced_rounds_mem:
  assumes "\<And>p q. q \<in> set (f p) \<longleftrightarrow> (p, q) \<in> R"
  shows "q \<in> set (forced_rounds f n p) \<longleftrightarrow> (p, q) \<in> R ^^ n"
proof (induction n arbitrary: p)
  case (Suc n)
  have "q \<in> set (forced_rounds f (Suc n) p) \<longleftrightarrow> (\<exists>s. (p, s) \<in> R \<and> (s, q) \<in> R ^^ n)"
    by (simp add: Suc.IH assms Bex_def del: split_paired_Ex)
  also have "\<dots> \<longleftrightarrow> (p, q) \<in> R ^^ Suc n"
    by (blast intro: relpow_Suc_I2 dest: relpow_Suc_D2)
  finally show ?case .
qed auto

lemma optional_rounds_sound:
  assumes "\<And>p q. q \<in> set (f p) \<longleftrightarrow> (p, q) \<in> R"
  shows "q \<in> set (optional_rounds f g n p) \<Longrightarrow> \<exists>k\<le>n. (p, q) \<in> R ^^ k"
proof (induction n arbitrary: p)
  case (Suc n)
  then consider "q = p" | p' where "(p, p') \<in> R" "q \<in> set (optional_rounds f g n p')"
    by (auto simp: Let_def assms split: if_splits)
  then show ?case
  proof cases
    case 2
    from Suc.IH [OF 2(2)] obtain k where "k \<le> n" "(p', q) \<in> R ^^ k" by blast
    then have "Suc k \<le> Suc n" "(p, q) \<in> R ^^ Suc k" using 2(1) by (simp, blast intro: relpow_Suc_I2)
    then show ?thesis by blast
  qed (auto intro: exI [of _ 0])
qed auto

lemma optional_rounds_step:
  assumes "q \<in> set (f p)" "length (snd q) < length (snd p)" "r \<in> set (optional_rounds f g n q)"
  shows "r \<in> set (optional_rounds f g (Suc n) p)"
proof -
  have "r \<in> (\<Union>q\<in>{q \<in> set (f p). length (snd q) < length (snd p)}. set (optional_rounds f g n q))"
    using assms by blast
  then show ?thesis by (cases g) (simp_all add: Let_def)
qed

lemma optional_rounds_start [simp]: "p \<in> set (optional_rounds f g n p)"
  by (cases n) (simp_all add: Let_def)

lemma optional_rounds_bounded:
  assumes "\<And>p q. q \<in> set (f p) \<longleftrightarrow> (p, q) \<in> R" "\<And>p q. (p, q) \<in> R \<Longrightarrow> advances p q"
  shows "(p, q) \<in> R ^^ k \<Longrightarrow> k \<le> n \<Longrightarrow> q \<in> set (optional_rounds f g n p)"
proof (induction k arbitrary: p n)
  case (Suc k)
  from Suc.prems(1) obtain p' where p': "(p, p') \<in> R" "(p', q) \<in> R ^^ k"
    by (blast dest: relpow_Suc_D2)
  from Suc.prems(2) obtain m where m: "n = Suc m" "k \<le> m" by (cases n) auto
  from advances_shorter [OF assms(2) [OF p'(1)]] show ?case
  proof
    assume "p' = p" then show ?thesis using Suc.IH [OF p'(2)] Suc.prems(2) by simp
  next
    assume "length (snd p') < length (snd p)"
    then show ?thesis
      unfolding m(1) using Suc.IH [OF p'(2) m(2)] p'(1) by (intro optional_rounds_step) (simp_all add: assms(1))
  qed
qed auto

lemma optional_rounds_unbounded:
  assumes "\<And>p q. q \<in> set (f p) \<longleftrightarrow> (p, q) \<in> R" "\<And>p q. (p, q) \<in> R \<Longrightarrow> advances p q"
  shows "(p, q) \<in> R\<^sup>* \<Longrightarrow> length (snd p) \<le> n \<Longrightarrow> q \<in> set (optional_rounds f g n p)"
proof (induction arbitrary: n rule: converse_rtrancl_induct)
  case (step p p')
  from advances_shorter [OF assms(2) [OF step.hyps(1)]] show ?case
  proof
    assume "p' = p" then show ?thesis using step.IH step.prems by simp
  next
    assume less: "length (snd p') < length (snd p)"
    then obtain m where m: "n = Suc m" "length (snd p') \<le> m" using step.prems by (cases n) auto
    show ?thesis
      unfolding m(1) using step.IH [OF m(2)] step.hyps(1) less
      by (intro optional_rounds_step) (simp_all add: assms(1))
  qed
qed simp

lemma rx_rel_advances: "(p, q) \<in> rx_rel fl r \<Longrightarrow> advances p q"
proof (induction r arbitrary: p q)
  case (Repeat lo hi greedy a)
  have star: "advances p q" if "(p, q) \<in> (rx_rel fl a)\<^sup>*" for p q
    using that by induction (auto intro: advances_trans Repeat.IH)
  from Repeat.prems have "(p, q) \<in> (rx_rel fl a)\<^sup>*"
    by (auto split: option.splits dest!: relpow_imp_rtrancl intro: rtrancl_trans)
  then show ?case by (rule star)
next
  case (Seq a b)
  from Seq.prems obtain s where "(p, s) \<in> rx_rel fl a" "(s, q) \<in> rx_rel fl b" by auto
  then show ?case using Seq.IH advances_trans by blast
next
  case (Alt a b)
  from Alt.prems have "(p, q) \<in> rx_rel fl a \<or> (p, q) \<in> rx_rel fl b" by simp
  then show ?case using Alt.IH by blast
qed (auto simp: advances_def)

lemma rx_ends_exact: "q \<in> set (rx_ends fl r p) \<longleftrightarrow> (p, q) \<in> rx_rel fl r"
proof (induction r arbitrary: p q)
  case (Repeat lo hi greedy a)
  let ?R = "rx_rel fl a"
  have forced: "s \<in> set (forced_rounds (rx_ends fl a) lo p) \<longleftrightarrow> (p, s) \<in> ?R ^^ lo" for s
    by (rule forced_rounds_mem) (rule Repeat.IH)
  have adv: "\<And>p q. (p, q) \<in> ?R \<Longrightarrow> advances p q" by (rule rx_rel_advances)
  have some: "q \<in> set (optional_rounds (rx_ends fl a) greedy n s) \<longleftrightarrow> (\<exists>k\<le>n. (s, q) \<in> ?R ^^ k)" for n s
    using optional_rounds_sound [OF Repeat.IH] optional_rounds_bounded [OF Repeat.IH adv] by blast
  have every: "q \<in> set (optional_rounds (rx_ends fl a) greedy (length (snd s)) s) \<longleftrightarrow> (s, q) \<in> ?R\<^sup>*" for s
    using optional_rounds_sound [OF Repeat.IH] relpow_imp_rtrancl
      optional_rounds_unbounded [OF Repeat.IH adv _ order_refl] by blast
  have "q \<in> set (rx_ends fl (Repeat lo hi greedy a) p) \<longleftrightarrow> (\<exists>s. (p, s) \<in> ?R ^^ lo
      \<and> q \<in> set (optional_rounds (rx_ends fl a) greedy (case hi of None \<Rightarrow> length (snd s) | Some h \<Rightarrow> h - lo) s))"
    by (simp add: Bex_def forced del: split_paired_Ex)
  also have "\<dots> \<longleftrightarrow> (p, q) \<in> rx_rel fl (Repeat lo hi greedy a)"
  proof (cases hi)
    case None
    then show ?thesis by (simp add: every relcomp_unfold del: split_paired_Ex)
  next
    case (Some h)
    then show ?thesis by (simp add: some relcomp_unfold Bex_def del: split_paired_Ex)
  qed
  finally show ?case .
next
  case (Look b a)
  have "rx_ends fl a p \<noteq> [] \<longleftrightarrow> (\<exists>s. s \<in> set (rx_ends fl a p))"
    by (cases "rx_ends fl a p") auto
  then have "rx_ends fl a p \<noteq> [] \<longleftrightarrow> p \<in> Domain (rx_rel fl a)"
    by (simp add: Domain_iff Look.IH)
  then show ?case by auto
next
  case (Seq a b)
  then show ?case by (simp add: relcomp_unfold Bex_def del: split_paired_Ex)
qed (auto simp: eat_mem)

lemma rx_ends_none: "rx_ends fl r p = [] \<longleftrightarrow> (\<forall>q. (p, q) \<notin> rx_rel fl r)"
proof -
  have "rx_ends fl r p = [] \<longleftrightarrow> (\<forall>q. q \<notin> set (rx_ends fl r p))"
    by (cases "rx_ends fl r p") auto
  then show ?thesis by (simp only: rx_ends_exact)
qed

lemma split_front:
  "(\<exists>w rest. c # cs = w @ rest \<and> P (rev w @ before) rest) \<longleftrightarrow>
     P before (c # cs) \<or> (\<exists>w rest. cs = w @ rest \<and> P (rev w @ c # before) rest)"
  (is "?whole \<longleftrightarrow> ?parts")
proof
  assume ?whole
  then obtain w rest where w: "c # cs = w @ rest" "P (rev w @ before) rest" by blast
  then show ?parts by (cases w) auto
next
  assume ?parts
  then show ?whole
  proof
    assume "P before (c # cs)"
    then show ?whole by (intro exI [of _ "[]"] exI [of _ "c # cs"]) simp
  next
    assume "\<exists>w rest. cs = w @ rest \<and> P (rev w @ c # before) rest"
    then obtain w rest where "cs = w @ rest" "P (rev w @ c # before) rest" by blast
    then show ?whole by (intro exI [of _ "c # w"] exI [of _ rest]) simp
  qed
qed

lemma exec_from_exact:
  "exec_from fl r before s \<noteq> None \<longleftrightarrow>
     (\<exists>w rest. s = w @ rest \<and> (\<exists>q. ((rev w @ before, rest), q) \<in> rx_rel fl r))"
proof (induction s arbitrary: before)
  case Nil
  have "exec_from fl r before [] \<noteq> None \<longleftrightarrow> rx_ends fl r (before, []) \<noteq> []"
    by (simp split: list.split)
  then show ?case by (simp add: rx_ends_none del: split_paired_Ex split_paired_All)
next
  case (Cons c cs)
  have "exec_from fl r before (c # cs) \<noteq> None \<longleftrightarrow>
      rx_ends fl r (before, c # cs) \<noteq> [] \<or> exec_from fl r (c # before) cs \<noteq> None"
    by (simp split: list.split)
  moreover have "rx_ends fl r (before, c # cs) \<noteq> [] \<longleftrightarrow> (\<exists>q. ((before, c # cs), q) \<in> rx_rel fl r)"
    by (simp only: rx_ends_none not_all not_not)
  ultimately show ?case
    by (simp only: split_front [where P = "\<lambda>b s. \<exists>q. ((b, s), q) \<in> rx_rel fl r"] Cons.IH)
qed

lemma rx_test_exact:
  "rx_test fl pat s \<longleftrightarrow>
     (\<exists>w rest. s = w @ rest \<and> (\<exists>q. ((rev w, rest), q) \<in> rx_rel fl (regex_of pat)))"
  unfolding rx_test_def exec_from_exact append_Nil2 by (rule refl)

end
