(* ===== verification/ChatMessages.thy ===== *)
theory ChatMessages
  imports JsonText Regex
begin

text \<open>
  Chat messages and their size: \<open>Message\<close>, \<open>ToolCall\<close> and the prompt sections of
  \<open>packages/agent/src/domain/types/agent-types.ts\<close>, the roles of \<open>domain/enums/message.ts\<close>, the token
  estimates of \<open>memory/tokens.ts\<close> and the path argument of a tool call (\<open>extractFilePath\<close> of
  \<open>memory/context-management/budget.ts\<close>). The tokenizer of the optional package \<open>tiktoken\<close> is a parameter.
  The characters-per-token factors are kept in tenths. A character outside the 8-bit range that a
  message of these modules contains (the dash, the multiplication sign) is one character, as in the source,
  so that lengths are those of the source: the dash is \<open>CHR 0x97\<close>.
\<close>

section \<open>Messages\<close>

datatype message_role = SystemRole | UserRole | AssistantRole | ToolRole

datatype prompt_section = SystemLaw | SystemAnchor | SystemRuntime | MemoryWorking | MemoryEpisodic
  | MemorySemantic | HistorySection | UserSection

record tool_call =
  tc_id :: string
  tc_name :: string
  tc_args :: "(string, json) jsmap"

record chat_message =
  cm_role :: message_role
  cm_content :: "string option"
  cm_calls :: "tool_call list option"
  cm_call_id :: "string option"
  cm_section :: "prompt_section option"
  cm_cache_hint :: bool
  cm_hint :: bool

text \<open>A message literal of the source names some of the fields; the others are absent.\<close>

definition plain_message :: "message_role \<Rightarrow> string option \<Rightarrow> chat_message" where
  "plain_message r c = \<lparr>cm_role = r, cm_content = c, cm_calls = None, cm_call_id = None, cm_section = None,
     cm_cache_hint = False, cm_hint = False\<rparr>"

definition drop_priority :: "prompt_section list" where
  "drop_priority = [MemorySemantic, MemoryEpisodic, SystemRuntime, MemoryWorking, HistorySection]"

definition never_drop_sections :: "prompt_section set" where
  "never_drop_sections = {SystemLaw, SystemAnchor, UserSection}"

fun role_name :: "message_role \<Rightarrow> string" where
  "role_name SystemRole = ''system''"
| "role_name UserRole = ''user''"
| "role_name AssistantRole = ''assistant''"
| "role_name ToolRole = ''tool''"

fun section_name :: "prompt_section \<Rightarrow> string" where
  "section_name SystemLaw = ''system_law''"
| "section_name SystemAnchor = ''system_anchor''"
| "section_name SystemRuntime = ''system_runtime''"
| "section_name MemoryWorking = ''memory_working''"
| "section_name MemoryEpisodic = ''memory_episodic''"
| "section_name MemorySemantic = ''memory_semantic''"
| "section_name HistorySection = ''history''"
| "section_name UserSection = ''user''"

definition content_text :: "chat_message \<Rightarrow> string" where
  "content_text m = (case cm_content m of None \<Rightarrow> [] | Some c \<Rightarrow> c)"

text \<open>\<open>toolCalls && toolCalls.length > 0\<close>, and the calls of a message that may have none.\<close>

definition calls_of :: "chat_message \<Rightarrow> tool_call list" where
  "calls_of m = (case cm_calls m of None \<Rightarrow> [] | Some cs \<Rightarrow> cs)"

definition has_calls :: "chat_message \<Rightarrow> bool" where
  "has_calls m = (calls_of m \<noteq> [])"

section \<open>Tokens\<close>

definition model_family_factor :: "(string \<times> nat) list" where
  "model_family_factor =
     [(''^gpt-'', 40), (''^o[1-9]'', 40), (''^claude'', 35), (''^anthropic'', 35), (''^gemini'', 40),
      (''^llama'', 38), (''^mistral'', 38)]"

definition default_factor :: nat where
  "default_factor = 40"

definition char_per_token :: "string option \<Rightarrow> nat" where
  "char_per_token model = (case model of
      None \<Rightarrow> default_factor
    | Some m \<Rightarrow> if m = [] then default_factor
        else case first_match (\<lambda>(pattern, factor). if rx_test flag_i pattern m then Some factor else None)
                    model_family_factor of
               None \<Rightarrow> default_factor
             | Some factor \<Rightarrow> factor)"

text \<open>\<open>Math.ceil(chars / factor)\<close> with the factor in tenths.\<close>

definition ceil_tokens :: "nat \<Rightarrow> nat \<Rightarrow> nat" where
  "ceil_tokens factor chars = (chars * 10 + (factor - 1)) div factor"

type_synonym tokenizer = "string \<Rightarrow> nat"

definition tiktoken_for :: "bool \<Rightarrow> (string \<Rightarrow> tokenizer option) \<Rightarrow> string \<Rightarrow> tokenizer option" where
  "tiktoken_for use_tiktoken encoding model =
     (if \<not> use_tiktoken then None
      else if \<not> rx_test flag_i ''^gpt-|^o[1-9]'' model then None
      else encoding model)"

definition estimate_tokens_from_text ::
  "bool \<Rightarrow> (string \<Rightarrow> tokenizer option) \<Rightarrow> string \<Rightarrow> string option \<Rightarrow> nat" where
  "estimate_tokens_from_text use_tiktoken encoding txt model =
     (if txt = [] then 0
      else case (case model of None \<Rightarrow> None
                 | Some m \<Rightarrow> if m = [] then None else tiktoken_for use_tiktoken encoding m) of
             Some enc \<Rightarrow> enc txt
           | None \<Rightarrow> ceil_tokens (char_per_token model) (length txt))"

definition estimate_tokens_from_chars :: "nat \<Rightarrow> string option \<Rightarrow> nat" where
  "estimate_tokens_from_chars chars model = (if chars = 0 then 0 else ceil_tokens (char_per_token model) chars)"

definition call_chars :: "tool_call \<Rightarrow> nat" where
  "call_chars tc = length (tc_name tc) + length (stringify (JObj (tc_args tc)))"

definition message_chars :: "chat_message \<Rightarrow> nat" where
  "message_chars m = length (content_text m) + sum_list (map call_chars (calls_of m))"

definition estimate_tokens :: "chat_message list \<Rightarrow> string option \<Rightarrow> nat" where
  "estimate_tokens ms model = estimate_tokens_from_chars (sum_list (map message_chars ms)) model"

definition tokens_by_section :: "chat_message list \<Rightarrow> string option \<Rightarrow> (string, nat) jsmap" where
  "tokens_by_section ms model = foldl (\<lambda>out m.
     let sec = (case cm_section m of Some s \<Rightarrow> section_name s | None \<Rightarrow> role_name (cm_role m)) in
     js_set out sec (js_get_or out sec 0 + ceil_tokens (char_per_token model) (message_chars m))) [] ms"

section \<open>The path a tool call names\<close>

definition string_arg :: "(string, json) jsmap \<Rightarrow> string \<Rightarrow> string option" where
  "string_arg args key = (case js_get args key of Some (JStr s) \<Rightarrow> Some s | _ \<Rightarrow> None)"

definition path_keys :: "string list" where
  "path_keys = [''path'', ''filePath'', ''file_path'', ''file'', ''filename'']"

text \<open>The two further tests of the source read the key \<open>path\<close> once more and never apply.\<close>

definition extract_file_path :: "string \<Rightarrow> (string, json) jsmap \<Rightarrow> string option" where
  "extract_file_path tool_name args =
     (case first_match (string_arg args) path_keys of
        Some p \<Rightarrow> Some p
      | None \<Rightarrow>
          if tool_name = ''write_file'' \<and> string_arg args ''path'' \<noteq> None then string_arg args ''path''
          else if tool_name = ''read_file'' \<and> string_arg args ''path'' \<noteq> None then string_arg args ''path''
          else None)"

lemma char_per_token_pos: "0 < char_per_token model"
  unfolding char_per_token_def default_factor_def model_family_factor_def
  by (auto split: option.splits)

lemma extract_file_path_first: "extract_file_path n args = first_match (string_arg args) path_keys"
  unfolding extract_file_path_def by (auto simp: path_keys_def split: option.splits)

lemma ceil_tokens_upper: "0 < factor \<Longrightarrow> ceil_tokens factor chars \<le> n \<longleftrightarrow> chars * 10 \<le> n * factor"
proof -
  assume f: "0 < factor"
  have "ceil_tokens factor chars \<le> n \<longleftrightarrow> chars * 10 + (factor - 1) < (n + 1) * factor"
    unfolding ceil_tokens_def using less_eq_div_iff_mult_less_eq [OF f] div_less_iff_less_mult [OF f]
    by (metis Suc_eq_plus1 less_Suc_eq_le)
  then show ?thesis using f by auto
qed

text \<open>An estimate is within a limit exactly when the characters are within the limit times the factor.\<close>

lemma estimate_within:
  "estimate_tokens ms model \<le> n \<longleftrightarrow> sum_list (map message_chars ms) * 10 \<le> n * char_per_token model"
proof (cases "sum_list (map message_chars ms) = 0")
  case True
  show ?thesis unfolding estimate_tokens_def estimate_tokens_from_chars_def True by simp
next
  case False
  then show ?thesis unfolding estimate_tokens_def estimate_tokens_from_chars_def
    by (simp only: if_False ceil_tokens_upper [OF char_per_token_pos])
qed

end
