(* ===== verification/PromptBudget.thy ===== *)
theory PromptBudget
  imports ChatMessages "HOL-Library.Multiset" "HOL-Library.Sublist"
begin

text \<open>
  The prompt budget: \<open>derivePromptBudgetPlan\<close> and \<open>normalizeCaps\<close> of
  \<open>packages/agent/src/memory/prompt-budget/derive-plan.ts\<close>, the helpers of
  \<open>memory/internal/prompt-budget-helpers.ts\<close>, \<open>applyPromptBudget\<close> of \<open>memory/prompt-budget/index.ts\<close> and the
  constants of \<open>memory/prompt-budget-types.ts\<close>. Numbers of a configuration are rationals; a product with a
  decimal weight is the one of the floating-point arithmetic (\<open>js_share\<close>): the weight is the double next
  to the decimal, the product is rounded to 53 bits, then to an integer. The entries of the working
  array are mutated in place by the source; here each section returns its entries changed, and the working
  array is put together from them in the order of the indices.
\<close>

section \<open>Products with a decimal weight\<close>

text \<open>Round a non-negative integer to 53 significant bits, ties to even. \<open>excess_bits\<close> counts the bits beyond 53.\<close>

function excess_bits :: "int \<Rightarrow> nat" where
  "excess_bits p = (if p < 2 ^ 53 then 0 else Suc (excess_bits (p div 2)))"
  by pat_completeness auto

termination excess_bits
  by (relation "measure nat") auto

definition round_half_even :: "int \<Rightarrow> int \<Rightarrow> int" where
  "round_half_even d p = (let q = p div d; r = p mod d in
     if 2 * r < d then q else if d < 2 * r then q + 1 else if even q then q else q + 1)"

definition round53 :: "int \<Rightarrow> int" where
  "round53 p = (let d = 2 ^ excess_bits p in round_half_even d p * d)"

text \<open>A double between 0 and 1 as a numerator over \<open>2 ^ 56\<close>, and \<open>Math.floor(n * weight)\<close>.\<close>

type_synonym weight = int

definition w005 :: weight where "w005 = 3602879701896397"
definition w008 :: weight where "w008 = 5764607523034235"
definition w010 :: weight where "w010 = 7205759403792794"
definition w012 :: weight where "w012 = 8646911284551352"
definition w020 :: weight where "w020 = 14411518807585588"
definition w025 :: weight where "w025 = 18014398509481984"
definition w030 :: weight where "w030 = 21617278211378380"
definition w035 :: weight where "w035 = 25220157913274776"
definition w045 :: weight where "w045 = 32425917317067572"
definition w050 :: weight where "w050 = 36028797018963968"
definition w075 :: weight where "w075 = 54043195528445952"

definition js_share :: "int \<Rightarrow> weight \<Rightarrow> int" where
  "js_share n w = round53 (n * w) div 2 ^ 56"

declare excess_bits.simps [simp del]

section \<open>Section specifications\<close>

definition default_context_window_tokens :: rat where "default_context_window_tokens = 32768"
definition default_max_output_tokens :: rat where "default_max_output_tokens = 2048"
definition default_char_per_token :: rat where "default_char_per_token = 4"
definition default_safety_margin_tokens :: int where "default_safety_margin_tokens = 1024"
definition default_hard_max_prompt_chars :: rat where "default_hard_max_prompt_chars = 100000"
definition min_prompt_char_budget :: int where "min_prompt_char_budget = 8000"
definition max_prompt_char_budget :: int where "max_prompt_char_budget = 1500000"

datatype base_key = SystemKey | MemoryKey | HistoryKey | UserKey | OtherKey

definition base_section_keys :: "base_key list" where
  "base_section_keys = [SystemKey, MemoryKey, HistoryKey, UserKey, OtherKey]"

record section_spec =
  sp_key :: base_key
  sp_weight :: weight
  sp_min :: int
  sp_max :: int

definition base_section_specs :: "section_spec list" where
  "base_section_specs =
     [\<lparr>sp_key = SystemKey, sp_weight = w025, sp_min = 2048, sp_max = 40000\<rparr>,
      \<lparr>sp_key = MemoryKey, sp_weight = w020, sp_min = 1536, sp_max = 30000\<rparr>,
      \<lparr>sp_key = HistoryKey, sp_weight = w035, sp_min = 2048, sp_max = 50000\<rparr>,
      \<lparr>sp_key = UserKey, sp_weight = w012, sp_min = 1536, sp_max = 16000\<rparr>,
      \<lparr>sp_key = OtherKey, sp_weight = w008, sp_min = 512, sp_max = 12000\<rparr>]"

definition section_order :: "prompt_section list" where
  "section_order = [SystemLaw, SystemAnchor, SystemRuntime, MemoryWorking, MemoryEpisodic, MemorySemantic,
     HistorySection, UserSection]"

fun drop_allowed :: "prompt_section \<Rightarrow> bool" where
  "drop_allowed SystemLaw = False"
| "drop_allowed SystemAnchor = False"
| "drop_allowed SystemRuntime = True"
| "drop_allowed MemoryWorking = True"
| "drop_allowed MemoryEpisodic = True"
| "drop_allowed MemorySemantic = True"
| "drop_allowed HistorySection = True"
| "drop_allowed UserSection = False"

fun newest_first :: "prompt_section \<Rightarrow> bool" where
  "newest_first SystemLaw = False"
| "newest_first SystemAnchor = False"
| "newest_first SystemRuntime = True"
| "newest_first MemoryWorking = True"
| "newest_first MemoryEpisodic = True"
| "newest_first MemorySemantic = True"
| "newest_first HistorySection = True"
| "newest_first UserSection = False"

section \<open>The plan\<close>

record budget_config =
  pc_context_window_tokens :: "rat option"
  pc_max_output_tokens :: "rat option"
  pc_char_per_token :: "rat option"
  pc_safety_margin_tokens :: "rat option"
  pc_hard_max_prompt_chars :: "rat option"
  pc_model :: "string option"

record model_profile =
  mp_context_window_tokens :: int
  mp_max_output_tokens :: int
  mp_safety_margin_tokens :: int
  mp_prompt_token_budget :: int
  mp_char_per_token :: int

record budget_caps =
  total_chars :: int
  system_chars :: int
  system_law_chars :: int
  system_anchor_chars :: int
  system_runtime_chars :: int
  memory_chars :: int
  memory_working_chars :: int
  memory_episodic_chars :: int
  memory_semantic_chars :: int
  history_chars :: int
  user_chars :: int
  other_chars :: int

record budget_plan =
  bp_model :: model_profile
  bp_caps :: budget_caps

definition clamp :: "int \<Rightarrow> int \<Rightarrow> int \<Rightarrow> int" where
  "clamp v lo hi = max lo (min hi v)"

definition caps_total :: "(base_key \<Rightarrow> int) \<Rightarrow> int" where
  "caps_total caps = sum_list (map caps base_section_keys)"

text \<open>The passes of \<open>normalizeCaps\<close>: scale down, then reduce or expand the heaviest sections first. The
  running limit is threaded through the loop; \<open>break\<close> and \<open>continue\<close> leave both unchanged.\<close>

definition scale_cap :: "int \<Rightarrow> int \<Rightarrow> (base_key \<Rightarrow> int) \<Rightarrow> section_spec \<Rightarrow> base_key \<Rightarrow> int" where
  "scale_cap limit raw_total caps spec =
     caps (sp_key spec := clamp (caps (sp_key spec) * limit div raw_total) (sp_min spec) (sp_max spec))"

definition reduce_cap :: "int \<Rightarrow> (base_key \<Rightarrow> int) \<times> int \<Rightarrow> section_spec \<Rightarrow> (base_key \<Rightarrow> int) \<times> int" where
  "reduce_cap limit acc spec = (case acc of (caps, adjusted) \<Rightarrow>
     if adjusted \<le> limit then acc
     else (let reducible = caps (sp_key spec) - sp_min spec in
       if reducible \<le> 0 then acc
       else (let delta = min reducible (adjusted - limit) in
         (caps (sp_key spec := caps (sp_key spec) - delta), adjusted - delta))))"

definition expand_cap :: "int \<Rightarrow> (base_key \<Rightarrow> int) \<times> int \<Rightarrow> section_spec \<Rightarrow> (base_key \<Rightarrow> int) \<times> int" where
  "expand_cap limit acc spec = (case acc of (caps, adjusted) \<Rightarrow>
     if limit \<le> adjusted then acc
     else (let expandable = sp_max spec - caps (sp_key spec) in
       if expandable \<le> 0 then acc
       else (let delta = min expandable (limit - adjusted) in
         (caps (sp_key spec := caps (sp_key spec) + delta), adjusted + delta))))"

definition heaviest_first :: "section_spec list \<Rightarrow> section_spec list" where
  "heaviest_first specs = sort_key (\<lambda>s. - sp_weight s) specs"

definition normalize_caps :: "(base_key \<Rightarrow> int) \<Rightarrow> section_spec list \<Rightarrow> int \<Rightarrow> base_key \<Rightarrow> int" where
  "normalize_caps raw_caps specs limit =
     (let raw_total = caps_total raw_caps;
          normalized = (if limit < raw_total then foldl (scale_cap limit raw_total) raw_caps specs else raw_caps);
          adjusted = caps_total normalized
      in if limit < adjusted then fst (foldl (reduce_cap limit) (normalized, adjusted) (heaviest_first specs))
         else if adjusted < limit then fst (foldl (expand_cap limit) (normalized, adjusted) (heaviest_first specs))
         else normalized)"

definition floor_or :: "rat option \<Rightarrow> rat \<Rightarrow> int" where
  "floor_or v d = \<lfloor>case v of Some x \<Rightarrow> x | None \<Rightarrow> d\<rfloor>"

definition raw_cap :: "int \<Rightarrow> (base_key \<Rightarrow> int) \<Rightarrow> section_spec \<Rightarrow> base_key \<Rightarrow> int" where
  "raw_cap limit caps spec =
     caps (sp_key spec := clamp (js_share limit (sp_weight spec)) (sp_min spec) (sp_max spec))"

definition model_of_config :: "budget_config \<Rightarrow> model_profile" where
  "model_of_config cfg =
     (let window = clamp (floor_or (pc_context_window_tokens cfg) default_context_window_tokens) 2048 2000000;
          output = clamp (floor_or (pc_max_output_tokens cfg) default_max_output_tokens) 128 (max 256 (window - 1024));
          margin = clamp (floor_or (pc_safety_margin_tokens cfg)
                            (of_int (max default_safety_margin_tokens (js_share window w005))))
                     256 (max 512 (js_share window w050))
      in \<lparr>mp_context_window_tokens = window, mp_max_output_tokens = output, mp_safety_margin_tokens = margin,
          mp_prompt_token_budget = max 1024 (window - output - margin),
          mp_char_per_token = clamp (floor_or (pc_char_per_token cfg) default_char_per_token) 2 8\<rparr>)"

definition total_of_config :: "budget_config \<Rightarrow> int" where
  "total_of_config cfg =
     (let hard_max = clamp (floor_or (pc_hard_max_prompt_chars cfg) default_hard_max_prompt_chars)
                       min_prompt_char_budget max_prompt_char_budget;
          profile = model_of_config cfg
      in clamp (mp_prompt_token_budget profile * mp_char_per_token profile) min_prompt_char_budget hard_max)"

definition base_caps :: "int \<Rightarrow> base_key \<Rightarrow> int" where
  "base_caps limit = normalize_caps (foldl (raw_cap limit) (\<lambda>_. 0) base_section_specs) base_section_specs limit"

definition caps_of_total :: "int \<Rightarrow> budget_caps" where
  "caps_of_total limit =
     (let base = base_caps limit;
          anchor = clamp (js_share (base SystemKey) w075) 512 (base SystemKey);
          runtime = max 0 (base SystemKey - anchor);
          law = clamp (js_share (base SystemKey) w010) 256 4096;
          working = js_share (base MemoryKey) w045;
          episodic = js_share (base MemoryKey) w030;
          semantic = max 0 (base MemoryKey - working - episodic);
          used_by_top = base SystemKey + base MemoryKey + base HistoryKey + base UserKey
      in \<lparr>total_chars = limit, system_chars = base SystemKey, system_law_chars = law,
          system_anchor_chars = anchor, system_runtime_chars = runtime, memory_chars = base MemoryKey,
          memory_working_chars = working, memory_episodic_chars = episodic, memory_semantic_chars = semantic,
          history_chars = base HistoryKey, user_chars = base UserKey, other_chars = max 0 (limit - used_by_top)\<rparr>)"

definition derive_prompt_budget_plan :: "budget_config \<Rightarrow> budget_plan" where
  "derive_prompt_budget_plan cfg =
     \<lparr>bp_model = model_of_config cfg, bp_caps = caps_of_total (total_of_config cfg)\<rparr>"

section \<open>The caps share out the budget\<close>

text \<open>Every section within its minimum and maximum.\<close>

definition cap_ok :: "(base_key \<Rightarrow> int) \<Rightarrow> bool" where
  "cap_ok caps = list_all (\<lambda>spec. sp_min spec \<le> caps (sp_key spec) \<and> caps (sp_key spec) \<le> sp_max spec)
     base_section_specs"

lemma caps_total_upd [simp]: "caps_total (caps(k := v)) = caps_total caps - caps k + v"
  unfolding caps_total_def base_section_keys_def by (cases k) auto

lemma cap_ok_upd:
  "cap_ok caps \<Longrightarrow> spec \<in> set base_section_specs \<Longrightarrow> sp_min spec \<le> v \<Longrightarrow> v \<le> sp_max spec \<Longrightarrow>
   cap_ok (caps(sp_key spec := v))"
  unfolding cap_ok_def base_section_specs_def by auto

lemma cap_okD: "cap_ok caps \<Longrightarrow> spec \<in> set base_section_specs \<Longrightarrow>
    sp_min spec \<le> caps (sp_key spec) \<and> caps (sp_key spec) \<le> sp_max spec"
  unfolding cap_ok_def list_all_iff by auto

lemma clamp_range: "lo \<le> hi \<Longrightarrow> lo \<le> clamp v lo hi \<and> clamp v lo hi \<le> hi"
  unfolding clamp_def by auto

lemma spec_range: "spec \<in> set base_section_specs \<Longrightarrow> 0 < sp_min spec \<and> sp_min spec \<le> sp_max spec"
  unfolding base_section_specs_def by auto

lemma heaviest_first_base:
  "set (heaviest_first base_section_specs) = set base_section_specs"
  "distinct (map sp_key (heaviest_first base_section_specs))"
proof -
  show "set (heaviest_first base_section_specs) = set base_section_specs"
    unfolding heaviest_first_def by simp
  have "distinct (map sp_key base_section_specs)" unfolding base_section_specs_def by simp
  then show "distinct (map sp_key (heaviest_first base_section_specs))"
    unfolding heaviest_first_def by (metis distinct_map distinct_sort set_sort)
qed

text \<open>One pass of the loops, in the direction it moves the total.\<close>

definition pass_inv :: "(base_key \<Rightarrow> int) \<times> int \<Rightarrow> bool" where
  "pass_inv acc = (caps_total (fst acc) = snd acc \<and> cap_ok (fst acc))"

lemma reduce_step:
  assumes "pass_inv acc" "limit \<le> snd acc" "spec \<in> set base_section_specs"
  shows "pass_inv (reduce_cap limit acc spec)" "limit \<le> snd (reduce_cap limit acc spec)"
    "snd (reduce_cap limit acc spec) = limit \<or> fst (reduce_cap limit acc spec) (sp_key spec) = sp_min spec"
    "k \<noteq> sp_key spec \<Longrightarrow> fst (reduce_cap limit acc spec) k = fst acc k"
  using assms cap_okD [of "fst acc" spec]
  by (auto simp: reduce_cap_def pass_inv_def Let_def min_def split: prod.splits intro!: cap_ok_upd)

lemma expand_step:
  assumes "pass_inv acc" "snd acc \<le> limit" "spec \<in> set base_section_specs"
  shows "pass_inv (expand_cap limit acc spec)" "snd (expand_cap limit acc spec) \<le> limit"
    "snd (expand_cap limit acc spec) = limit \<or> fst (expand_cap limit acc spec) (sp_key spec) = sp_max spec"
    "k \<noteq> sp_key spec \<Longrightarrow> fst (expand_cap limit acc spec) k = fst acc k"
  using assms cap_okD [of "fst acc" spec]
  by (auto simp: expand_cap_def pass_inv_def Let_def min_def split: prod.splits intro!: cap_ok_upd)

lemma reduce_pass:
  assumes "pass_inv acc" "limit \<le> snd acc" "set specs \<subseteq> set base_section_specs" "distinct (map sp_key specs)"
  shows "pass_inv (foldl (reduce_cap limit) acc specs) \<and> limit \<le> snd (foldl (reduce_cap limit) acc specs) \<and>
    (snd (foldl (reduce_cap limit) acc specs) = limit \<or>
       (\<forall>s\<in>set specs. fst (foldl (reduce_cap limit) acc specs) (sp_key s) = sp_min s))"
  using assms
proof (induction specs rule: rev_induct)
  case (snoc s specs)
  let ?a = "foldl (reduce_cap limit) acc specs"
  have IH: "pass_inv ?a" "limit \<le> snd ?a"
    "snd ?a = limit \<or> (\<forall>s\<in>set specs. fst ?a (sp_key s) = sp_min s)"
    using snoc by auto
  have s: "s \<in> set base_section_specs" using snoc.prems by auto
  note st = reduce_step [OF IH(1,2) s]
  have keep: "snd ?a = limit \<Longrightarrow> reduce_cap limit ?a s = ?a"
    by (cases ?a) (simp add: reduce_cap_def)
  have other: "t \<in> set specs \<Longrightarrow> fst (reduce_cap limit ?a s) (sp_key t) = fst ?a (sp_key t)" for t
    using snoc.prems(4) by (intro st(4)) (auto simp: image_iff)
  show ?case
  proof (cases "snd ?a = limit")
    case True
    then show ?thesis using IH(1) by (simp add: keep)
  next
    case False
    then have "\<forall>t\<in>set specs. fst ?a (sp_key t) = sp_min t" using IH(3) by auto
    then show ?thesis using st(1-3) other by auto
  qed
qed simp

lemma expand_pass:
  assumes "pass_inv acc" "snd acc \<le> limit" "set specs \<subseteq> set base_section_specs" "distinct (map sp_key specs)"
  shows "pass_inv (foldl (expand_cap limit) acc specs) \<and> snd (foldl (expand_cap limit) acc specs) \<le> limit \<and>
    (snd (foldl (expand_cap limit) acc specs) = limit \<or>
       (\<forall>s\<in>set specs. fst (foldl (expand_cap limit) acc specs) (sp_key s) = sp_max s))"
  using assms
proof (induction specs rule: rev_induct)
  case (snoc s specs)
  let ?a = "foldl (expand_cap limit) acc specs"
  have IH: "pass_inv ?a" "snd ?a \<le> limit"
    "snd ?a = limit \<or> (\<forall>s\<in>set specs. fst ?a (sp_key s) = sp_max s)"
    using snoc by auto
  have s: "s \<in> set base_section_specs" using snoc.prems by auto
  note st = expand_step [OF IH(1,2) s]
  have keep: "snd ?a = limit \<Longrightarrow> expand_cap limit ?a s = ?a"
    by (cases ?a) (simp add: expand_cap_def)
  have other: "t \<in> set specs \<Longrightarrow> fst (expand_cap limit ?a s) (sp_key t) = fst ?a (sp_key t)" for t
    using snoc.prems(4) by (intro st(4)) (auto simp: image_iff)
  show ?case
  proof (cases "snd ?a = limit")
    case True
    then show ?thesis using IH(1) by (simp add: keep)
  next
    case False
    then have "\<forall>t\<in>set specs. fst ?a (sp_key t) = sp_max t" using IH(3) by auto
    then show ?thesis using st(1-3) other by auto
  qed
qed simp

lemma all_min: "\<forall>s\<in>set base_section_specs. caps (sp_key s) = sp_min s \<Longrightarrow> caps_total caps = 7680"
  unfolding base_section_specs_def caps_total_def base_section_keys_def by simp

lemma all_max: "\<forall>s\<in>set base_section_specs. caps (sp_key s) = sp_max s \<Longrightarrow> caps_total caps = 148000"
  unfolding base_section_specs_def caps_total_def base_section_keys_def by simp

lemma scale_ok: "cap_ok caps \<Longrightarrow> set specs \<subseteq> set base_section_specs \<Longrightarrow>
    cap_ok (foldl (scale_cap limit raw) caps specs)"
proof (induction specs rule: rev_induct)
  case (snoc s specs)
  have s: "s \<in> set base_section_specs" and IH: "cap_ok (foldl (scale_cap limit raw) caps specs)"
    using snoc by auto
  have r: "sp_min s \<le> clamp v (sp_min s) (sp_max s) \<and> clamp v (sp_min s) (sp_max s) \<le> sp_max s" for v
    using clamp_range spec_range [OF s] by simp
  show ?case
    unfolding foldl_append foldl.simps scale_cap_def [of _ _ _ s]
    by (rule cap_ok_upd [OF IH s r [THEN conjunct1] r [THEN conjunct2]])
qed simp

lemma normalize_exact:
  assumes "cap_ok raw" "7680 \<le> limit"
  shows "cap_ok (normalize_caps raw base_section_specs limit)"
    "caps_total (normalize_caps raw base_section_specs limit) = min limit 148000"
proof -
  define n where "n = (if limit < caps_total raw then foldl (scale_cap limit (caps_total raw)) raw base_section_specs
                       else raw)"
  have n: "cap_ok n" unfolding n_def using assms(1) scale_ok by auto
  then have inv: "pass_inv (n, caps_total n)" unfolding pass_inv_def by simp
  have top: "caps_total n \<le> 148000" using n unfolding cap_ok_def base_section_specs_def caps_total_def base_section_keys_def by simp
  let ?h = "heaviest_first base_section_specs"
  note h = heaviest_first_base
  have res: "normalize_caps raw base_section_specs limit =
      (if limit < caps_total n then fst (foldl (reduce_cap limit) (n, caps_total n) ?h)
       else if caps_total n < limit then fst (foldl (expand_cap limit) (n, caps_total n) ?h) else n)"
    unfolding normalize_caps_def n_def Let_def by simp
  have "cap_ok (normalize_caps raw base_section_specs limit) \<and>
    caps_total (normalize_caps raw base_section_specs limit) = min limit 148000"
  proof (cases "caps_total n" limit rule: linorder_cases)
    case greater
    let ?r = "foldl (reduce_cap limit) (n, caps_total n) ?h"
    have r: "pass_inv ?r \<and> limit \<le> snd ?r \<and> (snd ?r = limit \<or> (\<forall>s\<in>set ?h. fst ?r (sp_key s) = sp_min s))"
      using greater by (intro reduce_pass inv) (auto simp: h)
    then have "snd ?r = limit" using all_min [of "fst ?r"] assms(2) unfolding h(1) pass_inv_def by auto
    then show ?thesis using r greater top unfolding res pass_inv_def by auto
  next
    case equal
    then show ?thesis using n top unfolding res by auto
  next
    case less
    let ?r = "foldl (expand_cap limit) (n, caps_total n) ?h"
    have r: "pass_inv ?r \<and> snd ?r \<le> limit \<and> (snd ?r = limit \<or> (\<forall>s\<in>set ?h. fst ?r (sp_key s) = sp_max s))"
      using less by (intro expand_pass inv) (auto simp: h)
    have t: "cap_ok (fst ?r)" "caps_total (fst ?r) = snd ?r" using r unfolding pass_inv_def by auto
    have "snd ?r \<le> 148000" using t unfolding cap_ok_def base_section_specs_def caps_total_def base_section_keys_def by simp
    moreover have "snd ?r = limit \<or> snd ?r = 148000" using r all_max [of "fst ?r"] t(2) unfolding h(1) by auto
    ultimately have "snd ?r = min limit 148000" using r by auto
    then show ?thesis using t less unfolding res by auto
  qed
  then show "cap_ok (normalize_caps raw base_section_specs limit)"
    "caps_total (normalize_caps raw base_section_specs limit) = min limit 148000" by auto
qed

lemma excess_mult: "0 \<le> p \<Longrightarrow> 2 ^ excess_bits p * 2 ^ 52 \<le> max p (2 ^ 52)"
proof (induction p rule: excess_bits.induct)
  case (1 p)
  show ?case
  proof (cases "p < 2 ^ 53")
    case True
    then show ?thesis by (subst excess_bits.simps) auto
  next
    case False
    then have "2 ^ excess_bits (p div 2) * 2 ^ 52 \<le> max (p div 2) (2 ^ 52)" using 1 by auto
    moreover have "max (p div 2) (2 ^ 52) = p div 2" using False by auto
    moreover have "excess_bits p = Suc (excess_bits (p div 2))" using False by (subst excess_bits.simps) auto
    ultimately show ?thesis using False by auto
  qed
qed

lemma round53_bounds: "0 \<le> p \<Longrightarrow> 0 \<le> round53 p \<and> round53 p * 2 ^ 52 \<le> p * 2 ^ 52 + max p (2 ^ 52)"
proof -
  assume p: "0 \<le> p"
  define d :: int where "d = 2 ^ excess_bits p"
  have d: "0 < d" "d * 2 ^ 52 \<le> max p (2 ^ 52)" unfolding d_def using excess_mult [OF p] by auto
  have "round_half_even d p \<le> p div d + 1" "0 \<le> round_half_even d p"
    unfolding round_half_even_def Let_def using d(1) p by (auto simp: pos_imp_zdiv_nonneg_iff)
  then have "round53 p \<le> (p div d + 1) * d" "0 \<le> round53 p"
    unfolding round53_def Let_def d_def [symmetric] using d(1) by auto
  moreover have "(p div d + 1) * d \<le> p + d" using d(1) pos_mod_sign [of d p] by (simp add: distrib_right minus_mod_eq_div_mult [symmetric])
  ultimately show ?thesis using d(2) by auto
qed

lemma js_share_bounds: "0 \<le> n \<Longrightarrow> 0 \<le> w \<Longrightarrow> 0 \<le> js_share n w"
  unfolding js_share_def using round53_bounds [of "n * w"] by (simp add: pos_imp_zdiv_nonneg_iff)

text \<open>The shares of the working and the episodic memory leave the rest of the memory budget for the
  semantic memory: the two weights add up to three quarters, and rounding adds less than a quarter.\<close>

lemma memory_split:
  assumes m: "1536 \<le> m"
  shows "js_share m w045 + js_share m w030 < m"
proof -
  let ?a = "m * w045" and ?b = "m * w030"
  have ab: "2 ^ 52 \<le> ?a" "2 ^ 52 \<le> ?b" unfolding w045_def w030_def using m by auto
  have "0 \<le> ?a" "0 \<le> ?b" using ab by auto
  then have "round53 ?a * 2 ^ 52 \<le> ?a * 2 ^ 52 + ?a" "round53 ?b * 2 ^ 52 \<le> ?b * 2 ^ 52 + ?b"
    using round53_bounds [of ?a] round53_bounds [of ?b] ab by (auto simp: max_def)
  then have le: "round53 ?a + round53 ?b < m * 2 ^ 56" unfolding w045_def w030_def using m by simp
  have "round53 ?a div 2 ^ 56 * 2 ^ 56 \<le> round53 ?a" "round53 ?b div 2 ^ 56 * 2 ^ 56 \<le> round53 ?b"
    by (simp_all add: minus_mod_eq_div_mult [symmetric])
  then have "(js_share m w045 + js_share m w030) * 2 ^ 56 < m * 2 ^ 56"
    unfolding js_share_def distrib_right using le by linarith
  then show ?thesis by simp
qed

text \<open>The caps of a total budget.\<close>

lemma raw_ok: "cap_ok (foldl (raw_cap limit) (\<lambda>_. 0) base_section_specs)"
  unfolding cap_ok_def base_section_specs_def raw_cap_def by (simp add: clamp_def)

lemma base_caps_exact:
  assumes "7680 \<le> limit"
  shows "cap_ok (base_caps limit)" "caps_total (base_caps limit) = min limit 148000"
  unfolding base_caps_def using normalize_exact [OF raw_ok assms] by auto

definition pool_caps :: "budget_caps \<Rightarrow> int list" where
  "pool_caps c = [system_anchor_chars c, system_runtime_chars c, memory_working_chars c, memory_episodic_chars c,
     memory_semantic_chars c, history_chars c, user_chars c, other_chars c]"

lemma caps_of_total_shares:
  assumes "7680 \<le> limit"
  shows "sum_list (pool_caps (caps_of_total limit)) = limit"
    "\<forall>c\<in>set (pool_caps (caps_of_total limit)). 0 \<le> c"
    "512 \<le> system_anchor_chars (caps_of_total limit)" "1536 \<le> user_chars (caps_of_total limit)"
    "2048 \<le> history_chars (caps_of_total limit)"
    "256 \<le> system_law_chars (caps_of_total limit)" "system_law_chars (caps_of_total limit) \<le> 4096"
    "total_chars (caps_of_total limit) = limit"
proof -
  let ?b = "base_caps limit"
  have ok: "2048 \<le> ?b SystemKey" "1536 \<le> ?b MemoryKey" "2048 \<le> ?b HistoryKey" "1536 \<le> ?b UserKey" "512 \<le> ?b OtherKey"
    using base_caps_exact(1) [OF assms] unfolding cap_ok_def base_section_specs_def by auto
  have tot: "?b SystemKey + ?b MemoryKey + ?b HistoryKey + ?b UserKey + ?b OtherKey = min limit 148000"
    using base_caps_exact(2) [OF assms] unfolding caps_total_def base_section_keys_def by simp
  note split = memory_split [OF ok(2)] js_share_bounds [of "?b MemoryKey" w045] js_share_bounds [of "?b MemoryKey" w030]
  have w: "0 \<le> w045" "0 \<le> w030" unfolding w045_def w030_def by auto
  have anchor: "512 \<le> clamp v 512 (?b SystemKey)" "clamp v 512 (?b SystemKey) \<le> ?b SystemKey" for v
    using ok(1) clamp_range [of 512 "?b SystemKey" v] by auto
  have law: "256 \<le> clamp v 256 4096" "clamp v 256 4096 \<le> (4096::int)" for v using clamp_range [of 256 4096 v] by auto
  note caps = caps_of_total_def [of limit, unfolded Let_def]
  show "sum_list (pool_caps (caps_of_total limit)) = limit"
    unfolding caps pool_caps_def using ok tot split w anchor [of "js_share (?b SystemKey) w075"] by simp
  show "\<forall>c\<in>set (pool_caps (caps_of_total limit)). 0 \<le> c"
    unfolding caps pool_caps_def using ok tot split w anchor [of "js_share (?b SystemKey) w075"] by auto
  show "512 \<le> system_anchor_chars (caps_of_total limit)" "1536 \<le> user_chars (caps_of_total limit)"
    "2048 \<le> history_chars (caps_of_total limit)"
    "256 \<le> system_law_chars (caps_of_total limit)" "system_law_chars (caps_of_total limit) \<le> 4096"
    "total_chars (caps_of_total limit) = limit"
    unfolding caps using ok anchor law by auto
qed

lemma total_of_config_bounds: "8000 \<le> total_of_config cfg" "total_of_config cfg \<le> 1500000"
  unfolding total_of_config_def Let_def clamp_def min_prompt_char_budget_def max_prompt_char_budget_def by auto

section \<open>Working entries\<close>

record working_entry =
  we_index :: nat
  we_before_chars :: int
  we_section :: prompt_section
  we_message :: chat_message
  we_dropped :: bool
  we_truncated :: bool

definition truncate_text :: "string \<Rightarrow> int \<Rightarrow> string" where
  "truncate_text v max_chars =
     (if int (length v) \<le> max_chars then v
      else if max_chars \<le> 3 then take (nat (max 0 max_chars)) v
      else take (nat (max_chars - 3)) v @ ''...'')"

definition estimate_message_chars :: "chat_message \<Rightarrow> int" where
  "estimate_message_chars m = (case cm_content m of Some c \<Rightarrow> int (length c) | None \<Rightarrow> 0) + 64"

definition truncate_message :: "working_entry \<Rightarrow> int \<Rightarrow> working_entry" where
  "truncate_message e max_chars = (case cm_content (we_message e) of
      None \<Rightarrow> e
    | Some c \<Rightarrow>
        (let truncated = truncate_text c (max 0 max_chars) in
         if length truncated < length c
         then e\<lparr>we_truncated := True, we_message := (we_message e)\<lparr>cm_content := Some truncated\<rparr>\<rparr>
         else e))"

section \<open>The cap of a section\<close>

fun get_section_cap :: "budget_caps \<Rightarrow> prompt_section \<Rightarrow> int" where
  "get_section_cap caps SystemLaw = system_law_chars caps"
| "get_section_cap caps SystemAnchor = system_anchor_chars caps"
| "get_section_cap caps SystemRuntime = system_runtime_chars caps"
| "get_section_cap caps MemoryWorking = memory_working_chars caps"
| "get_section_cap caps MemoryEpisodic = memory_episodic_chars caps"
| "get_section_cap caps MemorySemantic = memory_semantic_chars caps"
| "get_section_cap caps HistorySection = history_chars caps"
| "get_section_cap caps UserSection = user_chars caps"

text \<open>A record over all sections is a function of the section.\<close>

definition create_section_cap_map :: "budget_caps \<Rightarrow> prompt_section \<Rightarrow> int" where
  "create_section_cap_map caps = (\<lambda>s. get_section_cap caps s)"

definition slack_of :: "(prompt_section \<Rightarrow> int) \<Rightarrow> (prompt_section \<Rightarrow> int) \<Rightarrow> int" where
  "slack_of caps before = foldl (\<lambda>slack s. let unused = caps s - before s in
     if 0 < unused then slack + unused else slack) 0 section_order"

definition deficit_order :: "prompt_section list" where
  "deficit_order = [HistorySection, SystemRuntime, MemoryWorking, MemoryEpisodic, MemorySemantic, UserSection,
     SystemAnchor]"

definition give_slack ::
  "(prompt_section \<Rightarrow> int) \<Rightarrow> (prompt_section \<Rightarrow> int) \<times> int \<Rightarrow> prompt_section \<Rightarrow> (prompt_section \<Rightarrow> int) \<times> int" where
  "give_slack before acc s = (case acc of (effective, slack) \<Rightarrow>
     if slack \<le> 0 then acc
     else (let deficit = before s - effective s in
       if deficit \<le> 0 then acc
       else (let delta = min deficit slack in (effective(s := effective s + delta), slack - delta))))"

definition rebalance_section_caps ::
  "(prompt_section \<Rightarrow> int) \<Rightarrow> (prompt_section \<Rightarrow> int) \<Rightarrow> prompt_section \<Rightarrow> int" where
  "rebalance_section_caps caps before =
     (let slack = slack_of caps before in
      if slack \<le> 0 then caps else fst (foldl (give_slack before) (caps, slack) deficit_order))"

section \<open>The section of a message\<close>

definition last_user_index :: "chat_message list \<Rightarrow> nat option" where
  "last_user_index ms = (case find_index (\<lambda>m. cm_role m = UserRole) (rev ms) of
      None \<Rightarrow> None
    | Some k \<Rightarrow> Some (length ms - 1 - k))"

text \<open>The section of one message, and the flag \<open>anchorAssigned\<close> after it.\<close>

definition resolve_section :: "nat option \<Rightarrow> nat \<Rightarrow> chat_message \<Rightarrow> bool \<Rightarrow> prompt_section \<times> bool" where
  "resolve_section last_user i m anchored = (case cm_section m of
      Some s \<Rightarrow>
        if s = SystemLaw then (SystemLaw, anchored)
        else if s = SystemAnchor then (if \<not> anchored then (SystemAnchor, True) else (SystemRuntime, anchored))
        else (s, anchored)
    | None \<Rightarrow>
        (case cm_role m of
           SystemRole \<Rightarrow> if \<not> anchored then (SystemAnchor, True) else (SystemRuntime, anchored)
         | ToolRole \<Rightarrow> (HistorySection, anchored)
         | UserRole \<Rightarrow> (if last_user = Some i then UserSection else HistorySection, anchored)
         | AssistantRole \<Rightarrow> (HistorySection, anchored)))"

fun resolve_from :: "nat option \<Rightarrow> nat \<Rightarrow> bool \<Rightarrow> chat_message list \<Rightarrow> prompt_section list" where
  "resolve_from last_user i anchored [] = []"
| "resolve_from last_user i anchored (m # ms) =
     (case resolve_section last_user i m anchored of
        (s, anchored') \<Rightarrow> s # resolve_from last_user (Suc i) anchored' ms)"

definition resolve_sections :: "chat_message list \<Rightarrow> prompt_section list" where
  "resolve_sections ms = resolve_from (last_user_index ms) 0 False ms"

section \<open>Allocation\<close>

text \<open>The two ways a section is cut to its cap: the entries in the order they are kept, with the loop's \<open>used\<close>
  and \<open>kept\<close>; and, where nothing may be dropped, an even share for each entry.\<close>

fun keep_while_room :: "int \<Rightarrow> int \<Rightarrow> nat \<Rightarrow> working_entry list \<Rightarrow> working_entry list" where
  "keep_while_room cap used kept [] = []"
| "keep_while_room cap used kept (e # es) =
     (let remaining = cap - used in
      if remaining \<le> 0 then e\<lparr>we_dropped := True\<rparr> # keep_while_room cap used kept es
      else if we_before_chars e \<le> remaining then
        e # keep_while_room cap (used + we_before_chars e) (kept + 1) es
      else if kept = 0 then
        (let e' = truncate_message e remaining in
         e' # keep_while_room cap (used + estimate_message_chars (we_message e')) (kept + 1) es)
      else e\<lparr>we_dropped := True\<rparr> # keep_while_room cap used kept es)"

fun share_evenly :: "int \<Rightarrow> int \<Rightarrow> working_entry list \<Rightarrow> working_entry list" where
  "share_evenly cap used [] = []"
| "share_evenly cap used (e # es) =
     (let remaining_entries = int (length (e # es));
          remaining_budget = max 0 (cap - used);
          per_message_budget = (if 0 < remaining_entries then max 16 (remaining_budget div remaining_entries) else 16);
          e' = truncate_message e per_message_budget
      in e' # share_evenly cap (used + estimate_message_chars (we_message e')) es)"

definition ordered_entries :: "bool \<Rightarrow> working_entry list \<Rightarrow> working_entry list" where
  "ordered_entries newest es =
     (if newest then sort_key (\<lambda>e. - int (we_index e)) es else sort_key (\<lambda>e. int (we_index e)) es)"

definition allocate_section :: "int \<Rightarrow> prompt_section \<Rightarrow> working_entry list \<Rightarrow> working_entry list" where
  "allocate_section cap s es =
     (if es = [] then []
      else if drop_allowed s then keep_while_room cap 0 0 (ordered_entries (newest_first s) es)
      else share_evenly cap 0 (ordered_entries (newest_first s) es))"

definition working_entries :: "chat_message list \<Rightarrow> working_entry list" where
  "working_entries ms = map (\<lambda>(i, m, s). \<lparr>we_index = i, we_before_chars = estimate_message_chars m,
      we_section = s, we_message = m, we_dropped = False, we_truncated = False\<rparr>)
     (zip [0..<length ms] (zip ms (resolve_sections ms)))"

definition in_section :: "prompt_section \<Rightarrow> working_entry list \<Rightarrow> working_entry list" where
  "in_section s es = filter (\<lambda>e. we_section e = s) es"

definition before_chars_of :: "working_entry list \<Rightarrow> prompt_section \<Rightarrow> int" where
  "before_chars_of es s = sum_list (map we_before_chars (in_section s es))"

definition section_caps_for :: "budget_caps \<Rightarrow> working_entry list \<Rightarrow> prompt_section \<Rightarrow> int" where
  "section_caps_for caps es =
     (let total_before = sum_list (map we_before_chars es) in
      if total_chars caps < total_before
      then rebalance_section_caps (create_section_cap_map caps) (before_chars_of es)
      else create_section_cap_map caps)"

text \<open>The working array after the allocation loop: the entries of all sections, by index.\<close>

definition allocate :: "budget_caps \<Rightarrow> working_entry list \<Rightarrow> working_entry list" where
  "allocate caps es =
     (if total_chars caps < sum_list (map we_before_chars es)
      then sort_key we_index
             (concat (map (\<lambda>s. allocate_section (section_caps_for caps es s) s (in_section s es)) section_order))
      else es)"

definition final_entries :: "working_entry list \<Rightarrow> working_entry list" where
  "final_entries es = sort_key we_index (filter (\<lambda>e. \<not> we_dropped e) es)"

definition after_chars :: "working_entry list \<Rightarrow> int" where
  "after_chars es = sum_list (map (\<lambda>e. estimate_message_chars (we_message e)) es)"

section \<open>Diagnostics\<close>

record section_stats =
  st_cap_chars :: int
  st_before_messages :: nat
  st_after_messages :: nat
  st_before_chars :: int
  st_after_chars :: int
  st_dropped_messages :: nat
  st_truncated_messages :: nat

definition count_entry :: "(prompt_section \<Rightarrow> section_stats) \<Rightarrow> working_entry \<Rightarrow> prompt_section \<Rightarrow> section_stats" where
  "count_entry stats e = (let s = stats (we_section e) in
     stats(we_section e := s\<lparr>st_before_messages := st_before_messages s + 1,
       st_before_chars := st_before_chars s + we_before_chars e,
       st_dropped_messages := st_dropped_messages s + (if we_dropped e then 1 else 0),
       st_truncated_messages := st_truncated_messages s + (if we_truncated e then 1 else 0)\<rparr>))"

definition count_final :: "(prompt_section \<Rightarrow> section_stats) \<Rightarrow> working_entry \<Rightarrow> prompt_section \<Rightarrow> section_stats" where
  "count_final stats e = (let s = stats (we_section e) in
     stats(we_section e := s\<lparr>st_after_messages := st_after_messages s + 1,
       st_after_chars := st_after_chars s + estimate_message_chars (we_message e)\<rparr>))"

definition empty_stats :: "(prompt_section \<Rightarrow> int) \<Rightarrow> prompt_section \<Rightarrow> section_stats" where
  "empty_stats caps = (\<lambda>s. \<lparr>st_cap_chars = caps s, st_before_messages = 0, st_after_messages = 0, st_before_chars = 0,
     st_after_chars = 0, st_dropped_messages = 0, st_truncated_messages = 0\<rparr>)"

record budget_diagnostics =
  bd_model :: model_profile
  bd_caps :: budget_caps
  bd_total_before_chars :: int
  bd_total_after_chars :: int
  bd_constrained :: bool
  bd_dropped_sections :: "prompt_section list"
  bd_sections :: "prompt_section \<Rightarrow> section_stats"

record budget_result =
  br_messages :: "chat_message list"
  br_diagnostics :: budget_diagnostics
  br_section_sizes :: "(string, nat) jsmap"

text \<open>\<open>br_section_sizes\<close> is what the callback \<open>onSectionSizes\<close> is given when there is one.\<close>

definition apply_prompt_budget :: "chat_message list \<Rightarrow> budget_config \<Rightarrow> budget_result" where
  "apply_prompt_budget ms cfg =
     (let plan = derive_prompt_budget_plan cfg;
          entries = working_entries ms;
          allocated = allocate (bp_caps plan) entries;
          final = final_entries allocated;
          total_before = sum_list (map we_before_chars entries);
          total_after = after_chars final;
          stats = foldl count_final
                    (foldl count_entry (empty_stats (section_caps_for (bp_caps plan) entries)) allocated) final;
          dropped = filter (\<lambda>s. 0 < st_before_chars (stats s) \<and> st_after_chars (stats s) = 0) section_order
      in \<lparr>br_messages = map we_message final,
          br_diagnostics = \<lparr>bd_model = bp_model plan, bd_caps = bp_caps plan, bd_total_before_chars = total_before,
            bd_total_after_chars = total_after,
            bd_constrained = (total_after < total_before \<or> dropped \<noteq> [] \<or>
              list_ex (\<lambda>s. 0 < st_truncated_messages (stats s)) section_order),
            bd_dropped_sections = dropped, bd_sections = stats\<rparr>,
          br_section_sizes = tokens_by_section (map we_message final) (pc_model cfg)\<rparr>)"

section \<open>Cutting entries\<close>

definition trimmed_text :: "string \<Rightarrow> string \<Rightarrow> bool" where
  "trimmed_text c c' = (c' = c \<or> length c' < length c \<and> (\<exists>k. c' = take k c \<or> c' = take k c @ ''...''))"

definition trimmed :: "chat_message \<Rightarrow> chat_message \<Rightarrow> bool" where
  "trimmed m m' = (m' = m\<lparr>cm_content := cm_content m'\<rparr> \<and>
     (case (cm_content m, cm_content m') of
        (Some c, Some c') \<Rightarrow> trimmed_text c c' | (None, None) \<Rightarrow> True | _ \<Rightarrow> False))"

lemma trimmed_refl [simp]: "trimmed m m"
  unfolding trimmed_def trimmed_text_def by (cases "cm_content m") auto

lemma length_truncate_text: "int (length (truncate_text v n)) \<le> max 0 n" "length (truncate_text v n) \<le> length v"
  unfolding truncate_text_def by auto

lemma truncate_message_keeps [simp]:
  "we_index (truncate_message e n) = we_index e" "we_section (truncate_message e n) = we_section e"
  "we_before_chars (truncate_message e n) = we_before_chars e" "we_dropped (truncate_message e n) = we_dropped e"
  unfolding truncate_message_def Let_def by (simp_all split: option.splits)

lemma truncate_message_chars:
  "estimate_message_chars (we_message (truncate_message e n)) \<le> max 0 n + 64"
  "estimate_message_chars (we_message (truncate_message e n)) \<le> estimate_message_chars (we_message e)"
  using length_truncate_text [of _ "max 0 n"]
  by (auto simp: truncate_message_def estimate_message_chars_def Let_def not_less split: option.splits)
     (smt (verit, best) linorder_not_less of_nat_less_iff)+

lemma truncate_message_trims: "trimmed (we_message e) (we_message (truncate_message e n))"
  unfolding truncate_message_def Let_def
  by (auto simp: trimmed_def trimmed_text_def truncate_text_def split: option.splits)

lemma estimate_pos: "64 \<le> estimate_message_chars m"
  unfolding estimate_message_chars_def by (simp split: option.splits)

text \<open>An entry as it enters the loop, and what becomes of it.\<close>

definition fresh_entry :: "working_entry \<Rightarrow> bool" where
  "fresh_entry e = (we_before_chars e = estimate_message_chars (we_message e) \<and> \<not> we_dropped e)"

lemma fresh_cons: "list_all fresh_entry (e # es) \<longleftrightarrow>
    we_before_chars e = estimate_message_chars (we_message e) \<and> \<not> we_dropped e \<and> list_all fresh_entry es"
  by (auto simp: fresh_entry_def [of e])

definition becomes :: "working_entry \<Rightarrow> working_entry \<Rightarrow> bool" where
  "becomes e e' = (we_index e' = we_index e \<and> we_section e' = we_section e \<and>
     we_before_chars e' = we_before_chars e \<and> trimmed (we_message e) (we_message e'))"

lemma becomes_intros [simp]:
  "becomes e e" "becomes e (e\<lparr>we_dropped := True\<rparr>)" "becomes e (truncate_message e n)"
  unfolding becomes_def by (simp_all add: truncate_message_trims)

lemma keep_becomes: "list_all2 becomes es (keep_while_room cap used kept es)"
  by (induction cap used kept es rule: keep_while_room.induct) (simp_all add: Let_def)

lemma share_becomes: "list_all2 becomes es (share_evenly cap used es)"
  by (induction cap used es rule: share_evenly.induct) (simp_all add: Let_def)

definition kept_chars :: "working_entry list \<Rightarrow> int" where
  "kept_chars es = after_chars (filter (\<lambda>e. \<not> we_dropped e) es)"

lemma kept_chars_simps [simp]:
  "kept_chars [] = 0"
  "kept_chars (e # es) = (if we_dropped e then 0 else estimate_message_chars (we_message e)) + kept_chars es"
  "kept_chars (es @ es') = kept_chars es + kept_chars es'"
  unfolding kept_chars_def after_chars_def by auto

lemma kept_chars_concat: "kept_chars (concat ess) = sum_list (map kept_chars ess)"
  by (induction ess) auto

lemma keep_bound:
  "list_all fresh_entry es \<Longrightarrow> used + kept_chars (keep_while_room cap used kept es) \<le> max used (cap + 64)"
proof (induction cap used kept es rule: keep_while_room.induct)
  case (2 cap used kept e es)
  have f: "we_before_chars e = estimate_message_chars (we_message e)" "\<not> we_dropped e" "list_all fresh_entry es"
    using 2(5) unfolding fresh_cons by auto
  note cut = truncate_message_chars(1) [of e "cap - used"]
  show ?case
    using 2(1) [OF refl _ f(3)] 2(2) [OF refl _ _ f(3)] 2(3) [OF refl _ _ _ refl f(3)] 2(4) [OF refl _ _ _ f(3)] f(1,2) cut
    by (auto simp: Let_def max_def split: if_splits)
qed simp

lemma keep_before:
  "list_all fresh_entry es \<Longrightarrow> kept_chars (keep_while_room cap used kept es) \<le> sum_list (map we_before_chars es)"
proof (induction cap used kept es rule: keep_while_room.induct)
  case (2 cap used kept e es)
  have f: "we_before_chars e = estimate_message_chars (we_message e)" "\<not> we_dropped e" "list_all fresh_entry es"
    using 2(5) unfolding fresh_cons by auto
  note cut = truncate_message_chars(2) [of e "cap - used"] estimate_pos [of "we_message e"]
  show ?case
    using 2(1) [OF refl _ f(3)] 2(2) [OF refl _ _ f(3)] 2(3) [OF refl _ _ _ refl f(3)] 2(4) [OF refl _ _ _ f(3)] f(1,2) cut
    by (cases "cap \<le> used") (auto simp: Let_def)
qed simp

lemma share_before:
  "list_all fresh_entry es \<Longrightarrow> kept_chars (share_evenly cap used es) \<le> sum_list (map we_before_chars es)"
proof (induction cap used es rule: share_evenly.induct)
  case (2 cap used e es)
  have f: "we_before_chars e = estimate_message_chars (we_message e)" "\<not> we_dropped e" "list_all fresh_entry es"
    using 2(2) unfolding fresh_cons by auto
  show ?case
    using 2(1) [OF refl refl refl refl f(3)] f(1,2) truncate_message_chars(2) [of e]
    by (auto simp: Let_def intro: add_mono)
qed simp

lemma share_bound:
  "list_all fresh_entry es \<Longrightarrow> used + kept_chars (share_evenly cap used es) \<le> max used cap + 80 * int (length es)"
proof (induction cap used es rule: share_evenly.induct)
  case (2 cap used e es)
  define n where "n = int (length (e # es))"
  define per where "per = max 16 (max 0 (cap - used) div n)"
  have n: "1 \<le> n" unfolding n_def by simp
  have f: "\<not> we_dropped e" "list_all fresh_entry es"
    using 2(2) unfolding fresh_cons by auto
  define c where "c = estimate_message_chars (we_message (truncate_message e per))"
  have c: "c \<le> per + 64" unfolding c_def using truncate_message_chars(1) [of e per] by (simp add: per_def)
  have unfold: "share_evenly cap used (e # es) = truncate_message e per # share_evenly cap (used + c) es"
    unfolding share_evenly.simps(2) Let_def n_def [symmetric] c_def per_def using n by simp
  have IH: "used + c + kept_chars (share_evenly cap (used + c) es) \<le> max (used + c) cap + 80 * int (length es)"
    using 2(1) [OF refl refl refl refl f(2)] n unfolding Let_def n_def [symmetric] c_def per_def by simp
  have "max 0 (cap - used) div n \<le> max 0 (cap - used)" using n
    by (cases "max 0 (cap - used) = 0") (simp_all add: int_div_le_self)
  then have le: "max (used + c) cap \<le> max used cap + 80" using c unfolding per_def by (auto simp: max_def split: if_splits)
  have "kept_chars (share_evenly cap used (e # es)) = c + kept_chars (share_evenly cap (used + c) es)"
    using f(1) by (simp add: unfold c_def del: share_evenly.simps)
  then have "used + kept_chars (share_evenly cap used (e # es)) \<le> max used cap + 80 + 80 * int (length es)"
    using IH le by linarith
  then show ?case by simp
qed simp

section \<open>What a section may use\<close>

definition overhead :: "prompt_section \<Rightarrow> working_entry list \<Rightarrow> int" where
  "overhead s es = (if drop_allowed s then 64 else 80 * int (length es))"

lemma ordered_mset [simp]: "mset (ordered_entries b es) = mset es"
  unfolding ordered_entries_def by simp

lemma ordered_fresh: "list_all fresh_entry es \<Longrightarrow> list_all fresh_entry (ordered_entries b es)"
  by (metis list.pred_set mset_eq_setD ordered_mset)

lemma sum_list_perm: "mset xs = mset ys \<Longrightarrow> sum_list (map f xs) = (sum_list (map f ys) :: int)"
  by (metis mset_map sum_mset_sum_list)

lemma ordered_before: "sum_list (map f (ordered_entries b es)) = (sum_list (map f es) :: int)"
  by (intro sum_list_perm) simp

lemma ordered_length: "length (ordered_entries b es) = length es"
  by (metis ordered_mset size_mset)

lemma allocate_section_bound:
  assumes "list_all fresh_entry es" "0 \<le> cap"
  shows "kept_chars (allocate_section cap s es) \<le> min (sum_list (map we_before_chars es)) cap + overhead s es"
proof -
  let ?o = "ordered_entries (newest_first s) es"
  note o = ordered_fresh [OF assms(1), of "newest_first s"]
  note b = ordered_before [of we_before_chars "newest_first s" es]
  consider "es = []" | "es \<noteq> []" "drop_allowed s" | "es \<noteq> []" "\<not> drop_allowed s" by blast
  then show ?thesis
  proof cases
    case 1
    then show ?thesis using assms(2) by (simp add: allocate_section_def overhead_def)
  next
    case 2
    then show ?thesis using keep_bound [OF o, of 0 cap 0] keep_before [OF o, of cap 0 0] b assms(2)
      by (simp add: allocate_section_def overhead_def)
  next
    case 3
    then show ?thesis using share_bound [OF o, of 0 cap] share_before [OF o, of cap 0] b assms(2)
      by (simp add: allocate_section_def overhead_def ordered_length)
  qed
qed

section \<open>Rebalancing moves unused room only\<close>

definition over_sections :: "(prompt_section \<Rightarrow> int) \<Rightarrow> int" where
  "over_sections f = sum_list (map f section_order)"

lemma all_sections: "s \<in> set section_order"
  unfolding section_order_def by (cases s) auto

lemma over_sections_upd: "over_sections (g(s := v)) = over_sections g - g s + v"
  unfolding over_sections_def section_order_def by (cases s) simp_all

lemma over_sections_at:
  assumes "\<And>t. t \<noteq> s \<Longrightarrow> f t = g t"
  shows "over_sections f = over_sections g - g s + f s"
proof -
  have "f = g(s := f s)" using assms by auto
  then show ?thesis by (metis over_sections_upd)
qed

definition used_room :: "(prompt_section \<Rightarrow> int) \<Rightarrow> (prompt_section \<Rightarrow> int) \<Rightarrow> int" where
  "used_room before eff = over_sections (\<lambda>s. min (before s) (eff s))"

lemma slack_of_room: "used_room before caps + slack_of caps before = over_sections caps"
  unfolding used_room_def slack_of_def over_sections_def section_order_def Let_def by simp

lemma give_slack_inv:
  assumes "used_room before (fst acc) + snd acc = R" "0 \<le> snd acc"
  shows "used_room before (fst (give_slack before acc s)) + snd (give_slack before acc s) = R \<and>
    0 \<le> snd (give_slack before acc s) \<and> fst acc t \<le> fst (give_slack before acc s) t"
proof -
  obtain eff slack where acc: "acc = (eff, slack)" by (cases acc)
  show ?thesis
  proof (cases "slack \<le> 0 \<or> before s - eff s \<le> 0")
    case True
    then show ?thesis using assms unfolding acc give_slack_def Let_def by auto
  next
    case False
    define d where "d = min (before s - eff s) slack"
    have d: "0 < d" "d \<le> slack" "eff s + d \<le> before s" using False unfolding d_def by auto
    have "give_slack before acc s = (eff(s := eff s + d), slack - d)"
      using False unfolding acc give_slack_def Let_def d_def by auto
    moreover have "used_room before (eff(s := eff s + d)) = used_room before eff + d"
      unfolding used_room_def
      using d False by (subst over_sections_at [of s _ "\<lambda>t. min (before t) (eff t)"]) auto
    ultimately show ?thesis using assms d unfolding acc by auto
  qed
qed

lemma give_all_inv:
  assumes "used_room before (fst acc) + snd acc = R" "0 \<le> snd acc"
  shows "used_room before (fst (foldl (give_slack before) acc ss)) + snd (foldl (give_slack before) acc ss) = R \<and>
    0 \<le> snd (foldl (give_slack before) acc ss) \<and> fst acc t \<le> fst (foldl (give_slack before) acc ss) t"
proof (induction ss rule: rev_induct)
  case (snoc s ss)
  then show ?case
    using give_slack_inv [of before "foldl (give_slack before) acc ss" R s t] by auto
qed (use assms in auto)

lemma rebalance_room:
  assumes "0 \<le> slack_of caps before"
  shows "used_room before (rebalance_section_caps caps before) \<le> over_sections caps"
    "caps t \<le> rebalance_section_caps caps before t"
  using give_all_inv [of before "(caps, slack_of caps before)" "over_sections caps" deficit_order t]
    slack_of_room [of before caps] assms
  by (auto simp: rebalance_section_caps_def Let_def)

lemma slack_nonneg: "0 \<le> slack_of caps before"
  unfolding slack_of_def section_order_def Let_def by simp

section \<open>Putting the sections together\<close>

lemma kept_chars_perm: "mset xs = mset ys \<Longrightarrow> kept_chars xs = kept_chars ys"
  unfolding kept_chars_def after_chars_def by (intro sum_list_perm) simp

lemma by_section_sum: "over_sections (\<lambda>s. sum_list (map f (in_section s es))) = sum_list (map f es)"
proof (induction es)
  case (Cons e es)
  have "over_sections (\<lambda>s. sum_list (map f (in_section s (e # es)))) =
      over_sections (\<lambda>s. sum_list (map f (in_section s es))) + f e"
    by (subst over_sections_at [of "we_section e" _ "\<lambda>s. sum_list (map f (in_section s es))"])
       (auto simp: in_section_def)
  then show ?case using Cons by simp
qed (simp add: over_sections_def section_order_def in_section_def)

definition never_drop_count :: "working_entry list \<Rightarrow> nat" where
  "never_drop_count es = length (filter (\<lambda>e. we_section e \<in> never_drop_sections) es)"

lemma over_sections_mono: "(\<And>s. f s \<le> g s) \<Longrightarrow> over_sections f \<le> over_sections g"
  unfolding over_sections_def by (intro sum_list_mono) auto

lemma over_sections_add: "over_sections (\<lambda>s. f s + g s) = over_sections f + over_sections g"
  unfolding over_sections_def by (simp add: sum_list_addf)

lemma overhead_total: "over_sections (\<lambda>s. overhead s (in_section s es)) = 320 + 80 * int (never_drop_count es)"
proof (induction es)
  case (Cons e es)
  have "over_sections (\<lambda>s. overhead s (in_section s (e # es))) =
      over_sections (\<lambda>s. overhead s (in_section s es)) + (if drop_allowed (we_section e) then 0 else 80)"
    by (subst over_sections_at [of "we_section e" _ "\<lambda>s. overhead s (in_section s es)"])
       (auto simp: in_section_def overhead_def)
  moreover have "drop_allowed s = (s \<notin> never_drop_sections)" for s
    unfolding never_drop_sections_def by (cases s) auto
  ultimately show ?case using Cons by (simp add: never_drop_count_def)
qed (simp add: over_sections_def section_order_def in_section_def overhead_def never_drop_count_def)

lemma final_chars: "after_chars (final_entries es) = kept_chars es"
  unfolding final_entries_def kept_chars_def after_chars_def by (intro sum_list_perm) simp

lemma allocate_bound:
  assumes "list_all fresh_entry es" "\<And>s. 0 \<le> get_section_cap caps s"
  shows "after_chars (final_entries (allocate caps es)) \<le>
    max (total_chars caps) (over_sections (get_section_cap caps)) + 320 + 80 * int (never_drop_count es)"
proof (cases "total_chars caps < sum_list (map we_before_chars es)")
  case True
  define eff where "eff = section_caps_for caps es"
  have eff: "eff = rebalance_section_caps (create_section_cap_map caps) (before_chars_of es)"
    unfolding eff_def section_caps_for_def Let_def using True by simp
  have base: "create_section_cap_map caps = get_section_cap caps" unfolding create_section_cap_map_def by simp
  have pos: "0 \<le> eff s" for s
    using rebalance_room(2) [OF slack_nonneg, of "get_section_cap caps" s "before_chars_of es"] assms(2) [of s]
    unfolding eff base by simp
  have fresh: "list_all fresh_entry (in_section s es)" for s
    using assms(1) unfolding in_section_def list_all_iff by auto
  let ?r = "concat (map (\<lambda>s. allocate_section (eff s) s (in_section s es)) section_order)"
  have "after_chars (final_entries (allocate caps es)) = kept_chars ?r"
    unfolding final_chars unfolding allocate_def eff_def if_P [OF True] by (rule kept_chars_perm) simp
  also have "\<dots> = over_sections (\<lambda>s. kept_chars (allocate_section (eff s) s (in_section s es)))"
    unfolding kept_chars_concat over_sections_def by (simp add: comp_def)
  also have "\<dots> \<le> over_sections (\<lambda>s. min (before_chars_of es s) (eff s) + overhead s (in_section s es))"
    unfolding before_chars_of_def by (intro over_sections_mono allocate_section_bound fresh pos)
  also have "\<dots> = used_room (before_chars_of es) eff + (320 + 80 * int (never_drop_count es))"
    unfolding over_sections_add used_room_def overhead_total ..
  also have "used_room (before_chars_of es) eff \<le> over_sections (get_section_cap caps)"
    unfolding eff base by (rule rebalance_room(1) [OF slack_nonneg])
  finally show ?thesis by simp
next
  case False
  have "kept_chars es \<le> sum_list (map we_before_chars es)"
    using assms(1) estimate_pos
    by (induction es) (auto simp: fresh_entry_def)
  then show ?thesis using False unfolding final_chars allocate_def by simp
qed

section \<open>Every section has room\<close>

lemma round53_lower: "0 \<le> p \<Longrightarrow> p * 2 ^ 52 \<le> round53 p * 2 ^ 52 + max p (2 ^ 52)"
proof -
  assume p: "0 \<le> p"
  define d :: int where "d = 2 ^ excess_bits p"
  have d: "0 < d" "d * 2 ^ 52 \<le> max p (2 ^ 52)" unfolding d_def using excess_mult [OF p] by auto
  have "p div d \<le> round_half_even d p" unfolding round_half_even_def Let_def by auto
  then have "p div d * d \<le> round53 p"
    unfolding round53_def Let_def d_def [symmetric] using d(1) by auto
  moreover have "p \<le> p div d * d + d" using less_imp_le [OF pos_mod_bound [OF d(1), of p]] by (simp add: minus_mod_eq_div_mult [symmetric])
  ultimately show ?thesis using d(2) by auto
qed

lemma js_share_pos:
  assumes "2 ^ 57 \<le> n * w"
  shows "0 < js_share n w"
proof -
  have "n * w * 2 ^ 52 \<le> round53 (n * w) * 2 ^ 52 + n * w"
    using round53_lower [of "n * w"] assms by (simp add: max_def split: if_splits)
  then have "2 ^ 56 \<le> round53 (n * w)" using assms by simp
  then show ?thesis unfolding js_share_def by (simp add: pos_imp_zdiv_pos_iff)
qed

lemma anchor_share:
  assumes "2048 \<le> n"
  shows "js_share n w075 < n"
proof -
  have "2 ^ 52 \<le> n * w075" unfolding w075_def using assms by auto
  then have "round53 (n * w075) * 2 ^ 52 \<le> n * w075 * 2 ^ 52 + n * w075"
    using round53_bounds [of "n * w075"] by (auto simp: max_def)
  then have "round53 (n * w075) < n * 2 ^ 56" unfolding w075_def using assms by simp
  then show ?thesis unfolding js_share_def by (simp add: div_less_iff_less_mult)
qed

lemma base_caps_room:
  assumes "7680 \<le> limit"
  shows "2048 \<le> base_caps limit SystemKey" "1536 \<le> base_caps limit MemoryKey"
    "2048 \<le> base_caps limit HistoryKey" "1536 \<le> base_caps limit UserKey"
  using base_caps_exact(1) [OF assms] unfolding cap_ok_def base_section_specs_def by auto

lemma section_cap_pos:
  assumes "7680 \<le> limit"
  shows "0 < get_section_cap (caps_of_total limit) s"
proof -
  note room = base_caps_room [OF assms]
  have m: "2 ^ 57 \<le> base_caps limit MemoryKey * w045" "2 ^ 57 \<le> base_caps limit MemoryKey * w030"
    using room(2) unfolding w045_def w030_def by auto
  have a: "clamp (js_share (base_caps limit SystemKey) w075) 512 (base_caps limit SystemKey) < base_caps limit SystemKey"
    "0 < clamp (js_share (base_caps limit SystemKey) w075) 512 (base_caps limit SystemKey)"
    using anchor_share [OF room(1)] room(1) unfolding clamp_def by auto
  have l: "0 < clamp v 256 4096" for v unfolding clamp_def by auto
  show ?thesis
    using room m [THEN js_share_pos] memory_split [OF room(2)] a l
    by (cases s) (simp_all add: caps_of_total_def Let_def)
qed

lemma section_caps_total:
  assumes "7680 \<le> limit"
  shows "over_sections (get_section_cap (caps_of_total limit)) =
    limit + system_law_chars (caps_of_total limit) - other_chars (caps_of_total limit)"
    "0 \<le> other_chars (caps_of_total limit)"
  using caps_of_total_shares(1,2) [OF assms]
  unfolding over_sections_def section_order_def pool_caps_def by simp_all

section \<open>The entries of a message list\<close>

lemma length_resolve [simp]: "length (resolve_sections ms) = length ms"
proof -
  have "length (resolve_from u i a ms) = length ms" for u i a
    by (induction u i a ms rule: resolve_from.induct) (auto split: prod.splits)
  then show ?thesis unfolding resolve_sections_def .
qed

lemma working_entries_nth:
  "i < length ms \<Longrightarrow> working_entries ms ! i = \<lparr>we_index = i, we_before_chars = estimate_message_chars (ms ! i),
     we_section = resolve_sections ms ! i, we_message = ms ! i, we_dropped = False, we_truncated = False\<rparr>"
  unfolding working_entries_def by simp

lemma length_working [simp]: "length (working_entries ms) = length ms"
  unfolding working_entries_def by simp

lemma working_entries_maps:
  "map we_index (working_entries ms) = [0..<length ms]" "map we_section (working_entries ms) = resolve_sections ms"
  "map we_before_chars (working_entries ms) = map estimate_message_chars ms"
  by (rule nth_equalityI; simp add: working_entries_nth)+

lemma working_entries_fresh: "list_all fresh_entry (working_entries ms)"
  unfolding list_all_length by (simp add: working_entries_nth fresh_entry_def)

section \<open>Who stays\<close>

lemma keep_first:
  assumes "es \<noteq> []" "list_all fresh_entry es" "0 < cap"
  shows "\<exists>e\<in>set (keep_while_room cap 0 0 es). we_index e = we_index (hd es) \<and> \<not> we_dropped e"
  using assms by (cases es) (auto simp: fresh_entry_def Let_def)

lemma share_keeps_all:
  "list_all fresh_entry es \<Longrightarrow> e \<in> set es \<Longrightarrow>
   \<exists>e'\<in>set (share_evenly cap used es). we_index e' = we_index e \<and> \<not> we_dropped e'"
  by (induction cap used es rule: share_evenly.induct) (auto simp: Let_def fresh_entry_def)

lemma ordered_set: "set (ordered_entries b es) = set es"
  by (metis ordered_mset set_mset_mset)

lemma ordered_hd:
  assumes "e \<in> set es" "\<And>x. x \<in> set es \<Longrightarrow> we_index x \<le> we_index e"
  shows "we_index (hd (ordered_entries True es)) = we_index e"
proof -
  let ?o = "ordered_entries True es"
  have ne: "?o \<noteq> []" using assms(1) ordered_set [of True es] by auto
  have "sorted (map (\<lambda>e. - int (we_index e)) ?o)" unfolding ordered_entries_def by simp
  then have "\<forall>x\<in>set ?o. we_index x \<le> we_index (hd ?o)" using ne by (cases ?o) auto
  then have "we_index e \<le> we_index (hd ?o)" using assms(1) ordered_set [of True es] by auto
  moreover have "hd ?o \<in> set es" using ne ordered_set [of True es] hd_in_set by blast
  ultimately show ?thesis using assms(2) by (simp add: le_antisym)
qed

lemma section_keeps:
  assumes "list_all fresh_entry es" "0 < cap" "e \<in> set es"
    "s \<in> never_drop_sections \<or> (\<forall>x\<in>set es. we_index x \<le> we_index e)"
  shows "\<exists>e'\<in>set (allocate_section cap s es). we_index e' = we_index e \<and> \<not> we_dropped e'"
proof (cases "s \<in> never_drop_sections")
  case True
  then have "\<not> drop_allowed s" unfolding never_drop_sections_def by auto
  then show ?thesis using assms(3) share_keeps_all [OF ordered_fresh [OF assms(1), of "newest_first s"], of e cap 0]
    unfolding allocate_section_def by (auto simp: ordered_set)
next
  case False
  then have d: "drop_allowed s" "newest_first s" unfolding never_drop_sections_def by (cases s; simp)+
  have "ordered_entries True es \<noteq> []" using assms(3) ordered_set [of True es] by auto
  then show ?thesis
    using keep_first [OF _ ordered_fresh [OF assms(1)] assms(2), of True] d assms(3)
      ordered_hd [of e es] assms(4) False
    unfolding allocate_section_def by auto
qed

lemma working_entry_message: "e \<in> set (working_entries ms) \<Longrightarrow> we_message e = ms ! we_index e"
  by (auto simp: in_set_conv_nth working_entries_nth)

lemma working_entry_section:
  "e \<in> set (working_entries ms) \<Longrightarrow> we_index e < length ms \<and> we_section e = resolve_sections ms ! we_index e"
  by (auto simp: in_set_conv_nth working_entries_nth)

section \<open>The budget is kept\<close>

lemma allocate_section_becomes:
  "list_all2 becomes (if es = [] then [] else ordered_entries (newest_first s) es) (allocate_section cap s es)"
  unfolding allocate_section_def by (auto simp: keep_becomes share_becomes)

lemma becomes_indices: "list_all2 becomes es es' \<Longrightarrow> map we_index es' = map we_index es"
  by (induction es es' rule: list_all2_induct) (auto simp: becomes_def)

lemma allocate_section_indices:
  "mset (map we_index (allocate_section cap s es)) = mset (map we_index es)"
  using becomes_indices [OF allocate_section_becomes [of es s cap]]
  using arg_cong [OF ordered_mset [of "newest_first s" es], of "image_mset we_index"]
  by (cases "es = []") (simp_all add: mset_map)

lemma list_all2_origin: "list_all2 P xs ys \<Longrightarrow> y \<in> set ys \<Longrightarrow> \<exists>x\<in>set xs. P x y"
  by (induction xs ys rule: list_all2_induct) auto

lemma allocate_section_origin:
  "e' \<in> set (allocate_section cap s es) \<Longrightarrow> \<exists>e\<in>set es. becomes e e'"
  using list_all2_origin [OF allocate_section_becomes [of es s cap], of e'] by (auto simp: ordered_set split: if_splits)

lemma by_section_indices: "mset (map we_index (concat (map (\<lambda>s. in_section s es) section_order))) = mset (map we_index es)"
proof (induction es)
  case (Cons e es)
  then show ?case by (cases "we_section e") (simp_all add: in_section_def section_order_def)
qed (simp add: in_section_def section_order_def)

lemma concat_indices:
  "(\<And>s. mset (map we_index (f s)) = mset (map we_index (g s))) \<Longrightarrow>
   mset (map we_index (concat (map f ss))) = mset (map we_index (concat (map g ss)))"
  by (induction ss) auto

lemma allocate_indices:
  assumes "map we_index es = [0..<n]"
  shows "map we_index (allocate caps es) = [0..<n]"
proof (cases "total_chars caps < sum_list (map we_before_chars es)")
  case True
  let ?f = "\<lambda>s. allocate_section (section_caps_for caps es s) s (in_section s es)"
  have "mset (map we_index (concat (map ?f section_order))) = mset [0..<n]"
    using concat_indices [of ?f "\<lambda>s. in_section s es" section_order] allocate_section_indices
      by_section_indices [of es] assms by simp
  then have "mset (map we_index (allocate caps es)) = mset [0..<n]"
    unfolding allocate_def if_P [OF True] by simp
  moreover have "sorted (map we_index (allocate caps es))"
    unfolding allocate_def if_P [OF True] by simp
  ultimately have "sort [0..<n] = map we_index (allocate caps es)" by (rule properties_for_sort)
  then show ?thesis by (simp add: sorted_sort_id)
qed (use assms in \<open>simp add: allocate_def\<close>)

lemma allocate_origin: "e' \<in> set (allocate caps es) \<Longrightarrow> \<exists>e\<in>set es. becomes e e'"
  unfolding allocate_def in_section_def
  by (force dest!: allocate_section_origin split: if_splits)

definition section_caps_pos :: "budget_caps \<Rightarrow> bool" where
  "section_caps_pos caps = (\<forall>s\<in>set section_order. 0 < get_section_cap caps s)"

lemma section_caps_for_pos: "section_caps_pos caps \<Longrightarrow> 0 < section_caps_for caps es s"
  using rebalance_room(2) [OF slack_nonneg, of "get_section_cap caps" s "before_chars_of es"] all_sections [of s]
  by (force simp: section_caps_for_def create_section_cap_map_def section_caps_pos_def Let_def)

lemma allocate_keeps:
  assumes "list_all fresh_entry es" "section_caps_pos caps" "e \<in> set es"
    "we_section e \<in> never_drop_sections \<or> (\<forall>x\<in>set es. we_section x = we_section e \<longrightarrow> we_index x \<le> we_index e)"
  shows "\<exists>e'\<in>set (allocate caps es). we_index e' = we_index e \<and> \<not> we_dropped e'"
proof (cases "total_chars caps < sum_list (map we_before_chars es)")
  case True
  let ?s = "we_section e"
  have "list_all fresh_entry (in_section ?s es)" using assms(1) unfolding in_section_def list_all_iff by auto
  moreover have "e \<in> set (in_section ?s es)" using assms(3) unfolding in_section_def by simp
  moreover have "?s \<in> never_drop_sections \<or> (\<forall>x\<in>set (in_section ?s es). we_index x \<le> we_index e)"
    using assms(4) unfolding in_section_def by auto
  ultimately obtain e' where
    "e' \<in> set (allocate_section (section_caps_for caps es ?s) ?s (in_section ?s es))"
    "we_index e' = we_index e" "\<not> we_dropped e'"
    using section_keeps [OF _ section_caps_for_pos [OF assms(2)]] by blast
  then show ?thesis unfolding allocate_def if_P [OF True] using all_sections [of ?s] by auto
next
  case False
  then show ?thesis using assms(1,3) unfolding allocate_def list_all_iff by (auto simp: fresh_entry_def)
qed

text \<open>The messages that stay, by their position in the conversation.\<close>

definition kept_indices :: "chat_message list \<Rightarrow> budget_config \<Rightarrow> nat list" where
  "kept_indices ms cfg = map we_index
     (final_entries (allocate (bp_caps (derive_prompt_budget_plan cfg)) (working_entries ms)))"

definition protected_indices :: "chat_message list \<Rightarrow> nat set" where
  "protected_indices ms = {i. i < length ms \<and>
     (resolve_sections ms ! i \<in> never_drop_sections \<or> resolve_sections ms ! i \<notin> set (drop (Suc i) (resolve_sections ms)))}"

lemma budget_plan_pos: "section_caps_pos (bp_caps (derive_prompt_budget_plan cfg))"
  unfolding section_caps_pos_def derive_prompt_budget_plan_def
  using section_cap_pos [of "total_of_config cfg"] total_of_config_bounds(1) [of cfg] by simp

lemma protected_newest:
  assumes "i \<in> protected_indices ms" "x \<in> set (working_entries ms)"
    "resolve_sections ms ! i \<notin> never_drop_sections" "we_section x = resolve_sections ms ! i"
  shows "we_index x \<le> i"
proof (rule ccontr)
  let ?j = "we_index x"
  assume "\<not> ?j \<le> i"
  then have j: "?j < length ms" "i < ?j" "we_section x = resolve_sections ms ! ?j"
    using working_entry_section [OF assms(2)] by auto
  then have "resolve_sections ms ! ?j \<in> set (drop (Suc i) (resolve_sections ms))"
    by (auto simp: in_set_conv_nth intro!: exI [of _ "?j - Suc i"])
  then show False using assms(1,3,4) j(3) unfolding protected_indices_def by simp
qed

lemma protected_kept: "protected_indices ms \<subseteq> set (kept_indices ms cfg)"
proof
  fix i
  assume i: "i \<in> protected_indices ms"
  then have lt: "i < length ms" unfolding protected_indices_def by simp
  let ?e = "working_entries ms ! i"
  have e: "?e \<in> set (working_entries ms)" "we_index ?e = i" "we_section ?e = resolve_sections ms ! i"
    using lt nth_mem [of i "working_entries ms"] by (simp_all add: working_entries_nth del: nth_mem)
  obtain e' where "e' \<in> set (allocate (bp_caps (derive_prompt_budget_plan cfg)) (working_entries ms))"
    "we_index e' = i" "\<not> we_dropped e'"
    using allocate_keeps [OF working_entries_fresh budget_plan_pos e(1)] e protected_newest [OF i] by force
  then show "i \<in> set (kept_indices ms cfg)" unfolding kept_indices_def final_entries_def by force
qed

lemma kept_in_order: "sorted_wrt (<) (kept_indices ms cfg)" "set (kept_indices ms cfg) \<subseteq> {..<length ms}"
proof -
  let ?a = "allocate (bp_caps (derive_prompt_budget_plan cfg)) (working_entries ms)"
  have idx: "map we_index ?a = [0..<length ms]" by (rule allocate_indices [OF working_entries_maps(1)])
  have "distinct (map we_index (filter (\<lambda>e. \<not> we_dropped e) ?a))"
    using distinct_upt idx by (metis distinct_map_filter)
  then have "distinct (kept_indices ms cfg)" unfolding kept_indices_def final_entries_def
    by (simp add: distinct_map)
  moreover have "sorted (kept_indices ms cfg)" unfolding kept_indices_def final_entries_def by simp
  ultimately show "sorted_wrt (<) (kept_indices ms cfg)" by (simp add: strict_sorted_iff)
  have "set (map we_index ?a) = {..<length ms}" unfolding idx by auto
  then show "set (kept_indices ms cfg) \<subseteq> {..<length ms}"
    unfolding kept_indices_def final_entries_def by auto
qed

lemma kept_messages:
  "list_all2 (\<lambda>i m. trimmed (ms ! i) m) (kept_indices ms cfg) (br_messages (apply_prompt_budget ms cfg))"
proof -
  let ?c = "bp_caps (derive_prompt_budget_plan cfg)"
  let ?f = "final_entries (allocate ?c (working_entries ms))"
  have "trimmed (ms ! we_index e') (we_message e')" if "e' \<in> set ?f" for e'
  proof -
    have "\<exists>e\<in>set (working_entries ms). becomes e e'"
      using that unfolding final_entries_def by (intro allocate_origin [of _ ?c]) simp
    then obtain e where e: "e \<in> set (working_entries ms)" "becomes e e'" by blast
    have "we_message e = ms ! we_index e" by (rule working_entry_message [OF e(1)])
    then show ?thesis using e(2) unfolding becomes_def by simp
  qed
  then have "\<forall>e'\<in>set ?f. trimmed (ms ! we_index e') (we_message e')" by blast
  then show ?thesis unfolding kept_indices_def apply_prompt_budget_def Let_def
    by (simp add: list_all2_map1 list_all2_map2 list_all2_same)
qed

text \<open>Applying the prompt budget never loses the parts of a prompt that must stay. The resolved facts, the
  first system prompt and the current request all survive, as does the newest message of every other section;
  what is kept stays in the order of the conversation, and a message is changed only by cutting the end of
  its text.\<close>

theorem prompt_budget_keeps_protected:
  "sorted_wrt (<) (kept_indices ms cfg) \<and> set (kept_indices ms cfg) \<subseteq> {..<length ms} \<and>
   protected_indices ms \<subseteq> set (kept_indices ms cfg) \<and>
   list_all2 (\<lambda>i m. trimmed (ms ! i) m) (kept_indices ms cfg) (br_messages (apply_prompt_budget ms cfg))"
  using kept_in_order kept_messages protected_kept by blast

lemma budget_total_before:
  "bd_total_before_chars (br_diagnostics (apply_prompt_budget ms cfg)) = sum_list (map estimate_message_chars ms)"
  unfolding apply_prompt_budget_def Let_def by (simp add: working_entries_maps)

definition protected_count :: "chat_message list \<Rightarrow> nat" where
  "protected_count ms = length (filter (\<lambda>s. s \<in> never_drop_sections) (resolve_sections ms))"

lemma protected_count_entries: "never_drop_count (working_entries ms) = protected_count ms"
  unfolding never_drop_count_def protected_count_def working_entries_maps(2) [symmetric]
  by (simp add: filter_map comp_def)

lemma budget_after:
  "sum_list (map estimate_message_chars (br_messages (apply_prompt_budget ms cfg))) =
     after_chars (final_entries (allocate (bp_caps (derive_prompt_budget_plan cfg)) (working_entries ms)))"
  unfolding apply_prompt_budget_def Let_def after_chars_def by (simp add: comp_def)

lemma plan_caps: "bp_caps (derive_prompt_budget_plan cfg) = caps_of_total (total_of_config cfg)"
  unfolding derive_prompt_budget_plan_def by simp

lemma section_room:
  "over_sections (get_section_cap (caps_of_total (total_of_config cfg))) \<le> total_of_config cfg +
     system_law_chars (caps_of_total (total_of_config cfg))"
  "0 \<le> get_section_cap (caps_of_total (total_of_config cfg)) s"
  using section_caps_total [of "total_of_config cfg"] section_cap_pos [of "total_of_config cfg" s]
    total_of_config_bounds(1) [of cfg] by auto

text \<open>C18: The prompt fits the budget. Whatever the configuration, the section caps share out the total exactly
  (the facts section has its own small allowance on top), and after the allocation the estimated size of the
  messages is within the total plus that allowance, apart from a fixed overhead of the message envelopes:
  64 characters for each section that may be cut, 80 for each message that may not be dropped.\<close>

theorem prompt_budget_bound:
  "(let r = apply_prompt_budget ms cfg; caps = bd_caps (br_diagnostics r) in
      sum_list (pool_caps caps) = total_chars caps \<and> list_all (\<lambda>c. 0 \<le> c) (pool_caps caps) \<and>
      system_law_chars caps \<le> 4096 \<and>
      sum_list (map estimate_message_chars (br_messages r))
        \<le> total_chars caps + system_law_chars caps + 320 + 80 * int (protected_count ms))"
proof -
  let ?t = "total_of_config cfg" and ?c = "bp_caps (derive_prompt_budget_plan cfg)"
  have t: "7680 \<le> ?t" using total_of_config_bounds(1) [of cfg] by simp
  note sh = caps_of_total_shares [OF t]
  have caps: "bd_caps (br_diagnostics (apply_prompt_budget ms cfg)) = caps_of_total ?t"
    unfolding apply_prompt_budget_def Let_def plan_caps by simp
  have "after_chars (final_entries (allocate (caps_of_total ?t) (working_entries ms))) \<le>
    max ?t (over_sections (get_section_cap (caps_of_total ?t))) + 320 + 80 * int (protected_count ms)"
    using allocate_bound [OF working_entries_fresh [of ms] section_room(2) [of cfg]]
    unfolding protected_count_entries sh(8) .
  then show ?thesis
    unfolding Let_def caps budget_after plan_caps
    using sh section_room(1) [of cfg] by (auto simp: list_all_iff)
qed

end
