(* ===== verification/ContextTruncation.thy ===== *)
theory ContextTruncation
  imports PromptBudget
begin

text \<open>
  Fitting a conversation into the request: \<open>truncateMessages\<close>, the per-result cap, the section and the legacy
  fallbacks and the summary of what was dropped (\<open>packages/agent/src/memory/context-truncation.ts\<close>,
  \<open>MAX_CONTEXT_TOKENS\<close> of \<open>memory/context-management/budget.ts\<close>). In the patterns \<open>~\<close> stands for the backslash.
\<close>

section \<open>The summary of dropped messages\<close>

definition max_context_tokens :: nat where
  "max_context_tokens = 64000"

definition newline :: string where
  "newline = [CHR 0x0A]"

record call_meta =
  cl_name :: string
  cl_path :: "string option"
  cl_command :: "string option"

record history_notes =
  hn_actions :: "string list"
  hn_written :: "string list"
  hn_read :: "string list"
  hn_meta :: "(string, call_meta) jsmap"

text \<open>A path that is the empty string counts as none, as in the tests of the source.\<close>

definition truthy :: "string option \<Rightarrow> string option" where
  "truthy p = (if p = Some [] then None else p)"

definition note_call :: "history_notes \<Rightarrow> tool_call \<Rightarrow> history_notes" where
  "note_call st tc =
     (let path = extract_file_path (tc_name tc) (tc_args tc);
          command = string_arg (tc_args tc) ''command'';
          st = st\<lparr>hn_meta := js_set (hn_meta st) (tc_id tc)
                    \<lparr>cl_name = tc_name tc, cl_path = path, cl_command = command\<rparr>\<rparr>;
          act = (\<lambda>st a. st\<lparr>hn_actions := hn_actions st @ [a]\<rparr>)
      in if tc_name tc = ''write_file'' then
           (case truthy path of
              None \<Rightarrow> st
            | Some p \<Rightarrow> if p \<in> set (hn_written st) then st
                else act (st\<lparr>hn_written := set_add (hn_written st) p\<rparr>) (''wrote '' @ p))
         else if tc_name tc = ''replace_in_file'' then
           (case truthy path of None \<Rightarrow> st | Some p \<Rightarrow> act st (''edited '' @ p))
         else if tc_name tc = ''read_file'' then
           (case truthy path of
              None \<Rightarrow> st
            | Some p \<Rightarrow> if p \<in> set (hn_read st) then st
                else act (st\<lparr>hn_read := set_add (hn_read st) p\<rparr>) (''read '' @ p))
         else if tc_name tc = ''run_command'' then
           act st (''ran: '' @ (case command of Some c \<Rightarrow> take 60 c | None \<Rightarrow> ''command''))
         else act st (''called '' @ tc_name tc))"

definition note_message :: "history_notes \<Rightarrow> chat_message \<Rightarrow> history_notes" where
  "note_message st m = (if cm_role m \<noteq> AssistantRole then st else foldl note_call st (calls_of m))"

definition collect_notes :: "chat_message list \<Rightarrow> history_notes" where
  "collect_notes ms = foldl note_message \<lparr>hn_actions = [], hn_written = [], hn_read = [], hn_meta = []\<rparr> ms"

definition failure_words_re :: string where
  "failure_words_re =
     ''^Error:|~b(?:failed|exception|traceback|syntax error|enoent|eacces|permission denied)~b''"

definition no_errors_re :: string where
  "no_errors_re = ''~bno errors~b''"

definition success_words_re :: string where
  "success_words_re = ''~b(?:passed|success|0 failed|build succeeded|compiled successfully)~b''"

definition normalize_spaces :: "string \<Rightarrow> string" where
  "normalize_spaces s = js_trim (rx_replace_all flag_i ''~s+'' '' '' s)"

text \<open>What the summary says of one tool result, if anything.\<close>

definition notable_result :: "(string, call_meta) jsmap \<Rightarrow> chat_message \<Rightarrow> string list" where
  "notable_result metas m =
     (if cm_role m \<noteq> ToolRole then [] else
      case (truthy (cm_call_id m), truthy (cm_content m)) of
        (Some i, Some c) \<Rightarrow>
          (case js_get metas i of
             None \<Rightarrow> []
           | Some meta \<Rightarrow>
               (let normalized = normalize_spaces c;
                    short = (if 120 < length normalized then take 120 normalized @ ''...'' else normalized);
                    path_label = (case truthy (cl_path meta) of Some p \<Rightarrow> '' '' @ p | None \<Rightarrow> [])
                in if rx_test flag_i failure_words_re normalized \<and> \<not> rx_test flag_i no_errors_re normalized
                   then [cl_name meta @ path_label @ '' failed: '' @ short]
                   else if cl_name meta = ''run_command'' \<and> rx_test flag_i success_words_re normalized
                   then [''run_command succeeded: '' @
                           (case truthy (cl_command meta) of Some cmd \<Rightarrow> take 50 cmd | None \<Rightarrow> ''command'')]
                   else []))
      | _ \<Rightarrow> [])"

definition bullet_lines :: "string list \<Rightarrow> string" where
  "bullet_lines xs = js_join newline (map (\<lambda>a. ''- '' @ a) xs)"

definition build_dropped_history_summary :: "chat_message list \<Rightarrow> string" where
  "build_dropped_history_summary ms =
     (let notes = collect_notes ms;
          actions = hn_actions notes;
          results = concat (map (notable_result (hn_meta notes)) ms);
          displayed = (if length actions \<le> 15 then actions
            else take 12 actions @ [''... and '' @ show_nat (length actions - 12) @ '' more actions'']);
          displayed_results = (if length results \<le> 8 then results
            else take 6 results @ [''... and '' @ show_nat (length results - 6) @ '' more notable results''])
      in if actions = [] \<and> results = [] then ''[Earlier conversation truncated to save context budget.]''
         else ''[Earlier conversation truncated. Here is what you already did:]'' @ newline @
           (if displayed \<noteq> [] then bullet_lines displayed else ''- no retained action summary'') @
           (if displayed_results \<noteq> [] then newline @ ''[Notable results:]'' @ newline @ bullet_lines displayed_results
            else []) @
           newline @ ''[Do NOT repeat these actions. Continue from where you left off.]'')"

section \<open>The legacy fallback: head and tail\<close>

definition last_msgs :: "nat \<Rightarrow> 'a list \<Rightarrow> 'a list" where
  "last_msgs n xs = drop (length xs - n) xs"

definition slice :: "nat \<Rightarrow> nat \<Rightarrow> 'a list \<Rightarrow> 'a list" where
  "slice i j xs = drop i (take j xs)"

definition summary_message :: "string \<Rightarrow> chat_message" where
  "summary_message s = plain_message SystemRole (Some s)"

definition legacy_candidate :: "chat_message list \<Rightarrow> nat \<Rightarrow> chat_message list" where
  "legacy_candidate ms tail_size =
     take 2 ms @ [summary_message (build_dropped_history_summary (slice 2 (length ms - tail_size) ms))] @
     last_msgs tail_size ms"

function legacy_tail :: "chat_message list \<Rightarrow> nat \<Rightarrow> nat" where
  "legacy_tail ms tail_size =
     (if tail_size < length ms - 2 then
        (if max_context_tokens < estimate_tokens (legacy_candidate ms tail_size) None
         then max 4 (tail_size - 2)
         else legacy_tail ms (tail_size + 2))
      else tail_size)"
  by pat_completeness auto

termination legacy_tail
  by (relation "measure (\<lambda>(ms, t). length ms - t)") auto

declare legacy_tail.simps [simp del]

definition truncate_legacy :: "chat_message list \<Rightarrow> chat_message list" where
  "truncate_legacy ms = legacy_candidate ms (legacy_tail ms 4)"

section \<open>The fallback by sections\<close>

definition head_sections :: "prompt_section set" where
  "head_sections = {SystemAnchor, SystemRuntime, MemoryWorking, MemoryEpisodic, MemorySemantic}"

definition in_head :: "chat_message \<Rightarrow> bool" where
  "in_head m = (cm_role m = SystemRole \<or> (case cm_section m of Some s \<Rightarrow> s \<in> head_sections | None \<Rightarrow> False))"

definition is_request :: "chat_message \<Rightarrow> bool" where
  "is_request m = (cm_section m = Some UserSection \<or> cm_role m = UserRole \<and> cm_section m = None)"

definition drop_oldest_history :: "chat_message list \<Rightarrow> chat_message list" where
  "drop_oldest_history ms = (case find_index (\<lambda>m. \<not> in_head m) ms of
      None \<Rightarrow> ms
    | Some system_end \<Rightarrow>
        (let history_start = max system_end (case find_index is_request ms of None \<Rightarrow> 0 | Some u \<Rightarrow> u + 1);
             tail_part = drop history_start ms
         in if length tail_part \<le> 6 then ms
            else (let keep_count = max 6 (length tail_part div 2);
                      summary = build_dropped_history_summary (take (length tail_part - keep_count) tail_part)
                  in take history_start ms @
                     [(summary_message summary)\<lparr>cm_section := Some HistorySection\<rparr>] @
                     last_msgs keep_count tail_part)))"

fun drop_sections :: "prompt_section list \<Rightarrow> chat_message list \<Rightarrow> chat_message list" where
  "drop_sections [] ms = ms"
| "drop_sections (s # ss) ms =
     (if estimate_tokens ms None \<le> max_context_tokens then ms
      else drop_sections ss
        (if s = HistorySection then drop_oldest_history ms else filter (\<lambda>m. cm_section m \<noteq> Some s) ms))"

definition truncate_by_section :: "chat_message list \<Rightarrow> chat_message list" where
  "truncate_by_section ms =
     (let current = drop_sections drop_priority ms in
      if max_context_tokens < estimate_tokens current None then truncate_legacy current else current)"

section \<open>Truncation\<close>

definition max_result_len :: nat where
  "max_result_len = 8000"

definition trim_result :: "chat_message \<Rightarrow> chat_message" where
  "trim_result m = (case cm_content m of
      Some c \<Rightarrow> if cm_role m = ToolRole \<and> max_result_len < length c
        then m\<lparr>cm_content := Some (take max_result_len c @ newline @ ''... (output truncated)'')\<rparr> else m
    | None \<Rightarrow> m)"

definition per_result_cap :: "chat_message list \<Rightarrow> int \<Rightarrow> int" where
  "per_result_cap ms budget =
     min 16384 (max 1024 (budget div int (length (filter (\<lambda>m. cm_role m = ToolRole) ms))))"

definition cap_result :: "int \<Rightarrow> chat_message \<Rightarrow> chat_message" where
  "cap_result cap m = (case cm_content m of
      Some c \<Rightarrow> if cm_role m = ToolRole \<and> cap < int (length c)
        then m\<lparr>cm_content := Some (take (nat cap) c @ newline @ ''... (output truncated by section budget)'')\<rparr> else m
    | None \<Rightarrow> m)"

definition enforce_per_tool_result_cap :: "chat_message list \<Rightarrow> int \<Rightarrow> chat_message list" where
  "enforce_per_tool_result_cap ms budget =
     (if filter (\<lambda>m. cm_role m = ToolRole) ms = [] then ms else map (cap_result (per_result_cap ms budget)) ms)"

definition truncation_config :: "string option \<Rightarrow> budget_config" where
  "truncation_config model_hint = \<lparr>pc_context_window_tokens = Some 64000, pc_max_output_tokens = Some 4096,
     pc_char_per_token = Some 4, pc_safety_margin_tokens = None, pc_hard_max_prompt_chars = Some (64000 * 4),
     pc_model = model_hint\<rparr>"

record truncation_result =
  tr_messages :: "chat_message list"
  tr_diagnostics :: "budget_diagnostics option"

definition truncate_messages :: "chat_message list \<Rightarrow> string option \<Rightarrow> truncation_result" where
  "truncate_messages ms model_hint =
     (let short = map trim_result ms in
      if estimate_tokens short model_hint \<le> max_context_tokens \<or> length short \<le> 4
      then \<lparr>tr_messages = short, tr_diagnostics = None\<rparr>
      else if list_ex (\<lambda>m. cm_section m \<noteq> None) short
      then (let r = apply_prompt_budget short (truncation_config model_hint) in
            if br_messages r \<noteq> []
            then \<lparr>tr_messages = enforce_per_tool_result_cap (br_messages r)
                                 (history_chars (bd_caps (br_diagnostics r))),
                  tr_diagnostics = Some (br_diagnostics r)\<rparr>
            else \<lparr>tr_messages = truncate_by_section short, tr_diagnostics = None\<rparr>)
      else \<lparr>tr_messages = truncate_legacy short, tr_diagnostics = None\<rparr>)"

section \<open>What survives\<close>

lemma budget_unconstrained:
  assumes "sum_list (map estimate_message_chars ms) \<le> total_of_config cfg"
  shows "br_messages (apply_prompt_budget ms cfg) = ms"
proof -
  let ?w = "working_entries ms"
  have t: "total_chars (bp_caps (derive_prompt_budget_plan cfg)) = total_of_config cfg"
    unfolding plan_caps using caps_of_total_shares(8) [of "total_of_config cfg"] total_of_config_bounds(1) [of cfg] by simp
  have a: "allocate (bp_caps (derive_prompt_budget_plan cfg)) ?w = ?w"
    unfolding allocate_def t working_entries_maps using assms by simp
  have f: "filter (\<lambda>e. \<not> we_dropped e) ?w = ?w"
    using working_entries_fresh [of ms] unfolding list_all_iff fresh_entry_def by (simp add: filter_id_conv)
  have "sorted (map we_index ?w)" unfolding working_entries_maps by simp
  then have "final_entries ?w = ?w" unfolding final_entries_def f by (rule sort_key_id_if_sorted)
  moreover have "map we_message ?w = ms" by (rule nth_equalityI) (simp_all add: working_entries_nth)
  ultimately show ?thesis unfolding apply_prompt_budget_def Let_def a by simp
qed

lemma budget_nonempty: "ms \<noteq> [] \<Longrightarrow> br_messages (apply_prompt_budget ms cfg) \<noteq> []"
proof -
  assume ne: "ms \<noteq> []"
  then have "length ms - 1 \<in> protected_indices ms" unfolding protected_indices_def by simp
  then have "kept_indices ms cfg \<noteq> []" using protected_kept [of ms cfg] by auto
  then show ?thesis using kept_messages [of ms cfg] by auto
qed








lemma truncation_total: "total_of_config (truncation_config h) = 226816"
proof -
  have s: "js_share 64000 w005 = 3200" "js_share 64000 w050 = 32000" by code_simp+
  show ?thesis
    unfolding total_of_config_def model_of_config_def truncation_config_def floor_or_def Let_def
    by (simp add: s clamp_def min_prompt_char_budget_def max_prompt_char_budget_def default_safety_margin_tokens_def)
qed


definition tool_messages :: "chat_message list \<Rightarrow> nat" where
  "tool_messages ms = length (filter (\<lambda>m. cm_role m = ToolRole) ms)"


lemma cap_result_role [simp]: "cm_role (cap_result cap m) = cm_role m"
  unfolding cap_result_def by (simp split: option.splits)





lemma structured_truncation:
  assumes "length ms > 4" "max_context_tokens < estimate_tokens (map trim_result ms) h"
    "list_ex (\<lambda>m. cm_section m \<noteq> None) (map trim_result ms)"
  shows "tr_messages (truncate_messages ms h) =
    enforce_per_tool_result_cap (br_messages (apply_prompt_budget (map trim_result ms) (truncation_config h)))
      (history_chars (bd_caps (br_diagnostics (apply_prompt_budget (map trim_result ms) (truncation_config h)))))"
proof -
  have "map trim_result ms \<noteq> []" using assms(1) by auto
  then show ?thesis using assms budget_nonempty unfolding truncate_messages_def Let_def by simp
qed




section \<open>What modelling showed\<close>

text \<open>With five messages and no section tags the tail of four overlaps the head of two: the second message is
  sent twice, with a summary that says earlier messages were dropped.\<close>

lemma legacy_duplicates_second:
  "truncate_legacy [a, b, c, d, e] =
     [a, b, summary_message ''[Earlier conversation truncated to save context budget.]'', b, c, d, e]"
proof -
  have t: "legacy_tail [a, b, c, d, e] 4 = 4" by (subst legacy_tail.simps) simp
  show ?thesis
    unfolding truncate_legacy_def legacy_candidate_def t build_dropped_history_summary_def collect_notes_def
    by (simp add: last_msgs_def slice_def)
qed

text \<open>The last step of the loop is not checked: when the shortest tail fits, eight messages come back all, and
  the conversation that was over the limit is sent whole.\<close>

definition long_third :: "chat_message list" where
  "long_third = [plain_message SystemRole (Some ''You are an agent''), plain_message UserRole (Some ''Summarise''),
     plain_message AssistantRole (Some (replicate 300000 (CHR ''x''))), plain_message UserRole (Some ''Go on''),
     plain_message AssistantRole (Some ''Yes''), plain_message UserRole (Some ''And now''),
     plain_message AssistantRole (Some ''Done''), plain_message UserRole (Some ''Thanks'')]"

lemma char_per_token_default: "char_per_token None = 40"
  unfolding char_per_token_def default_factor_def by simp

lemma long_third_summary: "build_dropped_history_summary (slice 2 4 long_third) =
    ''[Earlier conversation truncated to save context budget.]''"
  unfolding build_dropped_history_summary_def collect_notes_def long_third_def slice_def plain_message_def
  by (simp add: note_message_def calls_of_def notable_result_def)

lemma long_third_fits: "estimate_tokens (legacy_candidate long_third 4) None \<le> max_context_tokens"
proof -
  have l: "length long_third - 4 = 4" unfolding long_third_def by simp
  have c: "legacy_candidate long_third 4 = take 2 long_third @
      [summary_message ''[Earlier conversation truncated to save context budget.]''] @ last_msgs 4 long_third"
    unfolding legacy_candidate_def l long_third_summary ..
  show ?thesis
    unfolding estimate_within char_per_token_default c max_context_tokens_def
    by (simp add: long_third_def last_msgs_def summary_message_def plain_message_def message_chars_def
        content_text_def calls_of_def)
qed

lemma legacy_sends_everything:
  "truncate_legacy long_third = legacy_candidate long_third 6"
  "last_msgs 6 long_third = drop 2 long_third"
  "max_context_tokens < estimate_tokens (truncate_legacy long_third) None"
proof -
  have "legacy_tail long_third 4 = legacy_tail long_third 6"
    using long_third_fits by (subst legacy_tail.simps) (simp add: not_less long_third_def)
  also have "\<dots> = 6" by (subst legacy_tail.simps) (simp add: long_third_def)
  finally show t: "truncate_legacy long_third = legacy_candidate long_third 6" unfolding truncate_legacy_def by simp
  show d: "last_msgs 6 long_third = drop 2 long_third" unfolding last_msgs_def long_third_def by simp
  have "\<not> sum_list (map message_chars (legacy_candidate long_third 6)) * 10 \<le> 64000 * 40"
    unfolding legacy_candidate_def d
    by (simp add: long_third_def plain_message_def message_chars_def content_text_def calls_of_def)
  then show "max_context_tokens < estimate_tokens (truncate_legacy long_third) None"
    unfolding t not_le [symmetric] estimate_within char_per_token_default max_context_tokens_def .
qed

text \<open>A command that passed is reported as failed when its output counts the failures.\<close>

definition passed_result :: chat_message where
  "passed_result = (plain_message ToolRole (Some ''12 passed, 0 failed''))\<lparr>cm_call_id := Some ''c1''\<rparr>"

lemma passed_result_words:
  "rx_test flag_i success_words_re ''12 passed, 0 failed''"
  "rx_test flag_i failure_words_re ''12 passed, 0 failed''"
  "\<not> rx_test flag_i no_errors_re ''12 passed, 0 failed''"
  "rx_replace_all flag_i ''~s+'' '' '' ''12 passed, 0 failed'' = ''12 passed, 0 failed''"
  "js_trim ''12 passed, 0 failed'' = ''12 passed, 0 failed''"
  by code_simp+

lemma passing_run_reported_failed:
  "notable_result [(''c1'', \<lparr>cl_name = ''run_command'', cl_path = None, cl_command = Some ''npm test''\<rparr>)] passed_result
     = [''run_command failed: 12 passed, 0 failed'']"
proof -
  have "normalize_spaces ''12 passed, 0 failed'' = ''12 passed, 0 failed''"
    unfolding normalize_spaces_def passed_result_words ..
  then show ?thesis
    unfolding notable_result_def passed_result_def plain_message_def
    using passed_result_words by (simp add: truthy_def js_get_def)
qed

text \<open>The budget counts the text of a message and 64 characters, not the arguments of its tool calls: a call
  with long arguments leaves the conversation over the limit, and the budget reports that nothing is cut.\<close>

definition long_call :: chat_message where
  "long_call = (plain_message AssistantRole None)\<lparr>cm_calls := Some
     [\<lparr>tc_id = ''c1'', tc_name = ''write_file'', tc_args = [(''content'', JStr (replicate 300000 (CHR ''x'')))]\<rparr>],
     cm_section := Some HistorySection\<rparr>"

definition long_call_chat :: "chat_message list" where
  "long_call_chat = [plain_message SystemRole (Some ''You are an agent''), plain_message UserRole (Some ''Write''),
     long_call, plain_message AssistantRole (Some ''Done''), plain_message AssistantRole (Some ''Next'')]"

lemma quote_plain: "length (quote_json (replicate n (CHR ''x''))) = n + 2"
  unfolding quote_json_def by (induction n) (simp_all add: escape_char_def)

lemma long_call_chars: "300000 \<le> message_chars long_call"
  unfolding message_chars_def long_call_def plain_message_def calls_of_def call_chars_def
  by (simp add: quote_plain)

lemma long_call_trim: "map trim_result long_call_chat = long_call_chat"
  unfolding long_call_chat_def by (simp add: trim_result_def plain_message_def long_call_def)

lemma call_arguments_not_counted:
  "tr_messages (truncate_messages long_call_chat None) = long_call_chat"
  "max_context_tokens < estimate_tokens long_call_chat None"
proof -
  have "300000 \<le> sum_list (map message_chars long_call_chat)"
    unfolding long_call_chat_def using long_call_chars by simp
  then show over: "max_context_tokens < estimate_tokens long_call_chat None"
    unfolding not_le [symmetric] estimate_within char_per_token_default max_context_tokens_def by simp
  have "sum_list (map estimate_message_chars long_call_chat) \<le> total_of_config (truncation_config None)"
    unfolding truncation_total
    by (simp add: long_call_chat_def estimate_message_chars_def plain_message_def long_call_def)
  note kept = budget_unconstrained [OF this]
  have "tool_messages long_call_chat = 0"
    by (simp add: tool_messages_def long_call_chat_def plain_message_def long_call_def)
  then have "enforce_per_tool_result_cap long_call_chat b = long_call_chat" for b
    unfolding enforce_per_tool_result_cap_def tool_messages_def by simp
  moreover have "4 < length long_call_chat" "list_ex (\<lambda>m. cm_section m \<noteq> None) (map trim_result long_call_chat)"
    unfolding long_call_trim by (simp_all add: long_call_chat_def long_call_def)
  ultimately show "tr_messages (truncate_messages long_call_chat None) = long_call_chat"
    using over structured_truncation [of long_call_chat None] unfolding long_call_trim kept by simp
qed

text \<open>The per-result cap can lengthen a result: one character over the cap is replaced by a longer suffix.\<close>

lemma cap_result_grows:
  assumes "cm_role m = ToolRole" "cm_content m = Some c" "int (length c) = cap + 1" "0 \<le> cap"
  shows "estimate_message_chars (cap_result cap m) = estimate_message_chars m + 40"
  using assms unfolding cap_result_def estimate_message_chars_def newline_def by simp

text \<open>The newest messages of the history are kept while they fit, each for itself: a long tool result is dropped
  and the call it answers is kept, since a call without text costs 64 characters.\<close>

definition history_entry :: "nat \<Rightarrow> int \<Rightarrow> working_entry" where
  "history_entry i n = \<lparr>we_index = i, we_before_chars = n, we_section = HistorySection,
     we_message = plain_message AssistantRole None, we_dropped = False, we_truncated = False\<rparr>"

lemma call_kept_without_result:
  "map we_dropped (keep_while_room 6000 0 0
     [history_entry 3 4064, history_entry 2 64, history_entry 1 7964, history_entry 0 64]) =
   [False, False, True, False]"
  unfolding history_entry_def by simp

text \<open>In the configuration of the truncation, four tenths of the characters are set aside for a section no
  message can be in.\<close>

lemma other_budget_unused:
  "other_chars (bp_caps (derive_prompt_budget_plan (truncation_config h))) = 90816"
  "total_chars (bp_caps (derive_prompt_budget_plan (truncation_config h))) = 226816"
proof -
  have "other_chars (caps_of_total 226816) = 90816" "total_chars (caps_of_total 226816) = 226816" by code_simp+
  then show "other_chars (bp_caps (derive_prompt_budget_plan (truncation_config h))) = 90816"
    "total_chars (bp_caps (derive_prompt_budget_plan (truncation_config h))) = 226816"
    unfolding plan_caps truncation_total by simp_all
qed
end
