(* ===== verification/ContextCompaction.thy ===== *)
theory ContextCompaction
  imports ContextTruncation
begin

text \<open>
  Compaction of the history before each call of the model: \<open>compactMessages\<close> and its summaries
  (\<open>packages/agent/src/memory/context-management\<close>), the checkpoint that replaces old rounds
  (\<open>memory/context-compaction\<close>), and \<open>prepareIterationContext\<close> and \<open>capRuntimeHints\<close> of
  \<open>runtime/run-a-goal/iteration-prepare.ts\<close>, which put compaction and truncation together. The collation of
  \<open>localeCompare\<close>, the number format of \<open>toLocaleString\<close> and the loop policy's start of a turn are parameters. The memo of
  \<open>extractCompactionState\<close> is left out: its key is the identity of an array that is made anew for every call.
\<close>

section \<open>Summaries of tool results\<close>

definition dash :: string where
  "dash = [CHR 0x97]"

definition line_count :: "string \<Rightarrow> nat" where
  "line_count s = length (js_split (CHR 0x0A) s)"

definition rule_line_re :: string where
  "rule_line_re = ''^[/#*~-_=]{3,}$''"

definition extract_compact_excerpt :: "string \<Rightarrow> string" where
  "extract_compact_excerpt content =
     (case List.find (\<lambda>line. 8 < length line \<and> \<not> rx_test flag_none rule_line_re line)
             (map js_trim (js_split (CHR 0x0A) content)) of
        None \<Rightarrow> []
      | Some line \<Rightarrow>
          (let normalized = rx_replace_all flag_none ''~s+'' '' '' line in
           if 160 < length normalized then take 160 normalized @ ''...'' else normalized))"

text \<open>The names a pattern \<open>a(b)c\<close> with the \<open>g\<close> flag captures, one match after the other.\<close>

fun captures_from :: "nat \<Rightarrow> regex \<Rightarrow> regex \<Rightarrow> regex \<Rightarrow> string \<Rightarrow> string \<Rightarrow> string list" where
  "captures_from 0 a b c before s = []"
| "captures_from (Suc n) a b c before s =
     (case concat (map (\<lambda>p. concat (map (\<lambda>q. map (\<lambda>e. (p, q, e)) (rx_ends flag_none c q)) (rx_ends flag_none b p)))
             (rx_ends flag_none a (before, s))) of
        (p, q, e) # ms \<Rightarrow> matched_text (p, q) # captures_from n a b c (fst e) (snd e)
      | [] \<Rightarrow> (case s of [] \<Rightarrow> [] | d # ds \<Rightarrow> captures_from n a b c (d # before) ds))"

definition js_name_re :: string where
  "js_name_re = ''[A-Za-z_$][~w$]*''"

definition py_name_re :: string where
  "py_name_re = ''[A-Za-z_][~w]*''"

definition definition_patterns :: "(string \<times> string \<times> string) list" where
  "definition_patterns =
     [(''export~s+default~s+(?:async~s+)?function~s+'', js_name_re, ''''),
      (''export~s+(?:async~s+)?function~s+'', js_name_re, ''''),
      (''(?:^|~n)~s*(?:async~s+)?function~s+'', js_name_re, ''''),
      (''export~s+(?:const|let|var)~s+'', js_name_re, ''~s*=~s*(?:async~s*)?(?:~(|function~b)''),
      (''(?:^|~n)~s*(?:const|let|var)~s+'', js_name_re, ''~s*=~s*(?:async~s*)?(?:~(|function~b)''),
      (''export~s+class~s+'', js_name_re, ''''),
      (''(?:^|~n)~s*class~s+'', js_name_re, ''''),
      (''export~s+(?:interface|type|enum)~s+'', js_name_re, ''''),
      (''(?:^|~n)~s*(?:interface|type|enum)~s+'', js_name_re, ''''),
      (''(?:^|~n)~s*def~s+'', py_name_re, ''~s*~(''),
      (''(?:^|~n)~s*class~s+'', py_name_re, ''~s*(?:~(|:)'')]"

definition definition_names :: "string \<Rightarrow> string list" where
  "definition_names code = set_of_list (concat (map (\<lambda>(a, b, c).
     captures_from (Suc (length code)) (regex_of a) (regex_of b) (regex_of c) [] code) definition_patterns))"

definition extract_definition_summary :: "string \<Rightarrow> string option" where
  "extract_definition_summary code =
     (let names = definition_names code in
      if names = [] then None
      else if length names \<le> 10 then Some (js_join '', '' names)
      else Some (js_join '', '' (take 10 names) @ '' (+'' @ show_nat (length names - 10) @ '' more)''))"

definition document_path_re :: string where
  "document_path_re = ''~.(?:json|ya?ml|toml|md|txt|rst|adoc)$''"

definition build_compacted_semantic_suffix :: "string option \<Rightarrow> string \<Rightarrow> string" where
  "build_compacted_semantic_suffix file_path content =
     (case truthy (extract_definition_summary content) of
        Some defs \<Rightarrow> '' '' @ dash @ '' symbols: '' @ defs
      | None \<Rightarrow>
          (let excerpt = extract_compact_excerpt content in
           if excerpt = [] then []
           else (let label = (case truthy file_path of
                     Some p \<Rightarrow> if rx_test flag_i document_path_re p then ''summary'' else ''excerpt''
                   | None \<Rightarrow> ''excerpt'')
                 in '' '' @ dash @ '' '' @ label @ '': '' @ excerpt)))"

definition path_label :: "string option \<Rightarrow> string" where
  "path_label p = (case truthy p of Some q \<Rightarrow> '' '' @ q | None \<Rightarrow> [])"

definition compact_tool_result :: "string \<Rightarrow> string option \<Rightarrow> string \<Rightarrow> string" where
  "compact_tool_result tool_name file_path content =
     (let lines_n = show_nat (line_count content); chars_n = show_nat (length content);
          label = path_label file_path; suffix = build_compacted_semantic_suffix file_path content
      in if tool_name = ''read_file'' \<or> tool_name = ''write_file'' then
           ''[compacted] '' @ tool_name @ label @ '': '' @ lines_n @ '' lines, '' @ chars_n @ '' chars'' @ suffix
         else if tool_name = ''replace_in_file'' then
           ''[compacted] replace_in_file'' @ label @ '': replacement applied ('' @ chars_n @ '' chars in result)'' @ suffix
         else if tool_name = ''run_command'' then
           (let ls = js_split (CHR 0x0A) content in
            if length ls \<le> 10 then content
            else ''[compacted] run_command ('' @ lines_n @ '' lines):'' @ newline @ js_join newline (take 3 ls) @ newline @
              ''  ... ('' @ show_nat (line_count content - 6) @ '' lines omitted) ...'' @ newline @
              js_join newline (last_msgs 3 ls))
         else if tool_name = ''list_directory'' then ''[compacted] list_directory'' @ label @ '': '' @ lines_n @ '' entries''
         else if tool_name = ''search_files'' then ''[compacted] search_files: '' @ lines_n @ '' result lines''
         else if length content < 500 then content
         else ''[compacted] '' @ tool_name @ label @ '' ('' @ chars_n @ '' chars)'' @
           (if suffix \<noteq> [] then suffix else '': '' @ extract_compact_excerpt content))"

section \<open>Results cut when they are written\<close>

definition eager_compact_tools :: "string set" where
  "eager_compact_tools = {''read_attachment'', ''import_attachment'', ''read_file'', ''run_command'', ''shell'', ''fetch_url''}"

definition recall_hint :: "string \<Rightarrow> nat \<Rightarrow> string" where
  "recall_hint tool_name omitted =
     (if tool_name = ''read_attachment'' then
        ''re-call read_attachment with offset=4096 (and offset='' @ show_nat (4096 + omitted div 2) @
        '' etc.) to page through the rest''
      else if tool_name = ''import_attachment'' then
        ''re-call import_attachment with the same id and stream the file from the sandbox path returned above''
      else if tool_name = ''read_file'' then ''re-call read_file with startLine/endLine to fetch a specific range''
      else if tool_name = ''run_command'' \<or> tool_name = ''shell'' then
        ''re-run with a more specific filter (head/tail/grep) to narrow the output''
      else if tool_name = ''fetch_url'' then ''re-fetch with a narrower selector or path''
      else ''re-call with narrower parameters to fetch the omitted region'')"

definition compact_at_write_time :: "(nat \<Rightarrow> string) \<Rightarrow> string \<Rightarrow> string \<Rightarrow> string" where
  "compact_at_write_time locale_number tool_name content =
     (if tool_name \<notin> eager_compact_tools then content
      else if length content \<le> 16 * 1024 then content
      else (let omitted = length content - 4 * 1024 - 1 * 1024 in
        js_join newline
          [take (4 * 1024) content, [],
           ''[truncated at write time '' @ dash @ '' '' @ locale_number omitted @ '' more bytes available; '' @
             recall_hint tool_name omitted @ '']'',
           [], last_msgs (1 * 1024) content]))"

section \<open>Compaction of stale messages\<close>

definition compact_preserve_recent :: nat where "compact_preserve_recent = 1"
definition compact_min_size :: nat where "compact_min_size = 500"
definition write_arg_max :: nat where "write_arg_max = 16384"

definition is_round :: "chat_message \<Rightarrow> bool" where
  "is_round m = (cm_role m = AssistantRole \<and> has_calls m)"

text \<open>\<open>iterationOf\<close>: the number of rounds up to and with message \<open>i\<close>.\<close>

definition iteration_of :: "chat_message list \<Rightarrow> nat \<Rightarrow> nat" where
  "iteration_of ms i = length (filter is_round (take (Suc i) ms))"

definition latest_iteration :: "chat_message list \<Rightarrow> nat" where
  "latest_iteration ms = length (filter is_round ms)"

definition is_write :: "tool_call \<Rightarrow> bool" where
  "is_write tc = (tc_name tc = ''write_file'' \<or> tc_name tc = ''replace_in_file'')"

definition call_path :: "tool_call \<Rightarrow> string option" where
  "call_path tc = extract_file_path (tc_name tc) (tc_args tc)"

definition assistant_calls :: "chat_message \<Rightarrow> tool_call list" where
  "assistant_calls m = (if cm_role m = AssistantRole then calls_of m else [])"

definition note_write :: "nat \<Rightarrow> (string, nat) jsmap \<Rightarrow> tool_call \<Rightarrow> (string, nat) jsmap" where
  "note_write i lw tc = (case truthy (call_path tc) of
      None \<Rightarrow> lw
    | Some p \<Rightarrow> if is_write tc then js_set lw p i else lw)"

definition last_write_of :: "chat_message list \<Rightarrow> (string, nat) jsmap" where
  "last_write_of ms = foldl (\<lambda>lw (i, m). foldl (note_write i) lw (assistant_calls m)) [] (zip [0..<length ms] ms)"

record call_origin =
  co_name :: string
  co_path :: "string option"
  co_index :: nat

definition origins_of :: "chat_message list \<Rightarrow> (string, call_origin) jsmap" where
  "origins_of ms = foldl (\<lambda>om (i, m). foldl (\<lambda>om tc. js_set om (tc_id tc)
     \<lparr>co_name = tc_name tc, co_path = call_path tc, co_index = i\<rparr>) om (assistant_calls m)) []
     (zip [0..<length ms] ms)"

definition content_arg :: "tool_call \<Rightarrow> string" where
  "content_arg tc = (case string_arg (tc_args tc) ''content'' of Some c \<Rightarrow> c | None \<Rightarrow> [])"

definition written_after :: "(string, nat) jsmap \<Rightarrow> string option \<Rightarrow> nat \<Rightarrow> bool" where
  "written_after lw path i = (case path of
      None \<Rightarrow> False
    | Some p \<Rightarrow> (case js_get lw p of None \<Rightarrow> False | Some j \<Rightarrow> i < j))"

text \<open>Strategy 4: the arguments of old, superseded or oversized writes.\<close>

definition needs_compaction :: "(string, nat) jsmap \<Rightarrow> nat \<Rightarrow> nat \<Rightarrow> tool_call \<Rightarrow> bool" where
  "needs_compaction lw age i tc =
     (if compact_preserve_recent < age then compact_min_size \<le> length (content_arg tc)
      else if \<not> is_write tc then False
      else if length (content_arg tc) < compact_min_size then False
      else if write_arg_max < length (content_arg tc) then True
      else written_after lw (truthy (call_path tc)) i)"

definition compact_call :: "(string, nat) jsmap \<Rightarrow> nat \<Rightarrow> nat \<Rightarrow> tool_call \<Rightarrow> tool_call" where
  "compact_call lw age i tc =
     (let content = content_arg tc in
      if length content < compact_min_size then tc
      else if written_after lw (call_path tc) i \<or> compact_preserve_recent < age \<or>
              is_write tc \<and> write_arg_max < length content
      then tc\<lparr>tc_args := js_set (tc_args tc) ''content''
             (JStr (''[compacted '' @ dash @ '' '' @ show_nat (line_count content) @ '' lines, see tool result]''))\<rparr>
      else tc)"

text \<open>Strategies 1 to 3: the text that replaces the result of a superseded read or write, or of an old call.\<close>

definition result_summary :: "(string, nat) jsmap \<Rightarrow> (nat \<Rightarrow> nat) \<Rightarrow> call_origin \<Rightarrow> string \<Rightarrow> string option" where
  "result_summary lw age co content =
     (let lines_n = show_nat (line_count content);
          label = (case co_path co of Some p \<Rightarrow> p | None \<Rightarrow> []);
          superseded = written_after lw (truthy (co_path co)) (co_index co)
      in if co_name co = ''read_file'' \<and> superseded
         then Some (''[compacted '' @ dash @ '' file was modified later] read_file '' @ label @
                '': '' @ lines_n @ '' lines (superseded by later write)'')
         else if (co_name co = ''write_file'' \<or> co_name co = ''replace_in_file'') \<and> superseded
         then Some (''[compacted '' @ dash @ '' file was rewritten later] '' @ co_name co @ '' '' @
                label @ '': '' @ lines_n @ '' lines (superseded)'')
         else if compact_preserve_recent < age (co_index co)
         then Some (compact_tool_result (co_name co) (co_path co) content)
         else None)"

definition compact_result :: "(string, nat) jsmap \<Rightarrow> (string, call_origin) jsmap \<Rightarrow> (nat \<Rightarrow> nat) \<Rightarrow> chat_message \<Rightarrow> chat_message" where
  "compact_result lw origins age m =
     (case (truthy (cm_call_id m), truthy (cm_content m)) of
        (Some cid, Some content) \<Rightarrow>
          (if cm_role m \<noteq> ToolRole \<or> length content < compact_min_size then m
           else case js_get origins cid of
             None \<Rightarrow> m
           | Some co \<Rightarrow> (case result_summary lw age co content of
                None \<Rightarrow> m
              | Some t \<Rightarrow> m\<lparr>cm_content := Some t\<rparr>))
      | _ \<Rightarrow> m)"

definition age_of :: "chat_message list \<Rightarrow> nat \<Rightarrow> nat" where
  "age_of ms i = latest_iteration ms - iteration_of ms i"

definition compact_message :: "chat_message list \<Rightarrow> nat \<Rightarrow> chat_message \<Rightarrow> chat_message" where
  "compact_message ms i m =
     (let lw = last_write_of ms in
      if is_round m then
        (if list_ex (needs_compaction lw (age_of ms i) i) (calls_of m)
         then m\<lparr>cm_calls := Some (map (compact_call lw (age_of ms i) i) (calls_of m))\<rparr> else m)
      else compact_result lw (origins_of ms) (age_of ms) m)"

definition compact_messages :: "chat_message list \<Rightarrow> chat_message list" where
  "compact_messages ms = map (\<lambda>(i, m). compact_message ms i m) (zip [0..<length ms] ms)"

section \<open>Only stale parts change\<close>

text \<open>A call is followed by a write of its file, said of the conversation itself.\<close>

definition writes_path :: "chat_message \<Rightarrow> string \<Rightarrow> bool" where
  "writes_path m p = (\<exists>tc\<in>set (assistant_calls m). is_write tc \<and> call_path tc = Some p)"

definition rewritten :: "chat_message list \<Rightarrow> nat \<Rightarrow> tool_call \<Rightarrow> bool" where
  "rewritten ms i tc = (\<exists>p j. call_path tc = Some p \<and> i < j \<and> j < length ms \<and> writes_path (ms ! j) p)"

text \<open>More than one round came after message \<open>i\<close>.\<close>

definition old_message :: "chat_message list \<Rightarrow> nat \<Rightarrow> bool" where
  "old_message ms i = (1 < length (filter is_round (drop (Suc i) ms)))"

definition stale :: "chat_message list \<Rightarrow> nat \<Rightarrow> bool" where
  "stale ms i =
     (if is_round (ms ! i)
      then (\<exists>tc\<in>set (calls_of (ms ! i)). 500 \<le> length (content_arg tc) \<and>
             (old_message ms i \<or> rewritten ms i tc \<or> is_write tc \<and> 16384 < length (content_arg tc)))
      else cm_role (ms ! i) = ToolRole \<and> 500 \<le> length (content_text (ms ! i)) \<and>
           (\<exists>a tc. a < length ms \<and> tc \<in> set (assistant_calls (ms ! a)) \<and> cm_call_id (ms ! i) = Some (tc_id tc) \<and>
              (old_message ms a \<or> rewritten ms a tc)))"

text \<open>Nothing but the text of a result and the content argument of a call differs.\<close>

definition same_call :: "tool_call \<Rightarrow> tool_call \<Rightarrow> bool" where
  "same_call tc tc' = (tc_id tc' = tc_id tc \<and> tc_name tc' = tc_name tc \<and>
     (\<exists>v. tc_args tc' = tc_args tc \<or> tc_args tc' = js_set (tc_args tc) ''content'' v))"

definition same_envelope :: "chat_message \<Rightarrow> chat_message \<Rightarrow> bool" where
  "same_envelope m m' = (m' = m\<lparr>cm_content := cm_content m', cm_calls := cm_calls m'\<rparr> \<and>
     list_all2 same_call (calls_of m) (calls_of m') \<and> (cm_role m \<noteq> ToolRole \<longrightarrow> cm_content m' = cm_content m))"

lemma same_call_refl [simp]: "same_call tc tc"
  unfolding same_call_def by simp

lemma same_envelope_refl [simp]: "same_envelope m m"
  unfolding same_envelope_def by (simp add: list_all2_refl)

lemma compact_call_same: "same_call tc (compact_call lw age i tc)"
  unfolding compact_call_def Let_def same_call_def by auto

lemma calls_of_upd [simp]: "calls_of (m\<lparr>cm_calls := Some cs\<rparr>) = cs" "calls_of (m\<lparr>cm_content := c\<rparr>) = calls_of m"
  unfolding calls_of_def by simp_all

lemma compact_result_same: "same_envelope m (compact_result lw origins age m)"
proof (cases "compact_result lw origins age m = m")
  case False
  then have "cm_role m = ToolRole" "\<exists>c. compact_result lw origins age m = m\<lparr>cm_content := c\<rparr>"
    unfolding compact_result_def by (auto split: option.splits prod.splits if_splits)
  then show ?thesis unfolding same_envelope_def by (auto simp: list_all2_refl)
qed simp

lemma compact_message_same: "same_envelope m (compact_message ms i m)"
proof (cases "is_round m")
  case True
  have "list_all2 same_call cs (map (compact_call lw age i) cs)" for lw age cs
    by (simp add: list_all2_conv_all_nth compact_call_same)
  then show ?thesis using True unfolding compact_message_def Let_def same_envelope_def by (simp add: list_all2_refl)
next
  case False
  then show ?thesis unfolding compact_message_def Let_def by (simp add: compact_result_same)
qed

lemma truthy_Some: "truthy p = Some q \<longleftrightarrow> p = Some q \<and> q \<noteq> []"
  unfolding truthy_def by auto

lemma foldl_inv:
  assumes "P s" "\<And>s x. x \<in> set xs \<Longrightarrow> P s \<Longrightarrow> P (f s x)"
  shows "P (foldl f s xs)"
  using assms by (induction xs arbitrary: s) auto

definition writes_inv :: "chat_message list \<Rightarrow> (string, nat) jsmap \<Rightarrow> bool" where
  "writes_inv ms lw = (\<forall>p j. js_get lw p = Some j \<longrightarrow> j < length ms \<and> writes_path (ms ! j) p)"

lemma last_write_sound: "writes_inv ms (last_write_of ms)"
  unfolding last_write_of_def
proof (rule foldl_inv)
  fix lw x
  assume inv: "writes_inv ms lw" and "x \<in> set (zip [0..<length ms] ms)"
  then have "\<exists>i. x = (i, ms ! i) \<and> i < length ms" by (cases x) (auto simp: in_set_zip)
  then obtain i where i: "x = (i, ms ! i)" "i < length ms" by blast
  have "writes_inv ms (foldl (note_write i) lw (assistant_calls (ms ! i)))"
  proof (rule foldl_inv, rule inv)
    fix s tc
    assume tc: "tc \<in> set (assistant_calls (ms ! i))" and s: "writes_inv ms s"
    then show "writes_inv ms (note_write i s tc)"
      using i(2) unfolding note_write_def writes_inv_def writes_path_def
      by (auto simp: truthy_Some split: option.splits if_splits)
  qed
  then show "writes_inv ms (case x of (i, m) \<Rightarrow> foldl (note_write i) lw (assistant_calls m))" unfolding i(1) by simp
qed (simp add: writes_inv_def)

definition origins_inv :: "chat_message list \<Rightarrow> (string, call_origin) jsmap \<Rightarrow> bool" where
  "origins_inv ms om = (\<forall>cid co. js_get om cid = Some co \<longrightarrow> co_index co < length ms \<and>
     (\<exists>tc\<in>set (assistant_calls (ms ! co_index co)). tc_id tc = cid \<and> co_name co = tc_name tc \<and> co_path co = call_path tc))"

lemma origins_sound: "origins_inv ms (origins_of ms)"
  unfolding origins_of_def
proof (rule foldl_inv)
  fix om x
  assume inv: "origins_inv ms om" and "x \<in> set (zip [0..<length ms] ms)"
  then have "\<exists>i. x = (i, ms ! i) \<and> i < length ms" by (cases x) (auto simp: in_set_zip)
  then obtain i where i: "x = (i, ms ! i)" "i < length ms" by blast
  have "origins_inv ms (foldl (\<lambda>om tc. js_set om (tc_id tc)
     \<lparr>co_name = tc_name tc, co_path = call_path tc, co_index = i\<rparr>) om (assistant_calls (ms ! i)))"
  proof (rule foldl_inv, rule inv)
    fix s tc
    assume tc: "tc \<in> set (assistant_calls (ms ! i))" and s: "origins_inv ms s"
    show "origins_inv ms (js_set s (tc_id tc) \<lparr>co_name = tc_name tc, co_path = call_path tc, co_index = i\<rparr>)"
      unfolding origins_inv_def
    proof (intro allI impI)
      fix cid co
      assume g: "js_get (js_set s (tc_id tc) \<lparr>co_name = tc_name tc, co_path = call_path tc, co_index = i\<rparr>) cid = Some co"
      show "co_index co < length ms \<and> (\<exists>tc\<in>set (assistant_calls (ms ! co_index co)). tc_id tc = cid \<and>
          co_name co = tc_name tc \<and> co_path co = call_path tc)"
      proof (cases "cid = tc_id tc")
        case True
        then show ?thesis using g i(2) tc by auto
      next
        case False
        then show ?thesis using g s unfolding origins_inv_def by auto
      qed
    qed
  qed
  then show "origins_inv ms (case x of (i, m) \<Rightarrow> foldl (\<lambda>om tc. js_set om (tc_id tc)
     \<lparr>co_name = tc_name tc, co_path = call_path tc, co_index = i\<rparr>) om (assistant_calls m))" unfolding i(1) by simp
qed (simp add: origins_inv_def)

lemma written_after_rewritten:
  "written_after (last_write_of ms) (call_path tc) i \<Longrightarrow> rewritten ms i tc"
  using last_write_sound [of ms] unfolding written_after_def rewritten_def writes_inv_def
  by (auto split: option.splits)

lemma written_after_truthy: "written_after lw (truthy p) i \<Longrightarrow> written_after lw p i"
  unfolding written_after_def by (cases p) (auto simp: truthy_def split: if_splits)

lemma old_age: "compact_preserve_recent < age_of ms i \<longleftrightarrow> old_message ms i"
proof -
  have "filter is_round ms = filter is_round (take (Suc i) ms) @ filter is_round (drop (Suc i) ms)"
    by (metis append_take_drop_id filter_append)
  then show ?thesis
    unfolding age_of_def latest_iteration_def iteration_of_def old_message_def compact_preserve_recent_def by simp
qed

lemma needs_stale:
  assumes "needs_compaction (last_write_of ms) (age_of ms i) i tc"
  shows "500 \<le> length (content_arg tc) \<and>
    (old_message ms i \<or> rewritten ms i tc \<or> is_write tc \<and> 16384 < length (content_arg tc))"
  using assms written_after_rewritten [OF written_after_truthy]
  unfolding needs_compaction_def old_age compact_min_size_def write_arg_max_def by (auto split: if_splits)

lemma summary_stale:
  assumes "result_summary (last_write_of ms) (age_of ms) co content = Some t" "co_path co = call_path tc"
  shows "old_message ms (co_index co) \<or> rewritten ms (co_index co) tc"
proof -
  have "written_after (last_write_of ms) (truthy (co_path co)) (co_index co) \<or>
      compact_preserve_recent < age_of ms (co_index co)"
    using assms(1) unfolding result_summary_def Let_def by (smt (verit) option.distinct(1))
  then show ?thesis using written_after_rewritten [OF written_after_truthy] assms(2) unfolding old_age by metis
qed

lemma compact_changes_stale:
  assumes "i < length ms" "compact_message ms i (ms ! i) \<noteq> ms ! i"
  shows "stale ms i"
proof (cases "is_round (ms ! i)")
  case True
  then have "list_ex (needs_compaction (last_write_of ms) (age_of ms i) i) (calls_of (ms ! i))"
    using assms(2) unfolding compact_message_def Let_def by (auto split: if_splits)
  then obtain tc where "tc \<in> set (calls_of (ms ! i))" "needs_compaction (last_write_of ms) (age_of ms i) i tc"
    unfolding list_ex_iff by blast
  then show ?thesis using True needs_stale [of ms i tc] unfolding stale_def if_P [OF True] by blast
next
  case False
  have ne: "compact_result (last_write_of ms) (origins_of ms) (age_of ms) (ms ! i) \<noteq> ms ! i"
    using False assms(2) unfolding compact_message_def Let_def by simp
  then obtain cid content co t where r: "truthy (cm_call_id (ms ! i)) = Some cid" "truthy (cm_content (ms ! i)) = Some content"
    "cm_role (ms ! i) = ToolRole" "compact_min_size \<le> length content" "js_get (origins_of ms) cid = Some co"
    "result_summary (last_write_of ms) (age_of ms) co content = Some t"
    unfolding compact_result_def by (auto simp: not_less split: option.splits if_splits)
  obtain tc where tc: "co_index co < length ms" "tc \<in> set (assistant_calls (ms ! co_index co))" "tc_id tc = cid"
    "co_path co = call_path tc"
    using origins_sound [of ms] r(5) unfolding origins_inv_def by blast
  show ?thesis
    using False r(1-4) tc summary_stale [OF r(6) tc(4)]
    unfolding stale_def truthy_Some compact_min_size_def content_text_def by auto
qed

text \<open>C20: Compaction touches stale parts only. It keeps the number and the order of the messages, their roles,
  call identifiers and tags, and every text that is not a tool result; of a tool call only the content argument
  may change. A message changes only when it is stale: a call or result of at least five hundred characters that
  is more than one round old, or whose file a later message writes, or a write of more than sixteen thousand characters.\<close>

theorem compaction_touches_stale_only:
  "list_all2 same_envelope ms (compact_messages ms) \<and>
   {i. i < length ms \<and> compact_messages ms ! i \<noteq> ms ! i} \<subseteq> {i. stale ms i}"
proof
  have nth: "i < length ms \<Longrightarrow> compact_messages ms ! i = compact_message ms i (ms ! i)" for i
    unfolding compact_messages_def by simp
  show "list_all2 same_envelope ms (compact_messages ms)"
    unfolding list_all2_conv_all_nth using nth compact_message_same by (simp add: compact_messages_def)
  show "{i. i < length ms \<and> compact_messages ms ! i \<noteq> ms ! i} \<subseteq> {i. stale ms i}"
    using nth compact_changes_stale by auto
qed

section \<open>The checkpoint that replaces old rounds\<close>

record written_info =
  wi_count :: nat
  wi_lines :: nat
  wi_index :: nat

record zone_call =
  zc_name :: string
  zc_path :: "string option"
  zc_command :: "string option"

record zone_notes =
  zn_counts :: "(string, nat) jsmap"
  zn_writes :: "(string, written_info) jsmap"
  zn_read_after :: "string list"
  zn_passed :: "string list"
  zn_failed :: "string list"
  zn_rounds :: nat
  zn_last_text :: "string option"
  zn_last_error :: "string option"
  zn_meta :: "(string, zone_call) jsmap"

definition no_notes :: zone_notes where
  "no_notes = \<lparr>zn_counts = [], zn_writes = [], zn_read_after = [], zn_passed = [], zn_failed = [], zn_rounds = 0,
     zn_last_text = None, zn_last_error = None, zn_meta = []\<rparr>"

definition args_path :: "(string, json) jsmap \<Rightarrow> string option" where
  "args_path args = first_match (string_arg args) path_keys"

definition zone_write :: "nat \<Rightarrow> string \<Rightarrow> string \<Rightarrow> (string, written_info) jsmap \<Rightarrow> (string, written_info) jsmap" where
  "zone_write i p content writes =
     (let existing = js_get writes p;
          n = (if content \<noteq> [] then line_count content
               else case existing of Some w \<Rightarrow> wi_lines w | None \<Rightarrow> 0)
      in js_set writes p \<lparr>wi_count = (case existing of Some w \<Rightarrow> wi_count w | None \<Rightarrow> 0) + 1, wi_lines = n, wi_index = i\<rparr>)"

definition zone_call_step :: "nat \<Rightarrow> zone_notes \<Rightarrow> tool_call \<Rightarrow> zone_notes" where
  "zone_call_step i z tc =
     (let path = args_path (tc_args tc);
          z = z\<lparr>zn_counts := js_set (zn_counts z) (tc_name tc) (js_get_or (zn_counts z) (tc_name tc) 0 + 1),
                zn_meta := js_set (zn_meta z) (tc_id tc) \<lparr>zc_name = tc_name tc, zc_path = path,
                  zc_command = string_arg (tc_args tc) ''command''\<rparr>\<rparr>
      in if is_write tc then
           (case truthy path of
              None \<Rightarrow> z
            | Some p \<Rightarrow> z\<lparr>zn_writes := zone_write i p (content_arg tc) (zn_writes z)\<rparr>)
         else if tc_name tc = ''read_file'' then
           (case truthy path of
              None \<Rightarrow> z
            | Some p \<Rightarrow> (case js_get (zn_writes z) p of
                Some w \<Rightarrow> if wi_index w < i then z\<lparr>zn_read_after := set_add (zn_read_after z) p\<rparr> else z
              | None \<Rightarrow> z))
         else z)"

definition zone_failure_re :: string where
  "zone_failure_re = ''^Error:|~b(?:failed|exception|traceback|enoent|eacces|permission denied)~b''"
definition run_success_re :: string where
  "run_success_re = ''~b(?:passed|success|0 failed|build succeeded|compiled|done)~b''"
definition run_trouble_re :: string where
  "run_trouble_re = ''~b(?:error|failed|exception)~b''"
definition run_failure_re :: string where
  "run_failure_re = ''~b(?:error|failed|exception|syntax error)~b''"
definition run_harmless_re :: string where
  "run_harmless_re = ''~bno errors~b|~bno.*failed~b''"

definition zone_result_step :: "zone_notes \<Rightarrow> chat_message \<Rightarrow> zone_notes" where
  "zone_result_step z m =
     (case (truthy (cm_call_id m), truthy (cm_content m)) of
        (Some cid, Some content) \<Rightarrow>
          (case js_get (zn_meta z) cid of
             None \<Rightarrow> z
           | Some zc \<Rightarrow>
               (let z = (if rx_test flag_i zone_failure_re content \<and> \<not> rx_test flag_i no_errors_re content
                         then z\<lparr>zn_last_error := Some (zc_name zc @ path_label (zc_path zc) @ '': '' @
                                rx_replace_all flag_none ''~s+'' '' '' (take 150 content))\<rparr>
                         else z)
                in case truthy (zc_command zc) of
                     None \<Rightarrow> z
                   | Some cmd \<Rightarrow>
                       if zc_name zc \<noteq> ''run_command'' then z
                       else if rx_test flag_i run_success_re content \<and> \<not> rx_test flag_i run_trouble_re content
                       then z\<lparr>zn_passed := zn_passed z @ [take 80 cmd]\<rparr>
                       else if rx_test flag_i run_failure_re content \<and> \<not> rx_test flag_i run_harmless_re content
                       then z\<lparr>zn_failed := zn_failed z @ [take 80 cmd]\<rparr>
                       else z))
      | _ \<Rightarrow> z)"

definition zone_text_step :: "zone_notes \<Rightarrow> chat_message \<Rightarrow> zone_notes" where
  "zone_text_step z m = (let t = js_trim (content_text m) in
     if t = [] then z else z\<lparr>zn_last_text := Some (if 300 < length t then take 300 t @ ''...'' else t)\<rparr>)"

definition zone_step :: "zone_notes \<Rightarrow> nat \<times> chat_message \<Rightarrow> zone_notes" where
  "zone_step z im = (case im of (i, m) \<Rightarrow>
     if cm_role m = AssistantRole then
       zone_text_step
         (if has_calls m then foldl (zone_call_step i) (z\<lparr>zn_rounds := zn_rounds z + 1\<rparr>) (calls_of m) else z) m
     else if cm_role m = ToolRole then zone_result_step z m
     else z)"

record file_record =
  fr_path :: string
  fr_count :: nat
  fr_lines :: nat
  fr_verified :: bool

record compaction_state =
  cs_iteration :: nat
  cs_goal :: string
  cs_rounds :: nat
  cs_counts :: "(string, nat) jsmap"
  cs_written :: "file_record list"
  cs_verified :: "string list"
  cs_passed :: "string list"
  cs_failed :: "string list"
  cs_pending :: "string option"
  cs_repairs :: nat
  cs_error :: "string option"

fun insert_by :: "(string \<Rightarrow> string \<Rightarrow> bool) \<Rightarrow> file_record \<Rightarrow> file_record list \<Rightarrow> file_record list" where
  "insert_by before f [] = [f]"
| "insert_by before f (g # gs) = (if before (fr_path g) (fr_path f) then g # insert_by before f gs else f # g # gs)"

text \<open>\<open>before a b\<close> is \<open>a.localeCompare(b) < 0\<close>; the paths of the records are distinct.\<close>

definition sort_files :: "(string \<Rightarrow> string \<Rightarrow> bool) \<Rightarrow> file_record list \<Rightarrow> file_record list" where
  "sort_files before fs = foldr (insert_by before) fs []"

definition zone_notes_of :: "chat_message list \<Rightarrow> zone_notes" where
  "zone_notes_of ms = foldl zone_step no_notes (zip [0..<length ms] ms)"

definition extract_compaction_state ::
  "(string \<Rightarrow> string \<Rightarrow> bool) \<Rightarrow> chat_message list \<Rightarrow> string \<Rightarrow> nat \<Rightarrow> compaction_state" where
  "extract_compaction_state before ms goal iteration =
     (let z = zone_notes_of ms;
          written = sort_files before (map (\<lambda>(p, w). \<lparr>fr_path = p, fr_count = wi_count w, fr_lines = wi_lines w,
                      fr_verified = (p \<in> set (zn_read_after z))\<rparr>) (zn_writes z))
      in \<lparr>cs_iteration = iteration, cs_goal = goal, cs_rounds = zn_rounds z, cs_counts = zn_counts z,
          cs_written = written, cs_verified = map fr_path (filter fr_verified written),
          cs_passed = take 10 (set_of_list (zn_passed z)), cs_failed = take 5 (set_of_list (zn_failed z)),
          cs_pending = zn_last_text z,
          cs_repairs = length (filter (\<lambda>(p, w). 1 < wi_count w \<and> p \<in> set (zn_read_after z)) (zn_writes z)),
          cs_error = zn_last_error z\<rparr>)"

section \<open>The message of the checkpoint\<close>

definition file_line :: "file_record \<Rightarrow> string" where
  "file_line f = ''  - '' @ fr_path f @ '' ('' @ (if fr_count f = 1 then ''1 write'' else show_nat (fr_count f) @ '' writes'') @
     '', ~'' @ show_nat (fr_lines f) @ '' lines'' @ (if fr_verified f then '', read-verified'' else []) @ '')''"

definition tool_summary :: "compaction_state \<Rightarrow> string" where
  "tool_summary s = js_join '', '' (map (\<lambda>(n, c). n @ [CHR 0xD7] @ show_nat c)
     (take 6 (sort_key (\<lambda>(n, c). - int c) (cs_counts s))))"

definition line_if :: "bool \<Rightarrow> string \<Rightarrow> string list" where
  "line_if b line = (if b then [line] else [])"

definition build_resume_anchor_message :: "compaction_state \<Rightarrow> chat_message" where
  "build_resume_anchor_message s =
     (let body =
        [''[SESSION COMPACTED '' @ dash @ '' iteration '' @ show_nat (cs_iteration s) @ '']'',
         ''Goal: '' @ take 200 (cs_goal s) @ (if 200 < length (cs_goal s) then ''...'' else []),
         ''Tool rounds completed: '' @ show_nat (cs_rounds s)] @
        line_if (cs_written s \<noteq> []) (''Files written:'' @ newline @ js_join newline (map file_line (cs_written s))) @
        line_if (cs_verified s \<noteq> []) (''Verified working: '' @ js_join '', '' (cs_verified s)) @
        line_if (cs_passed s \<noteq> []) (''Commands passed: '' @ js_join ''; '' (take 5 (cs_passed s))) @
        line_if (cs_failed s \<noteq> [])
          (''Commands that failed (do NOT retry without a fix): '' @ js_join ''; '' (take 3 (cs_failed s))) @
        line_if (tool_summary s \<noteq> []) (''Tool call totals: '' @ tool_summary s) @
        line_if (0 < cs_repairs s) (''Repair cycles detected: '' @ show_nat (cs_repairs s) @
          '' (files required multiple write+verify passes)'') @
        (case truthy (cs_error s) of Some e \<Rightarrow> [''Last recorded error: '' @ e] | None \<Rightarrow> []) @
        (case truthy (cs_pending s) of Some p \<Rightarrow> [''Pending (what was next): '' @ p] | None \<Rightarrow> []) @
        [''[Do NOT repeat the completed steps above. Continue from this checkpoint.]'']
      in (plain_message SystemRole (Some (js_join newline body)))\<lparr>cm_section := Some HistorySection\<rparr>)"

section \<open>Full compaction\<close>

text \<open>\<open>Number.parseInt(raw, 10)\<close> of an environment variable, a positive number or the default.\<close>

definition parse_int10 :: "string \<Rightarrow> int option" where
  "parse_int10 raw =
     (let s = dropWhile is_space raw;
          signed = (case s of c # cs \<Rightarrow> if c = CHR ''-'' then (-1, cs) else if c = CHR ''+'' then (1, cs) else (1, s)
                    | [] \<Rightarrow> (1, []));
          ds = takeWhile is_digit_char (snd signed)
      in if ds = [] then None else Some (fst signed * int (fst (read_number 0 ds))))"

definition env_int :: "string option \<Rightarrow> nat \<Rightarrow> nat" where
  "env_int raw fallback = (case truthy raw of
      None \<Rightarrow> fallback
    | Some r \<Rightarrow> (case parse_int10 r of Some n \<Rightarrow> if 0 < n then nat n else fallback | None \<Rightarrow> fallback))"

record compaction_limits =
  li_min_iteration :: nat
  li_min_messages :: nat
  li_interval :: nat

definition limits_of_env :: "(string \<Rightarrow> string option) \<Rightarrow> compaction_limits" where
  "limits_of_env env = \<lparr>li_min_iteration = env_int (env ''MIA_COMPACT_MIN_ITER'') 6,
     li_min_messages = env_int (env ''MIA_COMPACT_MIN_MESSAGES'') 30,
     li_interval = env_int (env ''MIA_COMPACT_INTERVAL'') 5\<rparr>"

definition full_compaction_preserve_recent :: nat where
  "full_compaction_preserve_recent = 4"

definition should_apply_full_compaction :: "compaction_limits \<Rightarrow> chat_message list \<Rightarrow> int \<Rightarrow> int \<Rightarrow> bool" where
  "should_apply_full_compaction li ms current previous =
     (if current < int (li_min_iteration li) then False
      else if length ms < li_min_messages li then False
      else if current - previous < int (li_interval li) then False
      else True)"

text \<open>The messages before the request that stay in front, the request, and the rest in order.\<close>

fun partition_goal :: "chat_message list \<Rightarrow> chat_message list \<times> chat_message option \<times> chat_message list" where
  "partition_goal [] = ([], None, [])"
| "partition_goal (m # ms) =
     (if in_head m then (case partition_goal ms of (sys, g, after) \<Rightarrow> (m # sys, g, after))
      else if cm_role m = UserRole then ([], Some m, ms)
      else (case partition_goal ms of (sys, g, after) \<Rightarrow> (sys, g, m # after)))"

definition round_indices :: "chat_message list \<Rightarrow> nat list" where
  "round_indices ms = filter (\<lambda>i. is_round (ms ! i)) [0..<length ms]"

definition keep_from :: "chat_message list \<Rightarrow> nat" where
  "keep_from after = (let b = round_indices after in
     if full_compaction_preserve_recent < length b then b ! (length b - full_compaction_preserve_recent) else 0)"

definition apply_full_compaction ::
  "(string \<Rightarrow> string \<Rightarrow> bool) \<Rightarrow> chat_message list \<Rightarrow> nat \<Rightarrow> chat_message list \<times> compaction_state" where
  "apply_full_compaction before ms iteration =
     (case partition_goal ms of (sys, goal, after) \<Rightarrow>
       (let k = keep_from after;
            goal_text = (case goal of Some g \<Rightarrow> content_text g | None \<Rightarrow> []);
            state = extract_compaction_state before (take k after) goal_text iteration
        in (sys @ (case goal of Some g \<Rightarrow> [g] | None \<Rightarrow> []) @ [build_resume_anchor_message state] @ drop k after, state)))"

section \<open>What a full compaction keeps and records\<close>






lemma rounds_from: "k \<le> length ms \<Longrightarrow> length (filter is_round (drop k ms)) = length (filter (\<lambda>i. is_round (ms ! i)) [k..<length ms])"
proof -
  assume "k \<le> length ms"
  then have "drop k ms = map ((!) ms) [k..<length ms]" by (intro nth_equalityI) simp_all
  then show ?thesis by (simp add: filter_map comp_def)
qed


text \<open>How often each file was written in the rounds that are replaced.\<close>

definition writes_of :: "chat_message list \<Rightarrow> string \<Rightarrow> nat" where
  "writes_of ms p = length (filter (\<lambda>tc. is_write tc \<and> truthy (args_path (tc_args tc)) = Some p)
     (concat (map assistant_calls ms)))"

definition recorded :: "zone_notes \<Rightarrow> string \<Rightarrow> nat" where
  "recorded z p = (case js_get (zn_writes z) p of None \<Rightarrow> 0 | Some w \<Rightarrow> wi_count w)"

definition writes_ok :: "zone_notes \<Rightarrow> bool" where
  "writes_ok z = (js_wf (zn_writes z) \<and> (\<forall>p w. js_get (zn_writes z) p = Some w \<longrightarrow> 0 < wi_count w))"

lemma zone_result_writes [simp]: "zn_writes (zone_result_step z m) = zn_writes z"
  unfolding zone_result_step_def Let_def by (simp split: option.splits prod.splits)

lemma zone_text_writes [simp]: "zn_writes (zone_text_step z m) = zn_writes z"
  unfolding zone_text_step_def Let_def by simp

lemma zone_call_writes:
  "zn_writes (zone_call_step i z tc) =
    (if is_write tc then (case truthy (args_path (tc_args tc)) of None \<Rightarrow> zn_writes z
       | Some p \<Rightarrow> zone_write i p (content_arg tc) (zn_writes z)) else zn_writes z)"
  unfolding zone_call_step_def Let_def by (simp split: option.splits)

lemma zone_call_recorded:
  "writes_ok z \<Longrightarrow> writes_ok (zone_call_step i z tc)"
  "recorded (zone_call_step i z tc) p = recorded z p +
     (if is_write tc \<and> truthy (args_path (tc_args tc)) = Some p then 1 else 0)"
  unfolding writes_ok_def recorded_def zone_call_writes zone_write_def Let_def
  by (auto split: option.splits)

lemma zone_calls_recorded:
  "writes_ok z \<Longrightarrow> writes_ok (foldl (zone_call_step i) z tcs)"
  "recorded (foldl (zone_call_step i) z tcs) p = recorded z p +
     length (filter (\<lambda>tc. is_write tc \<and> truthy (args_path (tc_args tc)) = Some p) tcs)"
  by (induction tcs arbitrary: z) (auto simp: zone_call_recorded)

lemma same_writes: "zn_writes z = zn_writes z' \<Longrightarrow> recorded z p = recorded z' p \<and> writes_ok z = writes_ok z'"
  unfolding recorded_def writes_ok_def by simp

lemma zone_step_recorded:
  "writes_ok z \<Longrightarrow> writes_ok (zone_step z (i, m))"
  "recorded (zone_step z (i, m)) p = recorded z p + writes_of [m] p"
proof -
  let ?z = "z\<lparr>zn_rounds := Suc (zn_rounds z)\<rparr>"
  have z: "recorded ?z q = recorded z q \<and> writes_ok ?z = writes_ok z" for q by (intro same_writes) simp
  have t: "recorded (zone_text_step y m) q = recorded y q \<and> writes_ok (zone_text_step y m) = writes_ok y" for y q
    by (intro same_writes) simp
  have r: "recorded (zone_result_step y m) q = recorded y q \<and> writes_ok (zone_result_step y m) = writes_ok y" for y q
    by (intro same_writes) simp
  show "writes_ok z \<Longrightarrow> writes_ok (zone_step z (i, m))"
    unfolding zone_step_def by (simp add: t r z zone_calls_recorded)
  show "recorded (zone_step z (i, m)) p = recorded z p + writes_of [m] p"
    unfolding zone_step_def writes_of_def assistant_calls_def has_calls_def
    by (simp add: t r z zone_calls_recorded)
qed

lemma zone_fold_recorded:
  "writes_ok z \<Longrightarrow> writes_ok (foldl zone_step z xs)"
  "recorded (foldl zone_step z xs) p = recorded z p + writes_of (map snd xs) p"
proof (induction xs arbitrary: z)
  case (Cons x xs)
  {
    case 1
    then show ?case using Cons zone_step_recorded by (cases x) simp
  next
    case 2
    have "writes_of (map snd (x # xs)) p = writes_of [snd x] p + writes_of (map snd xs) p"
      unfolding writes_of_def by simp
    then show ?case using Cons zone_step_recorded by (cases x) simp
  }
qed (simp_all add: writes_of_def)

lemma zone_notes_recorded:
  "writes_ok (zone_notes_of ms)" "recorded (zone_notes_of ms) p = writes_of ms p"
proof -
  have "writes_ok no_notes" "recorded no_notes p = 0" unfolding writes_ok_def recorded_def no_notes_def by simp_all
  then show "writes_ok (zone_notes_of ms)" "recorded (zone_notes_of ms) p = writes_of ms p"
    unfolding zone_notes_of_def using zone_fold_recorded [of no_notes "zip [0..<length ms] ms"] by simp_all
qed

lemma set_insert_by [simp]: "set (insert_by before f fs) = insert f (set fs)"
  by (induction fs) auto

lemma set_sort_files [simp]: "set (sort_files before fs) = set fs"
  unfolding sort_files_def by (induction fs) auto

lemma written_recorded:
  "(\<lambda>f. (fr_path f, fr_count f)) ` set (cs_written (extract_compaction_state before ms goal i)) =
     {(p, n). n = writes_of ms p \<and> 0 < n}"
proof -
  let ?z = "zone_notes_of ms"
  have wf: "js_wf (zn_writes ?z)" and ok: "\<And>p w. js_get (zn_writes ?z) p = Some w \<Longrightarrow> 0 < wi_count w"
    using zone_notes_recorded(1) [of ms] unfolding writes_ok_def by auto
  have "(\<lambda>f. (fr_path f, fr_count f)) ` set (cs_written (extract_compaction_state before ms goal i)) =
      (\<lambda>(p, w). (p, wi_count w)) ` set (zn_writes ?z)"
    unfolding extract_compaction_state_def Let_def by (force simp: image_image)
  also have "\<dots> = {(p, n). n = recorded ?z p \<and> 0 < n}" (is "?l = ?r")
  proof (rule set_eqI)
    fix x :: "string \<times> nat"
    obtain p n where x: "x = (p, n)" by (cases x)
    have "(p, n) \<in> ?l \<longleftrightarrow> (\<exists>w. (p, w) \<in> set (zn_writes ?z) \<and> n = wi_count w)" by (force simp: image_iff)
    also have "\<dots> \<longleftrightarrow> (\<exists>w. js_get (zn_writes ?z) p = Some w \<and> n = wi_count w)" using js_get_iff [OF wf] by simp
    also have "\<dots> \<longleftrightarrow> n = recorded ?z p \<and> 0 < n"
      using ok [of p] unfolding recorded_def by (cases "js_get (zn_writes ?z) p") auto
    finally show "x \<in> ?l \<longleftrightarrow> x \<in> ?r" unfolding x by simp
  qed
  finally show ?thesis unfolding zone_notes_recorded .
qed


section \<open>What modelling showed\<close>

text \<open>The checkpoint of the first compaction is a system message in the rounds the second one replaces, and the
  second checkpoint is made from tool calls only: a file written before the first compaction is forgotten, with
  the instruction not to repeat finished steps.\<close>

definition file_round :: "string \<Rightarrow> string \<Rightarrow> string \<Rightarrow> chat_message" where
  "file_round cid name path = (plain_message AssistantRole None)\<lparr>cm_calls := Some
     [\<lparr>tc_id = cid, tc_name = name, tc_args = [(''path'', JStr path)]\<rparr>]\<rparr>"

definition read_rounds :: "chat_message list" where
  "read_rounds = [file_round ''r1'' ''read_file'' ''b.txt'', file_round ''r2'' ''read_file'' ''b.txt'',
     file_round ''r3'' ''read_file'' ''b.txt'', file_round ''r4'' ''read_file'' ''b.txt'']"

definition first_chat :: "chat_message list" where
  "first_chat = [plain_message SystemRole (Some ''You are an agent''), plain_message UserRole (Some ''Write a.txt''),
     file_round ''w1'' ''write_file'' ''a.txt''] @ read_rounds"

definition written_files :: "compaction_state \<Rightarrow> (string \<times> nat) set" where
  "written_files s = (\<lambda>f. (fr_path f, fr_count f)) ` set (cs_written s)"

lemma written_of_zone:
  "partition_goal ms = (front, request, after) \<Longrightarrow>
   written_files (snd (apply_full_compaction before ms i)) =
     {(p, n). n = writes_of (take (keep_from after) after) p \<and> 0 < n}"
  unfolding written_files_def apply_full_compaction_def by (simp add: Let_def written_recorded)

lemma file_round_facts [simp]:
  "is_round (file_round c n p)" "cm_role (file_round c n p) = AssistantRole" "\<not> in_head (file_round c n p)"
  "assistant_calls (file_round c n p) = [\<lparr>tc_id = c, tc_name = n, tc_args = [(''path'', JStr p)]\<rparr>]"
  by (simp_all add: file_round_def plain_message_def is_round_def has_calls_def calls_of_def in_head_def assistant_calls_def)

definition second_chat :: "(string \<Rightarrow> string \<Rightarrow> bool) \<Rightarrow> chat_message list" where
  "second_chat before = fst (apply_full_compaction before first_chat 6) @ read_rounds"

lemma first_parts: "partition_goal first_chat = ([plain_message SystemRole (Some ''You are an agent'')],
    Some (plain_message UserRole (Some ''Write a.txt'')), file_round ''w1'' ''write_file'' ''a.txt'' # read_rounds)"
  unfolding first_chat_def by (simp add: in_head_def plain_message_def)

lemma first_keep: "keep_from (file_round ''w1'' ''write_file'' ''a.txt'' # read_rounds) = 1"
  unfolding keep_from_def round_indices_def read_rounds_def full_compaction_preserve_recent_def
  by (simp add: upt_rec)

lemma second_parts:
  "\<exists>anchor. cm_role anchor = SystemRole \<and> partition_goal (second_chat before) =
     ([plain_message SystemRole (Some ''You are an agent'')], Some (plain_message UserRole (Some ''Write a.txt'')),
      anchor # read_rounds @ read_rounds)"
proof -
  let ?a = "build_resume_anchor_message (snd (apply_full_compaction before first_chat 6))"
  have "second_chat before = [plain_message SystemRole (Some ''You are an agent''),
      plain_message UserRole (Some ''Write a.txt''), ?a] @ read_rounds @ read_rounds"
    unfolding second_chat_def apply_full_compaction_def first_parts Let_def by (simp only: prod.case first_keep) simp
  then have "partition_goal (second_chat before) = ([plain_message SystemRole (Some ''You are an agent'')],
      Some (plain_message UserRole (Some ''Write a.txt'')), ?a # read_rounds @ read_rounds)"
    by (simp add: in_head_def plain_message_def)
  moreover have "cm_role ?a = SystemRole" unfolding build_resume_anchor_message_def Let_def plain_message_def by simp
  ultimately show ?thesis by blast
qed

lemma second_keep: "cm_role anchor = SystemRole \<Longrightarrow> keep_from (anchor # read_rounds @ read_rounds) = 5"
  unfolding keep_from_def round_indices_def read_rounds_def full_compaction_preserve_recent_def
  by (simp add: upt_rec is_round_def [of anchor])

lemma second_compaction_forgets:
  "written_files (snd (apply_full_compaction before first_chat 6)) = {(''a.txt'', 1)}"
  "written_files (snd (apply_full_compaction before (second_chat before) 11)) = {}"
proof -
  have w: "writes_of (take 1 (file_round ''w1'' ''write_file'' ''a.txt'' # read_rounds)) p = (if p = ''a.txt'' then 1 else 0)" for p
    by (auto simp: writes_of_def is_write_def args_path_def path_keys_def string_arg_def js_get_def truthy_def)
  show "written_files (snd (apply_full_compaction before first_chat 6)) = {(''a.txt'', 1)}"
    unfolding written_of_zone [OF first_parts] first_keep w by (auto split: if_splits)
  obtain anchor where a: "cm_role anchor = SystemRole" "partition_goal (second_chat before) =
     ([plain_message SystemRole (Some ''You are an agent'')], Some (plain_message UserRole (Some ''Write a.txt'')),
      anchor # read_rounds @ read_rounds)" using second_parts by blast
  have "writes_of (take 5 (anchor # read_rounds @ read_rounds)) p = 0" for p
    using a(1) by (simp add: writes_of_def is_write_def read_rounds_def assistant_calls_def [of anchor])
  then show "written_files (snd (apply_full_compaction before (second_chat before) 11)) = {}"
    unfolding written_of_zone [OF a(2)] second_keep [OF a(1)] by auto
qed

lemma partition_length:
  "partition_goal ms = (sys, g, after) \<Longrightarrow>
   length sys + (case g of None \<Rightarrow> 0 | Some x \<Rightarrow> 1) + length after = length ms"
  by (induction ms arbitrary: sys g after) (auto split: if_splits prod.splits)

text \<open>With at most four rounds nothing is replaced, and the conversation grows by an empty checkpoint.\<close>

lemma compaction_grows_short_history:
  assumes "partition_goal ms = (sys, g, after)" "length (filter is_round after) \<le> 4"
  shows "length (fst (apply_full_compaction before ms i)) = length ms + 1"
proof -
  have "length (filter is_round after) = length (round_indices after)"
    using rounds_from [of 0 after] unfolding round_indices_def by simp
  then have "keep_from after = 0"
    using assms(2) unfolding keep_from_def full_compaction_preserve_recent_def by simp
  then show ?thesis
    using partition_length [OF assms(1)] assms(1) unfolding apply_full_compaction_def by (simp add: Let_def split: option.splits)
qed
end
