(* ===== verification/SyncSql.thy ===== *)
theory SyncSql
  imports Prelude
begin

text \<open>
  SQL text the sync engine builds: predicate templates
  (\<open>packages/sync/src/core/scope/predicate.ts\<close>), value literals and identifiers
  (\<open>packages/sql-kit/src/literals.ts\<close>, \<open>idents.ts\<close>) and batch WHERE clauses
  (\<open>packages/sync/src/core/diff-engine/sql-helpers.ts\<close>).
  A reader of SQL string literals is the specification the literals are checked against.
\<close>

section \<open>Values\<close>

text \<open>A column value a driver returns. Dates, floats and buffers are \<open>SqlOther\<close> with the text
  \<open>String(v)\<close> gives and the literal \<open>quoteSqlLiteral\<close> gives for them.\<close>

datatype sql_value = SqlNull | SqlInt int | SqlBool bool | SqlText string | SqlOther string string

definition js_string :: "sql_value \<Rightarrow> string" where
  "js_string v = (case v of SqlNull \<Rightarrow> ''null'' | SqlInt i \<Rightarrow> show_int i
     | SqlBool b \<Rightarrow> if b then ''true'' else ''false'' | SqlText s \<Rightarrow> s | SqlOther s q \<Rightarrow> s)"

definition escape_quotes :: "string \<Rightarrow> string" where
  "escape_quotes s = concat (map (\<lambda>c. if c = CHR 0x27 then [CHR 0x27, CHR 0x27] else [c]) s)"

definition quote_sql_literal :: "sql_value \<Rightarrow> string" where
  "quote_sql_literal v = (case v of SqlNull \<Rightarrow> ''NULL'' | SqlInt i \<Rightarrow> show_int i
     | SqlBool b \<Rightarrow> if b then ''1'' else ''0''
     | SqlText s \<Rightarrow> CHR ''N'' # CHR 0x27 # escape_quotes s @ [CHR 0x27]
     | SqlOther s q \<Rightarrow> q)"

definition format_scalar :: "sql_value \<Rightarrow> string" where
  "format_scalar v = (case v of SqlNull \<Rightarrow> ''NULL'' | SqlInt i \<Rightarrow> show_int i
     | SqlBool b \<Rightarrow> if b then ''true'' else ''false''
     | SqlText s \<Rightarrow> CHR 0x27 # s @ [CHR 0x27]
     | SqlOther s q \<Rightarrow> CHR 0x27 # s @ [CHR 0x27])"

definition quote_mssql_ident :: "string \<Rightarrow> string" where
  "quote_mssql_ident part =
     ''['' @ concat (map (\<lambda>c. if c = CHR '']'' then '']]'' else [c]) part) @ '']''"

definition quote_mssql_table :: "string \<Rightarrow> string" where
  "quote_mssql_table name = js_join ''.'' (map quote_mssql_ident (js_split CHR ''.'' name))"

text \<open>Rows are association lists from column names; a missing column reads \<open>undefined\<close>.\<close>

type_synonym row = "(string, sql_value) jsmap"

definition column :: "row \<Rightarrow> string \<Rightarrow> sql_value" where
  "column r c = js_get_or r c SqlNull"

definition build_batch_where :: "row list \<Rightarrow> string list \<Rightarrow> string" where
  "build_batch_where rows pk_columns = (case pk_columns of
     [col] \<Rightarrow> ''['' @ col @ ''] IN ('' @
        js_join '', '' (map (\<lambda>r. quote_sql_literal (column r col)) rows) @ '')''
   | _ \<Rightarrow> js_join '' OR '' (map (\<lambda>r. ''('' @ js_join '' AND ''
        (map (\<lambda>c. ''['' @ c @ ''] = '' @ quote_sql_literal (column r c)) pk_columns) @ '')'') rows))"

section \<open>Predicate templates\<close>

text \<open>
  \<open>String.prototype.replace\<close> with a replacement string: \<open>$$\<close>, \<open>$&\<close>, \<open>$`\<close> and \<open>$'\<close> in the
  replacement stand for a dollar, the match, the text before it and the text after it
  (there are no capture groups, so other dollars are literal).
\<close>

fun expand_dollar :: "string \<Rightarrow> string \<Rightarrow> string \<Rightarrow> string \<Rightarrow> string" where
  "expand_dollar before m after [] = []"
| "expand_dollar before m after [c] = [c]"
| "expand_dollar before m after (c # d # cs) =
     (if c = CHR ''$'' \<and> d = CHR ''$'' then CHR ''$'' # expand_dollar before m after cs
      else if c = CHR ''$'' \<and> d = CHR ''&'' then m @ expand_dollar before m after cs
      else if c = CHR ''$'' \<and> d = CHR 0x60 then before @ expand_dollar before m after cs
      else if c = CHR ''$'' \<and> d = CHR 0x27 then after @ expand_dollar before m after cs
      else c # expand_dollar before m after (d # cs))"

function replace_all :: "string \<Rightarrow> string \<Rightarrow> string \<Rightarrow> string \<Rightarrow> string" where
  "replace_all before [] pat repl = []"
| "replace_all before (c # cs) pat repl =
     (if pat \<noteq> [] \<and> starts_with (c # cs) pat then
        let after = drop (length pat) (c # cs)
        in expand_dollar before pat after repl @ replace_all (before @ pat) after pat repl
      else c # replace_all (before @ [c]) cs pat repl)"
  by pat_completeness auto
termination by (relation "measure (\<lambda>(b, s, p, r). length s)") (auto simp: Let_def)

datatype entity_id = IdNum int | IdText string

definition entity_literal :: "entity_id \<Rightarrow> string" where
  "entity_literal i = (case i of IdNum n \<Rightarrow> show_int n
     | IdText s \<Rightarrow> CHR 0x27 # escape_quotes s @ [CHR 0x27])"

definition instantiate_predicate :: "string \<Rightarrow> entity_id \<Rightarrow> string" where
  "instantiate_predicate predicate i = replace_all [] predicate ''{id}'' (entity_literal i)"

definition instantiate_predicate_with_tree :: "string \<Rightarrow> entity_id \<Rightarrow> entity_id list option \<Rightarrow> string" where
  "instantiate_predicate_with_tree predicate i expanded =
     (let effective = (case expanded of None \<Rightarrow> [i] | Some ids \<Rightarrow> if ids = [] then [i] else ids);
          ids_literal = js_join '', '' (map entity_literal effective)
      in replace_all [] (replace_all [] predicate ''{ids}'' ids_literal) ''{id}'' (entity_literal i))"

definition derive_archive_table :: "string \<Rightarrow> string option" where
  "derive_archive_table qualified =
     (let parts = js_split CHR ''.'' qualified;
          schema = parts ! 0;
          name = (if length parts > 1 then parts ! 1 else [])
      in if schema = [] \<or> name = [] then None
         else if schema = ''master'' then None
         else if ends_with schema ''Archive'' then None
         else Some (schema @ ''Archive.'' @ name))"

section \<open>Reading literals back\<close>

text \<open>The SQL reader of a string literal after its opening quote: the text it denotes and the rest.\<close>

fun read_text :: "string \<Rightarrow> (string \<times> string) option" where
  "read_text [] = None"
| "read_text [c] = (if c = CHR 0x27 then Some ([], []) else None)"
| "read_text (c # d # cs) =
     (if c = CHR 0x27 then
        (if d = CHR 0x27 then map_option (\<lambda>(t, r). (CHR 0x27 # t, r)) (read_text cs)
         else Some ([], d # cs))
      else map_option (\<lambda>(t, r). (c # t, r)) (read_text (d # cs)))"

lemma escape_quotes_Cons:
  "escape_quotes (c # s) = (if c = CHR 0x27 then [CHR 0x27, CHR 0x27] else [c]) @ escape_quotes s"
  by (simp add: escape_quotes_def)

lemma escape_quotes_Nil [simp]: "escape_quotes [] = []"
  by (simp add: escape_quotes_def)

lemma read_text_plain: "c \<noteq> CHR 0x27 \<Longrightarrow>
    read_text (c # s) = map_option (\<lambda>(t, r). (c # t, r)) (read_text s)"
  by (cases s) auto

lemma read_text_end: "rest = [] \<or> hd rest \<noteq> CHR 0x27 \<Longrightarrow> read_text (CHR 0x27 # rest) = Some ([], rest)"
  by (cases rest) auto

lemma read_escaped:
  assumes "rest = [] \<or> hd rest \<noteq> CHR 0x27"
  shows "read_text (escape_quotes s @ CHR 0x27 # rest) = Some (s, rest)"
proof (induction s)
  case Nil
  then show ?case using read_text_end [OF assms] by simp
next
  case (Cons c s)
  then show ?case by (simp add: escape_quotes_Cons read_text_plain)
qed

lemma expand_no_dollar: "CHR ''$'' \<notin> set repl \<Longrightarrow> expand_dollar b m a repl = repl"
  by (induction b m a repl rule: expand_dollar.induct) auto

lemma dollar_escape: "CHR ''$'' \<notin> set s \<Longrightarrow> CHR ''$'' \<notin> set (escape_quotes s)"
  by (auto simp: escape_quotes_def split: if_splits)

text \<open>Plain substitution: every occurrence replaced by the literal as it is.\<close>

function substitute :: "string \<Rightarrow> string \<Rightarrow> string \<Rightarrow> string" where
  "substitute [] pat repl = []"
| "substitute (c # cs) pat repl =
     (if pat \<noteq> [] \<and> starts_with (c # cs) pat
      then repl @ substitute (drop (length pat) (c # cs)) pat repl
      else c # substitute cs pat repl)"
  by pat_completeness auto
termination by (relation "measure (\<lambda>(s, p, r). length s)") auto

lemma replace_all_plain:
  "CHR ''$'' \<notin> set repl \<Longrightarrow> replace_all b s pat repl = substitute s pat repl"
  by (induction b s pat repl rule: replace_all.induct) (auto simp: Let_def expand_no_dollar)

text \<open>C39: A text entity id without a dollar sign is substituted for every \<open>{id}\<close> exactly as its quoted
  literal, and an SQL reader reads that literal back to the id with the rest of the predicate
  untouched: no id without a dollar can end its literal early.\<close>

theorem predicate_literal_roundtrip:
  assumes "CHR ''$'' \<notin> set s" "rest = [] \<or> hd rest \<noteq> CHR 0x27"
  shows "instantiate_predicate p (IdText s) = substitute p ''{id}'' (entity_literal (IdText s)) \<and>
    read_text (tl (entity_literal (IdText s)) @ rest) = Some (s, rest)"
proof
  have "CHR ''$'' \<notin> set (entity_literal (IdText s))"
    using dollar_escape [OF assms(1)] by (simp add: entity_literal_def)
  then show "instantiate_predicate p (IdText s) = substitute p ''{id}'' (entity_literal (IdText s))"
    unfolding instantiate_predicate_def by (rule replace_all_plain)
  show "read_text (tl (entity_literal (IdText s)) @ rest) = Some (s, rest)"
    using read_escaped [OF assms(2), of s] by (simp add: entity_literal_def)
qed

theorem predicate_literal_roundtrip_witness:
  "instantiate_predicate ''id = {id}'' (IdText [CHR ''O'', CHR 0x27]) =
     substitute ''id = {id}'' ''{id}'' (entity_literal (IdText [CHR ''O'', CHR 0x27]))"
  by (rule conjunct1 [OF predicate_literal_roundtrip [where rest = "[]"]]) simp_all

text \<open>With a dollar sign the id is not substituted literally: for the id \<open>$'\<close> in the template
  \<open>k={id} OR k=1\<close> the emitted predicate holds a copy of the template's own tail, \<open>k=' OR k=1'' OR k=1\<close>,
  and an SQL reader reads the literal as \<open> OR k=1' OR k=1\<close> with no end: it is not terminated.\<close>

theorem predicate_dollar_corrupts:
  "instantiate_predicate ''k={id} OR k=1'' (IdText [CHR ''$'', CHR 0x27]) =
     ''k='' @ [CHR 0x27] @ '' OR k=1'' @ [CHR 0x27, CHR 0x27] @ '' OR k=1'' \<and>
   read_text (drop 3 (instantiate_predicate ''k={id} OR k=1'' (IdText [CHR ''$'', CHR 0x27]))) = None"
proof -
  have "instantiate_predicate ''k={id} OR k=1'' (IdText [CHR ''$'', CHR 0x27]) =
     ''k='' @ [CHR 0x27] @ '' OR k=1'' @ [CHR 0x27, CHR 0x27] @ '' OR k=1''"
    by (simp add: instantiate_predicate_def entity_literal_def escape_quotes_Cons Let_def)
  then show ?thesis by simp
qed

text \<open>A text value in a VALUES clause or WHERE clause is read back exactly from its literal.\<close>

theorem sql_literal_roundtrip:
  assumes "rest = [] \<or> hd rest \<noteq> CHR 0x27"
  shows "read_text (drop 2 (quote_sql_literal (SqlText s)) @ rest) = Some (s, rest)"
  using read_escaped [OF assms, of s] by (simp add: quote_sql_literal_def)

theorem sql_literal_roundtrip_witness:
  "read_text (drop 2 (quote_sql_literal (SqlText [CHR ''a'', CHR 0x27])) @ '', 1)'') =
     Some ([CHR ''a'', CHR 0x27], '', 1)'')"
  by (rule sql_literal_roundtrip) simp

end
