(* ===== verification/JsNumber.thy ===== *)
theory JsNumber
  imports Prelude
begin

text \<open>
  \<open>Number(text)\<close>: the numeric texts of the language (\<open>StringNumericLiteral\<close>), which the sync engine uses to
  decide whether an entity id is numeric and whether two ids are the same number. A finite value is a
  \<open>decimal\<close>, a whole mantissa and a power of ten in lowest terms, so that two finite values are equal as
  numbers exactly when they are the same \<open>decimal\<close>. The value is exact: the rounding of very long texts to
  a double is left out. \<open>None\<close> is \<open>NaN\<close> or an infinity, which \<open>Number.isFinite\<close> both refuses.
\<close>

section \<open>Decimals\<close>

datatype decimal = Decimal int int

text \<open>Trailing zeros of the mantissa move into the power.\<close>

lemma smaller_tenth: "man \<noteq> 0 \<Longrightarrow> man mod 10 = (0::int) \<Longrightarrow> nat \<bar>man div 10\<bar> < nat \<bar>man\<bar>"
  by (cases "0 \<le> man") (auto simp: abs_if)

function strip_zeros :: "int \<Rightarrow> int \<Rightarrow> decimal" where
  "strip_zeros man p =
     (if man = 0 then Decimal 0 0 else if man mod 10 = 0 then strip_zeros (man div 10) (p + 1) else Decimal man p)"
  by pat_completeness auto
termination by (relation "measure (\<lambda>(man, p). nat \<bar>man\<bar>)") (auto intro!: smaller_tenth)

declare strip_zeros.simps [simp del]

definition mk_decimal :: "int \<Rightarrow> int \<Rightarrow> decimal" where
  "mk_decimal man p = strip_zeros man p"

definition decimal_value :: "decimal \<Rightarrow> rat" where
  "decimal_value d = (case d of Decimal man p \<Rightarrow> of_int man * 10 powi p)"

section \<open>Reading\<close>

definition dec_digit :: "char \<Rightarrow> bool" where
  "dec_digit c = (let n = of_char c :: nat in 48 \<le> n \<and> n \<le> 57)"

text \<open>The value of a digit in the bases up to sixteen.\<close>

definition digit_value :: "char \<Rightarrow> nat option" where
  "digit_value c = (let n = of_char c :: nat in
     if 48 \<le> n \<and> n \<le> 57 then Some (n - 48)
     else if 97 \<le> n \<and> n \<le> 102 then Some (n - 87)
     else if 65 \<le> n \<and> n \<le> 70 then Some (n - 55) else None)"

fun read_base :: "nat \<Rightarrow> nat \<Rightarrow> string \<Rightarrow> nat option" where
  "read_base b acc [] = Some acc"
| "read_base b acc (c # cs) = (case digit_value c of
     None \<Rightarrow> None | Some d \<Rightarrow> if d < b then read_base b (acc * b + d) cs else None)"

definition split_digits :: "string \<Rightarrow> string \<times> string" where
  "split_digits s = (takeWhile dec_digit s, dropWhile dec_digit s)"

definition digits_nat :: "string \<Rightarrow> nat" where
  "digits_nat ds = foldl (\<lambda>n c. n * 10 + (of_char c - 48)) 0 ds"

text \<open>A sign, and what follows it.\<close>

definition read_sign :: "string \<Rightarrow> int \<times> string" where
  "read_sign s = (case s of
     [] \<Rightarrow> (1, [])
   | c # cs \<Rightarrow> if c = CHR ''-'' then (- 1, cs) else if c = CHR ''+'' then (1, cs) else (1, s))"

text \<open>The part after the digits: nothing, or an exponent with at least one digit.\<close>

definition read_exponent :: "string \<Rightarrow> int option" where
  "read_exponent s = (case s of
     [] \<Rightarrow> Some 0
   | c # cs \<Rightarrow>
       if c = CHR ''e'' \<or> c = CHR ''E'' then
         let (sg, rest) = read_sign cs; (ds, more) = split_digits rest
         in if ds \<noteq> [] \<and> more = [] then Some (sg * int (digits_nat ds)) else None
       else None)"

definition read_fraction :: "string \<Rightarrow> string \<times> string" where
  "read_fraction s = (case s of
     [] \<Rightarrow> ([], [])
   | c # cs \<Rightarrow> if c = CHR ''.'' then split_digits cs else ([], s))"

definition read_decimal :: "string \<Rightarrow> decimal option" where
  "read_decimal s =
     (let (sg, body) = read_sign s; (whole, r1) = split_digits body; (frac, r2) = read_fraction r1
      in if whole = [] \<and> frac = [] then None
         else case read_exponent r2 of
             None \<Rightarrow> None
           | Some e \<Rightarrow> Some (mk_decimal (sg * int (digits_nat (whole @ frac))) (e - int (length frac))))"

definition base_prefix :: "string \<Rightarrow> nat option" where
  "base_prefix s =
     (let p = js_lower (take 2 s) in
      if p = ''0x'' then Some 16 else if p = ''0o'' then Some 8 else if p = ''0b'' then Some 2 else None)"

definition js_number :: "string \<Rightarrow> decimal option" where
  "js_number s =
     (let t = js_trim s in
      if t = [] then Some (mk_decimal 0 0)
      else case base_prefix t of
          Some b \<Rightarrow> if drop 2 t = [] then None
                    else map_option (\<lambda>n. mk_decimal (int n) 0) (read_base b 0 (drop 2 t))
        | None \<Rightarrow> read_decimal t)"

definition int_decimal :: "int \<Rightarrow> decimal" where
  "int_decimal i = mk_decimal i 0"

section \<open>Equal numbers are equal decimals\<close>

lemma shift_zero: "decimal_value (Decimal (k * 10) p) = decimal_value (Decimal k (p + 1))"
  by (simp add: decimal_value_def power_int_add)

lemma tenth: "(man::int) mod 10 = 0 \<Longrightarrow> decimal_value (Decimal (man div 10) (p + 1)) = decimal_value (Decimal man p)"
  using shift_zero [of "man div 10" p] by (metis add.right_neutral div_mult_mod_eq)

lemma zero_value: "decimal_value (Decimal 0 p) = decimal_value (Decimal 0 0)"
  by (simp add: decimal_value_def)

lemma strip_zeros_value: "decimal_value (strip_zeros man p) = decimal_value (Decimal man p)"
proof (induction man p rule: strip_zeros.induct)
  case (1 man p)
  show ?case
  proof (cases "man \<noteq> 0 \<and> man mod 10 = 0")
    case True
    then show ?thesis using 1 tenth [of man p] by (simp add: strip_zeros.simps [of man p])
  next
    case False
    then show ?thesis by (auto simp: strip_zeros.simps [of man p] zero_value [of p])
  qed
qed

lemma mk_decimal_value: "decimal_value (mk_decimal man p) = decimal_value (Decimal man p)"
  by (simp add: mk_decimal_def strip_zeros_value)

text \<open>In lowest terms: no trailing zero, and only one zero.\<close>

fun lowest :: "decimal \<Rightarrow> bool" where
  "lowest (Decimal man p) = (if man = 0 then p = 0 else man mod 10 \<noteq> 0)"

lemma strip_zeros_lowest: "lowest (strip_zeros man p)"
proof (induction man p rule: strip_zeros.induct)
  case (1 man p)
  then show ?case by (simp add: strip_zeros.simps [of man p])
qed

lemma mk_decimal_lowest: "lowest (mk_decimal man p)"
  by (simp add: mk_decimal_def strip_zeros_lowest)

lemma lowest_unique:
  assumes "lowest (Decimal a p)" "lowest (Decimal b q)"
    and eq: "decimal_value (Decimal a p) = decimal_value (Decimal b q)" and le: "p \<le> q"
  shows "a = b \<and> p = q"
proof -
  obtain n where q: "q = p + int n" using le by (metis zle_iff_zadd)
  have "of_int a * (10 powi p :: rat) = of_int (b * 10 ^ n) * 10 powi p"
    using eq by (simp add: decimal_value_def q power_int_add mult_ac)
  then have "(of_int a :: rat) = of_int (b * 10 ^ n)" by simp
  then have a: "a = b * 10 ^ n" by (simp only: of_int_eq_iff)
  show ?thesis
  proof (cases n)
    case 0
    then show ?thesis using a q by simp
  next
    case (Suc m)
    then have "a mod 10 = 0" using a by simp
    then have "a = 0" "p = 0" using assms(1) by (auto split: if_splits)
    then have "b = 0" using a by simp
    then show ?thesis using assms(2) \<open>a = 0\<close> \<open>p = 0\<close> by (simp split: if_splits)
  qed
qed

lemma decimal_eq_iff:
  "mk_decimal a p = mk_decimal b q \<longleftrightarrow> decimal_value (Decimal a p) = decimal_value (Decimal b q)"
proof
  assume eq: "decimal_value (Decimal a p) = decimal_value (Decimal b q)"
  obtain a' p' where A: "mk_decimal a p = Decimal a' p'" by (cases "mk_decimal a p")
  obtain b' q' where B: "mk_decimal b q = Decimal b' q'" by (cases "mk_decimal b q")
  have low: "lowest (Decimal a' p')" "lowest (Decimal b' q')"
    using mk_decimal_lowest [of a p] mk_decimal_lowest [of b q] A B by simp_all
  have val: "decimal_value (Decimal a' p') = decimal_value (Decimal b' q')"
    using eq A B by (metis mk_decimal_value)
  show "mk_decimal a p = mk_decimal b q"
    using lowest_unique [OF low val] lowest_unique [OF low(2,1) val [symmetric]] A B by (cases "p' \<le> q'") auto
qed (metis mk_decimal_value)

lemma js_number_int [simp]: "js_number ''12'' = Some (int_decimal 12)"
  by code_simp

end
