(* ===== verification/FlowInputs.thy ===== *)
theory FlowInputs
  imports SyncSql JsNumber Regex
begin

text \<open>
  The inputs and outputs of the flow steps of a sync definition: value sources, handler slots and step
  bindings (\<open>packages/shared-types/src/value-source.ts\<close>, \<open>handler-input.ts\<close>, \<open>flow-step-bindings.ts\<close>,
  \<open>custom-value-source.ts\<close>, \<open>step-published-outputs.ts\<close>), the checks a flow passes before it is published
  (\<open>packages/sync/src/core/flow/validate-sync-flow.ts\<close>), and the resolution of the inputs when a step runs
  (\<open>runtime/orchestrator/flow/handler-inputs.ts\<close>, \<open>value-source-resolver.ts\<close>, \<open>step-output-registry.ts\<close>).
  The theorem relates the two: what can still go wrong at run time in a flow that passed the checks.
  A plain object is a map of its own members; the members every object inherits are not names of sources,
  steps or columns. What the target database answers to a lookup is an argument.
\<close>

section \<open>Steps, kinds and sources\<close>

datatype step_field = ObjectName | AuditObjectType | PipelineName

datatype value_source = PriorOutput string string | Literal sql_value | CatalogSource string

record handler_input =
  hi_name :: string
  hi_source :: "value_source option"

datatype handler_type = MetadataSyncHandler | MssqlProcedure | HttpRequest | CustomSql | CustomShellScript

datatype side = OnSource | OnTarget

datatype http_method = HttpGet | HttpPost

datatype shell_platform = LinuxShell | WindowsShell | AnyShell

record flow_handler =
  fh_type :: handler_type
  fh_connection :: side
  fh_procedure :: "string option"
  fh_parameters :: "handler_input list option"
  fh_http_service :: "string option"
  fh_http_method :: "http_method option"
  fh_http_path :: "string option"
  fh_http_body :: "handler_input list option"
  fh_sql_batch :: "string option"
  fh_shell_command :: "string option"
  fh_shell_platform :: "shell_platform option"
  fh_inputs :: "handler_input list option"

datatype failure_mode = FatalFailure | WarningFailure

record flow_kind =
  fk_handler :: flow_handler
  fk_failure_mode :: failure_mode
  fk_creates_dataset_layer :: bool
  fk_published_outputs :: "string list option"
  fk_skip_when_layer_failed :: bool

record flow_step =
  fs_id :: string
  fs_kind :: string
  fs_description :: string
  fs_bindings :: "(string, value_source) jsmap"
  fs_object_name :: "string option"
  fs_audit_object_type :: "string option"
  fs_pipeline_name :: "string option"

datatype catalog_resolver =
    PlanEntityId
  | PlanActor
  | CurrentStepId
  | TargetSql string string
  | StepField step_field

record flow_catalog =
  fc_kinds :: "(string, flow_kind) jsmap"
  fc_sources :: "(string, catalog_resolver) jsmap"

definition metadata_sync_kind_id :: string where
  "metadata_sync_kind_id = ''metadataSync''"

definition step_field_key :: "step_field \<Rightarrow> string" where
  "step_field_key f = (case f of ObjectName \<Rightarrow> ''objectName''
     | AuditObjectType \<Rightarrow> ''auditObjectType'' | PipelineName \<Rightarrow> ''pipelineName'')"

definition step_field_of_key :: "string \<Rightarrow> step_field option" where
  "step_field_of_key k = find (\<lambda>f. step_field_key f = k) [ObjectName, AuditObjectType, PipelineName]"

section \<open>Slots\<close>

definition default_custom_inputs :: "handler_input list" where
  "default_custom_inputs =
     [\<lparr>hi_name = ''entityId'', hi_source = Some (CatalogSource ''planEntityId'')\<rparr>,
      \<lparr>hi_name = ''id'', hi_source = Some (CatalogSource ''planEntityId'')\<rparr>,
      \<lparr>hi_name = ''stepId'', hi_source = Some (CatalogSource ''currentStepId'')\<rparr>]"

definition default_procedure_inputs :: "handler_input list" where
  "default_procedure_inputs = [\<lparr>hi_name = ''id'', hi_source = Some (CatalogSource ''planEntityId'')\<rparr>]"

definition or_default :: "'a list option \<Rightarrow> 'a list \<Rightarrow> 'a list" where
  "or_default given d = (case given of None \<Rightarrow> d | Some [] \<Rightarrow> d | Some xs \<Rightarrow> xs)"

definition handler_input_slots :: "flow_handler \<Rightarrow> handler_input list" where
  "handler_input_slots h = (case fh_type h of
       MssqlProcedure \<Rightarrow> (case fh_parameters h of Some ps \<Rightarrow> ps | None \<Rightarrow> default_procedure_inputs)
     | HttpRequest \<Rightarrow> or_default (fh_http_body h) []
     | CustomSql \<Rightarrow> or_default (fh_inputs h) default_custom_inputs
     | CustomShellScript \<Rightarrow> or_default (fh_inputs h) default_custom_inputs
     | MetadataSyncHandler \<Rightarrow> [])"

definition is_literal_source :: "value_source option \<Rightarrow> bool" where
  "is_literal_source s = (case s of Some (Literal v) \<Rightarrow> True | _ \<Rightarrow> False)"

definition value_source_catalog_id :: "value_source option \<Rightarrow> string option" where
  "value_source_catalog_id s = (case s of
     Some (CatalogSource i) \<Rightarrow> if js_trim i = [] then None else Some (js_trim i) | _ \<Rightarrow> None)"

definition is_step_bound_slot :: "handler_input \<Rightarrow> bool" where
  "is_step_bound_slot s = (js_trim (hi_name s) \<noteq> [] \<and> hi_source s = None)"

text \<open>\<open>sort()\<close> compares the texts by code unit.\<close>

fun text_le :: "string \<Rightarrow> string \<Rightarrow> bool" where
  "text_le [] ys = True"
| "text_le (x # xs) [] = False"
| "text_le (x # xs) (y # ys) = (of_char x < (of_char y :: nat) \<or> x = y \<and> text_le xs ys)"

fun text_insert :: "string \<Rightarrow> string list \<Rightarrow> string list" where
  "text_insert x [] = [x]"
| "text_insert x (y # ys) = (if text_le x y then x # y # ys else y # text_insert x ys)"

definition text_sort :: "string list \<Rightarrow> string list" where
  "text_sort xs = foldr text_insert xs []"

definition required_step_bound_slots :: "flow_handler \<Rightarrow> string list" where
  "required_step_bound_slots h =
     text_sort (filter (\<lambda>n. n \<noteq> []) (map (\<lambda>s. js_trim (hi_name s)) (filter is_step_bound_slot (handler_input_slots h))))"

definition step_fields_of_source :: "value_source option \<Rightarrow> step_field list" where
  "step_fields_of_source s = (case value_source_catalog_id s of
     None \<Rightarrow> [] | Some i \<Rightarrow> (case step_field_of_key i of None \<Rightarrow> [] | Some f \<Rightarrow> [f]))"

text \<open>The fields in the order of their sorted keys.\<close>

definition step_field_keys_for_step :: "flow_kind \<Rightarrow> step_field list" where
  "step_field_keys_for_step k =
     (let used = concat (map (\<lambda>s. step_fields_of_source (hi_source s)) (handler_input_slots (fk_handler k)))
      in filter (\<lambda>f. f \<in> set used) [AuditObjectType, ObjectName, PipelineName])"

definition step_field_text :: "flow_step \<Rightarrow> step_field \<Rightarrow> string option" where
  "step_field_text st f = (case f of ObjectName \<Rightarrow> fs_object_name st
     | AuditObjectType \<Rightarrow> fs_audit_object_type st | PipelineName \<Rightarrow> fs_pipeline_name st)"

definition read_step_field_value :: "flow_step \<Rightarrow> step_field \<Rightarrow> string option" where
  "read_step_field_value st f = (case step_field_text st f of
     None \<Rightarrow> None | Some t \<Rightarrow> if js_trim t = [] then None else Some (js_trim t))"

section \<open>Catalog ids and queries\<close>

definition is_catalog_id :: "string \<Rightarrow> bool" where
  "is_catalog_id i = (js_trim i \<noteq> [] \<and>
     rx_test \<lparr>ignore_case = False, multiline = False\<rparr> ''^[a-z][a-zA-Z0-9]*$'' (js_trim i))"

definition validate_catalog_id :: "string \<Rightarrow> string \<Rightarrow> string option" where
  "validate_catalog_id i label =
     (if js_trim i = [] then Some (label @ '' is required.'')
      else if \<not> is_catalog_id (js_trim i) then
        Some (label @ '' must be camelCase starting with a lowercase letter (e.g. metadataSync, preTransaction).'')
      else None)"

definition validate_value_source :: "value_source \<Rightarrow> string option" where
  "validate_value_source s = (case s of
       PriorOutput step out \<Rightarrow>
         if js_trim step = [] then Some ''Value source: priorOutput requires stepId.''
         else if js_trim out = [] then Some ''Value source: priorOutput requires output.'' else None
     | CatalogSource i \<Rightarrow> map_option (\<lambda>e. ''Value source: '' @ e) (validate_catalog_id i ''Custom value source id'')
     | Literal v \<Rightarrow> None)"

definition validate_target_sql_query :: "string \<Rightarrow> string option" where
  "validate_target_sql_query query =
     (let t = js_trim query;
          plain = \<lparr>ignore_case = False, multiline = False\<rparr>;
          any_case = \<lparr>ignore_case = True, multiline = False\<rparr>
      in if t = [] then Some ''SQL query is required.''
         else if \<not> rx_test any_case ''^~s*SELECT~b'' t then Some ''Query must be a SELECT statement.''
         else if \<not> rx_test plain ''@entityId~b'' t then Some ''Query must reference @entityId (sync plan entity id).''
         else if rx_test plain '';'' (rx_replace_all plain (CHR 0x27 # ''[^'' @ CHR 0x27 # '']*'' @ [CHR 0x27]) [] t)
           then Some ''Query must not contain statement separators.'' else None)"

definition infers_number :: "string \<Rightarrow> bool" where
  "infers_number result_column =
     (js_trim result_column \<noteq> [] \<and>
      rx_test \<lparr>ignore_case = True, multiline = False\<rparr> ''Id$'' (js_trim result_column))"

section \<open>Publish-time checks\<close>

record flow_issue =
  fi_step :: "string option"
  fi_kind :: "string option"
  fi_message :: string

definition issue_at :: "flow_step \<Rightarrow> string \<Rightarrow> flow_issue" where
  "issue_at st msg = \<lparr>fi_step = Some (fs_id st), fi_kind = Some (fs_kind st), fi_message = msg\<rparr>"

definition in_quotes :: "string \<Rightarrow> string" where
  "in_quotes s = CHR 0x22 # s @ [CHR 0x22]"

definition executable_kind :: "flow_handler \<Rightarrow> bool" where
  "executable_kind h =
     (let has = (\<lambda>t. case t of None \<Rightarrow> False | Some s \<Rightarrow> js_trim s \<noteq> [])
      in case fh_type h of
           MetadataSyncHandler \<Rightarrow> True
         | HttpRequest \<Rightarrow> has (fh_http_service h) \<and> has (fh_http_path h)
             \<and> (fh_http_method h = Some HttpGet \<or> handler_input_slots h \<noteq> [])
         | CustomSql \<Rightarrow> has (fh_sql_batch h)
         | CustomShellScript \<Rightarrow> has (fh_shell_command h)
         | MssqlProcedure \<Rightarrow> has (fh_procedure h))"

text \<open>The arrow of the message is one character of the source.\<close>

definition unknown_source_message :: "string \<Rightarrow> string" where
  "unknown_source_message i = ''Unknown value source '' @ in_quotes i @ ''. Configure it under Configuration ''
     @ [CHR 0xE2, CHR 0x86, CHR 0x92] @ '' Wiring.''"

definition validate_source_ref :: "(string, catalog_resolver) jsmap \<Rightarrow> flow_step \<Rightarrow> value_source \<Rightarrow> flow_issue list" where
  "validate_source_ref sources st s = (case validate_value_source s of
       Some e \<Rightarrow> [issue_at st e]
     | None \<Rightarrow> (case s of
           CatalogSource i \<Rightarrow> if js_has sources i then [] else [issue_at st (unknown_source_message i)]
         | _ \<Rightarrow> []))"

definition requires_binding :: "flow_step \<Rightarrow> string \<Rightarrow> string" where
  "requires_binding st slot = ''Step '' @ in_quotes (fs_id st) @ '' requires binding '' @ in_quotes slot @ '' on the flow step.''"

definition validate_slot :: "(string, catalog_resolver) jsmap \<Rightarrow> flow_step \<Rightarrow> handler_input \<Rightarrow> flow_issue list" where
  "validate_slot sources st slot = (case hi_source slot of
       Some s \<Rightarrow> validate_source_ref sources st s
     | None \<Rightarrow>
         if \<not> is_step_bound_slot slot then []
         else case js_get (fs_bindings st) (js_trim (hi_name slot)) of
             None \<Rightarrow> [issue_at st (requires_binding st (js_trim (hi_name slot)))]
           | Some s \<Rightarrow> validate_source_ref sources st s)"

definition validate_field :: "flow_step \<Rightarrow> step_field \<Rightarrow> flow_issue list" where
  "validate_field st f = (case read_step_field_value st f of
       Some t \<Rightarrow> []
     | None \<Rightarrow> [issue_at st (''Step '' @ in_quotes (fs_id st) @ '' requires '' @ step_field_key f @ ''.'')])"

text \<open>The last loop of the checks of one step, which looks at the issues found so far.\<close>

definition recheck_binding :: "flow_step \<Rightarrow> flow_issue list \<Rightarrow> string \<Rightarrow> flow_issue list" where
  "recheck_binding st errors slot =
     (if js_has (fs_bindings st) slot then errors
      else if \<exists>e\<in>set errors. fi_step e = Some (fs_id st) \<and> js_includes (fi_message e) (''binding '' @ in_quotes slot)
        then errors
      else errors @ [issue_at st (requires_binding st slot)])"

definition validate_step_bindings ::
  "(string, catalog_resolver) jsmap \<Rightarrow> flow_kind \<Rightarrow> flow_step \<Rightarrow> flow_issue list \<Rightarrow> flow_issue list" where
  "validate_step_bindings sources k st errors =
     (let e1 = errors @ concat (map (validate_slot sources st) (handler_input_slots (fk_handler k)));
          e2 = e1 @ concat (map (validate_field st) (step_field_keys_for_step k))
      in foldl (recheck_binding st) e2 (required_step_bound_slots (fk_handler k)))"

definition metadata_count :: "flow_step list \<Rightarrow> nat" where
  "metadata_count steps = length (filter (\<lambda>st. fs_kind st = metadata_sync_kind_id) steps)"

text \<open>One step of the loop. The check for a second metadata step before the first cannot fire: there is
  exactly one.\<close>

definition validate_flow_step :: "flow_catalog \<Rightarrow> nat \<Rightarrow> flow_issue list \<Rightarrow> nat \<times> flow_step \<Rightarrow> flow_issue list" where
  "validate_flow_step cat metadata_index errors e =
     (let st = snd e
      in case js_get (fc_kinds cat) (fs_kind st) of
           None \<Rightarrow> errors @ [issue_at st (''Unknown step kind '' @ in_quotes (fs_kind st) @ ''.'')]
         | Some k \<Rightarrow>
             validate_step_bindings (fc_sources cat) k st
               (errors
                @ (if executable_kind (fk_handler k) then []
                   else [issue_at st (''Kind '' @ in_quotes (fs_kind st)
                     @ '' has no executable handler (procedure, HTTP path, SQL batch, or shell command).'')])
                @ (if fst e < metadata_index \<and> fs_kind st = metadata_sync_kind_id
                   then [issue_at st (metadata_sync_kind_id @ '' must appear once in the flow.'')] else [])))"

definition validate_authored_sync_flow :: "flow_step list \<Rightarrow> flow_catalog \<Rightarrow> flow_issue list" where
  "validate_authored_sync_flow steps cat =
     (if steps = [] then
        [\<lparr>fi_step = None, fi_kind = None, fi_message = ''Execution flow must include at least one step.''\<rparr>]
      else if metadata_count steps \<noteq> 1 then
        [\<lparr>fi_step = None, fi_kind = None,
          fi_message = ''Flow must include exactly one '' @ metadata_sync_kind_id @ '' step (found ''
            @ show_nat (metadata_count steps) @ '').''\<rparr>]
      else foldl (validate_flow_step cat (the (find_index (\<lambda>st. fs_kind st = metadata_sync_kind_id) steps))) []
             (enumerate 0 steps))"

section \<open>Published outputs\<close>

definition trimmed_names :: "string list \<Rightarrow> string list" where
  "trimmed_names xs = text_sort (set_of_list (filter (\<lambda>n. n \<noteq> []) (map js_trim xs)))"

definition procedure_parameter_output_keys :: "flow_handler \<Rightarrow> string list" where
  "procedure_parameter_output_keys h =
     (if fh_type h \<noteq> MssqlProcedure then []
      else trimmed_names (map hi_name (case fh_parameters h of None \<Rightarrow> [] | Some ps \<Rightarrow> ps)))"

definition guaranteed_input_output_keys :: "flow_handler \<Rightarrow> string list" where
  "guaranteed_input_output_keys h = trimmed_names (map hi_name (handler_input_slots h))"

definition derive_published_outputs :: "flow_handler \<Rightarrow> string list" where
  "derive_published_outputs h = (case fh_type h of
       HttpRequest \<Rightarrow> guaranteed_input_output_keys h
     | CustomSql \<Rightarrow> guaranteed_input_output_keys h
     | CustomShellScript \<Rightarrow> guaranteed_input_output_keys h
     | _ \<Rightarrow> [])"

definition declared_output_keys :: "flow_kind \<Rightarrow> string list" where
  "declared_output_keys k = trimmed_names (case fk_published_outputs k of None \<Rightarrow> [] | Some ks \<Rightarrow> ks)"

definition handler_input_output_keys :: "flow_handler \<Rightarrow> string list" where
  "handler_input_output_keys h =
     (if fh_type h = MssqlProcedure then procedure_parameter_output_keys h else derive_published_outputs h)"

definition id_style :: "string \<Rightarrow> bool" where
  "id_style k = rx_test \<lparr>ignore_case = True, multiline = False\<rparr> ''^id~d*$'' k"

definition prune_stale_keys :: "string list \<Rightarrow> string list \<Rightarrow> string list" where
  "prune_stale_keys columns inputs =
     filter (\<lambda>key.
         \<not> (\<exists>i\<in>set inputs. i \<noteq> key \<and> starts_with i key)
       \<and> \<not> (\<exists>c\<in>set columns. c \<noteq> key \<and> starts_with c key)
       \<and> \<not> (\<not> (\<exists>i\<in>set inputs. id_style i) \<and> id_style key)
       \<and> \<not> (length key \<le> 1 \<and> key \<notin> set inputs)) columns"

definition compute_published_outputs :: "flow_kind \<Rightarrow> string list" where
  "compute_published_outputs k =
     (let inputs = handler_input_output_keys (fk_handler k)
      in text_sort (set_of_list (inputs
           @ prune_stale_keys (filter (\<lambda>key. key \<notin> set inputs) (declared_output_keys k)) inputs)))"

definition normalize_kind_definition :: "flow_kind \<Rightarrow> flow_kind" where
  "normalize_kind_definition k =
     (let keys = compute_published_outputs k
      in if keys \<noteq> [] then k\<lparr>fk_published_outputs := Some keys\<rparr> else k)"

text \<open>\<open>assertPublishedOutputsPresent\<close>: the first declared key the outputs lack.\<close>

definition missing_published_output :: "flow_kind \<Rightarrow> (string, sql_value) jsmap \<Rightarrow> string option" where
  "missing_published_output k outputs = find (\<lambda>key. \<not> js_has outputs key) (declared_output_keys k)"

section \<open>Outputs of finished steps\<close>

type_synonym step_outputs = "(string, (string, sql_value) jsmap) jsmap"

definition publish_outputs :: "step_outputs \<Rightarrow> string \<Rightarrow> (string, sql_value) jsmap \<Rightarrow> step_outputs" where
  "publish_outputs reg step outputs = (if js_trim step = [] then reg else js_set reg (js_trim step) outputs)"

datatype input_error =
    StepNotRun string string
  | NoSuchOutput string string "string list"
  | UnsupportedSource
  | UnknownSource string
  | ActorMissing
  | FieldMissing step_field
  | BadQuery string string
  | EntityNotNumeric string
  | LookupFailed string
  | NoText string string
  | NoNumber string string
  | BindingMissing string string

definition read_output :: "step_outputs \<Rightarrow> string \<Rightarrow> string \<Rightarrow> input_error + sql_value" where
  "read_output reg step key = (case js_get reg (js_trim step) of
       None \<Rightarrow> Inl (StepNotRun (js_trim step) (js_trim key))
     | Some bucket \<Rightarrow> (case js_get bucket (js_trim key) of
           None \<Rightarrow> Inl (NoSuchOutput (js_trim step) (js_trim key) (js_keys bucket))
         | Some v \<Rightarrow> Inr v))"

text \<open>What a handler got back: the result sets of a query, a JSON object (a member is kept when it is not
  itself an object or an array), or neither.\<close>

datatype handler_result =
    SqlResult "row list list" "row list"
  | JsonObject "(string \<times> sql_value option) list"
  | NoResult

definition first_sql_result_row :: "row list list \<Rightarrow> row list \<Rightarrow> row option" where
  "first_sql_result_row recordsets recordset =
     (case recordsets of (r # rs) # rss \<Rightarrow> Some r
      | _ \<Rightarrow> (case recordset of [] \<Rightarrow> None | r # rs \<Rightarrow> Some r))"

definition flat_json_object :: "(string \<times> sql_value option) list \<Rightarrow> row option" where
  "flat_json_object entries =
     (let row = js_map_of_list (concat (map (\<lambda>e. case snd e of None \<Rightarrow> [] | Some v \<Rightarrow> [(fst e, v)]) entries))
      in if row = [] then None else Some row)"

definition add_missing :: "(string, sql_value) jsmap \<Rightarrow> string \<times> sql_value \<Rightarrow> (string, sql_value) jsmap" where
  "add_missing outputs e = (if js_has outputs (fst e) then outputs else js_set outputs (fst e) (snd e))"

definition merge_handler_result :: "(string, sql_value) jsmap \<Rightarrow> handler_result \<Rightarrow> (string, sql_value) jsmap" where
  "merge_handler_result inputs result =
     (case (case result of SqlResult rss rs \<Rightarrow> first_sql_result_row rss rs
            | JsonObject es \<Rightarrow> flat_json_object es | NoResult \<Rightarrow> None) of
        None \<Rightarrow> inputs
      | Some row \<Rightarrow> foldl add_missing inputs row)"

section \<open>Resolution at run time\<close>

text \<open>\<open>rc_target_query\<close> answers a lookup, given the label of the source, the query and the id it is asked
  about: the driver's error or the result set.\<close>

record resolve_ctx =
  rc_entity_id :: entity_id
  rc_user_upn :: "string option"
  rc_outputs :: step_outputs
  rc_sources :: "(string, catalog_resolver) jsmap"
  rc_target_query :: "string \<Rightarrow> string \<Rightarrow> decimal \<Rightarrow> string + row list"

definition entity_value :: "entity_id \<Rightarrow> sql_value" where
  "entity_value i = (case i of IdNum n \<Rightarrow> SqlInt n | IdText s \<Rightarrow> SqlText s)"

definition numeric_entity_id :: "entity_id \<Rightarrow> decimal option" where
  "numeric_entity_id i = (case i of IdNum n \<Rightarrow> Some (int_decimal n) | IdText s \<Rightarrow> js_number s)"

text \<open>A number a driver returns is one whose literal is its text; a date's or a buffer's is not.\<close>

definition is_number_value :: "sql_value \<Rightarrow> bool" where
  "is_number_value v = (case v of SqlInt i \<Rightarrow> True | SqlOther s q \<Rightarrow> s = q \<and> js_number s \<noteq> None | _ \<Rightarrow> False)"

text \<open>A number read from a text; fractions are printed in positional notation.\<close>

definition fraction_text :: "int \<Rightarrow> nat \<Rightarrow> string" where
  "fraction_text man places =
     (let ds = show_nat (nat \<bar>man\<bar>);
          padded = replicate (Suc places - length ds) (CHR ''0'') @ ds;
          whole = take (length padded - places) padded
      in (if man < 0 then ''-'' else []) @ whole @ ''.'' @ drop (length padded - places) padded)"

definition number_value :: "decimal \<Rightarrow> sql_value" where
  "number_value d = (case d of Decimal man p \<Rightarrow>
     if 0 \<le> p then SqlInt (man * 10 ^ nat p)
     else SqlOther (fraction_text man (nat (- p))) (fraction_text man (nat (- p))))"

definition resolve_target_sql :: "resolve_ctx \<Rightarrow> string \<Rightarrow> string \<Rightarrow> string \<Rightarrow> input_error + sql_value" where
  "resolve_target_sql ctx label query col = (case validate_target_sql_query query of
       Some e \<Rightarrow> Inl (BadQuery label e)
     | None \<Rightarrow> (case numeric_entity_id (rc_entity_id ctx) of
           None \<Rightarrow> Inl (EntityNotNumeric label)
         | Some n \<Rightarrow> (case rc_target_query ctx label (js_trim query) n of
               Inl e \<Rightarrow> Inl (LookupFailed e)
             | Inr rows \<Rightarrow>
                 let raw = (case rows of [] \<Rightarrow> SqlNull | r # rs \<Rightarrow> column r col)
                 in if \<not> infers_number col then
                      (if raw \<noteq> SqlNull \<and> js_trim (js_string raw) \<noteq> [] then Inr (SqlText (js_trim (js_string raw)))
                       else Inl (NoText label col))
                    else if is_number_value raw then Inr raw
                    else (case raw of
                        SqlText s \<Rightarrow> if js_trim s = [] then Inl (NoNumber label col)
                          else (case js_number s of Some d \<Rightarrow> Inr (number_value d) | None \<Rightarrow> Inl (NoNumber label col))
                      | _ \<Rightarrow> Inl (NoNumber label col)))))"

definition resolve_catalog_definition ::
  "resolve_ctx \<Rightarrow> flow_step \<Rightarrow> string \<Rightarrow> catalog_resolver \<Rightarrow> input_error + sql_value" where
  "resolve_catalog_definition ctx st label r = (case r of
       PlanEntityId \<Rightarrow> Inr (entity_value (rc_entity_id ctx))
     | PlanActor \<Rightarrow> (case rc_user_upn ctx of
           None \<Rightarrow> Inl ActorMissing
         | Some u \<Rightarrow> if js_trim u = [] then Inl ActorMissing else Inr (SqlText (js_trim u)))
     | CurrentStepId \<Rightarrow> Inr (SqlText (fs_id st))
     | StepField f \<Rightarrow> (case read_step_field_value st f of
           None \<Rightarrow> Inl (FieldMissing f) | Some t \<Rightarrow> Inr (SqlText t))
     | TargetSql query col \<Rightarrow> resolve_target_sql ctx label query col)"

definition resolve_value_source :: "resolve_ctx \<Rightarrow> flow_step \<Rightarrow> value_source \<Rightarrow> input_error + sql_value" where
  "resolve_value_source ctx st s = (case s of
       Literal v \<Rightarrow> Inr v
     | PriorOutput step key \<Rightarrow> read_output (rc_outputs ctx) step key
     | CatalogSource i \<Rightarrow> (case value_source_catalog_id (Some s) of
           None \<Rightarrow> Inl UnsupportedSource
         | Some cid \<Rightarrow> (case js_get (rc_sources ctx) cid of
               None \<Rightarrow> Inl (UnknownSource cid)
             | Some r \<Rightarrow> resolve_catalog_definition ctx st cid r)))"

definition resolve_slot_value_source :: "flow_step \<Rightarrow> handler_input \<Rightarrow> input_error + value_source" where
  "resolve_slot_value_source st slot = (case hi_source slot of
       Some s \<Rightarrow> Inr s
     | None \<Rightarrow> (case js_get (fs_bindings st) (js_trim (hi_name slot)) of
           None \<Rightarrow> Inl (BindingMissing (fs_id st) (js_trim (hi_name slot)))
         | Some s \<Rightarrow> Inr s))"

fun resolve_slots ::
  "resolve_ctx \<Rightarrow> flow_step \<Rightarrow> (string, sql_value) jsmap \<Rightarrow> handler_input list
     \<Rightarrow> input_error + (string, sql_value) jsmap" where
  "resolve_slots ctx st values [] = Inr values"
| "resolve_slots ctx st values (slot # slots) =
     (if js_trim (hi_name slot) = [] then resolve_slots ctx st values slots
      else case resolve_slot_value_source st slot of
          Inl e \<Rightarrow> Inl e
        | Inr s \<Rightarrow> (case resolve_value_source ctx st s of
              Inl e \<Rightarrow> Inl e
            | Inr v \<Rightarrow> resolve_slots ctx st (js_set values (js_trim (hi_name slot)) v) slots))"

definition resolve_handler_inputs ::
  "resolve_ctx \<Rightarrow> flow_step \<Rightarrow> handler_input list \<Rightarrow> input_error + (string, sql_value) jsmap" where
  "resolve_handler_inputs ctx st slots = resolve_slots ctx st [] slots"

section \<open>What the checks leave to run time\<close>

text \<open>The sources the slots of a step resolve to.\<close>

definition slot_sources :: "flow_step \<Rightarrow> handler_input list \<Rightarrow> (handler_input \<times> value_source) list" where
  "slot_sources st slots = concat (map (\<lambda>slot.
     if js_trim (hi_name slot) = [] then []
     else case resolve_slot_value_source st slot of Inl e \<Rightarrow> [] | Inr s \<Rightarrow> [(slot, s)]) slots)"

text \<open>The errors of one source that the checks do not exclude: the value of another step, of the run or of
  the database is missing, the catalogue holds a query that is not one, or a step field is missed by the
  checks, because it is read through a binding of the step or through an entry of another name.\<close>

definition late_error :: "resolve_ctx \<Rightarrow> flow_step \<Rightarrow> handler_input \<Rightarrow> value_source \<Rightarrow> input_error \<Rightarrow> bool" where
  "late_error ctx st slot s e = (case s of
       Literal v \<Rightarrow> False
     | PriorOutput step key \<Rightarrow> (case js_get (rc_outputs ctx) (js_trim step) of
           None \<Rightarrow> e = StepNotRun (js_trim step) (js_trim key)
         | Some bucket \<Rightarrow> \<not> js_has bucket (js_trim key)
             \<and> e = NoSuchOutput (js_trim step) (js_trim key) (js_keys bucket))
     | CatalogSource i \<Rightarrow>
         if i \<noteq> js_trim i \<and> e = UnknownSource (js_trim i) then True
         else case js_get (rc_sources ctx) (js_trim i) of
             None \<Rightarrow> False
           | Some r \<Rightarrow> (case r of
                 PlanEntityId \<Rightarrow> False
               | CurrentStepId \<Rightarrow> False
               | PlanActor \<Rightarrow> e = ActorMissing \<and> (rc_user_upn ctx = None \<or> js_trim (the (rc_user_upn ctx)) = [])
               | StepField f \<Rightarrow> e = FieldMissing f \<and> read_step_field_value st f = None
                   \<and> (hi_source slot = None \<or> js_trim i \<noteq> step_field_key f)
               | TargetSql query col \<Rightarrow> resolve_target_sql ctx (js_trim i) query col = Inl e))"

lemma recheck_keeps: "foldl (recheck_binding st) errors xs = [] \<Longrightarrow> errors = []"
  by (induction xs arbitrary: errors) (auto simp: recheck_binding_def split: if_splits)

lemma step_checks:
  assumes "validate_flow_step cat mi errors e = []"
  shows "errors = [] \<and> (\<exists>k. js_get (fc_kinds cat) (fs_kind (snd e)) = Some k
    \<and> executable_kind (fk_handler k)
    \<and> (\<forall>slot\<in>set (handler_input_slots (fk_handler k)). validate_slot (fc_sources cat) (snd e) slot = [])
    \<and> (\<forall>f\<in>set (step_field_keys_for_step k). read_step_field_value (snd e) f \<noteq> None))"
  using assms
  by (auto simp: validate_flow_step_def validate_step_bindings_def validate_field_def Let_def
      split: option.splits if_splits dest!: recheck_keeps)

lemma flow_checks:
  "foldl (validate_flow_step cat mi) errors es = [] \<Longrightarrow> e \<in> set es \<Longrightarrow>
    \<exists>err. validate_flow_step cat mi err e = []"
proof (induction es arbitrary: errors)
  case (Cons x es)
  have keep: "errs = []" if "foldl (validate_flow_step cat mi) errs xs = []" for errs xs
    using that by (induction xs arbitrary: errs) (auto dest!: step_checks)
  show ?case
    using Cons keep by fastforce
qed simp

lemma enumerate_mem: "x \<in> set xs \<Longrightarrow> \<exists>i. (i, x) \<in> set (enumerate n xs)"
  by (induction xs arbitrary: n) auto

lemma validated_step:
  assumes "validate_authored_sync_flow steps cat = []" "st \<in> set steps" "js_get (fc_kinds cat) (fs_kind st) = Some k"
  shows "(\<forall>slot\<in>set (handler_input_slots (fk_handler k)). validate_slot (fc_sources cat) st slot = [])
    \<and> (\<forall>f\<in>set (step_field_keys_for_step k). read_step_field_value st f \<noteq> None)"
proof -
  obtain mi where loop: "foldl (validate_flow_step cat mi) [] (enumerate 0 steps) = []"
    using assms(1) by (auto simp: validate_authored_sync_flow_def split: if_splits)
  obtain i where "(i, st) \<in> set (enumerate 0 steps)"
    using enumerate_mem [OF assms(2)] by blast
  from flow_checks [OF loop this] obtain err where "validate_flow_step cat mi err (i, st) = []" ..
  from step_checks [OF this] assms(3) show ?thesis by auto
qed

lemma checked_source: "validate_source_ref sources st s = [] \<Longrightarrow>
    (case s of CatalogSource i \<Rightarrow> js_trim i \<noteq> [] \<and> js_has sources i | _ \<Rightarrow> True)"
  by (auto simp: validate_source_ref_def validate_value_source_def validate_catalog_id_def
      split: value_source.splits option.splits if_splits)

lemma step_field_of_key: "step_field_of_key (step_field_key f) = Some f"
  by (cases f) (simp_all add: step_field_of_key_def step_field_key_def)

text \<open>A step field read through an entry of its own name is one of the fields the checks look at.\<close>

lemma field_is_checked:
  assumes "slot \<in> set (handler_input_slots (fk_handler k))" "hi_source slot = Some (CatalogSource i)"
    and "js_trim i = step_field_key f"
  shows "f \<in> set (step_field_keys_for_step k)"
proof -
  have "js_trim i \<noteq> []" using assms(3) by (cases f) (simp_all add: step_field_key_def)
  then have "f \<in> set (step_fields_of_source (hi_source slot))"
    using assms(2,3) by (simp add: step_fields_of_source_def value_source_catalog_id_def step_field_of_key)
  then have "f \<in> set (concat (map (\<lambda>s. step_fields_of_source (hi_source s)) (handler_input_slots (fk_handler k))))"
    using assms(1) by auto
  moreover have "f \<in> set [AuditObjectType, ObjectName, PipelineName]"
    by (cases f) simp_all
  ultimately show ?thesis
    by (simp only: step_field_keys_for_step_def Let_def set_filter mem_Collect_eq)
qed

lemma late_source:
  assumes "slot \<in> set (handler_input_slots (fk_handler k))"
    and "validate_slot sources st slot = []"
    and fields: "\<forall>f\<in>set (step_field_keys_for_step k). read_step_field_value st f \<noteq> None"
    and name: "js_trim (hi_name slot) \<noteq> []"
    and src: "resolve_slot_value_source st slot = Inr s" and sources: "rc_sources ctx = sources"
    and err: "resolve_value_source ctx st s = Inl e"
  shows "late_error ctx st slot s e"
proof -
  have checked: "case s of CatalogSource i \<Rightarrow> js_trim i \<noteq> [] \<and> js_has sources i | _ \<Rightarrow> True"
    using assms(2) src name checked_source [of sources st s]
    by (auto simp: validate_slot_def resolve_slot_value_source_def is_step_bound_slot_def
        split: option.splits if_splits)
  show ?thesis
  proof (cases s)
    case (PriorOutput step key)
    then show ?thesis using err
      by (auto simp: late_error_def resolve_value_source_def read_output_def js_has_get split: option.splits)
  next
    case (Literal v)
    then show ?thesis using err by (simp add: resolve_value_source_def)
  next
    case (CatalogSource i)
    have own: "hi_source slot = Some (CatalogSource i)" if "hi_source slot \<noteq> None"
      using that src CatalogSource by (auto simp: resolve_slot_value_source_def)
    show ?thesis
    proof (cases "js_get (rc_sources ctx) (js_trim i)")
      case None
      then have "i \<noteq> js_trim i" using checked CatalogSource sources by (auto simp: js_has_get)
      then show ?thesis using None CatalogSource err checked
        by (simp add: late_error_def resolve_value_source_def value_source_catalog_id_def)
    next
      case (Some r)
      have r: "resolve_catalog_definition ctx st (js_trim i) r = Inl e"
        using err CatalogSource Some checked by (simp add: resolve_value_source_def value_source_catalog_id_def)
      have "js_trim i \<noteq> step_field_key f" if "r = StepField f" "hi_source slot \<noteq> None" for f
      proof
        assume "js_trim i = step_field_key f"
        then have "read_step_field_value st f \<noteq> None"
          using field_is_checked [OF assms(1) own [OF that(2)]] fields by blast
        then show False using r that(1) by (auto simp: resolve_catalog_definition_def)
      qed
      then show ?thesis using r Some CatalogSource
        by (cases r) (auto simp: late_error_def resolve_catalog_definition_def split: option.splits if_splits)
    qed
  qed
qed

lemma bound_or_own:
  "validate_slot sources st slot = [] \<Longrightarrow> js_trim (hi_name slot) \<noteq> [] \<Longrightarrow>
    \<exists>s. resolve_slot_value_source st slot = Inr s"
  by (auto simp: validate_slot_def resolve_slot_value_source_def is_step_bound_slot_def issue_at_def
      split: option.splits)

lemma slot_sources_Cons:
  "slot_sources st (slot # slots) =
     (if js_trim (hi_name slot) = [] then []
      else case resolve_slot_value_source st slot of Inl e \<Rightarrow> [] | Inr s \<Rightarrow> [(slot, s)]) @ slot_sources st slots"
  by (simp add: slot_sources_def)

lemma resolved_slots:
  assumes "set slots \<subseteq> set (handler_input_slots (fk_handler k))"
    and ok: "\<forall>slot\<in>set slots. validate_slot (rc_sources ctx) st slot = []"
    and fields: "\<forall>f\<in>set (step_field_keys_for_step k). read_step_field_value st f \<noteq> None"
  shows "case resolve_slots ctx st vals slots of
      Inr vs \<Rightarrow> set (js_keys vs) = set (js_keys vals) \<union> {n \<in> (\<lambda>s. js_trim (hi_name s)) ` set slots. n \<noteq> []}
    | Inl e \<Rightarrow> \<exists>(slot, s)\<in>set (slot_sources st slots). late_error ctx st slot s e"
  using assms(1,2)
proof (induction slots arbitrary: vals)
  case Nil
  then show ?case by simp
next
  case (Cons slot slots)
  note IH = Cons.IH
  have sub: "set slots \<subseteq> set (handler_input_slots (fk_handler k))"
    "\<forall>slot\<in>set slots. validate_slot (rc_sources ctx) st slot = []"
    "slot \<in> set (handler_input_slots (fk_handler k))" "validate_slot (rc_sources ctx) st slot = []"
    using Cons.prems by auto
  show ?case
  proof (cases "js_trim (hi_name slot) = []")
    case True
    then show ?thesis using IH [OF sub(1,2), of vals]
      by (auto simp: slot_sources_Cons split: sum.splits)
  next
    case named: False
    obtain s where s: "resolve_slot_value_source st slot = Inr s"
      using bound_or_own [OF sub(4) named] ..
    show ?thesis
    proof (cases "resolve_value_source ctx st s")
      case (Inl e)
      then have "late_error ctx st slot s e"
        using late_source [OF sub(3,4) fields named s refl] by blast
      then show ?thesis using named s Inl by (simp add: slot_sources_Cons)
    next
      case (Inr v)
      then show ?thesis using named s IH [OF sub(1,2), of "js_set vals (js_trim (hi_name slot)) v"]
        by (auto simp: slot_sources_Cons split: sum.splits)
    qed
  qed
qed

text \<open>C15: In a flow that passed the publish-time checks, the inputs of every step resolve to one value per
  named slot, or fail in one of the ways the checks leave open: a value of another step, of the run or of
  the database is missing, or a step field is read through a binding or an entry of another name. A missing
  binding never stops a step.\<close>

theorem validated_inputs_resolve:
  assumes "validate_authored_sync_flow steps cat = []" "st \<in> set steps"
    and "js_get (fc_kinds cat) (fs_kind st) = Some k" and "rc_sources ctx = fc_sources cat"
  shows "case resolve_handler_inputs ctx st (handler_input_slots (fk_handler k)) of
      Inr vs \<Rightarrow> set (js_keys vs)
        = {n \<in> (\<lambda>s. js_trim (hi_name s)) ` set (handler_input_slots (fk_handler k)). n \<noteq> []}
    | Inl e \<Rightarrow> \<exists>(slot, s)\<in>set (slot_sources st (handler_input_slots (fk_handler k))). late_error ctx st slot s e"
proof -
  have "set (js_keys ([] :: (string, sql_value) jsmap)) = {}" by (simp add: js_keys_def)
  then show ?thesis
    using resolved_slots [OF subset_refl, of k ctx st "[]"] validated_step [OF assms(1-3)] assms(4)
    unfolding resolve_handler_inputs_def by (auto split: sum.splits)
qed

section \<open>An example\<close>

definition no_handler :: "handler_type \<Rightarrow> flow_handler" where
  "no_handler t = \<lparr>fh_type = t, fh_connection = OnTarget, fh_procedure = None, fh_parameters = None,
     fh_http_service = None, fh_http_method = None, fh_http_path = None, fh_http_body = None,
     fh_sql_batch = None, fh_shell_command = None, fh_shell_platform = None, fh_inputs = None\<rparr>"

definition plain_kind :: "flow_handler \<Rightarrow> flow_kind" where
  "plain_kind h = \<lparr>fk_handler = h, fk_failure_mode = WarningFailure, fk_creates_dataset_layer = False,
     fk_published_outputs = None, fk_skip_when_layer_failed = False\<rparr>"

definition bare_step :: "string \<Rightarrow> string \<Rightarrow> flow_step" where
  "bare_step i k = \<lparr>fs_id = i, fs_kind = k, fs_description = [], fs_bindings = [], fs_object_name = None,
     fs_audit_object_type = None, fs_pipeline_name = None\<rparr>"

definition example_deploy_kind :: flow_kind where
  "example_deploy_kind = plain_kind ((no_handler MssqlProcedure)\<lparr>fh_procedure := Some ''core.uspDeploy'',
     fh_parameters := Some [\<lparr>hi_name = ''id'', hi_source = Some (CatalogSource ''planEntityId'')\<rparr>,
       \<lparr>hi_name = ''name'', hi_source = None\<rparr>]\<rparr>)"

definition example_catalog :: flow_catalog where
  "example_catalog = \<lparr>fc_kinds = [(''metadataSync'', plain_kind (no_handler MetadataSyncHandler)),
       (''deploy'', example_deploy_kind)],
     fc_sources = [(''planEntityId'', PlanEntityId), (''objectName'', StepField ObjectName)]\<rparr>"

text \<open>The deploy step reads the object name through its binding, and has none.\<close>

definition example_deploy_step :: flow_step where
  "example_deploy_step = (bare_step ''deploy1'' ''deploy'')\<lparr>fs_bindings := [(''name'', CatalogSource ''objectName'')]\<rparr>"

definition example_flow :: "flow_step list" where
  "example_flow = [bare_step ''metadataSync'' ''metadataSync'', example_deploy_step]"

definition example_ctx :: resolve_ctx where
  "example_ctx = \<lparr>rc_entity_id = IdNum 7, rc_user_upn = None, rc_outputs = [],
     rc_sources = fc_sources example_catalog, rc_target_query = (\<lambda>l q i. Inl ''no database'')\<rparr>"

lemma example_flow_valid: "validate_authored_sync_flow example_flow example_catalog = []"
  by code_simp

lemma example_kind: "js_get (fc_kinds example_catalog) (fs_kind example_deploy_step) = Some example_deploy_kind"
  by code_simp

lemma example_unresolved:
  "resolve_handler_inputs example_ctx example_deploy_step (handler_input_slots (fk_handler example_deploy_kind))
     = Inl (FieldMissing ObjectName)"
  by code_simp

text \<open>The published flow stops at a field its checks did not ask for.\<close>

lemma bound_field_not_checked:
  "validate_authored_sync_flow example_flow example_catalog = []
   \<and> example_deploy_step \<in> set example_flow
   \<and> resolve_handler_inputs example_ctx example_deploy_step (handler_input_slots (fk_handler example_deploy_kind))
     = Inl (FieldMissing ObjectName)"
  using example_flow_valid example_unresolved by (simp add: example_flow_def)

lemma validated_inputs_resolve_witness:
  "\<exists>(slot, s)\<in>set (slot_sources example_deploy_step (handler_input_slots (fk_handler example_deploy_kind))).
     late_error example_ctx example_deploy_step slot s (FieldMissing ObjectName)"
  using validated_inputs_resolve [OF example_flow_valid _ example_kind, of example_ctx] example_unresolved
  by (simp add: example_flow_def example_ctx_def)

section \<open>Outputs keep the inputs\<close>

lemma add_missing_step: "js_get (add_missing outputs e) n
    = (if js_get outputs n = None \<and> n = fst e then Some (snd e) else js_get outputs n)"
  by (auto simp: add_missing_def js_has_get)

lemma add_missing_get: "js_get (foldl add_missing outputs row) n
    = (case js_get outputs n of Some v \<Rightarrow> Some v | None \<Rightarrow> js_get row n)"
proof (induction row arbitrary: outputs)
  case Nil
  then show ?case by (simp split: option.splits)
next
  case (Cons e row)
  have "js_get (e # row) n = (if n = fst e then Some (snd e) else js_get row n)"
    by (cases e) (simp add: js_get_def)
  then show ?case by (auto simp: Cons.IH add_missing_step split: option.splits)
qed

text \<open>A handler's result never replaces an input, and adds what the inputs lack.\<close>

lemma merge_handler_result_get:
  "js_get (merge_handler_result inputs (SqlResult rss rs)) n
     = (case js_get inputs n of Some v \<Rightarrow> Some v
        | None \<Rightarrow> (case first_sql_result_row rss rs of None \<Rightarrow> None | Some row \<Rightarrow> js_get row n))"
  by (simp add: merge_handler_result_def add_missing_get split: option.splits)

lemma merge_keeps_inputs: "js_get inputs n = Some v \<Longrightarrow> js_get (merge_handler_result inputs result) n = Some v"
  by (simp add: merge_handler_result_def add_missing_get split: option.splits)

lemma published_read: "js_trim step \<noteq> [] \<Longrightarrow> js_get outputs (js_trim key) = Some v \<Longrightarrow>
    read_output (publish_outputs reg step outputs) step key = Inr v"
  by (simp add: publish_outputs_def read_output_def)

text \<open>A declared result column is dropped when it begins another declared column.\<close>

lemma declared_column_pruned:
  "compute_published_outputs ((plain_kind ((no_handler MssqlProcedure)\<lparr>fh_parameters := Some []\<rparr>))
     \<lparr>fk_published_outputs := Some [''status'', ''statusText'']\<rparr>) = [''statusText'']"
  by code_simp

end
