(* ===== verification/SyncDiff.thy ===== *)
theory SyncDiff
  imports SyncSql
begin

text \<open>
  The per-table diff of the sync engine: \<open>packages/sync/src/runtime/diff-engine/diff-table.ts\<close> with
  its row fetch (\<open>columns.ts\<close>) and misattribution probe (\<open>conflicts.ts\<close>),
  \<open>core/diff-engine/change-set.ts\<close>, the plan types (\<open>domain/plan.ts\<close>,
  \<open>domain/diff-engine/types.ts\<close>), the movement counts of
  \<open>packages/shared-types/src/sync-plan.ts\<close> and the plan checks of
  \<open>runtime/orchestrator/plan-table.ts\<close>.

  What a query returns is a parameter: a \<open>diff_host\<close> answers the metadata query, the two row
  queries (for a predicate and the hashed columns), the probe and the sample queries.
  Warnings are constructors carrying the interpolated values; clock readings are arguments.
\<close>

section \<open>Types\<close>

text \<open>The UTF-8 bytes of the sign that stands for a missing key value.\<close>

definition null_mark :: string where
  "null_mark = [CHR 0xE2, CHR 0x88, CHR 0x85]"

definition pk_part :: "sql_value \<Rightarrow> string" where
  "pk_part v = (if v = SqlNull then null_mark else js_string v)"

record pk_hash_row =
  pk :: string
  row_hash :: string
  pk_values :: row

record change_row =
  cr_pk :: string
  cr_values :: row

record change_set =
  cs_insert :: "change_row list"
  cs_update :: "change_row list"
  cs_delete :: "change_row list"

datatype conflict_kind = ScopeMisattribution | InboundReference | MissingParent

record plan_conflict =
  pc_kind :: conflict_kind
  pc_pk :: string
  pc_expected :: "(string, sql_value) jsmap"
  pc_actual :: "(string, sql_value) jsmap"
  pc_owners :: "(string, sql_value) jsmap"

datatype plan_warning =
    NoPkColumns
  | NoScd2Policy string
  | NoComparableColumns string
  | RowCapExceeded nat nat
  | ProbeFailed string string
  | BlockedByScope nat
  | DeletesBlocked nat
  | InsertsBlocked nat

record table_stats =
  unchanged :: nat
  low_confidence :: nat

record samples =
  s_insert :: "row list"
  s_update :: "row list"
  s_delete :: "row list"

record sync_plan_table =
  table :: string
  scope_predicate :: string
  stats :: table_stats
  changes :: change_set
  sample_rows :: samples
  conflicts :: "plan_conflict list"
  warnings :: "plan_warning list"
  diff_duration :: int

record authored_table =
  at_name :: string
  at_predicate :: string
  at_scope_column :: "string option"
  at_scd2_exclude :: "string list option"  \<comment> \<open>\<open>scd2Policy?.excludeFromDiff\<close>\<close>

record column_meta =
  col_name :: string
  is_computed :: bool
  is_identity :: bool
  system_type :: string

record table_column_info =
  hash_columns :: "(string \<times> string) list"
  identity_column :: "string option"

record diff_options =
  row_cap :: nat
  sample_size :: nat
  expanded_ids :: "entity_id list option"

record diff_host =
  q_columns :: "column_meta list"
  q_source :: "string \<Rightarrow> (string \<times> string) list \<Rightarrow> row list"
  q_target :: "string \<Rightarrow> (string \<times> string) list \<Rightarrow> row list"
  q_probe :: "string list \<Rightarrow> string + (sql_value \<times> sql_value) list"
  q_samples :: "bool \<Rightarrow> pk_hash_row list \<Rightarrow> row list"
  q_update_samples :: "pk_hash_row list \<Rightarrow> row list"

definition default_opts :: diff_options where
  "default_opts = \<lparr>row_cap = 5000000, sample_size = 50, expanded_ids = None\<rparr>"

section \<open>Change sets\<close>

definition empty_change_set :: change_set where
  "empty_change_set = \<lparr>cs_insert = [], cs_update = [], cs_delete = []\<rparr>"

definition to_change_rows :: "pk_hash_row list \<Rightarrow> change_row list" where
  "to_change_rows rows = map (\<lambda>r. \<lparr>cr_pk = pk r, cr_values = pk_values r\<rparr>) rows"

definition build_change_set :: "pk_hash_row list \<Rightarrow> pk_hash_row list \<Rightarrow> pk_hash_row list \<Rightarrow> change_set" where
  "build_change_set ins upd del =
     \<lparr>cs_insert = to_change_rows ins, cs_update = to_change_rows upd, cs_delete = to_change_rows del\<rparr>"

definition change_rows_as_pk_hash :: "change_row list \<Rightarrow> pk_hash_row list" where
  "change_rows_as_pk_hash rows = map (\<lambda>r. \<lparr>pk = cr_pk r, row_hash = [], pk_values = cr_values r\<rparr>) rows"

definition upsert_rows :: "sync_plan_table \<Rightarrow> change_row list" where
  "upsert_rows t = cs_insert (changes t) @ cs_update (changes t)"

definition delete_rows :: "sync_plan_table \<Rightarrow> change_row list" where
  "delete_rows t = cs_delete (changes t)"

section \<open>Fetching keys and hashes\<close>

fun scan_columns :: "string list \<Rightarrow> column_meta list \<Rightarrow> table_column_info \<Rightarrow> table_column_info" where
  "scan_columns excl [] info = info"
| "scan_columns excl (c # cs) info =
     (if is_identity c then scan_columns excl cs (info\<lparr>identity_column := Some (col_name c)\<rparr>)
      else if is_computed c then scan_columns excl cs info
      else if col_name c \<in> set excl then scan_columns excl cs info
      else scan_columns excl cs
             (info\<lparr>hash_columns := hash_columns info @ [(col_name c, system_type c)]\<rparr>))"

definition fetch_table_columns :: "diff_host \<Rightarrow> string list \<Rightarrow> table_column_info" where
  "fetch_table_columns h excl = scan_columns excl (q_columns h) \<lparr>hash_columns = [], identity_column = None\<rparr>"

definition pk_key :: "string list \<Rightarrow> row \<Rightarrow> string" where
  "pk_key cols r = js_join ''|'' (map (\<lambda>c. pk_part (column r c)) cols)"

definition fetch_pk_hash :: "row list \<Rightarrow> string list \<Rightarrow> pk_hash_row list" where
  "fetch_pk_hash recordset pk_columns = map (\<lambda>r.
     \<lparr>pk = pk_key pk_columns r,
      row_hash = (case column r ''rowHash'' of SqlNull \<Rightarrow> [] | v \<Rightarrow> js_string v),
      pk_values = js_map_of_list (map (\<lambda>c. (c, column r c)) pk_columns)\<rparr>) recordset"

section \<open>Scope misattribution\<close>

definition entity_text :: "entity_id \<Rightarrow> string" where
  "entity_text i = (case i of IdNum n \<Rightarrow> show_int n | IdText s \<Rightarrow> s)"

definition detect_scope_misattribution ::
  "diff_host \<Rightarrow> authored_table \<Rightarrow> entity_id \<Rightarrow> string list \<Rightarrow> pk_hash_row list \<Rightarrow> plan_conflict list \<times> plan_warning list" where
  "detect_scope_misattribution h t entity pk_columns candidates =
     (if candidates = [] then ([], [])
      else case pk_columns of
        [pk_col] \<Rightarrow>
          (case at_scope_column t of
             None \<Rightarrow> ([], [])
           | Some scope_col \<Rightarrow>
               if scope_col = [] \<or> scope_col = pk_col then ([], [])
               else (case q_probe h (map (\<lambda>r. quote_sql_literal (column (pk_values r) pk_col))
                                       (take 5000 candidates)) of
                   Inl message \<Rightarrow> ([], [ProbeFailed (at_name t) message])
                 | Inr found \<Rightarrow>
                     (map (\<lambda>(pk_value, scope). \<lparr>pc_kind = ScopeMisattribution, pc_pk = pk_part pk_value,
                        pc_expected = [(scope_col, SqlText (''(per source predicate using entityId='' @ entity_text entity @ '')''))],
                        pc_actual = [(scope_col, scope)], pc_owners = []\<rparr>) found, [])))
      | _ \<Rightarrow> ([], []))"

section \<open>The diff of one table\<close>

definition empty_result :: "authored_table \<Rightarrow> string \<Rightarrow> plan_warning list \<Rightarrow> int \<Rightarrow> sync_plan_table" where
  "empty_result t predicate ws ms = \<lparr>table = at_name t, scope_predicate = predicate,
     stats = \<lparr>unchanged = 0, low_confidence = 0\<rparr>, changes = build_change_set [] [] [],
     sample_rows = \<lparr>s_insert = [], s_update = [], s_delete = []\<rparr>, conflicts = [], warnings = ws,
     diff_duration = ms\<rparr>"

text \<open>\<open>new Map(rows.map(r => [r.pk, r]))\<close>.\<close>

definition rows_by_pk :: "pk_hash_row list \<Rightarrow> (string, pk_hash_row) jsmap" where
  "rows_by_pk rows = js_map_of_list (map (\<lambda>r. (pk r, r)) rows)"

record buckets =
  b_inserts :: "pk_hash_row list"
  b_updates :: "pk_hash_row list"
  b_deletes :: "pk_hash_row list"
  b_unchanged :: nat

definition classify_source :: "(string, pk_hash_row) jsmap \<Rightarrow> buckets \<Rightarrow> string \<times> pk_hash_row \<Rightarrow> buckets" where
  "classify_source tgt b e = (case js_get tgt (fst e) of
      None \<Rightarrow> b\<lparr>b_inserts := b_inserts b @ [snd e]\<rparr>
    | Some t \<Rightarrow> if row_hash (snd e) = row_hash t then b\<lparr>b_unchanged := b_unchanged b + 1\<rparr>
               else b\<lparr>b_updates := b_updates b @ [snd e]\<rparr>)"

definition classify_target :: "(string, pk_hash_row) jsmap \<Rightarrow> buckets \<Rightarrow> string \<times> pk_hash_row \<Rightarrow> buckets" where
  "classify_target src b e =
     (if js_has src (fst e) then b else b\<lparr>b_deletes := b_deletes b @ [snd e]\<rparr>)"

definition classify_rows :: "pk_hash_row list \<Rightarrow> pk_hash_row list \<Rightarrow> buckets" where
  "classify_rows src_rows tgt_rows =
     (let src = rows_by_pk src_rows; tgt = rows_by_pk tgt_rows;
          b = foldl (classify_source tgt)
                \<lparr>b_inserts = [], b_updates = [], b_deletes = [], b_unchanged = 0\<rparr> src
      in foldl (classify_target src) b tgt)"

definition demote_inserts :: "plan_conflict list \<Rightarrow> pk_hash_row list \<Rightarrow> pk_hash_row list" where
  "demote_inserts cs ins = (if cs = [] then ins
     else filter (\<lambda>r. pk r \<notin> set (set_of_list (map pc_pk cs))) ins)"

definition diff_table ::
  "diff_host \<Rightarrow> authored_table \<Rightarrow> entity_id \<Rightarrow> string list \<Rightarrow> diff_options \<Rightarrow> int \<Rightarrow> int \<Rightarrow> sync_plan_table" where
  "diff_table h t entity pk_columns opts t0 t1 =
     (let predicate = (case expanded_ids opts of
            None \<Rightarrow> instantiate_predicate (at_predicate t) entity
          | Some ids \<Rightarrow> instantiate_predicate_with_tree (at_predicate t) entity (Some ids));
          stop = (\<lambda>w. empty_result t predicate [w] (t1 - t0))
      in if pk_columns = [] then stop NoPkColumns
         else case at_scd2_exclude t of None \<Rightarrow> stop (NoScd2Policy (at_name t))
         | Some excl \<Rightarrow>
           let cols = hash_columns (fetch_table_columns h excl) in
           if cols = [] then stop (NoComparableColumns (at_name t))
           else
             let src_rows = fetch_pk_hash (q_source h predicate cols) pk_columns;
                 tgt_rows = fetch_pk_hash (q_target h predicate cols) pk_columns in
             if length src_rows > row_cap opts then stop (RowCapExceeded (length src_rows) (row_cap opts))
             else
               let b = classify_rows src_rows tgt_rows;
                   (cs, ws) = detect_scope_misattribution h t entity pk_columns (b_inserts b);
                   inserts = demote_inserts cs (b_inserts b);
                   n = sample_size opts
               in \<lparr>table = at_name t, scope_predicate = predicate,
                   stats = \<lparr>unchanged = b_unchanged b, low_confidence = 0\<rparr>,
                   changes = build_change_set inserts (b_updates b) (b_deletes b),
                   sample_rows = \<lparr>s_insert = q_samples h True (take n inserts),
                     s_update = q_update_samples h (take n (b_updates b)),
                     s_delete = q_samples h False (take n (b_deletes b))\<rparr>,
                   conflicts = cs,
                   warnings = ws @ (if cs = [] then [] else [BlockedByScope (length cs)]),
                   diff_duration = t1 - t0\<rparr>)"

section \<open>Movement counts and plan totals\<close>

record movement =
  mv_insert :: nat
  mv_update :: nat
  mv_delete :: nat

record plan_totals =
  tot_insert :: nat
  tot_update :: nat
  tot_delete :: nat
  tot_unchanged :: nat
  tot_low_confidence :: nat
  tot_conflicts :: nat
  tot_tables :: nat

definition movement_from_change_set :: "change_set \<Rightarrow> movement" where
  "movement_from_change_set cs = \<lparr>mv_insert = length (cs_insert cs), mv_update = length (cs_update cs),
     mv_delete = length (cs_delete cs)\<rparr>"

definition movement_of_table :: "sync_plan_table \<Rightarrow> movement" where
  "movement_of_table t = movement_from_change_set (changes t)"

definition table_movement_total :: "sync_plan_table \<Rightarrow> nat" where
  "table_movement_total t = (let m = movement_of_table t in
     mv_insert m + mv_update m + mv_delete m + length (conflicts t))"

definition table_has_movement :: "sync_plan_table \<Rightarrow> bool" where
  "table_has_movement t = (let m = movement_of_table t in mv_insert m + mv_update m + mv_delete m > 0)"

definition add_totals :: "plan_totals \<Rightarrow> sync_plan_table \<Rightarrow> plan_totals" where
  "add_totals acc t = (let m = movement_of_table t in
     \<lparr>tot_insert = tot_insert acc + mv_insert m, tot_update = tot_update acc + mv_update m,
      tot_delete = tot_delete acc + mv_delete m, tot_unchanged = tot_unchanged acc + unchanged (stats t),
      tot_low_confidence = tot_low_confidence acc + low_confidence (stats t),
      tot_conflicts = tot_conflicts acc + length (conflicts t),
      tot_tables = tot_tables acc + (if table_movement_total t > 0 then 1 else 0)\<rparr>)"

definition compute_plan_totals :: "sync_plan_table list \<Rightarrow> plan_totals" where
  "compute_plan_totals ts = foldl add_totals
     \<lparr>tot_insert = 0, tot_update = 0, tot_delete = 0, tot_unchanged = 0, tot_low_confidence = 0,
      tot_conflicts = 0, tot_tables = 0\<rparr> ts"

text \<open>\<open>validatePlan\<close>: the stored totals must be the derived ones, key by key in this order.\<close>

definition total_keys :: "(string \<times> (plan_totals \<Rightarrow> nat)) list" where
  "total_keys = [(''insert'', tot_insert), (''update'', tot_update), (''delete'', tot_delete),
     (''unchanged'', tot_unchanged), (''lowConfidence'', tot_low_confidence),
     (''conflicts'', tot_conflicts), (''tablesCount'', tot_tables)]"

definition validate_plan :: "sync_plan_table list \<Rightarrow> plan_totals option \<Rightarrow> (string \<times> nat \<times> nat) option" where
  "validate_plan ts totals = (case totals of None \<Rightarrow> None
     | Some tot \<Rightarrow> (let derived = compute_plan_totals ts in
         map_option (\<lambda>(k, f). (k, f tot, f derived)) (find (\<lambda>(k, f). f tot \<noteq> f derived) total_keys)))"

section \<open>The dependency graph\<close>

datatype change_type = Unchanged | Updates | Deletes | Inserts

record graph_node =
  node_id :: string
  node_label :: string
  node_status :: change_type
  node_stats :: table_stats
  node_movement :: movement

definition status_of_movement :: "movement \<Rightarrow> change_type" where
  "status_of_movement m = (if mv_delete m > 0 then Deletes else if mv_insert m > 0 then Inserts
     else if mv_update m > 0 then Updates else Unchanged)"

definition build_dependency_graph ::
  "string \<Rightarrow> string list \<Rightarrow> sync_plan_table list \<Rightarrow> graph_node list \<times> (string \<times> string) list" where
  "build_dependency_graph root_table names results =
     (let by_name = js_map_of_list (map (\<lambda>t. (table t, t)) results)
      in (map (\<lambda>n. let r = js_get by_name n;
                        st = (case r of None \<Rightarrow> \<lparr>unchanged = 0, low_confidence = 0\<rparr> | Some t \<Rightarrow> stats t);
                        m = (case r of None \<Rightarrow> \<lparr>mv_insert = 0, mv_update = 0, mv_delete = 0\<rparr>
                             | Some t \<Rightarrow> movement_from_change_set (changes t))
                    in \<lparr>node_id = n, node_label = last (js_split CHR ''.'' n),
                        node_status = status_of_movement m, node_stats = st, node_movement = m\<rparr>) names,
          map (\<lambda>n. (root_table, n)) (filter (\<lambda>n. n \<noteq> root_table) names)))"

section \<open>The maps behind the diff\<close>

lemma rows_by_pk_snoc: "rows_by_pk (rows @ [r]) = js_set (rows_by_pk rows) (pk r) r"
  by (simp add: rows_by_pk_def js_map_of_list_def)

lemma rows_by_pk_wf [simp]: "js_wf (rows_by_pk rows)"
  by (simp add: rows_by_pk_def)

lemma rows_by_pk_key: "js_get (rows_by_pk rows) k = Some r \<Longrightarrow> pk r = k"
proof (induction rows rule: rev_induct)
  case Nil
  then show ?case by (simp add: rows_by_pk_def js_map_of_list_def)
next
  case (snoc x xs)
  then show ?case by (auto simp: rows_by_pk_snoc split: if_splits)
qed

lemma rows_by_pk_entry: "(k, r) \<in> set (rows_by_pk rows) \<Longrightarrow> pk r = k \<and> js_get (rows_by_pk rows) k = Some r"
  using rows_by_pk_key js_get_iff [OF rows_by_pk_wf] by metis

lemma classify_source_fold:
  "foldl (classify_source tgt) b es = b\<lparr>
     b_inserts := b_inserts b @ map snd (filter (\<lambda>e. js_get tgt (fst e) = None) es),
     b_updates := b_updates b @ map snd (filter (\<lambda>e. \<exists>t. js_get tgt (fst e) = Some t \<and> row_hash (snd e) \<noteq> row_hash t) es),
     b_unchanged := b_unchanged b + length (filter (\<lambda>e. \<exists>t. js_get tgt (fst e) = Some t \<and> row_hash (snd e) = row_hash t) es)\<rparr>"
  by (induction es arbitrary: b) (auto simp: classify_source_def split: option.split)

lemma classify_target_fold:
  "foldl (classify_target src) b es = b\<lparr>
     b_deletes := b_deletes b @ map snd (filter (\<lambda>e. \<not> js_has src (fst e)) es)\<rparr>"
  by (induction es arbitrary: b) (auto simp: classify_target_def)

lemma classify_rows_eq:
  "classify_rows src tgt =
     \<lparr>b_inserts = map snd (filter (\<lambda>e. js_get (rows_by_pk tgt) (fst e) = None) (rows_by_pk src)),
      b_updates = map snd (filter (\<lambda>e. \<exists>t. js_get (rows_by_pk tgt) (fst e) = Some t \<and>
         row_hash (snd e) \<noteq> row_hash t) (rows_by_pk src)),
      b_deletes = map snd (filter (\<lambda>e. js_get (rows_by_pk src) (fst e) = None) (rows_by_pk tgt)),
      b_unchanged = length (filter (\<lambda>e. \<exists>t. js_get (rows_by_pk tgt) (fst e) = Some t \<and>
         row_hash (snd e) = row_hash t) (rows_by_pk src))\<rparr>"
  by (simp add: classify_rows_def Let_def classify_source_fold classify_target_fold js_has_get)

text \<open>A set of rows as the finite map from keys to hashes the comparison sees.\<close>

definition pk_map :: "pk_hash_row list \<Rightarrow> string \<Rightarrow> string option" where
  "pk_map rows p = map_option row_hash (js_get (rows_by_pk rows) p)"

lemma filter_keys:
  "pk ` snd ` set (filter P (rows_by_pk rows)) =
     {k. \<exists>r. js_get (rows_by_pk rows) k = Some r \<and> P (k, r)}"
proof (rule set_eqI, rule iffI)
  fix k assume "k \<in> pk ` snd ` set (filter P (rows_by_pk rows))"
  then obtain k' r where e: "(k', r) \<in> set (rows_by_pk rows)" "P (k', r)" "k = pk r" by auto
  then show "k \<in> {k. \<exists>r. js_get (rows_by_pk rows) k = Some r \<and> P (k, r)}"
    using rows_by_pk_entry [OF e(1)] by blast
next
  fix k assume "k \<in> {k. \<exists>r. js_get (rows_by_pk rows) k = Some r \<and> P (k, r)}"
  then obtain r where r: "js_get (rows_by_pk rows) k = Some r" "P (k, r)" by blast
  have "(k, r) \<in> set (filter P (rows_by_pk rows))" "pk r = k"
    using r js_get_mem rows_by_pk_key by auto
  then show "k \<in> pk ` snd ` set (filter P (rows_by_pk rows))" by force
qed

lemma insert_keys: "pk ` set (b_inserts (classify_rows src tgt)) = dom (pk_map src) - dom (pk_map tgt)"
proof -
  have "pk ` set (b_inserts (classify_rows src tgt)) =
      {k. \<exists>r. js_get (rows_by_pk src) k = Some r \<and> js_get (rows_by_pk tgt) k = None}"
    using filter_keys [of "\<lambda>e. js_get (rows_by_pk tgt) (fst e) = None" src] by (simp add: classify_rows_eq)
  also have "\<dots> = dom (pk_map src) - dom (pk_map tgt)" by (auto simp: pk_map_def dom_def)
  finally show ?thesis .
qed

lemma update_keys: "pk ` set (b_updates (classify_rows src tgt)) =
    {k. k \<in> dom (pk_map src) \<inter> dom (pk_map tgt) \<and> pk_map src k \<noteq> pk_map tgt k}"
proof -
  have "pk ` set (b_updates (classify_rows src tgt)) =
      {k. \<exists>r. js_get (rows_by_pk src) k = Some r \<and>
        (\<exists>t. js_get (rows_by_pk tgt) k = Some t \<and> row_hash r \<noteq> row_hash t)}"
    using filter_keys [of "\<lambda>e. \<exists>t. js_get (rows_by_pk tgt) (fst e) = Some t \<and>
         row_hash (snd e) \<noteq> row_hash t" src] by (simp add: classify_rows_eq)
  also have "\<dots> = {k. k \<in> dom (pk_map src) \<inter> dom (pk_map tgt) \<and> pk_map src k \<noteq> pk_map tgt k}"
    by (auto simp: pk_map_def dom_def)
  finally show ?thesis .
qed

lemma delete_keys: "pk ` set (b_deletes (classify_rows src tgt)) = dom (pk_map tgt) - dom (pk_map src)"
proof -
  have "pk ` set (b_deletes (classify_rows src tgt)) =
      {k. \<exists>r. js_get (rows_by_pk tgt) k = Some r \<and> js_get (rows_by_pk src) k = None}"
    using filter_keys [of "\<lambda>e. js_get (rows_by_pk src) (fst e) = None" tgt] by (simp add: classify_rows_eq)
  also have "\<dots> = dom (pk_map tgt) - dom (pk_map src)" by (auto simp: pk_map_def dom_def)
  finally show ?thesis .
qed

lemma distinct_filter_pks: "distinct (map pk (map snd (filter P (rows_by_pk rows))))"
proof -
  have "map pk (map snd (filter P (rows_by_pk rows))) = map fst (filter P (rows_by_pk rows))"
    using rows_by_pk_entry by auto
  then show ?thesis
    using rows_by_pk_wf [of rows] by (simp only: js_wf_def distinct_map_filter)
qed

lemma bucket_pks_distinct:
  "distinct (map pk (b_inserts (classify_rows src tgt)))"
  "distinct (map pk (b_updates (classify_rows src tgt)))"
  "distinct (map pk (b_deletes (classify_rows src tgt)))"
  unfolding classify_rows_eq by (simp_all only: buckets.simps distinct_filter_pks)

lemma unchanged_count: "b_unchanged (classify_rows src tgt) =
    card {k. k \<in> dom (pk_map src) \<inter> dom (pk_map tgt) \<and> pk_map src k = pk_map tgt k}"
proof -
  let ?P = "\<lambda>e. \<exists>t. js_get (rows_by_pk tgt) (fst e) = Some t \<and> row_hash (snd e) = row_hash t"
  have "length (filter ?P (rows_by_pk src)) = card (pk ` set (map snd (filter ?P (rows_by_pk src))))"
    using distinct_card [OF distinct_filter_pks [of ?P src]] by (simp add: image_image)
  also have "pk ` set (map snd (filter ?P (rows_by_pk src))) =
      {k. k \<in> dom (pk_map src) \<inter> dom (pk_map tgt) \<and> pk_map src k = pk_map tgt k}"
    using filter_keys [of ?P src] by (auto simp: pk_map_def dom_def image_image)
  finally show ?thesis by (simp add: classify_rows_eq)
qed

section \<open>What the diff promises\<close>

text \<open>The rows that are compared, when the table is compared at all.\<close>

definition diff_rows ::
  "diff_host \<Rightarrow> authored_table \<Rightarrow> entity_id \<Rightarrow> string list \<Rightarrow> diff_options
     \<Rightarrow> (pk_hash_row list \<times> pk_hash_row list) option" where
  "diff_rows h t entity pks opts =
     (let predicate = (case expanded_ids opts of
            None \<Rightarrow> instantiate_predicate (at_predicate t) entity
          | Some ids \<Rightarrow> instantiate_predicate_with_tree (at_predicate t) entity (Some ids))
      in case at_scd2_exclude t of None \<Rightarrow> None
       | Some excl \<Rightarrow>
           let cols = hash_columns (fetch_table_columns h excl);
               src = fetch_pk_hash (q_source h predicate cols) pks
           in if pks = [] \<or> cols = [] \<or> length src > row_cap opts then None
              else Some (src, fetch_pk_hash (q_target h predicate cols) pks))"

lemma diff_table_skipped:
  "diff_rows h t entity pks opts = None \<Longrightarrow>
     changes (diff_table h t entity pks opts t0 t1) = empty_change_set \<and>
     conflicts (diff_table h t entity pks opts t0 t1) = [] \<and>
     length (warnings (diff_table h t entity pks opts t0 t1)) = 1"
  by (auto simp: diff_rows_def diff_table_def Let_def empty_result_def build_change_set_def
      to_change_rows_def empty_change_set_def split: option.splits if_splits)

lemma diff_table_compared:
  assumes "diff_rows h t entity pks opts = Some (src, tgt)"
  shows "changes (diff_table h t entity pks opts t0 t1) =
      build_change_set (demote_inserts (conflicts (diff_table h t entity pks opts t0 t1))
          (b_inserts (classify_rows src tgt)))
        (b_updates (classify_rows src tgt)) (b_deletes (classify_rows src tgt))"
    and "unchanged (stats (diff_table h t entity pks opts t0 t1)) = b_unchanged (classify_rows src tgt)"
proof -
  have "changes (diff_table h t entity pks opts t0 t1) =
      build_change_set (demote_inserts (conflicts (diff_table h t entity pks opts t0 t1))
          (b_inserts (classify_rows src tgt)))
        (b_updates (classify_rows src tgt)) (b_deletes (classify_rows src tgt)) \<and>
    unchanged (stats (diff_table h t entity pks opts t0 t1)) = b_unchanged (classify_rows src tgt)"
    using assms
    by (auto simp: diff_rows_def diff_table_def Let_def split: option.splits if_splits prod.split)
  then show "changes (diff_table h t entity pks opts t0 t1) =
      build_change_set (demote_inserts (conflicts (diff_table h t entity pks opts t0 t1))
          (b_inserts (classify_rows src tgt)))
        (b_updates (classify_rows src tgt)) (b_deletes (classify_rows src tgt))"
    and "unchanged (stats (diff_table h t entity pks opts t0 t1)) = b_unchanged (classify_rows src tgt)"
    by auto
qed

text \<open>Executing a change set on the target: delete the listed keys, merge the listed source rows.\<close>

definition apply_change_set ::
  "(string \<Rightarrow> string option) \<Rightarrow> change_set \<Rightarrow> (string \<Rightarrow> string option) \<Rightarrow> string \<Rightarrow> string option" where
  "apply_change_set src cs tgt p =
     (if p \<in> cr_pk ` set (cs_delete cs) then None
      else if p \<in> cr_pk ` set (cs_insert cs @ cs_update cs) then src p
      else tgt p)"

lemma change_row_pks [simp]: "cr_pk ` set (to_change_rows rows) = pk ` set rows"
  by (auto simp: to_change_rows_def image_image)

lemma demoted_pks: "pk ` set (demote_inserts cs rows) = pk ` set rows - pc_pk ` set cs"
  by (auto simp: demote_inserts_def)

lemma length_change_rows [simp]: "length (to_change_rows rows) = length rows"
  by (simp add: to_change_rows_def)

text \<open>C6: The change set of a compared table is sufficient and touches nothing else: merging its inserts
  and updates from the source and removing its deletes turns the target's rows into exactly the
  source's rows (per key, as the row hash sees them), except for the keys withheld because they
  exist on the target under another scope. A table that is not compared (no key, no policy, no column,
  too many rows) gets an empty change set and a warning.\<close>

theorem change_set_reaches_source:
  "(let res = diff_table h t entity pks opts t0 t1
    in case diff_rows h t entity pks opts of
         None \<Rightarrow> changes res = empty_change_set \<and> length (warnings res) = 1
       | Some (src, tgt) \<Rightarrow>
           apply_change_set (pk_map src) (changes res) (pk_map tgt) =
             (\<lambda>p. if pk_map tgt p = None \<and> p \<in> pc_pk ` set (conflicts res) then None else pk_map src p))"
proof (cases "diff_rows h t entity pks opts")
  case None
  then show ?thesis using diff_table_skipped [OF None] by (simp add: Let_def)
next
  case (Some st)
  obtain src tgt where st: "st = (src, tgt)" by (cases st)
  have eq: "diff_rows h t entity pks opts = Some (src, tgt)" using Some st by simp
  have "apply_change_set (pk_map src) (changes (diff_table h t entity pks opts t0 t1)) (pk_map tgt) p =
      (if pk_map tgt p = None \<and> p \<in> pc_pk ` set (conflicts (diff_table h t entity pks opts t0 t1))
       then None else pk_map src p)" for p
    by (auto simp: apply_change_set_def diff_table_compared [OF eq] build_change_set_def demoted_pks
        image_Un insert_keys update_keys delete_keys domIff)
  then show ?thesis using Some st by (auto simp: Let_def)
qed

text \<open>The buckets of a compared table partition the keys: no key is listed twice in the change set, every
  key of the source is an insert, an update, unchanged or withheld by a conflict, and the deletes are
  exactly the target keys the source lacks.\<close>

theorem change_set_partitions_keys:
  "(let res = diff_table h t entity pks opts t0 t1; cs = changes res
    in case diff_rows h t entity pks opts of None \<Rightarrow> cs = empty_change_set
       | Some (src, tgt) \<Rightarrow>
           distinct (map cr_pk (cs_insert cs @ cs_update cs @ cs_delete cs)) \<and>
           length (cs_insert cs) + length (cs_update cs) + unchanged (stats res) +
             card (pc_pk ` set (conflicts res) \<inter> (dom (pk_map src) - dom (pk_map tgt)))
             = card (dom (pk_map src)) \<and>
           cr_pk ` set (cs_delete cs) = dom (pk_map tgt) - dom (pk_map src))"
proof (cases "diff_rows h t entity pks opts")
  case None
  then show ?thesis using diff_table_skipped [OF None] by (simp add: Let_def)
next
  case (Some st)
  obtain src tgt where st: "st = (src, tgt)" by (cases st)
  have eq: "diff_rows h t entity pks opts = Some (src, tgt)" using Some st by simp
  let ?r = "diff_table h t entity pks opts t0 t1"
  let ?b = "classify_rows src tgt"
  let ?ins = "demote_inserts (conflicts ?r) (b_inserts ?b)"
  let ?S = "dom (pk_map src)" and ?T = "dom (pk_map tgt)" and ?C = "pc_pk ` set (conflicts ?r)"
  have map_pk: "map cr_pk (to_change_rows rows) = map pk rows" for rows
    by (simp add: to_change_rows_def)
  have fin: "finite ?S"
    by (rule finite_subset [of _ "set (js_keys (rows_by_pk src))"])
      (auto simp: pk_map_def js_keys_get)
  have dins: "distinct (map pk ?ins)"
    using bucket_pks_distinct(1) [of src tgt] by (auto simp: demote_inserts_def distinct_map_filter)
  have len: "length rows = card (pk ` set rows)" if "distinct (map pk rows)" for rows
    using distinct_card [OF that] by simp
  have ins: "length ?ins = card (?S - ?T - ?C)"
    using len [OF dins] by (simp add: demoted_pks insert_keys)
  have upd: "length (b_updates ?b) = card {k. k \<in> ?S \<inter> ?T \<and> pk_map src k \<noteq> pk_map tgt k}"
    using len [OF bucket_pks_distinct(2) [of src tgt]] by (simp add: update_keys)
  have "card ?S = card ((?S - ?T - ?C) \<union> {k. k \<in> ?S \<inter> ?T \<and> pk_map src k \<noteq> pk_map tgt k}
      \<union> {k. k \<in> ?S \<inter> ?T \<and> pk_map src k = pk_map tgt k} \<union> (?C \<inter> (?S - ?T)))"
    by (rule arg_cong [of _ _ card]) auto
  also have "\<dots> = card (?S - ?T - ?C) + card {k. k \<in> ?S \<inter> ?T \<and> pk_map src k \<noteq> pk_map tgt k}
      + card {k. k \<in> ?S \<inter> ?T \<and> pk_map src k = pk_map tgt k} + card (?C \<inter> (?S - ?T))"
    using fin by (subst card_Un_disjoint, auto)+
  finally have count: "length ?ins + length (b_updates ?b) + b_unchanged ?b + card (?C \<inter> (?S - ?T)) = card ?S"
    by (simp add: ins upd unchanged_count)
  have dist: "distinct (map pk (?ins @ b_updates ?b @ b_deletes ?b))"
  proof -
    have "pk ` set ?ins \<inter> pk ` set (b_updates ?b) = {}" "pk ` set ?ins \<inter> pk ` set (b_deletes ?b) = {}"
      "pk ` set (b_updates ?b) \<inter> pk ` set (b_deletes ?b) = {}"
      unfolding demoted_pks insert_keys update_keys delete_keys by auto
    then show ?thesis
      using dins bucket_pks_distinct(2,3) [of src tgt]
      by (simp only: map_append distinct_append set_append set_map image_Un Int_Un_distrib Un_empty simp_thms)
  qed
  show ?thesis
    unfolding eq Let_def option.case prod.case diff_table_compared [OF eq] build_change_set_def change_set.simps
    using count dist by (simp only: map_append map_pk length_change_rows change_row_pks delete_keys simp_thms)
qed

section \<open>Composite keys\<close>

text \<open>The key string of a composite primary key separates rows as long as no key part contains the
  separator: two rows with the same key string then agree in every part.\<close>

theorem pk_key_separates:
  assumes "cols \<noteq> []" "\<forall>c\<in>set cols. CHR ''|'' \<notin> set (pk_part (column r1 c)) \<and> CHR ''|'' \<notin> set (pk_part (column r2 c))"
    and "pk_key cols r1 = pk_key cols r2" "c \<in> set cols"
  shows "pk_part (column r1 c) = pk_part (column r2 c)"
proof -
  have "js_split CHR ''|'' (pk_key cols r) = map (\<lambda>c. pk_part (column r c)) cols"
    if "\<forall>c\<in>set cols. CHR ''|'' \<notin> set (pk_part (column r c))" for r
    unfolding pk_key_def by (rule js_split_join) (use assms(1) that in auto)
  then have "map (\<lambda>c. pk_part (column r1 c)) cols = map (\<lambda>c. pk_part (column r2 c)) cols"
    using assms(2,3) by metis
  then show ?thesis using assms(4) by simp
qed

theorem pk_key_separates_witness:
  "pk_part (column [(''a'', SqlText ''x''), (''b'', SqlText ''y'')] ''b'') =
   pk_part (column [(''a'', SqlText ''x''), (''b'', SqlText ''y''), (''c'', SqlText ''z'')] ''b'')"
  by (rule pk_key_separates [where cols = "[''a'', ''b'']"])
    (simp_all add: column_def js_get_or_def js_get_def pk_part_def js_string_def pk_key_def)

text \<open>With the separator inside a key part two different rows share one key string, and the diff loses
  one: of the source rows \<open>(x|y, z)\<close> and \<open>(x, y|z)\<close>, absent from the target, only the last is inserted.\<close>

theorem pk_key_collision_loses_row:
  "let r1 = [(''a'', SqlText (x @ ''|'' @ y)), (''b'', SqlText z)];
       r2 = [(''a'', SqlText x), (''b'', SqlText (y @ ''|'' @ z))];
       rows = fetch_pk_hash [r1, r2] [''a'', ''b'']
   in map pk_values (b_inserts (classify_rows rows [])) = [r2]"
  by (simp add: Let_def classify_rows_def fetch_pk_hash_def pk_key_def pk_part_def js_string_def column_def
      js_get_or_def rows_by_pk_def js_map_of_list_def js_set_def js_get_def classify_source_def js_has_def)

end
