(* ===== verification/SyncConflicts.thy ===== *)
theory SyncConflicts
  imports SyncDiff
begin

text \<open>
  Plan-level safety of the sync engine: the reconciliation of foreign-key conflicts
  (\<open>packages/sync/src/core/diff-engine/plan-conflicts.ts\<close>), the missing-parent probe that
  feeds it (\<open>runtime/diff-engine/plan-conflict-probes.ts\<close>), freeze windows
  (\<open>core/governance/freeze-windows.ts\<close>), environment operations (\<open>env-operations.ts\<close>) and the
  conflict kinds of \<open>packages/shared-types/src/sync-plan-conflicts.ts\<close>. The summary texts of
  conflicts are not modelled.
\<close>

section \<open>Hits\<close>

record inbound_hit =
  in_table :: string
  in_pk :: string
  referencing_table :: string
  referencing_column :: string
  referencing_pk :: string
  in_constraint :: string
  owners :: "(string, sql_value) jsmap"

record missing_hit =
  mh_table :: string
  mh_pk :: string
  parent_table :: string
  child_column :: string
  parent_pk :: string
  mh_constraint :: string

datatype plan_hit = Inbound inbound_hit | Missing missing_hit

definition hit_table :: "plan_hit \<Rightarrow> string" where
  "hit_table h = (case h of Inbound i \<Rightarrow> in_table i | Missing m \<Rightarrow> mh_table m)"

definition hit_pk :: "plan_hit \<Rightarrow> string" where
  "hit_pk h = (case h of Inbound i \<Rightarrow> in_pk i | Missing m \<Rightarrow> mh_pk m)"

definition is_inbound :: "plan_hit \<Rightarrow> bool" where
  "is_inbound h = (case h of Inbound i \<Rightarrow> True | Missing m \<Rightarrow> False)"

datatype bucket = InsertBucket | DeleteBucket

definition bucket_rows :: "bucket \<Rightarrow> sync_plan_table \<Rightarrow> change_row list" where
  "bucket_rows b t = (case b of InsertBucket \<Rightarrow> cs_insert (changes t) | DeleteBucket \<Rightarrow> cs_delete (changes t))"

definition change_set_pk_index :: "sync_plan_table list \<Rightarrow> bucket \<Rightarrow> (string, string list) jsmap" where
  "change_set_pk_index ts b =
     foldl (\<lambda>m t. js_set m (table t) (set_of_list (map cr_pk (bucket_rows b t)))) [] ts"

definition change_set_value_index :: "sync_plan_table list \<Rightarrow> bucket \<Rightarrow> (string, string list) jsmap" where
  "change_set_value_index ts b =
     foldl (\<lambda>m t. js_set m (table t)
       (foldl (\<lambda>vs r. foldl (\<lambda>vs v. set_add vs (pk_part v)) (set_add vs (cr_pk r)) (js_values (cr_values r)))
          [] (bucket_rows b t))) [] ts"

definition index_has :: "(string, string list) jsmap \<Rightarrow> string \<Rightarrow> string \<Rightarrow> bool" where
  "index_has m t k = (case js_get m t of None \<Rightarrow> False | Some ks \<Rightarrow> k \<in> set ks)"

definition to_conflict :: "plan_hit \<Rightarrow> plan_conflict" where
  "to_conflict h = (case h of
     Inbound i \<Rightarrow> \<lparr>pc_kind = InboundReference, pc_pk = in_pk i,
       pc_expected = [(''table'', SqlText (in_table i)), (''action'', SqlText ''delete'')],
       pc_actual = [(''referencingTable'', SqlText (referencing_table i)),
         (''referencingColumn'', SqlText (referencing_column i)),
         (''referencingPk'', SqlText (referencing_pk i)),
         (''constraintName'', SqlText (in_constraint i))], pc_owners = owners i\<rparr>
   | Missing m \<Rightarrow> \<lparr>pc_kind = MissingParent, pc_pk = mh_pk m,
       pc_expected = js_set [(''table'', SqlText (mh_table m)), (''action'', SqlText ''insert'')]
         (child_column m) (SqlText (parent_pk m)),
       pc_actual = [(''parentTable'', SqlText (parent_table m)), (''parentPk'', SqlText (parent_pk m)),
         (''constraintName'', SqlText (mh_constraint m))], pc_owners = []\<rparr>)"

section \<open>Reconciliation\<close>

definition hit_blocks :: "sync_plan_table list \<Rightarrow> plan_hit \<Rightarrow> bool" where
  "hit_blocks ts h =
     (let deletes = change_set_pk_index ts DeleteBucket;
          inserts = change_set_pk_index ts InsertBucket;
          values = change_set_value_index ts InsertBucket
      in case h of
           Inbound i \<Rightarrow> \<not> index_has deletes (referencing_table i) (referencing_pk i)
         | Missing m \<Rightarrow>
             if index_has inserts (parent_table m) (parent_pk m) then False
             else if index_has values (parent_table m) (parent_pk m) then False
             else True)"

record blocked_state =
  conflicts_by_table :: "(string, plan_conflict list) jsmap"
  blocked_deletes :: "(string, string list) jsmap"
  blocked_inserts :: "(string, string list) jsmap"

definition collect_hit :: "blocked_state \<Rightarrow> plan_hit \<Rightarrow> blocked_state" where
  "collect_hit s h =
     (let t = hit_table h;
          s1 = s\<lparr>conflicts_by_table := js_set (conflicts_by_table s) t
                  (js_get_or (conflicts_by_table s) t [] @ [to_conflict h])\<rparr>
      in if is_inbound h
         then s1\<lparr>blocked_deletes := js_set (blocked_deletes s) t
                  (set_add (js_get_or (blocked_deletes s) t []) (hit_pk h))\<rparr>
         else s1\<lparr>blocked_inserts := js_set (blocked_inserts s) t
                  (set_add (js_get_or (blocked_inserts s) t []) (hit_pk h))\<rparr>)"

definition drop_rows :: "string list option \<Rightarrow> change_row list \<Rightarrow> change_row list" where
  "drop_rows blocked rows = (case blocked of None \<Rightarrow> rows
     | Some ks \<Rightarrow> filter (\<lambda>r. cr_pk r \<notin> set ks) rows)"

definition reconcile_table :: "blocked_state \<Rightarrow> sync_plan_table \<Rightarrow> sync_plan_table" where
  "reconcile_table s t =
     (let new = js_get (conflicts_by_table s) (table t);
          del = js_get (blocked_deletes s) (table t);
          ins = js_get (blocked_inserts s) (table t);
          cs = (case new of None \<Rightarrow> [] | Some cs \<Rightarrow> cs);
          inbound = length (filter (\<lambda>c. pc_kind c = InboundReference) cs);
          missing = length (filter (\<lambda>c. pc_kind c = MissingParent) cs)
      in if cs = [] \<and> (case del of None \<Rightarrow> [] | Some ks \<Rightarrow> ks) = []
           \<and> (case ins of None \<Rightarrow> [] | Some ks \<Rightarrow> ks) = [] then t
         else t\<lparr>changes := \<lparr>cs_insert = drop_rows ins (cs_insert (changes t)),
                  cs_update = cs_update (changes t),
                  cs_delete = drop_rows del (cs_delete (changes t))\<rparr>,
                conflicts := conflicts t @ cs,
                warnings := warnings t @ (if inbound > 0 then [DeletesBlocked inbound] else [])
                  @ (if missing > 0 then [InsertsBlocked missing] else [])\<rparr>)"

definition reconcile_plan_conflicts :: "sync_plan_table list \<Rightarrow> plan_hit list \<Rightarrow> sync_plan_table list" where
  "reconcile_plan_conflicts ts hits =
     (if hits = [] then ts
      else let blocking = filter (hit_blocks ts) hits in
        if blocking = [] then ts
        else map (reconcile_table (foldl collect_hit
               \<lparr>conflicts_by_table = [], blocked_deletes = [], blocked_inserts = []\<rparr> blocking)) ts)"

section \<open>The missing-parent probe\<close>

record fk_edge =
  from_table :: string
  from_column :: string
  to_table :: string
  to_column :: string
  fk_constraint :: string

text \<open>The set of \<open>table|value\<close> entries, kept as pairs.\<close>

definition build_insert_coverage :: "sync_plan_table list \<Rightarrow> string list" where
  "build_insert_coverage ts = foldl (\<lambda>s t. foldl (\<lambda>s r.
      foldl (\<lambda>s v. if v = SqlNull then s else set_add s (table t @ ''|'' @ js_string v))
        (set_add s (table t @ ''|'' @ cr_pk r)) (js_values (cr_values r)))
      s (cs_insert (changes t))) [] ts"

definition need_parent ::
  "string list \<Rightarrow> fk_edge \<Rightarrow> (string, string list) jsmap \<Rightarrow> change_row \<Rightarrow> (string, string list) jsmap" where
  "need_parent coverage fk needed r =
     (let raw = column (cr_values r) (from_column fk) in
      if raw = SqlNull then needed
      else let parent = js_string raw in
        if to_table fk @ ''|'' @ parent \<in> set coverage then needed
        else js_set needed parent (js_get_or needed parent [] @ [cr_pk r]))"

text \<open>One edge: the query for the parents present on the target is the argument \<open>present\<close>.\<close>

definition edge_hits ::
  "(fk_edge \<Rightarrow> string list \<Rightarrow> string + sql_value list) \<Rightarrow> string list \<Rightarrow> sync_plan_table \<Rightarrow> change_row list
     \<Rightarrow> missing_hit list \<times> string list \<Rightarrow> fk_edge \<Rightarrow> missing_hit list \<times> string list" where
  "edge_hits present coverage t inserts acc fk =
     (let needed = foldl (need_parent coverage fk) [] inserts in
      if needed = [] then acc
      else case present fk (js_keys needed) of
        Inl message \<Rightarrow> (fst acc, snd acc @ [message])
      | Inr found \<Rightarrow>
          (fst acc @ concat (map (\<lambda>(parent, children).
             if parent \<in> set (map pk_part found) then []
             else map (\<lambda>child. \<lparr>mh_table = table t, mh_pk = child, parent_table = to_table fk,
                     child_column = from_column fk, parent_pk = parent,
                     mh_constraint = fk_constraint fk\<rparr>) children) needed), snd acc))"

definition collect_missing_parent_hits ::
  "(string \<Rightarrow> string + fk_edge list) \<Rightarrow> (fk_edge \<Rightarrow> string list \<Rightarrow> string + sql_value list)
     \<Rightarrow> sync_plan_table list \<Rightarrow> sync_plan_table \<Rightarrow> missing_hit list \<times> string list" where
  "collect_missing_parent_hits outbound present all_tables t =
     (let inserts = take 5000 (cs_insert (changes t)) in
      if inserts = [] then ([], [])
      else case outbound (table t) of
        Inl message \<Rightarrow> ([], [message])
      | Inr edges \<Rightarrow>
          let edges = filter (\<lambda>fk. to_table fk \<noteq> table t) edges in
          if edges = [] then ([], [])
          else foldl (edge_hits present (build_insert_coverage all_tables) t inserts) ([], []) edges)"

section \<open>Freeze windows and environment operations\<close>

text \<open>\<open>starts_at\<close> and \<open>ends_at\<close> are what \<open>Date.parse\<close> gives, \<open>None\<close> for \<open>NaN\<close>.\<close>

record freeze_window =
  fw_id :: string
  starts_at :: "int option"
  ends_at :: "int option"

record freeze_evaluation =
  fe_active :: bool
  fe_matched :: "freeze_window list"
  fe_active_windows :: "freeze_window list"
  fe_unknown :: "string list"

fun scan_freeze ::
  "(string, freeze_window) jsmap \<Rightarrow> int \<Rightarrow> string list \<Rightarrow> freeze_evaluation \<Rightarrow> freeze_evaluation" where
  "scan_freeze registry now [] ev = ev"
| "scan_freeze registry now (i # is) ev =
     (case js_get registry i of
        None \<Rightarrow> scan_freeze registry now is (ev\<lparr>fe_unknown := fe_unknown ev @ [i]\<rparr>)
      | Some w \<Rightarrow>
          let ev1 = ev\<lparr>fe_matched := fe_matched ev @ [w]\<rparr> in
          scan_freeze registry now is
            (case (starts_at w, ends_at w) of
               (Some s, Some e) \<Rightarrow> if s \<le> now \<and> now < e
                 then ev1\<lparr>fe_active_windows := fe_active_windows ev1 @ [w]\<rparr> else ev1
             | _ \<Rightarrow> ev1))"

definition evaluate_freeze_windows ::
  "string list \<Rightarrow> (string, freeze_window) jsmap \<Rightarrow> int \<Rightarrow> freeze_evaluation" where
  "evaluate_freeze_windows ids registry now =
     (let ev = scan_freeze registry now ids
        \<lparr>fe_active = False, fe_matched = [], fe_active_windows = [], fe_unknown = []\<rparr>
      in ev\<lparr>fe_active := (length (fe_active_windows ev) > 0)\<rparr>)"

definition install_freeze_window_registry :: "freeze_window list \<Rightarrow> (string, freeze_window) jsmap" where
  "install_freeze_window_registry defs = js_map_of_list (map (\<lambda>d. (fw_id d, d)) defs)"

definition quoted :: "string \<Rightarrow> string" where
  "quoted s = CHR 0x22 # s @ [CHR 0x22]"

definition assert_env_operation_allowed :: "string \<Rightarrow> string list \<Rightarrow> string \<Rightarrow> string + unit" where
  "assert_env_operation_allowed env allowed operation =
     (if operation \<in> set allowed then Inr ()
      else Inl (''Operation '' @ quoted operation @ '' is not allowed on environment '' @ quoted env @ ''. Allowed: ''
                @ (if allowed \<noteq> [] then js_join '', '' allowed else ''none'') @ ''.''))"

section \<open>Conflict kinds\<close>

definition normalize_conflict_kind :: "string option \<Rightarrow> conflict_kind" where
  "normalize_conflict_kind k = (case k of None \<Rightarrow> ScopeMisattribution
     | Some s \<Rightarrow> if s = ''scope_misattribution'' then ScopeMisattribution
                else if s = ''inbound_reference'' then InboundReference
                else if s = ''missing_parent'' then MissingParent
                else ScopeMisattribution)"

definition conflict_execute_headline :: "string option list \<Rightarrow> string" where
  "conflict_execute_headline ks = (case set_of_list (map normalize_conflict_kind ks) of
     [k] \<Rightarrow> (case k of ScopeMisattribution \<Rightarrow> ''Scope misattribution''
              | InboundReference \<Rightarrow> ''Inbound reference blockers''
              | MissingParent \<Rightarrow> ''Missing parent blockers'')
   | _ \<Rightarrow> ''Plan conflicts'')"

section \<open>What reconciliation does to each table\<close>

definition hits_on :: "bool \<Rightarrow> string \<Rightarrow> plan_hit list \<Rightarrow> plan_hit list" where
  "hits_on inb t hits = filter (\<lambda>h. is_inbound h = inb \<and> hit_table h = t) hits"

lemma hits_on_simps [simp]:
  "hits_on i t [] = []"
  "hits_on i t (hs @ [h]) = hits_on i t hs @ (if is_inbound h = i \<and> hit_table h = t then [h] else [])"
  by (simp_all add: hits_on_def)

definition no_blocks :: blocked_state where
  "no_blocks = \<lparr>conflicts_by_table = [], blocked_deletes = [], blocked_inserts = []\<rparr>"

lemma collect_hits:
  "js_get_or (conflicts_by_table (foldl collect_hit no_blocks hs)) t [] =
     map to_conflict (filter (\<lambda>h. hit_table h = t) hs)"
  "set (js_get_or (blocked_deletes (foldl collect_hit no_blocks hs)) t []) = hit_pk ` set (hits_on True t hs)"
  "set (js_get_or (blocked_inserts (foldl collect_hit no_blocks hs)) t []) = hit_pk ` set (hits_on False t hs)"
  by (induction hs rule: rev_induct) (auto simp: no_blocks_def collect_hit_def Let_def)

lemma drop_rows_alt: "drop_rows b rows = filter (\<lambda>r. cr_pk r \<notin> set (case b of None \<Rightarrow> [] | Some ks \<Rightarrow> ks)) rows"
  by (simp add: drop_rows_def split: option.split)

text \<open>What a reconciled table keeps, as one description over the hits that block.\<close>

definition kept :: "plan_hit list \<Rightarrow> sync_plan_table \<Rightarrow> string \<times> change_set \<times> plan_conflict list" where
  "kept hs t = (table t,
     \<lparr>cs_insert = filter (\<lambda>r. cr_pk r \<notin> hit_pk ` set (hits_on False (table t) hs)) (cs_insert (changes t)),
      cs_update = cs_update (changes t),
      cs_delete = filter (\<lambda>r. cr_pk r \<notin> hit_pk ` set (hits_on True (table t) hs)) (cs_delete (changes t))\<rparr>,
     conflicts t @ map to_conflict (filter (\<lambda>h. hit_table h = table t) hs))"

definition visible :: "sync_plan_table \<Rightarrow> string \<times> change_set \<times> plan_conflict list" where
  "visible t = (table t, changes t, conflicts t)"

lemma kept_nil [simp]: "kept [] t = visible t"
  by (simp add: kept_def visible_def)

lemma reconcile_table_kept: "visible (reconcile_table (foldl collect_hit no_blocks hs) t) = kept hs t"
proof -
  let ?s = "foldl collect_hit no_blocks hs"
  have cs: "(case js_get (conflicts_by_table ?s) (table t) of None \<Rightarrow> [] | Some cs \<Rightarrow> cs) =
      map to_conflict (filter (\<lambda>h. hit_table h = table t) hs)"
    and del: "set (case js_get (blocked_deletes ?s) (table t) of None \<Rightarrow> [] | Some ks \<Rightarrow> ks) =
      hit_pk ` set (hits_on True (table t) hs)"
    and ins: "set (case js_get (blocked_inserts ?s) (table t) of None \<Rightarrow> [] | Some ks \<Rightarrow> ks) =
      hit_pk ` set (hits_on False (table t) hs)"
    using collect_hits [of hs "table t"] by (simp_all add: js_get_or_def)
  show ?thesis
  proof (cases "filter (\<lambda>h. hit_table h = table t) hs = []")
    case True
    then have "hits_on i (table t) hs = []" for i by (auto simp: hits_on_def filter_empty_conv)
    then have "(case js_get (blocked_deletes ?s) (table t) of None \<Rightarrow> [] | Some ks \<Rightarrow> ks) = []"
      "(case js_get (blocked_inserts ?s) (table t) of None \<Rightarrow> [] | Some ks \<Rightarrow> ks) = []"
      using del ins by (simp_all only: list.set image_empty set_empty)
    moreover have "kept hs t = visible t"
      using True \<open>\<And>i. hits_on i (table t) hs = []\<close> by (simp add: kept_def visible_def)
    ultimately show ?thesis using cs True by (simp add: reconcile_table_def Let_def)
  next
    case False
    then have "(case js_get (conflicts_by_table ?s) (table t) of None \<Rightarrow> [] | Some cs \<Rightarrow> cs) \<noteq> []"
      using cs by simp
    then show ?thesis
      by (simp add: reconcile_table_def Let_def visible_def kept_def drop_rows_alt cs del ins)
  qed
qed

lemma reconcile_kept:
  "map visible (reconcile_plan_conflicts ts hits) = map (kept (filter (hit_blocks ts) hits)) ts"
proof -
  have nil: "filter (hit_blocks ts) hits = [] \<Longrightarrow> map (kept (filter (hit_blocks ts) hits)) ts = map visible ts"
    by simp
  show ?thesis
  proof (cases "filter (hit_blocks ts) hits = []")
    case True
    then show ?thesis using nil by (simp add: reconcile_plan_conflicts_def)
  next
    case False
    then have "reconcile_plan_conflicts ts hits =
        map (reconcile_table (foldl collect_hit no_blocks (filter (hit_blocks ts) hits))) ts"
      by (auto simp: reconcile_plan_conflicts_def Let_def no_blocks_def)
    then show ?thesis by (simp add: reconcile_table_kept comp_def)
  qed
qed

text \<open>Reconciliation removes exactly the blocked rows: of each table the delete rows named by a
  blocking inbound reference and the insert rows named by a blocking missing parent, in place;
  updates and row order stay, one conflict is appended per blocking hit, and a hit blocks only when
  the plan's own deletes (or inserts) do not cover the row it points at.\<close>

theorem reconcile_removes_blocked:
  "map (\<lambda>t. (table t, changes t, conflicts t)) (reconcile_plan_conflicts ts hits) =
   map (\<lambda>t. let hs = filter (hit_blocks ts) hits in
      (table t,
       \<lparr>cs_insert = filter (\<lambda>r. cr_pk r \<notin> hit_pk ` set (hits_on False (table t) hs)) (cs_insert (changes t)),
        cs_update = cs_update (changes t),
        cs_delete = filter (\<lambda>r. cr_pk r \<notin> hit_pk ` set (hits_on True (table t) hs)) (cs_delete (changes t))\<rparr>,
       conflicts t @ map to_conflict (filter (\<lambda>h. hit_table h = table t) hs))) ts"
  using reconcile_kept [of ts hits] unfolding visible_def kept_def Let_def .






section \<open>What the missing-parent probe can see\<close>

lemma rows_by_pk_rows: "snd ` set (rows_by_pk rows) \<subseteq> set rows"
proof -
  have "js_get (rows_by_pk rows) k = Some r \<Longrightarrow> r \<in> set rows" for k r
    by (induction rows rule: rev_induct)
      (auto simp: rows_by_pk_snoc rows_by_pk_def js_map_of_list_def split: if_splits)
  then show ?thesis using rows_by_pk_entry by fastforce
qed

lemma fetched_values: "r \<in> set (fetch_pk_hash rs pks) \<Longrightarrow> set (js_keys (pk_values r)) = set pks"
  by (auto simp: fetch_pk_hash_def set_keys_map_of_list image_image)

lemma diff_insert_values:
  assumes "r \<in> set (cs_insert (changes (diff_table h t entity pks opts t0 t1)))"
  shows "set (js_keys (cr_values r)) = set pks"
proof (cases "diff_rows h t entity pks opts")
  case None
  then show ?thesis using assms diff_table_skipped [OF None] by (simp add: empty_change_set_def)
next
  case (Some st)
  obtain src tgt where st: "st = (src, tgt)" by (cases st)
  have eq: "diff_rows h t entity pks opts = Some (src, tgt)" using Some st by simp
  have src: "\<exists>rs. src = fetch_pk_hash rs pks"
    using eq by (auto simp: diff_rows_def Let_def split: option.splits if_splits)
  have "r \<in> set (to_change_rows (b_inserts (classify_rows src tgt)))"
    using assms by (auto simp: diff_table_compared [OF eq] build_change_set_def to_change_rows_def
        demote_inserts_def split: if_splits)
  then obtain x where x: "x \<in> set (b_inserts (classify_rows src tgt))" "cr_values r = pk_values x"
    by (auto simp: to_change_rows_def)
  have "x \<in> snd ` set (rows_by_pk src)" using x(1) by (auto simp: classify_rows_eq)
  then have "x \<in> set src" using rows_by_pk_rows by blast
  then show ?thesis using src x(2) fetched_values by auto
qed

lemma unseen_edge:
  assumes "\<forall>r\<in>set rows. from_column fk \<notin> set (js_keys (cr_values r))"
  shows "foldl (need_parent cov fk) m rows = m"
  using assms
proof (induction rows arbitrary: m)
  case Nil
  then show ?case by simp
next
  case (Cons r rows)
  then have "column (cr_values r) (from_column fk) = SqlNull"
    by (auto simp: column_def js_get_or_def js_keys_get split: option.split)
  then show ?case using Cons by (simp add: need_parent_def)
qed

text \<open>The missing-parent probe only sees foreign keys inside the primary key: the insert rows a diff
  produces carry their key columns only, so when no foreign-key column of a table belongs to its
  primary key, the probe reports no missing parent and no warning, whatever the target holds.\<close>

theorem missing_parent_probe_blind:
  assumes "\<forall>fk\<in>set edges. from_column fk \<notin> set pks"
    and "outbound (table (diff_table h t entity pks opts t0 t1)) = Inr edges"
  shows "collect_missing_parent_hits outbound present all (diff_table h t entity pks opts t0 t1) = ([], [])"
proof -
  let ?t = "diff_table h t entity pks opts t0 t1"
  have blind: "edge_hits present cov ?t (take 5000 (cs_insert (changes ?t))) acc fk = acc"
    if "from_column fk \<notin> set pks" for cov acc fk
    using that diff_insert_values [of _ h t entity pks opts t0 t1]
    by (subst edge_hits_def, subst unseen_edge) (auto dest!: in_set_takeD simp: Let_def)
  have "foldl (edge_hits present cov ?t (take 5000 (cs_insert (changes ?t)))) acc fks = acc"
    if "\<forall>fk\<in>set fks. from_column fk \<notin> set pks" for cov acc fks
    using that by (induction fks arbitrary: acc) (auto simp: blind)
  then show ?thesis using assms by (auto simp: collect_missing_parent_hits_def Let_def)
qed

definition example_host :: diff_host where
  "example_host = \<lparr>q_columns = [\<lparr>col_name = ''parentId'', is_computed = False, is_identity = False,
       system_type = ''int''\<rparr>],
     q_source = (\<lambda>_ _. [[(''id'', SqlInt 1), (''rowHash'', SqlText ''h'')]]), q_target = (\<lambda>_ _. []),
     q_probe = (\<lambda>_. Inr []), q_samples = (\<lambda>_ _. []), q_update_samples = (\<lambda>_. [])\<rparr>"

definition example_authored :: authored_table where
  "example_authored = \<lparr>at_name = ''dbo.child'', at_predicate = ''1=1'', at_scope_column = None,
     at_scd2_exclude = Some []\<rparr>"

theorem missing_parent_probe_blind_witness:
  "collect_missing_parent_hits
     (\<lambda>_. Inr [\<lparr>from_table = ''dbo.child'', from_column = ''parentId'', to_table = ''dbo.parent'',
        to_column = ''id'', fk_constraint = ''fk''\<rparr>]) (\<lambda>_ _. Inr []) []
     (diff_table example_host example_authored (IdNum 1) [''id''] default_opts 0 1) = ([], [])"
  by (rule missing_parent_probe_blind) simp_all

section \<open>Freeze windows\<close>

definition window_open :: "(string, freeze_window) jsmap \<Rightarrow> int \<Rightarrow> string \<Rightarrow> bool" where
  "window_open registry now i = (case js_get registry i of None \<Rightarrow> False
     | Some w \<Rightarrow> (case (starts_at w, ends_at w) of (Some s, Some e) \<Rightarrow> s \<le> now \<and> now < e | _ \<Rightarrow> False))"

lemma scan_freeze_lists:
  "fe_unknown (scan_freeze reg now ids ev) = fe_unknown ev @ filter (\<lambda>i. js_get reg i = None) ids"
  "fe_active_windows (scan_freeze reg now ids ev) =
     fe_active_windows ev @ map (\<lambda>i. the (js_get reg i)) (filter (window_open reg now) ids)"
  by (induction reg now ids ev rule: scan_freeze.induct)
    (auto simp: Let_def window_open_def split: option.splits)

text \<open>A freeze evaluation is active exactly when one of the listed windows is registered, has readable
  bounds and its half-open interval holds the time; the ids without a window are reported, and a
  window with an unreadable bound never blocks.\<close>

theorem freeze_active_iff_open:
  "fe_active (evaluate_freeze_windows ids reg now) = list_ex (window_open reg now) ids \<and>
   fe_unknown (evaluate_freeze_windows ids reg now) = filter (\<lambda>i. js_get reg i = None) ids \<and>
   map fe_active [evaluate_freeze_windows ids (js_map_of_list [(x, \<lparr>fw_id = x, starts_at = None, ends_at = e\<rparr>)]) now]
     = [False]"
proof -
  have "list_ex P xs = (filter P xs \<noteq> [])" for P and xs :: "string list"
    by (induction xs) auto
  then show ?thesis
    by (auto simp: evaluate_freeze_windows_def Let_def scan_freeze_lists window_open_def js_map_of_list_def
        js_get_def js_set_def filter_empty_conv)
qed

end
