(* ===== verification/SyncEnv.thy ===== *)
theory SyncEnv
  imports Regex SyncConflicts
begin

text \<open>
  The environments a sync runs between (\<open>packages/sync/src/domain/environments.ts\<close>): the defaults an
  environment gets when it is stored (\<open>core/eligibility/environments.ts\<close>), the base addresses of its HTTP
  services (\<open>env-service-urls.ts\<close>), and who may sync from where to where
  (\<open>sync-env-eligibility.ts\<close>). A partial environment has \<open>None\<close> where the record lacks a field; the lists
  of addresses of a partial environment may hold values that are not texts.
\<close>

section \<open>Environments\<close>

datatype env_role = SourceRole | TargetRole | BothRoles

datatype access_mode = ReadOnlyMode | ReadWriteMode

record sync_environment =
  se_name :: string
  se_connector_id :: "string option"
  se_display_name :: string
  se_color :: string
  se_role :: env_role
  se_ring_order :: int
  se_agent_url :: "string option"
  se_etl_url :: "string option"
  se_gate_url :: "string option"
  se_service_urls :: "(string, string option) jsmap"
  se_allowed_sync :: "string list option"
  se_access_mode :: access_mode
  se_allowed_operations :: "string list"
  se_deny_dml :: bool
  se_deny_ddl :: bool
  se_approval_operations :: "string list"

text \<open>A value of the address map: \<open>null\<close>, a text, or something else.\<close>

datatype url_value = UrlNull | UrlText string | UrlOther

record partial_environment =
  pe_name :: string
  pe_connector_id :: "string option"
  pe_display_name :: "string option"
  pe_color :: "string option"
  pe_role :: "env_role option"
  pe_ring_order :: "int option"
  pe_agent_url :: "string option"
  pe_etl_url :: "string option"
  pe_gate_url :: "string option"
  pe_service_urls :: "(string, url_value) jsmap option"
  pe_allowed_sync :: "string list option"
  pe_allowed_connections :: "string list option"
  pe_allowed_targets :: "string list option"
  pe_access_mode :: "access_mode option"
  pe_allowed_operations :: "string list option"
  pe_deny_dml :: "bool option"
  pe_deny_ddl :: "bool option"
  pe_approval_operations :: "string list option"

definition given_or :: "'a option \<Rightarrow> 'a \<Rightarrow> 'a" where
  "given_or x d = (case x of Some v \<Rightarrow> v | None \<Rightarrow> d)"

section \<open>Service addresses\<close>

definition nonblank :: "string option \<Rightarrow> string option" where
  "nonblank t = (case t of None \<Rightarrow> None | Some s \<Rightarrow> if js_trim s = [] then None else Some (js_trim s))"

definition normalize_service_urls :: "(string, url_value) jsmap option \<Rightarrow> (string, string option) jsmap option" where
  "normalize_service_urls given = (case given of None \<Rightarrow> None | Some entries \<Rightarrow>
     let filled = foldl (\<lambda>acc e.
           let key = js_lower (js_trim (fst e)) in
           if key = [] then acc
           else case snd e of
               UrlNull \<Rightarrow> js_set acc key None
             | UrlOther \<Rightarrow> acc
             | UrlText t \<Rightarrow> js_set acc key (nonblank (Some t))) [] entries
     in if filled = [] then None else Some filled)"

definition legacy_url :: "sync_environment \<Rightarrow> string \<Rightarrow> string option" where
  "legacy_url e key =
     (if key = ''agent'' then se_agent_url e else if key = ''etl'' then se_etl_url e
      else if key = ''gate'' then se_gate_url e else None)"

definition merge_service_url_fields ::
  "(string, string option) jsmap option \<Rightarrow> string option \<Rightarrow> string option \<Rightarrow> string option
     \<Rightarrow> (string, string option) jsmap" where
  "merge_service_url_fields urls agent etl gate =
     foldl (\<lambda>acc e. case nonblank (snd e) of None \<Rightarrow> acc | Some t \<Rightarrow> js_set acc (fst e) (Some t))
       (given_or urls []) [(''agent'', agent), (''etl'', etl), (''gate'', gate)]"

definition resolve_env_service_url :: "sync_environment \<Rightarrow> string \<Rightarrow> string option" where
  "resolve_env_service_url e key =
     (let k = js_lower (js_trim key) in
      if k = [] then None
      else case nonblank (given_or (js_get (se_service_urls e) k) None) of
          Some t \<Rightarrow> Some t
        | None \<Rightarrow> nonblank (legacy_url e k))"

section \<open>Defaults\<close>

definition any_case :: rx_flags where
  "any_case = \<lparr>ignore_case = True, multiline = False\<rparr>"

definition prod_like :: "string \<Rightarrow> bool" where
  "prod_like name = rx_test any_case ''~bprod~b'' name"

definition uat_like :: "string \<Rightarrow> bool" where
  "uat_like name = rx_test any_case ''~buat~b|~bstag(e|ing)?~b'' name"

definition locked_operations :: "string list" where
  "locked_operations = [''query_read'', ''schema_introspect'', ''sync_preview'']"

definition open_operations :: "string list" where
  "open_operations = [''query_read'', ''schema_introspect'', ''sync_preview'', ''sync_execute'', ''dml'',
     ''sync_custom_sql'', ''sync_shell_execute'']"

definition with_permission_defaults :: "partial_environment \<Rightarrow> sync_environment" where
  "with_permission_defaults e =
     (let locked = prod_like (pe_name e) \<or> uat_like (pe_name e);
          mode = given_or (pe_access_mode e) (if locked then ReadOnlyMode else ReadWriteMode);
          urls = merge_service_url_fields (normalize_service_urls (pe_service_urls e))
                   (pe_agent_url e) (pe_etl_url e) (pe_gate_url e)
      in \<lparr>se_name = pe_name e,
          se_connector_id = pe_connector_id e,
          se_display_name = given_or (pe_display_name e) (pe_name e),
          se_color = given_or (pe_color e) ''slate'',
          se_role = given_or (pe_role e) BothRoles,
          se_ring_order = given_or (pe_ring_order e) 0,
          se_agent_url = given_or (js_get urls ''agent'') None,
          se_etl_url = given_or (js_get urls ''etl'') None,
          se_gate_url = given_or (js_get urls ''gate'') None,
          se_service_urls = urls,
          se_allowed_sync = (case pe_allowed_sync e of Some xs \<Rightarrow> Some xs
             | None \<Rightarrow> (case pe_allowed_connections e of Some xs \<Rightarrow> Some xs | None \<Rightarrow> pe_allowed_targets e)),
          se_access_mode = mode,
          se_allowed_operations = given_or (pe_allowed_operations e) (if locked then locked_operations else open_operations),
          se_deny_dml = given_or (pe_deny_dml e) (mode = ReadOnlyMode),
          se_deny_ddl = given_or (pe_deny_ddl e) (mode = ReadOnlyMode),
          se_approval_operations = given_or (pe_approval_operations e) []\<rparr>)"

section \<open>Who may sync where\<close>

definition env_can_be_source :: "sync_environment \<Rightarrow> bool" where
  "env_can_be_source e = (se_role e \<noteq> TargetRole)"

definition env_can_be_target :: "sync_environment \<Rightarrow> bool" where
  "env_can_be_target e = (se_role e \<noteq> SourceRole)"

definition env_has_ready_connector :: "sync_environment \<Rightarrow> string list \<Rightarrow> bool" where
  "env_has_ready_connector e ready =
     (let i = js_trim (given_or (se_connector_id e) []) in i \<noteq> [] \<and> i \<in> set ready)"

definition sync_direction_allowed :: "sync_environment \<Rightarrow> sync_environment \<Rightarrow> bool" where
  "sync_direction_allowed src tgt = (case se_allowed_sync src of
       None \<Rightarrow> True
     | Some names \<Rightarrow> \<exists>n\<in>set names. js_lower (js_trim n) = js_lower (js_trim (se_name tgt)))"

definition selectable_source :: "sync_environment \<Rightarrow> string list \<Rightarrow> bool" where
  "selectable_source e ready = (env_can_be_source e \<and> env_has_ready_connector e ready)"

definition selectable_target :: "sync_environment \<Rightarrow> string list \<Rightarrow> bool" where
  "selectable_target e ready = (env_can_be_target e \<and> env_has_ready_connector e ready)"

definition list_sync_source_options :: "sync_environment list \<Rightarrow> string list \<Rightarrow> sync_environment list" where
  "list_sync_source_options envs ready = filter (\<lambda>e. selectable_source e ready) envs"

definition list_sync_target_options ::
  "sync_environment list \<Rightarrow> string list \<Rightarrow> sync_environment option \<Rightarrow> sync_environment list" where
  "list_sync_target_options envs ready src = filter (\<lambda>e.
     selectable_target e ready \<and> (case src of None \<Rightarrow> True | Some s \<Rightarrow> sync_direction_allowed s e)) envs"

definition assert_env_connector_ready :: "sync_environment \<Rightarrow> string list \<Rightarrow> string + unit" where
  "assert_env_connector_ready e ready =
     (let i = js_trim (given_or (se_connector_id e) []) in
      if i = [] then Inl (''Environment '' @ quoted (se_name e) @ '' has no connectorId '' @ [CHR 0xE2, CHR 0x80, CHR 0x94]
        @ '' link an enabled MSSQL or Postgres connector in Environments.'')
      else if i \<notin> set ready then Inl (''Environment '' @ quoted (se_name e) @ '' connector '' @ quoted i
        @ '' is missing, not a warehouse kind (mssql|postgres), or disabled. Enable it in Connectors.'')
      else Inr ())"

definition assert_supported_direction :: "sync_environment \<Rightarrow> sync_environment \<Rightarrow> string + unit" where
  "assert_supported_direction src tgt = (case se_allowed_sync src of
       None \<Rightarrow> Inr ()
     | Some names \<Rightarrow>
         if js_lower (js_trim (se_name tgt)) \<in> set (map (\<lambda>n. js_lower (js_trim n)) names) then Inr ()
         else Inl (''Unsupported sync direction '' @ quoted (se_name src @ '' -> '' @ se_name tgt)
           @ ''. Allowed connections for '' @ se_name src @ '': ''
           @ (if names \<noteq> [] then js_join '', '' names else ''none'') @ ''.''))"

definition get_environment :: "(string, sync_environment) jsmap \<Rightarrow> string \<Rightarrow> string + sync_environment" where
  "get_environment items name = (case js_get items name of
       Some e \<Rightarrow> Inr e
     | None \<Rightarrow> Inl (''Unknown environment '' @ quoted name @ ''. Available: ''
         @ (if js_keys items = [] \<or> js_join '', '' (js_keys items) = [] then ''none'' else js_join '', '' (js_keys items)) @ ''.''))"

section \<open>The lists and the gates agree\<close>

lemma connector_gate: "assert_env_connector_ready e ready = Inr () \<longleftrightarrow> env_has_ready_connector e ready"
  by (simp add: assert_env_connector_ready_def env_has_ready_connector_def Let_def)

lemma direction_gate: "assert_supported_direction src tgt = Inr () \<longleftrightarrow> sync_direction_allowed src tgt"
  by (simp add: assert_supported_direction_def sync_direction_allowed_def image_iff split: option.splits) metis

text \<open>A pair the two lists offer is a pair every gate of the execution lets through, and no other is.\<close>

lemma offered_iff_accepted:
  "src \<in> set (list_sync_source_options envs ready) \<and> tgt \<in> set (list_sync_target_options envs ready (Some src))
   \<longleftrightarrow> src \<in> set envs \<and> tgt \<in> set envs \<and> se_role src \<noteq> TargetRole \<and> se_role tgt \<noteq> SourceRole
     \<and> assert_env_connector_ready src ready = Inr () \<and> assert_env_connector_ready tgt ready = Inr ()
     \<and> assert_supported_direction src tgt = Inr ()"
  by (auto simp: list_sync_source_options_def list_sync_target_options_def selectable_source_def
      selectable_target_def env_can_be_source_def env_can_be_target_def connector_gate direction_gate)

lemma js_trim_twice: "js_trim (js_trim s) = js_trim s"
proof -
  define u where "u = dropWhile is_space s"
  have t: "js_trim s = rev (dropWhile is_space (rev u))" by (simp add: js_trim_def u_def)
  have "dropWhile is_space (js_trim s) = js_trim s"
  proof (cases "js_trim s")
    case (Cons c cs)
    have "u = js_trim s @ rev (takeWhile is_space (rev u))"
      unfolding t by (metis rev_append rev_rev_ident takeWhile_dropWhile_id)
    then have "u \<noteq> []" "hd u = c" using Cons by (metis append_Cons list.distinct(1), metis append_Cons list.sel(1))
    then have "\<not> is_space c" using hd_dropWhile [of is_space s] by (simp add: u_def)
    then show ?thesis using Cons by simp
  qed simp
  then have "js_trim (js_trim s) = rev (dropWhile is_space (rev (js_trim s)))"
    by (simp add: js_trim_def [of "js_trim s"])
  also have "\<dots> = js_trim s" by (simp add: t)
  finally show ?thesis .
qed

section \<open>Addresses and names\<close>

definition bare_environment :: "string \<Rightarrow> partial_environment" where
  "bare_environment n = \<lparr>pe_name = n, pe_connector_id = None, pe_display_name = None, pe_color = None,
     pe_role = None, pe_ring_order = None, pe_agent_url = None, pe_etl_url = None, pe_gate_url = None,
     pe_service_urls = None, pe_allowed_sync = None, pe_allowed_connections = None, pe_allowed_targets = None,
     pe_access_mode = None, pe_allowed_operations = None, pe_deny_dml = None, pe_deny_ddl = None,
     pe_approval_operations = None\<rparr>"

lemma merged_url:
  "given_or (js_get (merge_service_url_fields urls agent etl gate) key) None =
     (case (if key = ''agent'' then nonblank agent else if key = ''etl'' then nonblank etl
            else if key = ''gate'' then nonblank gate else None) of
        Some t \<Rightarrow> Some t
      | None \<Rightarrow> given_or (js_get (given_or urls []) key) None)"
  by (auto simp: merge_service_url_fields_def given_or_def split: option.splits)

text \<open>A stored legacy address wins over the map, although the map is documented to take precedence: the new
  address of the map is lost.\<close>

lemma legacy_url_wins:
  "nonblank (pe_agent_url e) = Some t \<Longrightarrow>
    resolve_env_service_url (with_permission_defaults e) ''agent'' = Some t"
proof -
  assume t: "nonblank (pe_agent_url e) = Some t"
  then have tt: "nonblank (Some t) = Some t"
    by (auto simp: nonblank_def js_trim_twice split: option.splits if_splits)
  have k: "js_lower (js_trim ''agent'') = ''agent''" by code_simp
  have m: "given_or (js_get (se_service_urls (with_permission_defaults e)) ''agent'') None = Some t"
    by (simp add: with_permission_defaults_def Let_def merged_url t)
  show ?thesis by (simp add: resolve_env_service_url_def k m tt)
qed

text \<open>Only the word itself locks an environment: one called \<open>production\<close> may be written to.\<close>

lemma production_not_locked:
  "se_allowed_operations (with_permission_defaults (bare_environment ''PROD'')) = locked_operations
   \<and> se_allowed_operations (with_permission_defaults (bare_environment ''production'')) = open_operations
   \<and> se_access_mode (with_permission_defaults (bare_environment ''production'')) = ReadWriteMode"
  by code_simp

end
