(* ===== verification/FlowPipeline.thy ===== *)
theory FlowPipeline
  imports FlowInputs SyncEnv
begin

text \<open>
  The flow steps of a sync around its metadata transaction: the split of the flow
  (\<open>packages/sync/src/runtime/orchestrator/flow/flow-scheduler.ts\<close>), the handlers of a step
  (\<open>flow-step-executor.ts\<close>, \<open>procedure-params.ts\<close>, \<open>custom-handlers.ts\<close>, \<open>http-flow-step.ts\<close>, the audit gate
  of \<open>contract-deploy.ts\<close>) and the loop that runs one region of the flow
  (\<open>metadata/post-metadata-pipeline.ts\<close>). Databases, services and the shell answer through \<open>flow_host\<close>,
  which gets the position of the step so that equal calls of different steps may differ. What the program
  does is a trace of actions: progress reports, events and the calls it makes. Errors are values.
\<close>

section \<open>Regions of a flow\<close>

record scheduled_flow =
  sf_before :: "flow_step list"
  sf_metadata :: flow_step
  sf_after :: "flow_step list"

text \<open>\<open>Inl n\<close>: the flow has \<open>n\<close> metadata steps instead of one.\<close>

definition schedule_flow_steps :: "flow_step list \<Rightarrow> nat + scheduled_flow" where
  "schedule_flow_steps steps =
     (case filter (\<lambda>i. fs_kind (steps ! i) = metadata_sync_kind_id) [0..<length steps] of
        [i] \<Rightarrow> Inr \<lparr>sf_before = take i steps, sf_metadata = steps ! i, sf_after = drop (i + 1) steps\<rparr>
      | xs \<Rightarrow> Inl (length xs))"

section \<open>Errors, calls and actions\<close>

datatype flow_cause =
    InputFailed input_error
  | DriverFailed string
  | MetadataStepInPipeline
  | NoProcedure
  | NoHttpPath
  | NoHttpBody
  | NoBaseUrl string
  | NoSqlBatch
  | NoShellCommand
  | EnvironmentRefused string
  | UnknownToken string
  | WrongPlatform
  | NoAuditRow
  | UnexpectedAuditStatus string
  | OutputNotPublished string
  | UnknownKind string
  | LayerFailed

datatype flow_error = Failure flow_cause | GateSkipped string string

datatype deploy_status = DeployStarted | DeployDone | DeployFailed | DeploySkipped

datatype flow_call =
    Procedure side string "(string \<times> sql_value) list"
  | Batch side string "(string \<times> sql_value) list"
  | Shell string
  | Http http_method string "(string \<times> sql_value) list option"

datatype flow_act =
    StepReport string string "flow_cause option"
  | DeployReport string deploy_status "flow_cause option"
  | StepEvent string
  | StepFailedEvent string flow_cause
  | SkippedEvent string flow_cause
  | Call string flow_call
  | HttpEvent string "flow_cause option"

text \<open>What is outside: one answer per position in the flow and call.\<close>

record flow_host =
  ho_procedure :: "nat \<Rightarrow> flow_call \<Rightarrow> string + row list list"
  ho_batch :: "nat \<Rightarrow> flow_call \<Rightarrow> string + handler_result"
  ho_http :: "nat \<Rightarrow> flow_call \<Rightarrow> string + handler_result"
  ho_shell :: "nat \<Rightarrow> flow_call \<Rightarrow> string + handler_result"
  ho_lookup :: "nat \<Rightarrow> string \<Rightarrow> string \<Rightarrow> decimal \<Rightarrow> string + row list"
  ho_environments :: "(string, sync_environment) jsmap"
  ho_platform :: shell_platform

record flow_run =
  fr_host :: flow_host
  fr_source :: string
  fr_target :: string
  fr_entity_id :: entity_id
  fr_entity_type :: string
  fr_user_upn :: "string option"
  fr_catalog :: flow_catalog

section \<open>Templates\<close>

definition token_start :: "char \<Rightarrow> bool" where
  "token_start c = (is_word_char c \<and> \<not> is_digit_char c)"

definition input_literal :: "sql_value \<Rightarrow> string" where
  "input_literal v = (case v of SqlNull \<Rightarrow> [] | SqlBool b \<Rightarrow> if b then ''1'' else ''0'' | _ \<Rightarrow> js_string v)"

text \<open>\<open>substituteInputTokens\<close>: every \<open>@name\<close> is replaced by the value of that input.\<close>

function substitute_tokens :: "string \<Rightarrow> (string, sql_value) jsmap \<Rightarrow> string + string" where
  "substitute_tokens [] vals = Inr []"
| "substitute_tokens (c # cs) vals =
     (if c = CHR ''@'' \<and> cs \<noteq> [] \<and> token_start (hd cs) then
        let name = takeWhile is_word_char cs in
        case js_get vals name of
          None \<Rightarrow> Inl name
        | Some v \<Rightarrow> map_sum id (\<lambda>t. input_literal v @ t) (substitute_tokens (dropWhile is_word_char cs) vals)
      else map_sum id (\<lambda>t. c # t) (substitute_tokens cs vals))"
  by pat_completeness auto
termination
  by (relation "measure (\<lambda>(s, v). length s)") (auto simp: length_dropWhile_le less_Suc_eq_le)

section \<open>Handlers\<close>

definition side_name :: "flow_run \<Rightarrow> side \<Rightarrow> string" where
  "side_name r sd = (case sd of OnSource \<Rightarrow> fr_source r | OnTarget \<Rightarrow> fr_target r)"

definition resolve_ctx_of :: "flow_run \<Rightarrow> nat \<Rightarrow> step_outputs \<Rightarrow> resolve_ctx" where
  "resolve_ctx_of r i outs = \<lparr>rc_entity_id = fr_entity_id r, rc_user_upn = fr_user_upn r, rc_outputs = outs,
     rc_sources = fc_sources (fr_catalog r), rc_target_query = ho_lookup (fr_host r) i\<rparr>"

definition inputs_of :: "flow_run \<Rightarrow> nat \<Rightarrow> step_outputs \<Rightarrow> flow_step \<Rightarrow> flow_handler
    \<Rightarrow> flow_cause + (string, sql_value) jsmap" where
  "inputs_of r i outs st h = map_sum InputFailed id
     (resolve_handler_inputs (resolve_ctx_of r i outs) st (handler_input_slots h))"

text \<open>What a handler did and how it ended: outputs or an error.\<close>

type_synonym handled = "flow_act list \<times> (flow_error + (string, sql_value) jsmap)"

definition audit_gate :: "row option \<Rightarrow> string \<Rightarrow> flow_error + unit" where
  "audit_gate r step = (case r of
       None \<Rightarrow> Inl (Failure NoAuditRow)
     | Some cols \<Rightarrow>
         let raw = column cols ''status''; status = (if raw = SqlNull then [] else js_lower (js_trim (js_string raw)));
             message = column cols ''message'';
             detail = (if message = SqlNull then ''Synchronization not required.'' else js_trim (js_string message))
         in if status = ''stop'' then
              Inl (GateSkipped step (if detail = [] then ''Synchronization not required.'' else detail))
            else if status \<noteq> ''success'' then Inl (Failure (UnexpectedAuditStatus status))
            else Inr ())"

definition is_audit_procedure :: "string \<Rightarrow> bool" where
  "is_audit_procedure p = js_includes (js_lower p) ''uspauditruncheck''"

definition gated_action :: "(string, sql_value) jsmap \<Rightarrow> bool" where
  "gated_action vals = (js_get vals ''action'' = Some (SqlText ''syncOrNot'') \<or> js_get vals ''action'' = Some (SqlText ''runOrNot''))"

definition execute_mssql_procedure :: "flow_run \<Rightarrow> nat \<Rightarrow> step_outputs \<Rightarrow> flow_step \<Rightarrow> flow_handler \<Rightarrow> handled" where
  "execute_mssql_procedure r i outs st h = (case nonblank (fh_procedure h) of
       None \<Rightarrow> ([], Inl (Failure NoProcedure))
     | Some p \<Rightarrow> (case inputs_of r i outs st h of
           Inl e \<Rightarrow> ([], Inl (Failure e))
         | Inr vals \<Rightarrow>
             let c = Procedure (fh_connection h) p vals in
             case ho_procedure (fr_host r) i c of
               Inl e \<Rightarrow> ([Call (fs_id st) c], Inl (Failure (DriverFailed e)))
             | Inr sets \<Rightarrow>
                 ([Call (fs_id st) c],
                  if is_audit_procedure p \<and> gated_action vals \<and> fh_connection h = OnSource then
                    (case audit_gate (case sets of (r1 # rs) # more_sets \<Rightarrow> Some r1 | _ \<Rightarrow> None) (fs_id st) of
                       Inl e \<Rightarrow> Inl e
                     | Inr u \<Rightarrow> Inr (merge_handler_result vals (SqlResult sets [])))
                  else Inr (merge_handler_result vals (SqlResult sets [])))))"

definition strip_slash :: "string \<Rightarrow> string" where
  "strip_slash s = (if ends_with s ''/'' then butlast s else s)"

definition http_url :: "string \<Rightarrow> string \<Rightarrow> string" where
  "http_url base path = strip_slash base @ (if starts_with path ''/'' then path else ''/'' @ path)"

definition run_http_step :: "flow_run \<Rightarrow> nat \<Rightarrow> step_outputs \<Rightarrow> flow_step \<Rightarrow> flow_handler \<Rightarrow> handled" where
  "run_http_step r i outs st h = (case nonblank (fh_http_path h) of
       None \<Rightarrow> ([], Inl (Failure NoHttpPath))
     | Some path \<Rightarrow>
         let verb = given_or (fh_http_method h) HttpPost; slots = handler_input_slots h in
         if verb \<noteq> HttpGet \<and> slots = [] then ([], Inl (Failure NoHttpBody))
         else case get_environment (ho_environments (fr_host r)) (fr_target r) of
             Inl e \<Rightarrow> ([], Inl (Failure (EnvironmentRefused e)))
           | Inr env \<Rightarrow>
               let key = js_lower (js_trim (given_or (fh_http_service h) ''etl'')) in
               case resolve_env_service_url env key of
                 None \<Rightarrow> ([], Inl (Failure (NoBaseUrl key)))
               | Some base \<Rightarrow> (case (if slots = [] then Inr [] else inputs_of r i outs st h) of
                     Inl e \<Rightarrow> ([], Inl (Failure e))
                   | Inr body \<Rightarrow>
                       let c = Http verb (http_url base path) (if verb = HttpGet then None else Some body) in
                       case ho_http (fr_host r) i c of
                         Inl e \<Rightarrow> ([Call (fs_id st) c, HttpEvent (fs_id st) (Some (DriverFailed e))],
                                  Inl (Failure (DriverFailed e)))
                       | Inr res \<Rightarrow> ([Call (fs_id st) c, HttpEvent (fs_id st) None],
                                    Inr (merge_handler_result body res))))"

text \<open>A custom step first needs an environment that allows its operation.\<close>

definition env_allows :: "flow_run \<Rightarrow> side \<Rightarrow> string \<Rightarrow> flow_cause + unit" where
  "env_allows r sd operation = (case get_environment (ho_environments (fr_host r)) (side_name r sd) of
       Inl e \<Rightarrow> Inl (EnvironmentRefused e)
     | Inr env \<Rightarrow> map_sum EnvironmentRefused id
         (assert_env_operation_allowed (se_name env) (se_allowed_operations env) operation))"

definition custom_text :: "flow_run \<Rightarrow> nat \<Rightarrow> step_outputs \<Rightarrow> flow_step \<Rightarrow> flow_handler \<Rightarrow> string \<Rightarrow> string
    \<Rightarrow> flow_cause + (string \<times> (string, sql_value) jsmap)" where
  "custom_text r i outs st h operation template = (case env_allows r (fh_connection h) operation of
       Inl e \<Rightarrow> Inl e
     | Inr u \<Rightarrow> (case inputs_of r i outs st h of
           Inl e \<Rightarrow> Inl e
         | Inr vals \<Rightarrow> (case substitute_tokens template vals of
               Inl name \<Rightarrow> Inl (UnknownToken name)
             | Inr text \<Rightarrow> Inr (text, vals))))"

definition run_custom_sql :: "flow_run \<Rightarrow> nat \<Rightarrow> step_outputs \<Rightarrow> flow_step \<Rightarrow> flow_handler \<Rightarrow> handled" where
  "run_custom_sql r i outs st h = (case nonblank (fh_sql_batch h) of
       None \<Rightarrow> ([], Inl (Failure NoSqlBatch))
     | Some batch \<Rightarrow> (case custom_text r i outs st h ''sync_custom_sql'' batch of
           Inl e \<Rightarrow> ([], Inl (Failure e))
         | Inr (text, vals) \<Rightarrow>
             let c = Batch (fh_connection h) text vals in
             case ho_batch (fr_host r) i c of
               Inl e \<Rightarrow> ([Call (fs_id st) c], Inl (Failure (DriverFailed e)))
             | Inr res \<Rightarrow> ([Call (fs_id st) c], Inr (merge_handler_result vals res))))"

definition run_custom_shell :: "flow_run \<Rightarrow> nat \<Rightarrow> step_outputs \<Rightarrow> flow_step \<Rightarrow> flow_handler \<Rightarrow> shell_platform \<Rightarrow> handled" where
  "run_custom_shell r i outs st h platform = (case nonblank (fh_shell_command h) of
       None \<Rightarrow> ([], Inl (Failure NoShellCommand))
     | Some cmd \<Rightarrow> (case custom_text r i outs st h ''sync_shell_execute'' cmd of
           Inl e \<Rightarrow> ([], Inl (Failure e))
         | Inr (text, vals) \<Rightarrow>
             if platform \<noteq> AnyShell \<and> platform \<noteq> ho_platform (fr_host r) then ([], Inl (Failure WrongPlatform))
             else let c = Shell text in
               case ho_shell (fr_host r) i c of
                 Inl e \<Rightarrow> ([Call (fs_id st) c], Inl (Failure (DriverFailed e)))
               | Inr res \<Rightarrow> ([Call (fs_id st) c], Inr (merge_handler_result vals res))))"

definition run_catalog_flow_step :: "flow_run \<Rightarrow> nat \<Rightarrow> step_outputs \<Rightarrow> flow_step \<Rightarrow> flow_kind \<Rightarrow> handled" where
  "run_catalog_flow_step r i outs st k =
     (let h = fk_handler k in case fh_type h of
        MetadataSyncHandler \<Rightarrow> ([], Inl (Failure MetadataStepInPipeline))
      | MssqlProcedure \<Rightarrow> execute_mssql_procedure r i outs st h
      | HttpRequest \<Rightarrow> run_http_step r i outs st h
      | CustomSql \<Rightarrow> run_custom_sql r i outs st h
      | CustomShellScript \<Rightarrow> run_custom_shell r i outs st h (given_or (fh_shell_platform h) AnyShell))"

section \<open>One region\<close>

text \<open>A warning: the step, whether its handler ran (\<open>direct\<close>) or it was skipped, and why.\<close>

record step_warning =
  sw_step :: string
  sw_direct :: bool
  sw_cause :: flow_cause

record region_state =
  rs_acts :: "flow_act list"
  rs_warnings :: "step_warning list"
  rs_outputs :: step_outputs
  rs_layer_ok :: bool

definition act :: "flow_act list \<Rightarrow> region_state \<Rightarrow> region_state" where
  "act xs s = s\<lparr>rs_acts := rs_acts s @ xs\<rparr>"

definition warn :: "string \<Rightarrow> bool \<Rightarrow> flow_cause \<Rightarrow> region_state \<Rightarrow> region_state" where
  "warn step direct cause s = s\<lparr>rs_warnings := rs_warnings s @ [\<lparr>sw_step = step, sw_direct = direct, sw_cause = cause\<rparr>]\<rparr>"

definition creates_dataset_layer :: "flow_kind \<Rightarrow> bool" where
  "creates_dataset_layer k =
     (if fk_creates_dataset_layer k then True
      else if fh_type (fk_handler k) \<noteq> MssqlProcedure then False
      else let p = js_lower (js_trim (given_or (fh_procedure (fk_handler k)) []))
           in js_includes p ''uspcreatedataset'' \<and> \<not> js_includes p ''fk'')"

definition announce :: "bool \<Rightarrow> flow_step \<Rightarrow> flow_act list" where
  "announce deploy st =
     (if deploy then [StepEvent (fs_id st), DeployReport (fs_id st) DeployStarted None]
      else [StepReport (fs_id st) (fs_description st) None, StepEvent (fs_id st)])"

definition report_failure :: "bool \<Rightarrow> flow_step \<Rightarrow> flow_cause \<Rightarrow> flow_act list" where
  "report_failure deploy st e =
     [if deploy then DeployReport (fs_id st) DeployFailed (Some e) else StepReport (fs_id st) (fs_id st @ '' failed'') (Some e),
      StepFailedEvent (fs_id st) e]"

text \<open>The handler, and the check of its outputs, which have been published by then.\<close>

definition run_and_publish :: "flow_run \<Rightarrow> nat \<Rightarrow> flow_step \<Rightarrow> flow_kind \<Rightarrow> region_state
    \<Rightarrow> region_state \<times> flow_error option" where
  "run_and_publish r i st k s =
     (let (acts, res) = run_catalog_flow_step r i (rs_outputs s) st k; s1 = act acts s in
      case res of
        Inl e \<Rightarrow> (s1, Some e)
      | Inr outputs \<Rightarrow>
          (s1\<lparr>rs_outputs := publish_outputs (rs_outputs s1) (fs_id st) outputs\<rparr>,
           map_option (\<lambda>key. Failure (OutputNotPublished key)) (missing_published_output k outputs)))"

text \<open>\<open>runStep\<close>: the new state, whether the step went well, and what it throws.\<close>

definition run_step :: "flow_run \<Rightarrow> bool \<Rightarrow> nat \<Rightarrow> flow_step \<Rightarrow> flow_kind \<Rightarrow> region_state
    \<Rightarrow> region_state \<times> bool \<times> flow_error option" where
  "run_step r deploy i st k s =
     (let (s1, err) = run_and_publish r i st k (act (announce deploy st) s) in
      case err of
        None \<Rightarrow> (if deploy then act [DeployReport (fs_id st) DeployDone None] s1 else s1, True, None)
      | Some (GateSkipped step msg) \<Rightarrow> (s1, False, Some (GateSkipped step msg))
      | Some (Failure e) \<Rightarrow>
          (act (report_failure deploy st e) (warn (fs_id st) True e s1), False,
           if fk_failure_mode k = FatalFailure then Some (Failure e) else None))"

definition skip_step :: "flow_step \<Rightarrow> flow_cause \<Rightarrow> region_state \<Rightarrow> region_state" where
  "skip_step st e s =
     act [DeployReport (fs_id st) DeploySkipped (Some e), StepEvent (fs_id st), SkippedEvent (fs_id st) e]
       (warn (fs_id st) False e s)"

definition unknown_kind_step :: "bool \<Rightarrow> flow_step \<Rightarrow> region_state \<Rightarrow> region_state" where
  "unknown_kind_step deploy st s =
     (let e = UnknownKind (fs_kind st); s1 = warn (fs_id st) False e s in
      if deploy then skip_step st e s1 else act [StepReport (fs_id st) [] (Some e)] s1)"

definition region_step :: "flow_run \<Rightarrow> bool \<Rightarrow> nat \<Rightarrow> flow_step \<Rightarrow> region_state \<Rightarrow> region_state \<times> flow_error option" where
  "region_step r deploy i st s = (case js_get (fc_kinds (fr_catalog r)) (fs_kind st) of
       None \<Rightarrow> (unknown_kind_step deploy st s, None)
     | Some k \<Rightarrow>
         if fr_entity_type r = ''contract'' \<and> \<not> rs_layer_ok s \<and> fk_skip_when_layer_failed k
         then (skip_step st LayerFailed s, None)
         else let (s1, ok, err) = run_step r deploy i st k s in
           (if err = None \<and> \<not> ok \<and> creates_dataset_layer k then s1\<lparr>rs_layer_ok := False\<rparr> else s1, err))"

fun region_steps :: "flow_run \<Rightarrow> bool \<Rightarrow> nat \<Rightarrow> flow_step list \<Rightarrow> region_state \<Rightarrow> region_state \<times> flow_error option" where
  "region_steps r deploy i [] s = (s, None)"
| "region_steps r deploy i (st # sts) s =
     (let (s1, err) = region_step r deploy i st s in
      case err of Some e \<Rightarrow> (s1, Some e) | None \<Rightarrow> region_steps r deploy (i + 1) sts s1)"

definition fresh_region :: region_state where
  "fresh_region = \<lparr>rs_acts = [], rs_warnings = [], rs_outputs = [], rs_layer_ok = True\<rparr>"

text \<open>\<open>runPostMetadataPipeline\<close>: every region starts with its own outputs and its own warnings; the warnings
  are only returned, not thrown.\<close>

definition run_region :: "flow_run \<Rightarrow> bool \<Rightarrow> nat \<Rightarrow> flow_step list \<Rightarrow> flow_act list \<times> (flow_error + step_warning list)" where
  "run_region r deploy i steps =
     (let (s, err) = region_steps r deploy i steps fresh_region in
      (rs_acts s, case err of Some e \<Rightarrow> Inl e | None \<Rightarrow> Inr (rs_warnings s)))"

section \<open>The split of the flow\<close>

lemma metadata_positions: "filter (\<lambda>i. fs_kind (steps ! i) = metadata_sync_kind_id) [0..<length steps] = [i] \<Longrightarrow>
    i < length steps \<and> fs_kind (steps ! i) = metadata_sync_kind_id
    \<and> (\<forall>j<length steps. j \<noteq> i \<longrightarrow> fs_kind (steps ! j) \<noteq> metadata_sync_kind_id)"
proof -
  assume a: "filter (\<lambda>i. fs_kind (steps ! i) = metadata_sync_kind_id) [0..<length steps] = [i]"
  have "set (filter (\<lambda>i. fs_kind (steps ! i) = metadata_sync_kind_id) [0..<length steps]) = {i}"
    by (simp only: a) simp
  then show ?thesis by (auto simp: set_eq_iff)
qed

text \<open>The regions are the flow in its order, and the metadata step is in neither of the others.\<close>

lemma schedule_partitions:
  assumes "schedule_flow_steps steps = Inr f"
  shows "steps = sf_before f @ sf_metadata f # sf_after f \<and> fs_kind (sf_metadata f) = metadata_sync_kind_id
    \<and> (\<forall>st\<in>set (sf_before f) \<union> set (sf_after f). fs_kind st \<noteq> metadata_sync_kind_id)"
proof -
  obtain i where i: "filter (\<lambda>i. fs_kind (steps ! i) = metadata_sync_kind_id) [0..<length steps] = [i]"
    and f: "f = \<lparr>sf_before = take i steps, sf_metadata = steps ! i, sf_after = drop (i + 1) steps\<rparr>"
    using assms by (auto simp: schedule_flow_steps_def split: list.splits)
  note p = metadata_positions [OF i]
  have "fs_kind st \<noteq> metadata_sync_kind_id" if "st \<in> set (take i steps) \<union> set (drop (Suc i) steps)" for st
    using that p by (auto simp: in_set_conv_nth)
  then show ?thesis using p f by (simp add: id_take_nth_drop)
qed

section \<open>A region without warnings\<close>

text \<open>The reference: every kind is known, every handler succeeds on the outputs published so far, and every
  declared output is there.\<close>

fun region_clean :: "flow_run \<Rightarrow> nat \<Rightarrow> flow_step list \<Rightarrow> step_outputs \<Rightarrow> bool" where
  "region_clean r i [] outs = True"
| "region_clean r i (st # sts) outs = (case js_get (fc_kinds (fr_catalog r)) (fs_kind st) of
     None \<Rightarrow> False
   | Some k \<Rightarrow> (case snd (run_catalog_flow_step r i outs st k) of
         Inl e \<Rightarrow> False
       | Inr outputs \<Rightarrow> missing_published_output k outputs = None
           \<and> region_clean r (i + 1) sts (publish_outputs outs (fs_id st) outputs)))"

lemma act_simps [simp]:
  "rs_warnings (act xs s) = rs_warnings s" "rs_outputs (act xs s) = rs_outputs s"
  "rs_layer_ok (act xs s) = rs_layer_ok s" "rs_acts (act xs s) = rs_acts s @ xs"
  by (simp_all add: act_def)

lemma warn_simps [simp]:
  "rs_warnings (warn n d e s) = rs_warnings s @ [\<lparr>sw_step = n, sw_direct = d, sw_cause = e\<rparr>]"
  "rs_outputs (warn n d e s) = rs_outputs s" "rs_layer_ok (warn n d e s) = rs_layer_ok s"
  "rs_acts (warn n d e s) = rs_acts s"
  by (simp_all add: warn_def)

text \<open>A step only adds warnings and actions.\<close>

lemma region_step_grows:
  "region_step r deploy i st s = (s1, err) \<Longrightarrow>
    (\<exists>ws. rs_warnings s1 = rs_warnings s @ ws) \<and> (\<exists>xs. rs_acts s1 = rs_acts s @ xs)"
  by (auto simp: region_step_def unknown_kind_step_def skip_step_def run_step_def run_and_publish_def Let_def
      split: option.splits if_splits prod.splits sum.splits flow_error.splits)

lemma region_steps_grow:
  "region_steps r deploy i sts s = (s1, err) \<Longrightarrow>
    (\<exists>ws. rs_warnings s1 = rs_warnings s @ ws) \<and> (\<exists>xs. rs_acts s1 = rs_acts s @ xs)"
proof (induction sts arbitrary: i s)
  case (Cons st sts)
  obtain s2 e2 where a: "region_step r deploy i st s = (s2, e2)" by fastforce
  from region_step_grows [OF a] obtain ws xs
    where g: "rs_warnings s2 = rs_warnings s @ ws" "rs_acts s2 = rs_acts s @ xs" by blast
  show ?case
  proof (cases e2)
    case None
    then have "region_steps r deploy (i + 1) sts s2 = (s1, err)" using Cons.prems a by simp
    from Cons.IH [OF this] g show ?thesis by (metis append.assoc)
  next
    case (Some e)
    then show ?thesis using Cons.prems a g by auto
  qed
qed simp

text \<open>A step went well when it added no warning and threw nothing.\<close>

lemma region_step_clean:
  assumes "region_step r deploy i st s = (s1, err)" "rs_layer_ok s"
  shows "(err = None \<and> rs_warnings s1 = rs_warnings s) \<longleftrightarrow>
    (\<exists>k outputs. js_get (fc_kinds (fr_catalog r)) (fs_kind st) = Some k
      \<and> snd (run_catalog_flow_step r i (rs_outputs s) st k) = Inr outputs \<and> missing_published_output k outputs = None
      \<and> rs_outputs s1 = publish_outputs (rs_outputs s) (fs_id st) outputs \<and> rs_layer_ok s1)"
  using assms
  by (auto simp: region_step_def unknown_kind_step_def skip_step_def run_step_def run_and_publish_def Let_def
      split: option.splits if_splits prod.splits sum.splits flow_error.splits)

lemma region_steps_clean:
  "region_steps r deploy i sts s = (s1, err) \<Longrightarrow> rs_layer_ok s \<Longrightarrow>
    (err = None \<and> rs_warnings s1 = rs_warnings s) \<longleftrightarrow> region_clean r i sts (rs_outputs s)"
proof (induction sts arbitrary: i s)
  case (Cons st sts)
  obtain s2 e2 where a: "region_step r deploy i st s = (s2, e2)" by fastforce
  note step = region_step_clean [OF a Cons.prems(2)]
  show ?case
  proof (cases "e2 = None \<and> rs_warnings s2 = rs_warnings s")
    case True
    then have rest: "region_steps r deploy (i + 1) sts s2 = (s1, err)" using Cons.prems a by simp
    obtain k outputs where k: "js_get (fc_kinds (fr_catalog r)) (fs_kind st) = Some k"
      "snd (run_catalog_flow_step r i (rs_outputs s) st k) = Inr outputs" "missing_published_output k outputs = None"
      "rs_outputs s2 = publish_outputs (rs_outputs s) (fs_id st) outputs" "rs_layer_ok s2"
      using step True by blast
    from Cons.IH [OF rest k(5)] k True show ?thesis by simp
  next
    case False
    have "\<not> region_clean r i (st # sts) (rs_outputs s)"
    proof
      assume "region_clean r i (st # sts) (rs_outputs s)"
      then obtain k outputs where k: "js_get (fc_kinds (fr_catalog r)) (fs_kind st) = Some k"
        "snd (run_catalog_flow_step r i (rs_outputs s) st k) = Inr outputs" "missing_published_output k outputs = None"
        by (auto split: option.splits sum.splits)
      have "e2 = None \<and> rs_warnings s2 = rs_warnings s"
        using a Cons.prems(2) k
        by (auto simp: region_step_def run_step_def run_and_publish_def Let_def
            split: if_splits prod.splits)
      with False show False by blast
    qed
    moreover have "\<not> (err = None \<and> rs_warnings s1 = rs_warnings s)"
    proof (cases e2)
      case None
      with False have "rs_warnings s2 \<noteq> rs_warnings s" by blast
      moreover obtain ws where "rs_warnings s2 = rs_warnings s @ ws" using region_step_grows [OF a] by blast
      moreover obtain vs where "rs_warnings s1 = rs_warnings s2 @ vs"
        using region_steps_grow [of r deploy "i + 1" sts s2 s1 err] Cons.prems a None by auto
      ultimately show ?thesis by simp
    next
      case (Some e)
      then show ?thesis using Cons.prems a by auto
    qed
    ultimately show ?thesis by blast
  qed
qed simp

lemma fresh_region_simps [simp]:
  "rs_acts fresh_region = []" "rs_warnings fresh_region = []" "rs_outputs fresh_region = []" "rs_layer_ok fresh_region"
  by (simp_all add: fresh_region_def)

lemma region_clean_iff: "snd (run_region r deploy i steps) = Inr [] \<longleftrightarrow> region_clean r i steps []"
proof -
  obtain s err where a: "region_steps r deploy i steps fresh_region = (s, err)" by fastforce
  show ?thesis
    using region_steps_clean [OF a] by (cases err) (simp_all add: run_region_def a)
qed

section \<open>What a region may call\<close>

definition acting_step :: "flow_act \<Rightarrow> string" where
  "acting_step a = (case a of StepReport n t e \<Rightarrow> n | DeployReport n t e \<Rightarrow> n | StepEvent n \<Rightarrow> n
     | StepFailedEvent n e \<Rightarrow> n | SkippedEvent n e \<Rightarrow> n | Call n c \<Rightarrow> n | HttpEvent n e \<Rightarrow> n)"

definition own_acts :: "string \<Rightarrow> flow_act list \<Rightarrow> bool" where
  "own_acts n acts = (\<forall>a\<in>set acts. acting_step a = n)"

lemma own_acts_simps [simp]:
  "own_acts n []" "own_acts n (a # xs) = (acting_step a = n \<and> own_acts n xs)"
  "own_acts n (xs @ ys) = (own_acts n xs \<and> own_acts n ys)"
  by (auto simp: own_acts_def)

lemma acting_step_simps [simp]:
  "acting_step (StepReport n t e) = n" "acting_step (DeployReport n d e) = n" "acting_step (StepEvent n) = n"
  "acting_step (StepFailedEvent n c) = n" "acting_step (SkippedEvent n c) = n" "acting_step (Call n fc) = n"
  "acting_step (HttpEvent n e) = n"
  by (simp_all add: acting_step_def)

lemma handler_acts:
  "own_acts (fs_id st) (fst (execute_mssql_procedure r i outs st h))"
  "own_acts (fs_id st) (fst (run_http_step r i outs st h))"
  "own_acts (fs_id st) (fst (run_custom_sql r i outs st h))"
  "own_acts (fs_id st) (fst (run_custom_shell r i outs st h p))"
     apply (simp add: execute_mssql_procedure_def Let_def split: option.split sum.split)
    apply (simp add: run_http_step_def Let_def split: option.split sum.split)
   apply (simp add: run_custom_sql_def Let_def split: option.split sum.split prod.split)
  apply (simp add: run_custom_shell_def Let_def split: option.split sum.split prod.split)
  done

lemma handled_acts: "own_acts (fs_id st) (fst (run_catalog_flow_step r i outs st k))"
  by (simp add: run_catalog_flow_step_def handler_acts Let_def split: handler_type.split)

lemma publish_acts:
  assumes "run_and_publish r i st k s = (s1, err)"
  shows "\<exists>xs. rs_acts s1 = rs_acts s @ xs \<and> own_acts (fs_id st) xs"
proof (intro exI conjI)
  show "rs_acts s1 = rs_acts s @ fst (run_catalog_flow_step r i (rs_outputs s) st k)"
    using assms by (auto simp: run_and_publish_def Let_def split: prod.splits sum.splits)
qed (rule handled_acts)

lemma run_step_acts:
  assumes "run_step r deploy i st k s = (s1, ok, err)"
  shows "\<exists>xs. rs_acts s1 = rs_acts s @ xs \<and> own_acts (fs_id st) xs"
proof -
  obtain s2 e2 where a: "run_and_publish r i st k (act (announce deploy st) s) = (s2, e2)" by fastforce
  from publish_acts [OF a] obtain xs where xs: "rs_acts s2 = rs_acts s @ announce deploy st @ xs" "own_acts (fs_id st) xs"
    by auto
  then show ?thesis
    using assms a
    by (cases e2) (auto simp: run_step_def announce_def report_failure_def split: if_splits flow_error.splits)
qed

lemma region_step_acts:
  assumes "region_step r deploy i st s = (s1, err)"
  shows "\<exists>xs. rs_acts s1 = rs_acts s @ xs \<and> own_acts (fs_id st) xs"
proof (cases "js_get (fc_kinds (fr_catalog r)) (fs_kind st)")
  case None
  then show ?thesis using assms
    by (auto simp: region_step_def unknown_kind_step_def skip_step_def Let_def split: if_splits)
next
  case (Some k)
  obtain s2 ok e2 where a: "run_step r deploy i st k s = (s2, ok, e2)" by (metis prod.exhaust)
  show ?thesis
    using assms Some a run_step_acts [OF a]
    by (auto simp: region_step_def skip_step_def split: if_splits)
qed

text \<open>A region that stops stops at a step: what it did before belongs to the steps up to that one, and the
  step threw.\<close>

lemma region_stops:
  assumes "region_steps r deploy i sts s = (s1, Some e)"
  shows "\<exists>pre st post xs. sts = pre @ st # post \<and> rs_acts s1 = rs_acts s @ xs
    \<and> (\<forall>a\<in>set xs. acting_step a \<in> fs_id ` set (pre @ [st]))
    \<and> (\<exists>s2. snd (region_step r deploy (i + length pre) st s2) = Some e)"
  using assms
proof (induction sts arbitrary: i s)
  case (Cons st sts)
  obtain s2 e2 where a: "region_step r deploy i st s = (s2, e2)" by fastforce
  from region_step_acts [OF a] obtain xs where xs: "rs_acts s2 = rs_acts s @ xs" "own_acts (fs_id st) xs" by blast
  show ?case
  proof (cases e2)
    case None
    then have "region_steps r deploy (i + 1) sts s2 = (s1, Some e)" using Cons.prems a by simp
    from Cons.IH [OF this] obtain pre st' post ys s3 where ih: "sts = pre @ st' # post" "rs_acts s1 = rs_acts s2 @ ys"
      "\<forall>a\<in>set ys. acting_step a \<in> fs_id ` set (pre @ [st'])" "snd (region_step r deploy (i + 1 + length pre) st' s3) = Some e"
      by blast
    have "st # sts = (st # pre) @ st' # post" using ih(1) by simp
    moreover have "rs_acts s1 = rs_acts s @ (xs @ ys)" using xs(1) ih(2) by simp
    moreover have "\<forall>a\<in>set (xs @ ys). acting_step a \<in> fs_id ` set ((st # pre) @ [st'])"
      using xs(2) ih(3) by (auto simp: own_acts_def)
    moreover have "snd (region_step r deploy (i + length (st # pre)) st' s3) = Some e"
      using ih(4) by (simp add: algebra_simps)
    ultimately show ?thesis by blast
  next
    case (Some e')
    then have s1: "s1 = s2" "e' = e" using Cons.prems a by auto
    have "st # sts = [] @ st # sts" by simp
    moreover have "\<forall>a\<in>set xs. acting_step a \<in> fs_id ` set ([] @ [st])" using xs(2) by (auto simp: own_acts_def)
    moreover have "snd (region_step r deploy (i + length []) st s) = Some e" using a Some s1 by simp
    ultimately show ?thesis using xs(1) s1 by blast
  qed
qed simp

section \<open>What the regions do not share\<close>

text \<open>An unknown kind after the metadata step is counted twice.\<close>

lemma unknown_kind_counted_twice:
  "js_get (fc_kinds (fr_catalog r)) (fs_kind st) = None \<Longrightarrow>
    rs_warnings (fst (region_step r True i st s))
      = rs_warnings s @ replicate 2 \<lparr>sw_step = fs_id st, sw_direct = False, sw_cause = UnknownKind (fs_kind st)\<rparr>"
  by (simp add: region_step_def unknown_kind_step_def skip_step_def Let_def numeral_2_eq_2)

text \<open>The inputs of a procedure that reads an output nobody in this region published.\<close>

lemma unpublished_input_fails:
  assumes "slot \<in> set slots" "js_trim (hi_name slot) \<noteq> []"
    and "resolve_slot_value_source st slot = Inr (PriorOutput p key)"
    and "js_get (rc_outputs ctx) (js_trim p) = None"
  shows "\<exists>e. resolve_slots ctx st vals slots = Inl e"
  using assms(1)
proof (induction slots arbitrary: vals)
  case (Cons sl slots)
  show ?case
  proof (cases "sl = slot")
    case True
    then show ?thesis using assms(2-4) by (simp add: resolve_value_source_def read_output_def)
  next
    case False
    then have "slot \<in> set slots" using Cons.prems by auto
    with Cons.IH show ?thesis by (simp split: sum.split)
  qed
qed simp

lemma foreign_output_in_region:
  assumes "st \<in> set steps" "js_get (fc_kinds (fr_catalog r)) (fs_kind st) = Some k"
    and "fh_type (fk_handler k) = MssqlProcedure"
    and "slot \<in> set (handler_input_slots (fk_handler k))" "js_trim (hi_name slot) \<noteq> []"
    and "resolve_slot_value_source st slot = Inr (PriorOutput p key)"
    and "js_trim p \<notin> (\<lambda>x. js_trim (fs_id x)) ` set steps" "js_get outs (js_trim p) = None"
  shows "\<not> region_clean r i steps outs"
  using assms(1,7,8)
proof (induction steps arbitrary: i outs)
  case (Cons x steps)
  show ?case
  proof (cases "x = st")
    case True
    have "\<exists>e. snd (run_catalog_flow_step r i outs st k) = Inl e"
      using assms(3) unpublished_input_fails [OF assms(4-6), of "resolve_ctx_of r i outs" "[]"] Cons.prems(3)
      by (auto simp: run_catalog_flow_step_def execute_mssql_procedure_def inputs_of_def resolve_ctx_of_def
          resolve_handler_inputs_def Let_def split: option.split)
    then show ?thesis using True assms(2) by auto
  next
    case False
    have pub: "js_get (publish_outputs outs (fs_id x) o') (js_trim p) = None" for o'
      using Cons.prems(2,3) by (auto simp: publish_outputs_def)
    have "st \<in> set steps" "js_trim p \<notin> (\<lambda>x. js_trim (fs_id x)) ` set steps"
      using False Cons.prems by auto
    from Cons.IH [OF this pub] show ?thesis by (auto split: option.splits sum.splits)
  qed
qed simp

text \<open>A step after the metadata transaction cannot read what a step before it published: the region is
  never clean, whatever the databases answer, although the publish-time checks accept the flow.\<close>

lemma outputs_do_not_cross_regions:
  assumes "schedule_flow_steps steps = Inr f" "st \<in> set (sf_after f)"
    and "js_get (fc_kinds (fr_catalog r)) (fs_kind st) = Some k" "fh_type (fk_handler k) = MssqlProcedure"
    and "slot \<in> set (handler_input_slots (fk_handler k))" "js_trim (hi_name slot) \<noteq> []"
    and "resolve_slot_value_source st slot = Inr (PriorOutput p key)"
    and "js_trim p \<notin> (\<lambda>x. js_trim (fs_id x)) ` set (sf_after f)"
  shows "snd (run_region r True i (sf_after f)) \<noteq> Inr []"
  using foreign_output_in_region [OF assms(2-8), of "[]" i] by (simp add: region_clean_iff)

section \<open>The dataset layer\<close>

text \<open>Once a step that creates the dataset layer of a contract failed without stopping the region, no later
  step that depends on the layer is run: it is skipped with a warning.\<close>

lemma layer_stays_failed:
  "region_step r deploy i st s = (s1, err) \<Longrightarrow> \<not> rs_layer_ok s \<Longrightarrow> \<not> rs_layer_ok s1"
  by (auto simp: region_step_def unknown_kind_step_def skip_step_def run_step_def run_and_publish_def Let_def
      split: option.splits if_splits prod.splits sum.splits flow_error.splits)

lemma dependent_step_skipped:
  assumes "fr_entity_type r = ''contract''" "\<not> rs_layer_ok s"
    and "js_get (fc_kinds (fr_catalog r)) (fs_kind st) = Some k" "fk_skip_when_layer_failed k"
  shows "region_step r deploy i st s = (skip_step st LayerFailed s, None)"
  using assms by (simp add: region_step_def)

section \<open>The region as a whole\<close>

lemma region_steps_acts:
  "region_steps r deploy i sts s = (s1, err) \<Longrightarrow>
    \<exists>xs. rs_acts s1 = rs_acts s @ xs \<and> acting_step ` set xs \<subseteq> fs_id ` set sts"
proof (induction sts arbitrary: i s)
  case (Cons st sts)
  obtain s2 e2 where a: "region_step r deploy i st s = (s2, e2)" by fastforce
  from region_step_acts [OF a] obtain xs where xs: "rs_acts s2 = rs_acts s @ xs" "acting_step ` set xs \<subseteq> {fs_id st}"
    by (auto simp: own_acts_def)
  show ?case
  proof (cases e2)
    case None
    then have "region_steps r deploy (i + 1) sts s2 = (s1, err)" using Cons.prems a by simp
    from Cons.IH [OF this] obtain ys where "rs_acts s1 = rs_acts s2 @ ys" "acting_step ` set ys \<subseteq> fs_id ` set sts" by blast
    then show ?thesis using xs by (intro exI [of _ "xs @ ys"]) auto
  next
    case (Some e)
    then show ?thesis using Cons.prems a xs by (intro exI [of _ xs]) auto
  qed
qed simp

text \<open>C16: a region of a flow (\<open>runPostMetadataPipeline\<close>), before or after the metadata transaction, returns
  without a warning exactly when every step has a known kind, its handler succeeds on the outputs published
  so far in this region, and it publishes every output it declares; and whatever happens, all a region
  reports or calls is for its own steps.\<close>

theorem region_returns_clean:
  "(snd (run_region r deploy i steps) = Inr [] \<longleftrightarrow> region_clean r i steps [])
   \<and> acting_step ` set (fst (run_region r deploy i steps)) \<subseteq> fs_id ` set steps"
proof -
  obtain s err where a: "region_steps r deploy i steps fresh_region = (s, err)" by fastforce
  from region_steps_acts [OF a] show ?thesis by (simp add: region_clean_iff) (simp add: run_region_def a)
qed

end
