(* ===== verification/ApplyPlan.thy ===== *)
theory ApplyPlan
  imports SyncDiff
begin

text \<open>
  What one table of a plan becomes in SQL: the column policy of a table
  (\<open>packages/sync/src/core/entity-registry/scd2-policy.ts\<close>, \<open>strategy-resolver.ts\<close>), the columns a merge
  copies and the MERGE and DELETE batches (\<open>runtime/orchestrator/apply.ts\<close>,
  \<open>adapters/mssql/dialect\<close> and \<open>adapters/postgres/dialect\<close>: \<open>upsert.ts\<close>, \<open>delete.ts\<close>, \<open>constraints.ts\<close>, \<open>hash.ts\<close>).
  A policy that a strategy or an override leaves out is \<open>None\<close>; the old spelling of a strategy
  is the second record. Statements are texts, as the code builds them.
\<close>

section \<open>Column policies\<close>

datatype identity_handling = CopyIdentity | SetIdentityInsert | OmitIdentity

record scd2_policy =
  sp_exclude :: "string list"
  sp_on_insert :: "(string, string) jsmap"
  sp_on_update :: "(string, string) jsmap"
  sp_identity :: identity_handling

text \<open>A strategy or an override as stored, with the old column roles.\<close>

record stored_policy =
  st_exclude :: "string list option"
  st_on_insert :: "(string, string) jsmap option"
  st_on_update :: "(string, string) jsmap option"
  st_identity :: "string option"
  st_old_exclude :: "string list option"
  st_old_columns :: "string option list"  \<comment> \<open>the five role columns, in the order of the source\<close>

record scd2_override =
  ov_exclude :: "string list option"
  ov_on_insert :: "(string, string) jsmap option"
  ov_on_update :: "(string, string) jsmap option"
  ov_identity :: "identity_handling option"

definition normalize_identity_handling :: "string option \<Rightarrow> identity_handling" where
  "normalize_identity_handling v =
     (if v = Some ''setIdentityInsertOn'' then SetIdentityInsert
      else if v = Some ''omit-identity-column'' \<or> v = Some ''skipIdentityCols'' \<or> v = Some ''preserveSequence''
      then OmitIdentity else CopyIdentity)"

definition dedupe_columns :: "string list \<Rightarrow> string list" where
  "dedupe_columns cs = set_of_list (filter (\<lambda>c. c \<noteq> []) (map js_trim cs))"

definition some_or :: "'a \<Rightarrow> 'a option \<Rightarrow> 'a" where
  "some_or d x = (case x of None \<Rightarrow> d | Some v \<Rightarrow> v)"

definition named_columns :: "string option list \<Rightarrow> string list" where
  "named_columns cs = concat (map (\<lambda>c. case c of None \<Rightarrow> [] | Some n \<Rightarrow> if n = [] then [] else [n]) cs)"

definition normalize_scd2_strategy :: "stored_policy \<Rightarrow> scd2_policy" where
  "normalize_scd2_strategy s =
     \<lparr>sp_exclude = (case st_exclude s of
        Some cs \<Rightarrow> dedupe_columns cs
      | None \<Rightarrow> dedupe_columns (foldl set_add (set_of_list (some_or [] (st_old_exclude s))) (named_columns (st_old_columns s)))),
      sp_on_insert = some_or [] (st_on_insert s),
      sp_on_update = some_or [] (st_on_update s),
      sp_identity = normalize_identity_handling (st_identity s)\<rparr>"

definition normalize_scd2_override :: "stored_policy option \<Rightarrow> scd2_override option" where
  "normalize_scd2_override given = (case given of None \<Rightarrow> None | Some s \<Rightarrow>
     let identity = map_option (\<lambda>v. normalize_identity_handling (Some v)) (st_identity s) in
     if st_exclude s \<noteq> None then
       Some \<lparr>ov_exclude = st_exclude s, ov_on_insert = st_on_insert s, ov_on_update = st_on_update s, ov_identity = identity\<rparr>
     else
       let extra = named_columns (st_old_columns s);
           exclude = (if extra = [] then st_old_exclude s
                      else Some (foldl set_add (set_of_list (some_or [] (st_old_exclude s))) extra))
       in if exclude = None \<and> st_on_insert s = None \<and> st_on_update s = None \<and> identity = None then None
          else Some \<lparr>ov_exclude = exclude, ov_on_insert = st_on_insert s, ov_on_update = st_on_update s, ov_identity = identity\<rparr>)"

text \<open>A field of the table's override wins over the entity's, which wins over the strategy's.\<close>

definition pick :: "(scd2_override \<Rightarrow> 'a option) \<Rightarrow> scd2_override option \<Rightarrow> scd2_override option \<Rightarrow> 'a \<Rightarrow> 'a" where
  "pick field tab entity base = (case Option.bind tab field of
     Some v \<Rightarrow> v | None \<Rightarrow> (case Option.bind entity field of Some v \<Rightarrow> v | None \<Rightarrow> base))"

definition resolve_effective_scd2 :: "stored_policy \<Rightarrow> stored_policy option \<Rightarrow> stored_policy option \<Rightarrow> scd2_policy" where
  "resolve_effective_scd2 strategy entity_given table_given =
     (let s = normalize_scd2_strategy strategy; e = normalize_scd2_override entity_given;
          t = normalize_scd2_override table_given
      in \<lparr>sp_exclude = pick ov_exclude t e (sp_exclude s),
          sp_on_insert = pick ov_on_insert t e (sp_on_insert s),
          sp_on_update = pick ov_on_update t e (sp_on_update s),
          sp_identity = pick ov_identity t e (sp_identity s)\<rparr>)"

definition resolve_column_on_table :: "string \<Rightarrow> string list \<Rightarrow> string option" where
  "resolve_column_on_table requested available =
     (let lower = js_lower (js_trim requested) in
      if lower = [] then None
      else if \<exists>c\<in>set available. js_lower (js_trim c) = lower then Some (js_trim requested) else None)"

definition on_table :: "string list \<Rightarrow> string \<Rightarrow> bool" where
  "on_table cols c = (resolve_column_on_table c cols \<noteq> None)"

definition keep_stamps :: "(string, string) jsmap \<Rightarrow> string list \<Rightarrow> (string, string) jsmap" where
  "keep_stamps stamps cols =
     foldl (\<lambda>acc e. if on_table cols (fst e) then js_set acc (js_trim (fst e)) (snd e) else acc) [] stamps"

definition materialize_scd2_policy :: "scd2_policy \<Rightarrow> string list \<Rightarrow> string list \<Rightarrow> scd2_policy" where
  "materialize_scd2_policy base src tgt =
     \<lparr>sp_exclude = dedupe_columns (filter (on_table src) (sp_exclude base)),
      sp_on_insert = keep_stamps (sp_on_insert base) tgt,
      sp_on_update = keep_stamps (sp_on_update base) tgt,
      sp_identity = sp_identity base\<rparr>"

definition omitted_columns :: "scd2_policy \<Rightarrow> string list \<Rightarrow> string list \<Rightarrow> string list \<times> string list \<times> string list" where
  "omitted_columns base src tgt =
     (dedupe_columns (filter (\<lambda>c. \<not> on_table src c) (sp_exclude base)),
      dedupe_columns (filter (\<lambda>c. \<not> on_table tgt c) (js_keys (sp_on_insert base))),
      dedupe_columns (filter (\<lambda>c. \<not> on_table tgt c) (js_keys (sp_on_update base))))"

section \<open>Batches of SQL\<close>

record target_column =
  tc_name :: string
  tc_identity :: bool
  tc_computed :: bool

record upsert_input =
  ui_table :: string
  ui_pk_columns :: "string list"
  ui_temp_cols :: "string list"
  ui_update_cols :: "string list"
  ui_identity_col :: "string option"
  ui_use_identity_insert :: bool
  ui_allow_update :: bool
  ui_rows :: "row list"
  ui_on_insert :: "(string, string) jsmap"
  ui_on_update :: "(string, string) jsmap"

datatype dialect_kind = Mssql | Postgres

definition newline :: string where
  "newline = [CHR 0x0A]"

text \<open>\<open>for (i = 0; i < length; i += n)\<close> over \<open>slice(i, i + n)\<close>.\<close>

function chunks :: "nat \<Rightarrow> 'a list \<Rightarrow> 'a list list" where
  "chunks n xs = (if xs = [] \<or> n = 0 then [] else take n xs # chunks n (drop n xs))"
  by pat_completeness auto
termination by (relation "measure (\<lambda>(n, xs). length xs)") auto

declare chunks.simps [simp del]

definition sql_batch :: nat where
  "sql_batch = 500"

definition bracket :: "string \<Rightarrow> string" where
  "bracket c = ''['' @ c @ '']''"

definition values_list :: "string list \<Rightarrow> row list \<Rightarrow> string" where
  "values_list cols rows = js_join ('','' @ newline)
     (map (\<lambda>r. ''('' @ js_join '', '' (map (\<lambda>c. quote_sql_literal (column r c)) cols) @ '')'') rows)"

definition quote_pg_ident :: "string \<Rightarrow> string" where
  "quote_pg_ident part = CHR 0x22 # concat (map (\<lambda>c. if c = CHR 0x22 then [CHR 0x22, CHR 0x22] else [c]) part) @ [CHR 0x22]"

definition quote_pg_table :: "string \<Rightarrow> string" where
  "quote_pg_table name = js_join ''.'' (map quote_pg_ident (js_split CHR ''.'' name))"

text \<open>The assignments of the update branch: the copied columns, then the stamps of other columns.\<close>

definition add_update_stamp :: "(string \<Rightarrow> string) \<Rightarrow> (string \<Rightarrow> string) \<Rightarrow> string list \<Rightarrow> string \<times> string \<Rightarrow> string list" where
  "add_update_stamp lhs assigned parts e =
     (if \<exists>p\<in>set parts. starts_with p (assigned (fst e)) then parts
      else parts @ [lhs (fst e) @ '' = '' @ snd e])"

definition insert_columns :: "upsert_input \<Rightarrow> string list \<times> string list" where
  "insert_columns u =
     foldl (\<lambda>(cols, exprs) e. if fst e \<in> set cols then (cols, exprs) else (cols @ [fst e], exprs @ [snd e]))
       (ui_temp_cols u, []) (ui_on_insert u)"

definition mssql_lhs :: "string \<Rightarrow> string" where
  "mssql_lhs c = ''T.'' @ bracket c"

definition mssql_upsert_batch_sql :: "upsert_input \<Rightarrow> string" where
  "mssql_upsert_batch_sql u =
     (let qn = quote_mssql_table (ui_table u);
          cols = ui_temp_cols u;
          batches = map (\<lambda>b. ''INSERT INTO #syncSrc ('' @ js_join '', '' (map bracket cols) @ '') VALUES '' @ values_list cols b)
            (chunks sql_batch (ui_rows u));
          temp_create = (if ui_identity_col u \<noteq> None \<and> ui_identity_col u \<noteq> Some []
            then ''SELECT TOP 0 '' @ js_join '', '' (map (\<lambda>c. ''a.'' @ bracket c) cols) @ '' INTO #syncSrc FROM '' @ qn
                 @ '' a LEFT JOIN '' @ qn @ '' b ON 1 = 0''
            else ''SELECT TOP 0 '' @ js_join '', '' (map bracket cols) @ '' INTO #syncSrc FROM '' @ qn);
          pk_on = js_join '' AND '' (map (\<lambda>c. mssql_lhs c @ '' = S.'' @ bracket c) (ui_pk_columns u));
          update_parts = foldl (add_update_stamp mssql_lhs mssql_lhs)
            (map (\<lambda>c. mssql_lhs c @ '' = S.'' @ bracket c) (ui_update_cols u)) (ui_on_update u);
          update_set = (if ui_allow_update u \<and> update_parts \<noteq> []
            then ''WHEN MATCHED THEN UPDATE SET '' @ js_join '', '' update_parts else []);
          (ins_cols, stamps) = insert_columns u;
          ins_values = map (\<lambda>c. ''S.'' @ bracket c) cols @ stamps;
          merge = js_join newline (filter (\<lambda>p. p \<noteq> [])
            [if ui_use_identity_insert u then ''SET IDENTITY_INSERT '' @ qn @ '' ON'' else [],
             ''MERGE '' @ qn @ '' AS T'',
             ''USING #syncSrc AS S ON '' @ pk_on,
             update_set,
             ''WHEN NOT MATCHED BY TARGET THEN INSERT ('' @ js_join '', '' (map bracket ins_cols) @ '') VALUES (''
               @ js_join '', '' ins_values @ '')'',
             '';'',
             if ui_identity_col u \<noteq> None \<and> ui_identity_col u \<noteq> Some [] \<and> ui_use_identity_insert u
             then ''SET IDENTITY_INSERT '' @ qn @ '' OFF'' else []])
      in js_join ('';'' @ newline) (temp_create # batches @ [merge, ''DROP TABLE #syncSrc'']))"

definition mssql_delete_batch_sql :: "string \<Rightarrow> string list \<Rightarrow> row list \<Rightarrow> string" where
  "mssql_delete_batch_sql tab pks rows =
     (let qn = quote_mssql_table tab;
          pk_on = js_join '' AND '' (map (\<lambda>c. mssql_lhs c @ '' = S.'' @ bracket c) pks);
          batches = map (\<lambda>b. ''INSERT INTO #syncDelPk ('' @ js_join '', '' (map bracket pks) @ '') VALUES '' @ values_list pks b)
            (chunks sql_batch rows);
          temp_create = ''SELECT TOP 0 '' @ js_join '', '' (map (\<lambda>c. ''a.'' @ bracket c) pks) @ '' INTO #syncDelPk FROM ''
            @ qn @ '' a LEFT JOIN '' @ qn @ '' b ON 1 = 0''
      in js_join ('';'' @ newline) (temp_create # batches
           @ [''DELETE T FROM '' @ qn @ '' T'' @ newline @ ''     INNER JOIN #syncDelPk S ON '' @ pk_on,
              ''DROP TABLE #syncDelPk'']))"

definition pg_upsert_batch_sql :: "upsert_input \<Rightarrow> string" where
  "pg_upsert_batch_sql u =
     (if ui_rows u = [] then ''SELECT 1 WHERE false'' else
      let qn = quote_pg_table (ui_table u);
          cols = ui_temp_cols u;
          col_list = js_join '', '' (map quote_pg_ident cols);
          conflict = js_join '', '' (map quote_pg_ident (ui_pk_columns u));
          update_parts = foldl (add_update_stamp quote_pg_ident quote_pg_ident)
            (map (\<lambda>c. quote_pg_ident c @ '' = EXCLUDED.'' @ quote_pg_ident c) (ui_update_cols u)) (ui_on_update u);
          (ins_cols, stamps) = insert_columns u;
          ins_values = map (\<lambda>c. ''S.'' @ quote_pg_ident c) cols @ stamps;
          overriding = (if ui_identity_col u \<noteq> None \<and> ui_identity_col u \<noteq> Some [] \<and> ui_use_identity_insert u
            then '' OVERRIDING SYSTEM VALUE'' else []);
          on_conflict = (if ui_allow_update u \<and> update_parts \<noteq> []
            then ''ON CONFLICT ('' @ conflict @ '') DO UPDATE SET '' @ js_join '', '' update_parts
            else ''ON CONFLICT ('' @ conflict @ '') DO NOTHING'')
      in js_join ('';'' @ newline) (map (\<lambda>b.
           ''INSERT INTO '' @ qn @ '' ('' @ js_join '', '' (map quote_pg_ident ins_cols) @ '')'' @ overriding @ newline
           @ ''SELECT '' @ js_join '', '' ins_values @ '' FROM (VALUES '' @ values_list cols b @ '') AS S('' @ col_list @ '')''
           @ newline @ on_conflict) (chunks sql_batch (ui_rows u))))"

definition pg_delete_batch_sql :: "string \<Rightarrow> string list \<Rightarrow> row list \<Rightarrow> string" where
  "pg_delete_batch_sql tab pks rows =
     (if rows = [] then ''SELECT 1 WHERE false'' else
      let qn = quote_pg_table tab;
          col_list = js_join '', '' (map quote_pg_ident pks);
          pk_on = js_join '' AND '' (map (\<lambda>c. ''T.'' @ quote_pg_ident c @ '' = S.'' @ quote_pg_ident c) pks)
      in js_join ('';'' @ newline) (map (\<lambda>b.
           ''DELETE FROM '' @ qn @ '' AS T USING (VALUES '' @ values_list pks b @ '') AS S('' @ col_list @ '') WHERE '' @ pk_on)
           (chunks sql_batch rows)))"

definition upsert_batch_sql :: "dialect_kind \<Rightarrow> upsert_input \<Rightarrow> string" where
  "upsert_batch_sql d u = (case d of Mssql \<Rightarrow> mssql_upsert_batch_sql u | Postgres \<Rightarrow> pg_upsert_batch_sql u)"

definition delete_batch_sql :: "dialect_kind \<Rightarrow> string \<Rightarrow> string list \<Rightarrow> row list \<Rightarrow> string" where
  "delete_batch_sql d tab pks rows =
     (case d of Mssql \<Rightarrow> mssql_delete_batch_sql tab pks rows | Postgres \<Rightarrow> pg_delete_batch_sql tab pks rows)"

definition disable_constraints_sql :: "dialect_kind \<Rightarrow> string \<Rightarrow> string" where
  "disable_constraints_sql d t = (case d of
       Mssql \<Rightarrow> ''ALTER TABLE '' @ quote_mssql_table t @ '' NOCHECK CONSTRAINT ALL''
     | Postgres \<Rightarrow> ''ALTER TABLE '' @ quote_pg_table t @ '' DISABLE TRIGGER USER'')"

definition enable_constraints_sql :: "dialect_kind \<Rightarrow> string \<Rightarrow> string" where
  "enable_constraints_sql d t = (case d of
       Mssql \<Rightarrow> ''ALTER TABLE '' @ quote_mssql_table t @ '' CHECK CONSTRAINT ALL''
     | Postgres \<Rightarrow> ''ALTER TABLE '' @ quote_pg_table t @ '' ENABLE TRIGGER USER'')"

section \<open>The columns of a merge\<close>

text \<open>The column work of \<open>applyInsertsUpdates\<close>; \<open>None\<close> when no data column is left. The first row the source
  returned gives the source columns.\<close>

definition plan_upsert ::
  "string \<Rightarrow> string list \<Rightarrow> scd2_policy \<Rightarrow> target_column list \<Rightarrow> row list \<Rightarrow> bool \<Rightarrow> upsert_input option" where
  "plan_upsert tab pks base target_cols rows allow_update =
     (let src = js_keys (hd rows);
          policy = materialize_scd2_policy base src (map tc_name target_cols);
          identity_col = map_option tc_name (find tc_identity target_cols);
          omit = (sp_identity policy = OmitIdentity);
          sync_cols = map tc_name (filter (\<lambda>c. tc_name c \<in> set src \<and> \<not> tc_computed c) target_cols);
          temp_cols = filter (\<lambda>c. c \<notin> set (sp_exclude policy) \<and> \<not> (omit \<and> Some c = identity_col)) sync_cols
      in if temp_cols = [] then None
         else Some \<lparr>ui_table = tab, ui_pk_columns = pks, ui_temp_cols = temp_cols,
           ui_update_cols = filter (\<lambda>c. c \<notin> set pks \<and> Some c \<noteq> identity_col) temp_cols,
           ui_identity_col = identity_col,
           ui_use_identity_insert = (identity_col \<noteq> None \<and> identity_col \<noteq> Some [] \<and> \<not> omit
             \<and> (sp_identity policy = SetIdentityInsert \<or> sp_identity policy = CopyIdentity)),
           ui_allow_update = allow_update, ui_rows = rows,
           ui_on_insert = sp_on_insert policy, ui_on_update = sp_on_update policy\<rparr>)"

section \<open>Facts about the columns\<close>

lemma chunks_Nil [simp]: "chunks n [] = []"
  by (simp add: chunks.simps [of n "[]"])









section \<open>An example\<close>

definition example_policy :: "string list \<Rightarrow> identity_handling \<Rightarrow> scd2_policy" where
  "example_policy excl h = \<lparr>sp_exclude = excl, sp_on_insert = [(''syncDate'', ''GETUTCDATE()'')],
     sp_on_update = [(''syncDate'', ''GETUTCDATE()'')], sp_identity = h\<rparr>"

definition example_columns :: "target_column list" where
  "example_columns = [\<lparr>tc_name = ''id'', tc_identity = True, tc_computed = False\<rparr>,
     \<lparr>tc_name = ''name'', tc_identity = False, tc_computed = False\<rparr>,
     \<lparr>tc_name = ''validFrom'', tc_identity = False, tc_computed = False\<rparr>,
     \<lparr>tc_name = ''syncDate'', tc_identity = False, tc_computed = False\<rparr>]"

definition example_rows :: "row list" where
  "example_rows = [[(''id'', SqlInt 1), (''name'', SqlText ''a''), (''validFrom'', SqlNull)]]"

definition example_upsert :: "string list \<Rightarrow> identity_handling \<Rightarrow> upsert_input" where
  "example_upsert excl h = \<lparr>ui_table = ''core.Rule'', ui_pk_columns = [''id''],
     ui_temp_cols = (if h = OmitIdentity then [] else [''id'']) @ [''name''] @ (if excl = [''validFrom''] then [] else [''validFrom'']),
     ui_update_cols = [''name''] @ (if excl = [''validFrom''] then [] else [''validFrom'']), ui_identity_col = Some ''id'',
     ui_use_identity_insert = (h \<noteq> OmitIdentity), ui_allow_update = True, ui_rows = example_rows,
     ui_on_insert = [(''syncDate'', ''GETUTCDATE()'')], ui_on_update = [(''syncDate'', ''GETUTCDATE()'')]\<rparr>"

lemma example_plans:
  "plan_upsert ''core.Rule'' [''id''] (example_policy [''validFrom''] SetIdentityInsert) example_columns example_rows True
     = Some (example_upsert [''validFrom''] SetIdentityInsert)"
  "plan_upsert ''core.Rule'' [''id''] (example_policy [''validfrom''] CopyIdentity) example_columns example_rows True
     = Some (example_upsert [] CopyIdentity)"
  "plan_upsert ''core.Rule'' [''id''] (example_policy [''validFrom''] OmitIdentity) example_columns example_rows True
     = Some (example_upsert [''validFrom''] OmitIdentity)"
  by code_simp+




section \<open>Where the columns go wrong\<close>

text \<open>A policy column in another case counts as found on the table, but the column is still copied.\<close>

lemma other_case_still_copied:
  "sp_exclude (materialize_scd2_policy (example_policy [''validfrom''] CopyIdentity) [''id'', ''name'', ''validFrom'']
     [''id'', ''name'', ''validFrom'', ''syncDate'']) = [''validfrom'']
   \<and> ''validFrom'' \<in> set (ui_update_cols (example_upsert [] CopyIdentity))
   \<and> plan_upsert ''core.Rule'' [''id''] (example_policy [''validfrom''] CopyIdentity) example_columns example_rows True
     = Some (example_upsert [] CopyIdentity)"
  using example_plans(2) by (intro conjI) (code_simp, simp add: example_upsert_def, assumption)

text \<open>Omitting an identity column that is the key leaves the key out of the temporary table the merge joins on.\<close>

lemma omitted_identity_breaks_join:
  "plan_upsert ''core.Rule'' [''id''] (example_policy [''validFrom''] OmitIdentity) example_columns example_rows True
     = Some (example_upsert [''validFrom''] OmitIdentity)
   \<and> \<not> set (ui_pk_columns (example_upsert [''validFrom''] OmitIdentity))
       \<subseteq> set (ui_temp_cols (example_upsert [''validFrom''] OmitIdentity))"
  using example_plans(3) by (simp add: example_upsert_def)

text \<open>\<open>none\<close> is documented to copy the identity without the \<open>IDENTITY_INSERT\<close> wrapper; it gets the wrapper.\<close>

lemma copy_identity_is_wrapped:
  "plan_upsert ''core.Rule'' [''id''] (example_policy [''validfrom''] CopyIdentity) example_columns example_rows True
     = Some (example_upsert [] CopyIdentity)
   \<and> ui_use_identity_insert (example_upsert [] CopyIdentity)"
  using example_plans(2) by (simp add: example_upsert_def)

section \<open>The text a row is compared by\<close>

text \<open>\<open>CONCAT_WS('|', \<dots>)\<close>, documented to skip null values together with their separator, over the texts of the
  columns. Two rows whose texts are equal have equal fingerprints, and the diff counts them as unchanged.\<close>

definition fingerprint_text :: "string option list \<Rightarrow> string" where
  "fingerprint_text vals = js_join ''|'' (concat (map (\<lambda>v. case v of None \<Rightarrow> [] | Some t \<Rightarrow> [t]) vals))"

lemma fingerprint_collides:
  "fingerprint_text [Some ''x'', None] = fingerprint_text [None, Some ''x'']
   \<and> fingerprint_text [Some ''a|b'', Some ''c''] = fingerprint_text [Some ''a'', Some ''b|c'']
   \<and> fingerprint_text [Some ''a'', None] \<noteq> fingerprint_text [Some ''a'', Some []]"
  by code_simp

end
