(* ===== verification/MetadataSync.thy ===== *)
theory MetadataSync
  imports ApplyPlan FlowInputs "HOL-Library.Sublist"
begin

text \<open>
  The metadata transaction of a sync (\<open>packages/sync/src/runtime/orchestrator/metadata/metadata-sync.ts\<close>,
  \<open>metadata-scope.ts\<close>), the reads and writes of one table (\<open>apply.ts\<close>, \<open>archive.ts\<close>) and the transaction
  handle (\<open>runtime/warehouse-tx.ts\<close>). The databases answer every call, or fail; the answer may depend on how
  many calls came before, so that no assumption is made about what they do. Everything the program does is
  recorded in order: the calls with their success, the events and the progress reports. A computation takes
  the state and returns a failure or a value, and the state after it.
\<close>

section \<open>Plan and contract\<close>

record sync_contract =
  sc_definition_id :: string
  sc_root_table :: string
  sc_root_key_column :: string
  sc_tables :: "(string \<times> scd2_policy option) list"
  sc_execution_order :: "string list"
  sc_reverse_order :: "string list"
  sc_allowed_schemas :: "string list"
  sc_freeze_windows :: "string list"
  sc_steps :: "flow_step list"
  sc_catalog :: "flow_catalog option"

record sync_plan =
  pl_entity_type :: string
  pl_entity_id :: entity_id
  pl_source :: string
  pl_target :: string
  pl_created_at :: int
  pl_tables :: "sync_plan_table list"
  pl_totals :: "plan_totals option"
  pl_contract :: "sync_contract option"

definition table_result :: "sync_plan_table list \<Rightarrow> string \<Rightarrow> sync_plan_table option" where
  "table_result tabs name = find (\<lambda>t. table t = name) tabs"

definition has_upsert_work :: "sync_plan_table \<Rightarrow> bool" where
  "has_upsert_work t = (upsert_rows t \<noteq> [])"

definition changed_at :: "sync_plan_table list \<Rightarrow> string \<Rightarrow> bool" where
  "changed_at tabs name = (case table_result tabs name of None \<Rightarrow> False | Some t \<Rightarrow> table_has_movement t)"

text \<open>The tables of the order up to the last changed one.\<close>

definition constraint_relaxation_tables :: "string list \<Rightarrow> sync_plan_table list \<Rightarrow> string list" where
  "constraint_relaxation_tables order tabs =
     (case filter (\<lambda>i. changed_at tabs (order ! i)) [0..<length order] of
        [] \<Rightarrow> []
      | is \<Rightarrow> set_of_list (filter (\<lambda>n. table_result tabs n \<noteq> None) (take (last is + 1) order)))"

definition data_movement_tables :: "sync_plan_table list \<Rightarrow> string list" where
  "data_movement_tables tabs = set_of_list (map table (filter has_upsert_work tabs))"

section \<open>Calls, events and computations\<close>

datatype tx_call =
    BeginTx
  | CommitTx
  | RollbackTx
  | Relax string string
  | Restore string string
  | SourceRows string string
  | TargetColumns string
  | HasTriggers string
  | Upsert string string
  | DeleteRows string string

datatype table_op = UpsertOp | DeleteOp | RelaxOp | RestoreOp | CommitOp

datatype apply_cause = DatabaseError string | NoPrimaryKey string | MissingScd2Policy string | NoDataColumns string

record sync_failure =
  sf_step :: string
  sf_table :: "string option"
  sf_op :: "table_op option"
  sf_cause :: apply_cause

datatype tx_event =
    Called tx_call bool
  | TableStarted string table_op nat
  | TableProgress string int
  | TableUndone string int
  | TableDone string table_op int
  | StepFailed sync_failure
  | RolledBackNote
  | ArchiveProbe string bool bool
  | ArchiveSkipped string

record db_answer =
  an_rows :: "row list"
  an_affected :: "int list"

type_synonym tx_host = "nat \<Rightarrow> tx_call \<Rightarrow> string + db_answer"

record applied_totals =
  ap_insert :: int
  ap_update :: int
  ap_delete :: int

record tx_state =
  tx_events :: "tx_event list"
  tx_finished :: bool
  tx_applied :: applied_totals
  tx_pending :: "(string \<times> table_op \<times> int) list"

type_synonym 'a run = "tx_state \<Rightarrow> (apply_cause + 'a) \<times> tx_state"

definition done_with :: "'a \<Rightarrow> 'a run" where
  "done_with x s = (Inr x, s)"

definition stop_with :: "apply_cause \<Rightarrow> 'a run" where
  "stop_with e s = (Inl e, s)"

definition and_then :: "'a run \<Rightarrow> ('a \<Rightarrow> 'b run) \<Rightarrow> 'b run" where
  "and_then f g s = (case f s of (Inl e, s1) \<Rightarrow> (Inl e, s1) | (Inr x, s1) \<Rightarrow> g x s1)"

definition report :: "tx_event list \<Rightarrow> unit run" where
  "report es s = (Inr (), s\<lparr>tx_events := tx_events s @ es\<rparr>)"

definition modify :: "(tx_state \<Rightarrow> tx_state) \<Rightarrow> unit run" where
  "modify f s = (Inr (), f s)"

definition calls_made :: "tx_state \<Rightarrow> nat" where
  "calls_made s = length (filter (\<lambda>e. case e of Called c ok \<Rightarrow> True | _ \<Rightarrow> False) (tx_events s))"

definition ask :: "tx_host \<Rightarrow> tx_call \<Rightarrow> db_answer run" where
  "ask h c s = (case h (calls_made s) c of
       Inl e \<Rightarrow> (Inl (DatabaseError e), s\<lparr>tx_events := tx_events s @ [Called c False]\<rparr>)
     | Inr a \<Rightarrow> (Inr a, s\<lparr>tx_events := tx_events s @ [Called c True]\<rparr>))"

text \<open>\<open>try { \<dots> } catch { }\<close> that drops the error.\<close>

definition best_effort :: "'a run \<Rightarrow> unit run" where
  "best_effort f s = (Inr (), snd (f s))"

fun for_each :: "('a \<Rightarrow> unit run) \<Rightarrow> 'a list \<Rightarrow> unit run" where
  "for_each f [] = done_with ()"
| "for_each f (x # xs) = and_then (f x) (\<lambda>u. for_each f xs)"

section \<open>One table\<close>

definition fetch_batch :: nat where
  "fetch_batch = 200"

text \<open>The source rows of the changed keys, read in batches.\<close>

fun read_batches :: "tx_host \<Rightarrow> string \<Rightarrow> string list \<Rightarrow> row list \<Rightarrow> row list list \<Rightarrow> row list run" where
  "read_batches h tab pks acc [] = done_with acc"
| "read_batches h tab pks acc (b # bs) =
     and_then (ask h (SourceRows tab (build_batch_where b pks))) (\<lambda>a. read_batches h tab pks (acc @ an_rows a) bs)"

definition fetch_source_rows :: "tx_host \<Rightarrow> sync_plan_table \<Rightarrow> string list \<Rightarrow> row list run" where
  "fetch_source_rows h t pks = read_batches h (table t) pks [] (chunks fetch_batch (map cr_values (upsert_rows t)))"

definition truthy_flag :: "sql_value \<Rightarrow> bool" where
  "truthy_flag v = (v = SqlBool True \<or> v = SqlInt 1)"

definition target_column_of :: "row \<Rightarrow> target_column" where
  "target_column_of r = \<lparr>tc_name = js_string (column r ''name''),
     tc_identity = truthy_flag (column r ''is_identity''), tc_computed = truthy_flag (column r ''is_computed'')\<rparr>"

definition affected_rows :: "dialect_kind \<Rightarrow> int list \<Rightarrow> int" where
  "affected_rows d xs = (case d of Postgres \<Rightarrow> sum_list xs
     | Mssql \<Rightarrow> if 2 \<le> length xs then xs ! (length xs - 2) else 0)"

definition apply_inserts_updates ::
  "tx_host \<Rightarrow> dialect_kind \<Rightarrow> sync_contract \<Rightarrow> sync_plan_table list \<Rightarrow> string \<Rightarrow> string list \<Rightarrow> int run" where
  "apply_inserts_updates h d c tabs name pks = (case table_result tabs name of
       None \<Rightarrow> done_with 0
     | Some t \<Rightarrow>
         if pks = [] then stop_with (NoPrimaryKey name)
         else and_then (fetch_source_rows h t pks) (\<lambda>rows.
           if rows = [] then done_with 0
           else and_then (ask h (TargetColumns name)) (\<lambda>cols.
             case find (\<lambda>e. fst e = name) (sc_tables c) of
               Some (n, Some policy) \<Rightarrow>
                 (case plan_upsert name pks policy (map target_column_of (an_rows cols)) rows (cs_update (changes t) \<noteq> []) of
                    None \<Rightarrow> stop_with (NoDataColumns name)
                  | Some u \<Rightarrow> and_then (ask h (Upsert name (upsert_batch_sql d u)))
                      (\<lambda>a. done_with (affected_rows d (an_affected a))))
             | _ \<Rightarrow> stop_with (MissingScd2Policy name))))"

definition apply_deletes ::
  "tx_host \<Rightarrow> dialect_kind \<Rightarrow> sync_plan_table list \<Rightarrow> string \<Rightarrow> string list \<Rightarrow> int run" where
  "apply_deletes h d tabs name pks = (case table_result tabs name of
       None \<Rightarrow> done_with 0
     | Some t \<Rightarrow>
         if pks = [] then stop_with (NoPrimaryKey name)
         else if delete_rows t = [] then done_with 0
         else and_then (ask h (DeleteRows name (delete_batch_sql d name pks (map cr_values (delete_rows t)))))
           (\<lambda>a. done_with (affected_rows d (an_affected a))))"

definition maybe_archive :: "tx_host \<Rightarrow> sync_contract \<Rightarrow> (string, bool) jsmap \<Rightarrow> string \<Rightarrow> unit run" where
  "maybe_archive h c cache name s =
     (if name \<notin> fst ` set (sc_tables c) then (Inr (), s)
      else let (has, cached, s1) = (case js_get cache name of
             Some b \<Rightarrow> (b, True, s)
           | None \<Rightarrow> (case ask h (HasTriggers name) s of
                 (Inl e, s1) \<Rightarrow> (False, False, s1)
               | (Inr a, s1) \<Rightarrow> (case an_rows a of [] \<Rightarrow> False
                   | r # rs \<Rightarrow> (case column r ''cnt'' of SqlInt n \<Rightarrow> 0 < n | _ \<Rightarrow> False), False, s1)))
        in report (ArchiveProbe name has cached # (if has then [] else [ArchiveSkipped name])) s1)"

section \<open>The transaction\<close>

text \<open>\<open>fail\<close>: the error with its context, reported.\<close>

definition in_context :: "'a run \<Rightarrow> string option \<Rightarrow> table_op option \<Rightarrow> tx_state \<Rightarrow> (sync_failure + 'a) \<times> tx_state" where
  "in_context f tab operation s = (case f s of
       (Inr x, s1) \<Rightarrow> (Inr x, s1)
     | (Inl e, s1) \<Rightarrow>
         let failure = \<lparr>sf_step = ''metadataSync'', sf_table = tab, sf_op = operation, sf_cause = e\<rparr>
         in (Inl failure, snd (report [StepFailed failure] s1)))"

type_synonym 'a phase = "tx_state \<Rightarrow> (sync_failure + 'a) \<times> tx_state"

definition next_phase :: "'a phase \<Rightarrow> ('a \<Rightarrow> 'b phase) \<Rightarrow> 'b phase" where
  "next_phase f g s = (case f s of (Inl e, s1) \<Rightarrow> (Inl e, s1) | (Inr x, s1) \<Rightarrow> g x s1)"

fun each_phase :: "('a \<Rightarrow> unit phase) \<Rightarrow> 'a list \<Rightarrow> unit phase" where
  "each_phase f [] s = (Inr (), s)"
| "each_phase f (x # xs) s = (case f x s of (Inl e, s1) \<Rightarrow> (Inl e, s1) | (Inr u, s1) \<Rightarrow> each_phase f xs s1)"

text \<open>The handle commits or rolls back once: later calls do nothing, and a failed rollback is only logged.\<close>

definition commit_tx :: "tx_host \<Rightarrow> unit run" where
  "commit_tx h s = (if tx_finished s then (Inr (), s)
     else and_then (ask h CommitTx) (\<lambda>a. done_with ()) (s\<lparr>tx_finished := True\<rparr>))"

definition rollback_tx :: "tx_host \<Rightarrow> unit run" where
  "rollback_tx h s = (if tx_finished s then (Inr (), s)
     else best_effort (ask h RollbackTx) (s\<lparr>tx_finished := True\<rparr>))"

record metadata_input =
  mi_host :: tx_host
  mi_dialect :: dialect_kind
  mi_contract :: sync_contract
  mi_tables :: "sync_plan_table list"
  mi_pks :: "(string, string list) jsmap"
  mi_triggers :: "(string, bool) jsmap"

definition relax_constraints :: "metadata_input \<Rightarrow> bool" where
  "relax_constraints i = (mi_dialect i = Mssql)"

definition relaxed_in_order :: "metadata_input \<Rightarrow> string list" where
  "relaxed_in_order i =
     (if relax_constraints i
      then filter (\<lambda>t. t \<in> set (constraint_relaxation_tables (sc_execution_order (mi_contract i)) (mi_tables i)))
             (sc_execution_order (mi_contract i))
      else [])"

definition relax_one :: "metadata_input \<Rightarrow> string \<Rightarrow> unit phase" where
  "relax_one i t = in_context (and_then (ask (mi_host i) (Relax t (disable_constraints_sql (mi_dialect i) t))) (\<lambda>a. done_with ()))
     (Some t) (Some RelaxOp)"

definition restore_call :: "metadata_input \<Rightarrow> string \<Rightarrow> db_answer run" where
  "restore_call i t = ask (mi_host i) (Restore t (enable_constraints_sql (mi_dialect i) t))"

definition restore_one :: "metadata_input \<Rightarrow> string \<Rightarrow> unit phase" where
  "restore_one i t = in_context (and_then (restore_call i t) (\<lambda>a. done_with ())) (Some t) (Some RestoreOp)"

definition add_upserts :: "movement \<Rightarrow> applied_totals \<Rightarrow> applied_totals" where
  "add_upserts m acc = acc\<lparr>ap_insert := ap_insert acc + int (mv_insert m), ap_update := ap_update acc + int (mv_update m)\<rparr>"

definition upsert_table :: "metadata_input \<Rightarrow> string \<Rightarrow> unit phase" where
  "upsert_table i name s = (case table_result (mi_tables i) name of
       None \<Rightarrow> (Inr (), s)
     | Some t \<Rightarrow>
         if name \<notin> set (data_movement_tables (mi_tables i)) then (Inr (), s)
         else in_context
           (and_then (report [TableStarted name UpsertOp (length (upsert_rows t))]) (\<lambda>u.
            and_then (maybe_archive (mi_host i) (mi_contract i) (mi_triggers i) name) (\<lambda>u.
            and_then (apply_inserts_updates (mi_host i) (mi_dialect i) (mi_contract i) (mi_tables i) name
                        (js_get_or (mi_pks i) name [])) (\<lambda>n.
            and_then (modify (\<lambda>s. s\<lparr>tx_applied := add_upserts (movement_from_change_set (changes t)) (tx_applied s),
                        tx_pending := tx_pending s @ [(name, UpsertOp, n)]\<rparr>)) (\<lambda>u.
            report [TableProgress name n])))))
           (Some name) (Some UpsertOp) s)"

definition delete_table :: "metadata_input \<Rightarrow> string \<Rightarrow> unit phase" where
  "delete_table i name s = (case table_result (mi_tables i) name of
       None \<Rightarrow> (Inr (), s)
     | Some t \<Rightarrow>
         if delete_rows t = [] then (Inr (), s)
         else in_context
           (and_then (report [TableStarted name DeleteOp (length (delete_rows t))]) (\<lambda>u.
            and_then (apply_deletes (mi_host i) (mi_dialect i) (mi_tables i) name (js_get_or (mi_pks i) name [])) (\<lambda>n.
            and_then (modify (\<lambda>s. s\<lparr>tx_applied := (tx_applied s)\<lparr>ap_delete := ap_delete (tx_applied s) + n\<rparr>,
                        tx_pending := tx_pending s @ [(name, DeleteOp, n)]\<rparr>)) (\<lambda>u.
            report [TableProgress name n]))))
           (Some name) (Some DeleteOp) s)"

definition metadata_body :: "metadata_input \<Rightarrow> unit phase" where
  "metadata_body i =
     next_phase (each_phase (relax_one i) (relaxed_in_order i)) (\<lambda>u.
     next_phase (each_phase (upsert_table i) (sc_execution_order (mi_contract i))) (\<lambda>u.
     next_phase (each_phase (delete_table i) (sc_reverse_order (mi_contract i))) (\<lambda>u.
     next_phase (each_phase (restore_one i) (relaxed_in_order i)) (\<lambda>u.
     in_context (commit_tx (mi_host i)) None (Some CommitOp)))))"

definition metadata_undo :: "metadata_input \<Rightarrow> tx_state \<Rightarrow> tx_state" where
  "metadata_undo i s =
     (let s1 = foldl (\<lambda>s t. snd (best_effort (restore_call i t) s)) s (relaxed_in_order i);
          s2 = snd (rollback_tx (mi_host i) s1)
      in snd (report (RolledBackNote # map (\<lambda>(t, operation, n). TableUndone t n) (tx_pending s2)) s2))"

definition fresh_tx :: "tx_event list \<Rightarrow> tx_state" where
  "fresh_tx es = \<lparr>tx_events = es, tx_finished = False,
     tx_applied = \<lparr>ap_insert = 0, ap_update = 0, ap_delete = 0\<rparr>, tx_pending = []\<rparr>"

text \<open>\<open>runMetadataSync\<close>. A transaction that cannot begin is an error of its own; every later failure has been
  reported before the undo.\<close>

datatype metadata_failure = NotBegun apply_cause | Undone sync_failure

definition run_metadata_sync :: "metadata_input \<Rightarrow> tx_event list \<Rightarrow> (metadata_failure + applied_totals) \<times> tx_event list" where
  "run_metadata_sync i es = (case ask (mi_host i) BeginTx (fresh_tx es) of
       (Inl e, s) \<Rightarrow> (Inl (NotBegun e), tx_events s)
     | (Inr a, s) \<Rightarrow> (case metadata_body i s of
           (Inl e, s1) \<Rightarrow> (Inl (Undone e), tx_events (metadata_undo i s1))
         | (Inr u, s1) \<Rightarrow> (Inr (tx_applied s1),
             tx_events s1 @ map (\<lambda>(t, operation, n). TableDone t operation n) (tx_pending s1))))"

section \<open>What the databases keep\<close>

text \<open>The writes of a run of events: what was written before a commit that went through.\<close>

definition is_write :: "tx_event \<Rightarrow> bool" where
  "is_write e = (case e of Called (Upsert t q) ok \<Rightarrow> ok | Called (DeleteRows t q) ok \<Rightarrow> ok | _ \<Rightarrow> False)"

fun kept_writes :: "tx_event list \<Rightarrow> tx_event list \<Rightarrow> tx_event list" where
  "kept_writes held [] = []"
| "kept_writes held (e # es) =
     (if e = Called CommitTx True then held @ kept_writes [] es
      else if e = Called RollbackTx True \<or> e = Called BeginTx True then kept_writes [] es
      else if is_write e then kept_writes (held @ [e]) es else kept_writes held es)"

section \<open>What the phases append\<close>

definition appends :: "(tx_event list \<Rightarrow> 'r \<Rightarrow> bool) \<Rightarrow> (tx_state \<Rightarrow> 'r \<times> tx_state) \<Rightarrow> bool" where
  "appends P f = (\<forall>s. \<exists>evs. tx_events (snd (f s)) = tx_events s @ evs
     \<and> tx_finished (snd (f s)) = tx_finished s \<and> P evs (fst (f s)))"

text \<open>Events that are neither transaction control nor constraint switches.\<close>

definition plain_event :: "tx_event \<Rightarrow> bool" where
  "plain_event e = (case e of Called c ok \<Rightarrow> (case c of SourceRows t q \<Rightarrow> True | TargetColumns t \<Rightarrow> True
       | HasTriggers t \<Rightarrow> True | Upsert t q \<Rightarrow> True | DeleteRows t q \<Rightarrow> True | _ \<Rightarrow> False) | _ \<Rightarrow> True)"

definition write_of :: "tx_event \<Rightarrow> (table_op \<times> string) list" where
  "write_of e = (case e of Called c ok \<Rightarrow> (case c of
         Upsert t q \<Rightarrow> if ok then [(UpsertOp, t)] else []
       | DeleteRows t q \<Rightarrow> if ok then [(DeleteOp, t)] else []
       | _ \<Rightarrow> []) | _ \<Rightarrow> [])"

definition writes :: "tx_event list \<Rightarrow> (table_op \<times> string) list" where
  "writes es = concat (map write_of es)"

definition plain :: "tx_event list \<Rightarrow> bool" where
  "plain es = list_all plain_event es"

lemma writes_simps [simp]:
  "writes [] = []" "writes (e # es) = write_of e @ writes es" "writes (xs @ ys) = writes xs @ writes ys"
  by (simp_all add: writes_def)

lemma plain_simps [simp]: "plain []" "plain (e # es) = (plain_event e \<and> plain es)" "plain (xs @ ys) = (plain xs \<and> plain ys)"
  by (simp_all add: plain_def)

text \<open>The writes of a computation: none, or one of the given ones.\<close>

definition only_writes :: "(table_op \<times> string) list set \<Rightarrow> tx_event list \<Rightarrow> 'r \<Rightarrow> bool" where
  "only_writes W evs r = (plain evs \<and> writes evs \<in> W)"

lemma appendsI:
  "(\<And>s. \<exists>evs. tx_events (snd (f s)) = tx_events s @ evs \<and> tx_finished (snd (f s)) = tx_finished s \<and> P evs (fst (f s)))
    \<Longrightarrow> appends P f"
  by (simp add: appends_def)

lemma appends_weaken: "appends P f \<Longrightarrow> (\<And>evs r. P evs r \<Longrightarrow> Q evs r) \<Longrightarrow> appends Q f"
  unfolding appends_def by blast

lemma appends_and_then:
  assumes f: "appends P f" and g: "\<And>x. appends (Q x) (g x)"
    and stop: "\<And>evs e. P evs (Inl e) \<Longrightarrow> R evs (Inl e)"
    and go: "\<And>evs x evs' r. P evs (Inr x) \<Longrightarrow> Q x evs' r \<Longrightarrow> R (evs @ evs') r"
  shows "appends R (and_then f g)"
proof (rule appendsI)
  fix s
  obtain evs where e: "tx_events (snd (f s)) = tx_events s @ evs" "tx_finished (snd (f s)) = tx_finished s" "P evs (fst (f s))"
    using f unfolding appends_def by blast
  show "\<exists>evs. tx_events (snd (and_then f g s)) = tx_events s @ evs
    \<and> tx_finished (snd (and_then f g s)) = tx_finished s \<and> R evs (fst (and_then f g s))"
  proof (cases "f s")
    case (Pair r s1)
    show ?thesis
    proof (cases r)
      case (Inl err)
      then show ?thesis using e stop Pair by (auto simp: and_then_def)
    next
      case (Inr x)
      obtain evs' where e': "tx_events (snd (g x s1)) = tx_events s1 @ evs'" "tx_finished (snd (g x s1)) = tx_finished s1"
        "Q x evs' (fst (g x s1))"
        using g [of x] unfolding appends_def by blast
      then show ?thesis using e go Pair Inr by (intro exI [of _ "evs @ evs'"]) (auto simp: and_then_def)
    qed
  qed
qed

lemma only_and_then:
  assumes "appends (only_writes {[]}) f" "\<And>x. appends (only_writes W) (g x)" "[] \<in> W"
  shows "appends (only_writes W) (and_then f g)"
  by (rule appends_and_then [OF assms(1,2)]) (use assms(3) in \<open>auto simp: only_writes_def\<close>)

lemma only_then_and:
  assumes "appends (only_writes W) f" "\<And>x. appends (only_writes {[]}) (g x)"
  shows "appends (only_writes W) (and_then f g)"
  by (rule appends_and_then [OF assms]) (auto simp: only_writes_def)

lemma only_done [intro]: "[] \<in> W \<Longrightarrow> appends (only_writes W) (done_with x)"
  by (auto simp: appends_def done_with_def only_writes_def)

lemma only_stop [intro]: "[] \<in> W \<Longrightarrow> appends (only_writes W) (stop_with e)"
  by (auto simp: appends_def stop_with_def only_writes_def)

lemma only_modify [intro]:
  "(\<And>s. tx_events (f s) = tx_events s \<and> tx_finished (f s) = tx_finished s) \<Longrightarrow> appends (only_writes {[]}) (modify f)"
  by (auto simp: appends_def modify_def only_writes_def)

lemma only_report [intro]: "plain es \<Longrightarrow> writes es = [] \<Longrightarrow> appends (only_writes {[]}) (report es)"
  by (auto simp: appends_def report_def only_writes_def)

lemma only_ask [intro]:
  "plain_event (Called c True) \<Longrightarrow> plain_event (Called c False) \<Longrightarrow> write_of (Called c True) \<in> W \<Longrightarrow> [] \<in> W \<Longrightarrow>
    appends (only_writes W) (ask h c)"
  by (auto simp: appends_def ask_def only_writes_def write_of_def split: sum.split tx_call.splits)

lemma only_read_batches: "appends (only_writes {[]}) (read_batches h tab pks acc bs)"
proof (induction bs arbitrary: acc)
  case (Cons b bs)
  show ?case
    unfolding read_batches.simps
    by (rule only_and_then [OF _ Cons]) (auto intro!: only_ask simp: plain_event_def write_of_def)
qed (auto intro!: only_done)

lemma only_apply_inserts_updates:
  "appends (only_writes {[], [(UpsertOp, name)]}) (apply_inserts_updates h d c tabs name pks)"
proof (cases "table_result tabs name")
  case None
  then show ?thesis by (simp add: apply_inserts_updates_def only_done)
next
  case (Some t)
  have up: "appends (only_writes {[], [(UpsertOp, name)]})
      (and_then (ask h (Upsert name q)) (\<lambda>a. done_with (affected_rows d (an_affected a))))" for q
    by (rule only_then_and) (auto intro!: only_ask only_done simp: plain_event_def write_of_def)
  have "appends (only_writes {[], [(UpsertOp, name)]})
      (case find (\<lambda>e. fst e = name) (sc_tables c) of
               Some (n, Some policy) \<Rightarrow>
                 (case plan_upsert name pks policy (map target_column_of (an_rows cols)) rows (cs_update (changes t) \<noteq> []) of
                    None \<Rightarrow> stop_with (NoDataColumns name)
                  | Some u \<Rightarrow> and_then (ask h (Upsert name (upsert_batch_sql d u)))
                      (\<lambda>a. done_with (affected_rows d (an_affected a))))
             | _ \<Rightarrow> stop_with (MissingScd2Policy name))" for cols rows
    by (auto intro!: only_stop up split: option.split)
  then show ?thesis
    unfolding apply_inserts_updates_def Some fetch_source_rows_def
    by (auto intro!: only_and_then only_read_batches only_done only_stop only_ask simp: plain_event_def write_of_def)
qed

lemma only_apply_deletes:
  "table_result tabs name = Some t \<Longrightarrow> delete_rows t \<noteq> [] \<Longrightarrow>
    appends (\<lambda>evs r. plain evs \<and> (if isl r then writes evs = [] else writes evs = [(DeleteOp, name)]))
      (apply_deletes h d tabs name pks)"
  by (auto simp: appends_def apply_deletes_def and_then_def done_with_def stop_with_def ask_def plain_event_def
      write_of_def split: sum.split)

lemma only_maybe_archive: "appends (only_writes {[]}) (maybe_archive h c cache name)"
  by (auto simp: appends_def maybe_archive_def report_def ask_def only_writes_def plain_event_def write_of_def Let_def
      split: option.split sum.split list.split sql_value.split)

section \<open>The phases\<close>

text \<open>Switching the constraints of a table off (\<open>True\<close>) or on, and whether it worked.\<close>

definition switch_of :: "tx_event \<Rightarrow> (bool \<times> string \<times> bool) list" where
  "switch_of e = (case e of Called c ok \<Rightarrow> (case c of Relax t q \<Rightarrow> [(True, t, ok)] | Restore t q \<Rightarrow> [(False, t, ok)] | _ \<Rightarrow> [])
     | _ \<Rightarrow> [])"

definition switches :: "tx_event list \<Rightarrow> (bool \<times> string \<times> bool) list" where
  "switches es = concat (map switch_of es)"

definition control_event :: "tx_event \<Rightarrow> bool" where
  "control_event e = (case e of Called c ok \<Rightarrow> c = BeginTx \<or> c = CommitTx \<or> c = RollbackTx | _ \<Rightarrow> False)"

definition quiet :: "tx_event list \<Rightarrow> bool" where
  "quiet es = list_all (\<lambda>e. \<not> control_event e) es"

lemma switches_simps [simp]:
  "switches [] = []" "switches (e # es) = switch_of e @ switches es" "switches (xs @ ys) = switches xs @ switches ys"
  by (simp_all add: switches_def)

lemma quiet_simps [simp]: "quiet []" "quiet (e # es) = (\<not> control_event e \<and> quiet es)" "quiet (xs @ ys) = (quiet xs \<and> quiet ys)"
  by (simp_all add: quiet_def)

lemma plain_event_quiet: "plain_event e \<Longrightarrow> \<not> control_event e \<and> switch_of e = []"
  by (auto simp: plain_event_def control_event_def switch_of_def split: tx_event.splits tx_call.splits)

lemma plain_quiet: "plain es \<Longrightarrow> quiet es \<and> switches es = []"
  by (induction es) (auto simp: plain_event_quiet)

lemma step_failed_event [simp]:
  "plain_event (StepFailed f)" "write_of (StepFailed f) = []" "switch_of (StepFailed f) = []" "\<not> control_event (StepFailed f)"
  by (simp_all add: plain_event_def write_of_def switch_of_def control_event_def)

lemma in_context_appends:
  assumes "appends P f"
    and "\<And>evs e fl. P evs (Inl e) \<Longrightarrow> R (evs @ [StepFailed fl]) (Inl fl)" "\<And>evs x. P evs (Inr x) \<Longrightarrow> R evs (Inr x)"
  shows "appends R (in_context f t p)"
proof (rule appendsI)
  fix s
  obtain evs where e: "tx_events (snd (f s)) = tx_events s @ evs" "tx_finished (snd (f s)) = tx_finished s" "P evs (fst (f s))"
    using assms(1) unfolding appends_def by blast
  obtain r s1 where fs: "f s = (r, s1)" by fastforce
  show "\<exists>evs. tx_events (snd (in_context f t p s)) = tx_events s @ evs
    \<and> tx_finished (snd (in_context f t p s)) = tx_finished s \<and> R evs (fst (in_context f t p s))"
    using e fs assms(2,3) by (cases r) (auto simp: in_context_def report_def Let_def)
qed

lemma each_phase_appends:
  assumes "\<And>x. x \<in> set xs \<Longrightarrow> appends (P x) (f x)"
    and "R [] [] (Inr ())"
    and "\<And>x xs evs e. P x evs (Inl e) \<Longrightarrow> R (x # xs) evs (Inl e)"
    and "\<And>x xs evs evs' r. P x evs (Inr ()) \<Longrightarrow> R xs evs' r \<Longrightarrow> R (x # xs) (evs @ evs') r"
  shows "appends (R xs) (each_phase f xs)"
  using assms(1)
proof (induction xs)
  case Nil
  then show ?case using assms(2) by (simp add: appends_def)
next
  case (Cons x xs)
  have IH: "appends (R xs) (each_phase f xs)" using Cons by simp
  show ?case
  proof (rule appendsI)
    fix s
    obtain evs where e: "tx_events (snd (f x s)) = tx_events s @ evs" "tx_finished (snd (f x s)) = tx_finished s" "P x evs (fst (f x s))"
      using Cons.prems [of x] unfolding appends_def by auto
    obtain r s1 where fs: "f x s = (r, s1)" by fastforce
    obtain evs' where e': "tx_events (snd (each_phase f xs s1)) = tx_events s1 @ evs'"
      "tx_finished (snd (each_phase f xs s1)) = tx_finished s1" "R xs evs' (fst (each_phase f xs s1))"
      using IH unfolding appends_def by blast
    show "\<exists>evs. tx_events (snd (each_phase f (x # xs) s)) = tx_events s @ evs
      \<and> tx_finished (snd (each_phase f (x # xs) s)) = tx_finished s \<and> R (x # xs) evs (fst (each_phase f (x # xs) s))"
    proof (cases r)
      case (Inl er)
      then show ?thesis using e fs assms(3) by (intro exI [of _ evs]) auto
    next
      case (Inr u)
      then show ?thesis using e e' fs assms(4) by (intro exI [of _ "evs @ evs'"]) auto
    qed
  qed
qed

definition moves :: "metadata_input \<Rightarrow> string \<Rightarrow> bool" where
  "moves i t = (table_result (mi_tables i) t \<noteq> None \<and> t \<in> set (data_movement_tables (mi_tables i)))"

definition deletes :: "metadata_input \<Rightarrow> string \<Rightarrow> bool" where
  "deletes i t = (case table_result (mi_tables i) t of None \<Rightarrow> False | Some r \<Rightarrow> delete_rows r \<noteq> [])"

lemma plain_reports [simp]:
  "plain_event (TableStarted t p n)" "plain_event (TableProgress t k)" "plain_event (TableUndone t k)" "plain_event (TableDone t p k)"
  "plain_event RolledBackNote"
  "write_of (TableStarted t p n) = []" "write_of (TableProgress t k) = []" "write_of (TableUndone t k) = []"
  "write_of (TableDone t p k) = []" "write_of RolledBackNote = []"
  by (simp_all add: plain_event_def write_of_def)

lemma upsert_table_appends:
  "appends (only_writes (if moves i name then {[], [(UpsertOp, name)]} else {[]})) (upsert_table i name)"
proof (cases "table_result (mi_tables i) name")
  case None
  then show ?thesis by (simp add: upsert_table_def moves_def appends_def only_writes_def)
next
  case (Some t)
  show ?thesis
  proof (cases "name \<in> set (data_movement_tables (mi_tables i))")
    case False
    then show ?thesis using Some by (simp add: upsert_table_def moves_def appends_def only_writes_def)
  next
    case True
    have "appends (only_writes {[], [(UpsertOp, name)]})
      (and_then (report [TableStarted name UpsertOp (length (upsert_rows t))]) (\<lambda>u.
            and_then (maybe_archive (mi_host i) (mi_contract i) (mi_triggers i) name) (\<lambda>u.
            and_then (apply_inserts_updates (mi_host i) (mi_dialect i) (mi_contract i) (mi_tables i) name
                        (js_get_or (mi_pks i) name [])) (\<lambda>n.
            and_then (modify (\<lambda>s. s\<lparr>tx_applied := add_upserts (movement_from_change_set (changes t)) (tx_applied s),
                        tx_pending := tx_pending s @ [(name, UpsertOp, n)]\<rparr>)) (\<lambda>u.
            report [TableProgress name n])))))"
      by (intro only_and_then only_then_and only_maybe_archive only_apply_inserts_updates only_report only_modify) simp_all
    then have "appends (only_writes {[], [(UpsertOp, name)]}) (upsert_table i name)"
      unfolding upsert_table_def using Some True
      by (simp, intro in_context_appends [where P = "only_writes {[], [(UpsertOp, name)]}"]) (auto simp: only_writes_def)
    then show ?thesis using Some True by (simp add: moves_def)
  qed
qed

lemma delete_table_appends:
  "appends (\<lambda>evs r. plain evs \<and> (if isl r then writes evs = [] else writes evs = (if deletes i name then [(DeleteOp, name)] else [])))
     (delete_table i name)"
proof (cases "deletes i name")
  case False
  then show ?thesis by (auto simp: delete_table_def deletes_def appends_def split: option.splits)
next
  case True
  then obtain t where t: "table_result (mi_tables i) name = Some t" "delete_rows t \<noteq> []"
    by (auto simp: deletes_def split: option.splits)
  let ?P = "\<lambda>evs r. plain evs \<and> (if isl r then writes evs = [] else writes evs = [(DeleteOp, name)])"
  have tail: "appends (only_writes {[]})
      (and_then (modify (\<lambda>s. s\<lparr>tx_applied := (tx_applied s)\<lparr>ap_delete := ap_delete (tx_applied s) + n\<rparr>,
                        tx_pending := tx_pending s @ [(name, DeleteOp, n)]\<rparr>)) (\<lambda>u. report [TableProgress name n]))" for n
    by (intro only_and_then only_report only_modify) simp_all
  have succeeds: "\<not> isl (fst (and_then (modify f) (\<lambda>u. report es) s))" for f es s
    by (simp add: and_then_def modify_def report_def)
  have tail': "appends (\<lambda>evs r. plain evs \<and> writes evs = [] \<and> \<not> isl r)
      (and_then (modify (\<lambda>s. s\<lparr>tx_applied := (tx_applied s)\<lparr>ap_delete := ap_delete (tx_applied s) + n\<rparr>,
                        tx_pending := tx_pending s @ [(name, DeleteOp, n)]\<rparr>)) (\<lambda>u. report [TableProgress name n]))" for n
    using tail [of n] succeeds unfolding appends_def only_writes_def by fastforce
  have "appends ?P (and_then (report [TableStarted name DeleteOp (length (delete_rows t))]) (\<lambda>u.
            and_then (apply_deletes (mi_host i) (mi_dialect i) (mi_tables i) name (js_get_or (mi_pks i) name [])) (\<lambda>n.
            and_then (modify (\<lambda>s. s\<lparr>tx_applied := (tx_applied s)\<lparr>ap_delete := ap_delete (tx_applied s) + n\<rparr>,
                        tx_pending := tx_pending s @ [(name, DeleteOp, n)]\<rparr>)) (\<lambda>u.
            report [TableProgress name n]))))"
    apply (rule appends_and_then [where P = "only_writes {[]}" and Q = "\<lambda>u. ?P"])
       apply (rule only_report; simp)
      apply (rule appends_and_then [OF only_apply_deletes [OF t] tail'])
       apply auto [2]
     apply (auto simp: only_writes_def)
    done
  then have "appends ?P (delete_table i name)"
    unfolding delete_table_def t(1) using t(2)
    by (simp, intro in_context_appends [where P = ?P]) auto
  then show ?thesis using True by simp
qed

lemma upserts_append:
  "appends (\<lambda>evs r. plain evs \<and> (\<exists>ns. subseq ns (filter (moves i) xs) \<and> writes evs = map (Pair UpsertOp) ns))
     (each_phase (upsert_table i) xs)"
proof (rule each_phase_appends [where P = "\<lambda>name. only_writes (if moves i name then {[], [(UpsertOp, name)]} else {[]})"
      and R = "\<lambda>xs evs r. plain evs \<and> (\<exists>ns. subseq ns (filter (moves i) xs) \<and> writes evs = map (Pair UpsertOp) ns)"],
    goal_cases)
  case (3 x xs evs e)
  then show ?case
    by (auto simp: only_writes_def split: if_splits intro: exI [of _ "[]"] exI [of _ "[x]"])
next
  case (4 x xs evs evs' r)
  then obtain ns where ns: "subseq ns (filter (moves i) xs)" "writes evs' = map (Pair UpsertOp) ns" by blast
  then have "subseq (x # ns) (x # filter (moves i) xs)" "subseq ns (x # filter (moves i) xs)" by auto
  then show ?case using 4 ns
    by (auto simp: only_writes_def split: if_splits intro: exI [of _ ns] exI [of _ "x # ns"])
next
  case (1 x)
  show ?case by (rule upsert_table_appends)
qed simp

lemma deletes_append:
  "appends (\<lambda>evs r. plain evs \<and> (\<not> isl r \<longrightarrow> writes evs = map (Pair DeleteOp) (filter (deletes i) xs)))
     (each_phase (delete_table i) xs)"
proof (rule each_phase_appends [where P = "\<lambda>name evs r. plain evs \<and> (if isl r then writes evs = []
        else writes evs = (if deletes i name then [(DeleteOp, name)] else []))"
      and R = "\<lambda>xs evs r. plain evs \<and> (\<not> isl r \<longrightarrow> writes evs = map (Pair DeleteOp) (filter (deletes i) xs))"], goal_cases)
  case (1 x)
  show ?case by (rule delete_table_appends)
qed (auto split: if_splits)

section \<open>The whole transaction\<close>

lemma ask_plain:
  "fst (ask h c s) = Inl e \<Longrightarrow> tx_events (snd (ask h c s)) = tx_events s @ [Called c False]"
  "fst (ask h c s) = Inr a \<Longrightarrow> tx_events (snd (ask h c s)) = tx_events s @ [Called c True]"
  by (auto simp: ask_def split: sum.splits)

definition switch_phase :: "bool \<Rightarrow> string list \<Rightarrow> tx_event list \<Rightarrow> sync_failure + unit \<Rightarrow> bool" where
  "switch_phase off ts evs r = (quiet evs \<and> writes evs = []
     \<and> (\<not> isl r \<longrightarrow> switches evs = map (\<lambda>t. (off, t, True)) ts)
     \<and> set (map (fst \<circ> snd) (switches evs)) \<subseteq> set ts)"

lemma relax_appends: "appends (switch_phase True ts) (each_phase (relax_one i) ts)"
proof (rule each_phase_appends [where P = "\<lambda>t. switch_phase True [t]" and R = "switch_phase True"], goal_cases)
  case (1 t)
  show ?case
    by (auto simp: appends_def relax_one_def in_context_def and_then_def ask_def report_def done_with_def Let_def
        switch_phase_def control_event_def write_of_def switch_of_def split: sum.split)
qed (auto simp: switch_phase_def)

lemma restore_appends: "appends (switch_phase False ts) (each_phase (restore_one i) ts)"
proof (rule each_phase_appends [where P = "\<lambda>t. switch_phase False [t]" and R = "switch_phase False"], goal_cases)
  case (1 t)
  show ?case
    by (auto simp: appends_def restore_one_def restore_call_def in_context_def and_then_def ask_def report_def done_with_def
        Let_def switch_phase_def control_event_def write_of_def switch_of_def split: sum.split)
qed (auto simp: switch_phase_def)

lemma next_phase_appends:
  assumes f: "appends P f" and g: "\<And>x. appends (Q x) (g x)"
    and stop: "\<And>evs e. P evs (Inl e) \<Longrightarrow> R evs (Inl e)"
    and go: "\<And>evs x evs' r. P evs (Inr x) \<Longrightarrow> Q x evs' r \<Longrightarrow> R (evs @ evs') r"
  shows "appends R (next_phase f g)"
proof (rule appendsI)
  fix s
  obtain evs where e: "tx_events (snd (f s)) = tx_events s @ evs" "tx_finished (snd (f s)) = tx_finished s" "P evs (fst (f s))"
    using f unfolding appends_def by blast
  obtain r s1 where fs: "f s = (r, s1)" by fastforce
  show "\<exists>evs. tx_events (snd (next_phase f g s)) = tx_events s @ evs
    \<and> tx_finished (snd (next_phase f g s)) = tx_finished s \<and> R evs (fst (next_phase f g s))"
  proof (cases r)
    case (Inl err)
    then show ?thesis using e stop fs by (intro exI [of _ evs]) (auto simp: next_phase_def)
  next
    case (Inr x)
    obtain evs' where e': "tx_events (snd (g x s1)) = tx_events s1 @ evs'" "tx_finished (snd (g x s1)) = tx_finished s1"
      "Q x evs' (fst (g x s1))"
      using g [of x] unfolding appends_def by blast
    then show ?thesis using e go fs Inr by (intro exI [of _ "evs @ evs'"]) (auto simp: next_phase_def)
  qed
qed

text \<open>Everything before the commit: relax, upserts in the order of the plan, deletes in the reverse order,
  restore.\<close>

definition before_commit :: "metadata_input \<Rightarrow> unit phase" where
  "before_commit i =
     next_phase (each_phase (relax_one i) (relaxed_in_order i)) (\<lambda>u.
     next_phase (each_phase (upsert_table i) (sc_execution_order (mi_contract i))) (\<lambda>u.
     next_phase (each_phase (delete_table i) (sc_reverse_order (mi_contract i))) (\<lambda>u.
     each_phase (restore_one i) (relaxed_in_order i))))"

lemma metadata_body_split:
  "metadata_body i = next_phase (before_commit i) (\<lambda>u. in_context (commit_tx (mi_host i)) None (Some CommitOp))"
  by (auto simp: metadata_body_def before_commit_def next_phase_def fun_eq_iff split: prod.split sum.split)

definition written_in_order :: "metadata_input \<Rightarrow> tx_event list \<Rightarrow> bool" where
  "written_in_order i evs = (plain evs \<and> (\<exists>ups. subseq ups (filter (moves i) (sc_execution_order (mi_contract i)))
     \<and> writes evs = map (Pair UpsertOp) ups @ map (Pair DeleteOp) (filter (deletes i) (sc_reverse_order (mi_contract i)))))"

definition committed_shape :: "metadata_input \<Rightarrow> tx_event list \<Rightarrow> bool" where
  "committed_shape i evs = (\<exists>a b c. evs = a @ b @ c
     \<and> quiet a \<and> writes a = [] \<and> switches a = map (\<lambda>t. (True, t, True)) (relaxed_in_order i)
     \<and> written_in_order i b
     \<and> quiet c \<and> writes c = [] \<and> switches c = map (\<lambda>t. (False, t, True)) (relaxed_in_order i))"

lemma before_commit_appends:
  "appends (\<lambda>evs r. quiet evs \<and> (\<not> isl r \<longrightarrow> committed_shape i evs)
      \<and> set (map (fst \<circ> snd) (switches evs)) \<subseteq> set (relaxed_in_order i)) (before_commit i)"
proof -
  let ?ro = "relaxed_in_order i"
  let ?eo = "sc_execution_order (mi_contract i)" and ?do = "sc_reverse_order (mi_contract i)"
  define tail1 where "tail1 = next_phase (each_phase (delete_table i) ?do) (\<lambda>u. each_phase (restore_one i) ?ro)"
  define R1 where "R1 = (\<lambda>evs (r :: sync_failure + unit). quiet evs \<and> set (map (fst \<circ> snd) (switches evs)) \<subseteq> set ?ro
    \<and> (\<not> isl r \<longrightarrow> (\<exists>b c. evs = b @ c \<and> plain b \<and> writes b = map (Pair DeleteOp) (filter (deletes i) ?do)
        \<and> quiet c \<and> writes c = [] \<and> switches c = map (\<lambda>t. (False, t, True)) ?ro)))"
  have 1: "appends R1 tail1"
    unfolding tail1_def
    by (rule next_phase_appends [OF deletes_append restore_appends])
      (auto simp: R1_def switch_phase_def dest: plain_quiet)
  define R2 where "R2 = (\<lambda>evs (r :: sync_failure + unit). quiet evs \<and> set (map (fst \<circ> snd) (switches evs)) \<subseteq> set ?ro
    \<and> (\<not> isl r \<longrightarrow> (\<exists>b c. evs = b @ c \<and> written_in_order i b
        \<and> quiet c \<and> writes c = [] \<and> switches c = map (\<lambda>t. (False, t, True)) ?ro)))"
  have 2: "appends R2 (next_phase (each_phase (upsert_table i) ?eo) (\<lambda>u. tail1))"
  proof (rule next_phase_appends [OF upserts_append 1], goal_cases)
    case (1 evs e)
    then show ?case by (auto simp: R2_def dest: plain_quiet)
  next
    case (2 evs u evs' r)
    then obtain ns where ns: "plain evs" "subseq ns (filter (moves i) ?eo)" "writes evs = map (Pair UpsertOp) ns" by blast
    show ?case
    proof (cases "isl r")
      case True
      then show ?thesis using 2 ns by (auto simp: R1_def R2_def dest: plain_quiet)
    next
      case False
      then obtain b c where bc: "evs' = b @ c" "plain b" "writes b = map (Pair DeleteOp) (filter (deletes i) ?do)"
        "quiet c" "writes c = []" "switches c = map (\<lambda>t. (False, t, True)) ?ro"
        using 2 by (auto simp: R1_def)
      have "written_in_order i (evs @ b)" using ns bc by (auto simp: written_in_order_def)
      then have "\<exists>b' c. evs @ evs' = b' @ c \<and> written_in_order i b'
        \<and> quiet c \<and> writes c = [] \<and> switches c = map (\<lambda>t. (False, t, True)) ?ro"
        using bc by (intro exI [of _ "evs @ b"] exI [of _ c]) simp
      moreover have "quiet (evs @ evs')" "set (map (fst \<circ> snd) (switches (evs @ evs'))) \<subseteq> set ?ro"
        using 2(2) plain_quiet [OF ns(1)] by (simp_all add: R1_def)
      ultimately show ?thesis unfolding R2_def by blast
    qed
  qed
  have split: "before_commit i = next_phase (each_phase (relax_one i) ?ro)
      (\<lambda>u. next_phase (each_phase (upsert_table i) ?eo) (\<lambda>u. tail1))"
    by (simp add: before_commit_def tail1_def)
  show ?thesis
    unfolding split
  proof (rule next_phase_appends [OF relax_appends 2], goal_cases)
    case (1 evs e)
    then show ?case by (auto simp: switch_phase_def)
  next
    case (2 evs u evs' r)
    then show ?case by (auto simp: switch_phase_def R2_def committed_shape_def)
  qed
qed

section \<open>All or nothing\<close>

lemma is_write_simps [simp]:
  "is_write (Called c ok) = (case c of Upsert t q \<Rightarrow> ok | DeleteRows t q \<Rightarrow> ok | _ \<Rightarrow> False)"
  "\<not> is_write (StepFailed e)" "\<not> is_write RolledBackNote" "\<not> is_write (TableUndone t n)" "\<not> is_write (TableDone t p n)"
  by (simp_all add: is_write_def)

lemma kept_writes_quiet: "quiet evs \<Longrightarrow> kept_writes held (evs @ rest) = kept_writes (held @ filter is_write evs) rest"
  by (induction evs arbitrary: held) (auto simp: control_event_def)

lemma kept_writes_quiet_only: "quiet evs \<Longrightarrow> kept_writes held evs = []"
  using kept_writes_quiet [of evs held "[]"] by simp

definition restores_all :: "metadata_input \<Rightarrow> tx_event list \<Rightarrow> bool" where
  "restores_all i evs = (quiet evs \<and> writes evs = [] \<and> filter is_write evs = []
     \<and> map (\<lambda>(off, t, ok). (off, t)) (switches evs) = map (Pair False) (relaxed_in_order i))"

lemma undo_restores:
  "\<exists>evs. tx_events (foldl (\<lambda>s t. snd (best_effort (restore_call i t) s)) s ts) = tx_events s @ evs
     \<and> tx_finished (foldl (\<lambda>s t. snd (best_effort (restore_call i t) s)) s ts) = tx_finished s
     \<and> quiet evs \<and> writes evs = [] \<and> filter is_write evs = []
     \<and> map (\<lambda>(off, t, ok). (off, t)) (switches evs) = map (Pair False) ts"
proof (induction ts arbitrary: s)
  case Nil
  then show ?case by (intro exI [of _ "[]"]) simp
next
  case (Cons t ts)
  let ?s = "snd (best_effort (restore_call i t) s)"
  let ?q = "enable_constraints_sql (mi_dialect i) t"
  have "\<exists>ok. tx_events ?s = tx_events s @ [Called (Restore t ?q) ok] \<and> tx_finished ?s = tx_finished s"
    by (cases "mi_host i (calls_made s) (Restore t ?q)") (auto simp: best_effort_def restore_call_def ask_def)
  then obtain ok where ok: "tx_events ?s = tx_events s @ [Called (Restore t ?q) ok]" "tx_finished ?s = tx_finished s"
    by blast
  obtain evs where evs: "tx_events (foldl (\<lambda>s t. snd (best_effort (restore_call i t) s)) ?s ts) = tx_events ?s @ evs"
    "tx_finished (foldl (\<lambda>s t. snd (best_effort (restore_call i t) s)) ?s ts) = tx_finished ?s"
    "quiet evs" "writes evs = []" "filter is_write evs = []"
    "map (\<lambda>(off, t, ok). (off, t)) (switches evs) = map (Pair False) ts"
    using Cons.IH [of ?s] by blast
  show ?case
    by (intro exI [of _ "Called (Restore t ?q) ok # evs"])
      (use ok evs in \<open>simp add: control_event_def write_of_def switch_of_def\<close>)
qed

definition undo_shape :: "metadata_input \<Rightarrow> bool \<Rightarrow> tx_event list \<Rightarrow> bool" where
  "undo_shape i finished evs = (\<exists>u reports. restores_all i u \<and> quiet reports \<and> filter is_write reports = []
     \<and> (if finished then evs = u @ reports else \<exists>ok. evs = u @ Called RollbackTx ok # reports))"

lemma quiet_undone: "quiet (map (\<lambda>(t, p, n). TableUndone t n) xs)" "filter is_write (map (\<lambda>(t, p, n). TableUndone t n) xs) = []"
  by (induction xs) (auto simp: control_event_def)

lemma quiet_done: "quiet (map (\<lambda>(t, p, n). TableDone t p n) xs)" "filter is_write (map (\<lambda>(t, p, n). TableDone t p n) xs) = []"
  by (induction xs) (auto simp: control_event_def)

lemma metadata_undo_appends:
  "\<exists>evs. tx_events (metadata_undo i s) = tx_events s @ evs \<and> undo_shape i (tx_finished s) evs"
proof -
  let ?s1 = "foldl (\<lambda>s t. snd (best_effort (restore_call i t) s)) s (relaxed_in_order i)"
  obtain u where u: "tx_events ?s1 = tx_events s @ u" "tx_finished ?s1 = tx_finished s" "restores_all i u"
    using undo_restores [of i s "relaxed_in_order i"] unfolding restores_all_def by blast
  let ?s2 = "snd (rollback_tx (mi_host i) ?s1)"
  let ?rep = "RolledBackNote # map (\<lambda>(t, p, n). TableUndone t n) (tx_pending ?s2)"
  have rep: "quiet ?rep" "filter is_write ?rep = []"
    using quiet_undone [of "tx_pending ?s2"] by (simp_all add: control_event_def)
  have all: "tx_events (metadata_undo i s) = tx_events ?s2 @ ?rep"
    by (simp add: metadata_undo_def report_def Let_def)
  show ?thesis
  proof (cases "tx_finished s")
    case True
    then have "tx_events ?s2 = tx_events s @ u" using u by (simp add: rollback_tx_def)
    then show ?thesis using all rep u True unfolding undo_shape_def
      by (intro exI [of _ "u @ ?rep"]) auto
  next
    case False
    then have "\<exists>ok. tx_events ?s2 = tx_events s @ u @ [Called RollbackTx ok]"
      using u by (auto simp: rollback_tx_def best_effort_def ask_def split: sum.split)
    then obtain ok where "tx_events ?s2 = tx_events s @ u @ [Called RollbackTx ok]" by blast
    then show ?thesis using all rep u False unfolding undo_shape_def
      by (intro exI [of _ "u @ Called RollbackTx ok # ?rep"]) auto
  qed
qed

text \<open>How the events of one transaction look, for each of its outcomes.\<close>

definition transaction_shape :: "metadata_input \<Rightarrow> metadata_failure + applied_totals \<Rightarrow> tx_event list \<Rightarrow> bool" where
  "transaction_shape i r evs = (case r of
       Inr totals \<Rightarrow> \<exists>body reports. evs = Called BeginTx True # body @ Called CommitTx True # reports
         \<and> committed_shape i body \<and> quiet reports \<and> filter is_write reports = []
     | Inl (NotBegun e) \<Rightarrow> evs = [Called BeginTx False]
     | Inl (Undone e) \<Rightarrow> \<exists>body undo. quiet body \<and> set (map (fst \<circ> snd) (switches body)) \<subseteq> set (relaxed_in_order i)
         \<and> (undo_shape i False undo \<and> evs = Called BeginTx True # body @ undo
          \<or> undo_shape i True undo \<and> evs = Called BeginTx True # body @ [Called CommitTx False, StepFailed e] @ undo))"

lemma committed_quiet: "committed_shape i evs \<Longrightarrow> quiet evs"
  by (auto simp: committed_shape_def written_in_order_def dest: plain_quiet)

lemma run_metadata_shape:
  "\<exists>evs. snd (run_metadata_sync i es) = es @ evs \<and> transaction_shape i (fst (run_metadata_sync i es)) evs"
proof (cases "ask (mi_host i) BeginTx (fresh_tx es)")
  case (Pair b s)
  show ?thesis
  proof (cases b)
    case (Inl e)
    then show ?thesis using Pair
      by (auto simp: run_metadata_sync_def transaction_shape_def ask_def fresh_tx_def split: sum.splits)
  next
    case (Inr a)
    have s: "tx_events s = es @ [Called BeginTx True]" "\<not> tx_finished s"
      using Pair Inr by (auto simp: ask_def fresh_tx_def split: sum.splits)
    obtain r s1 where bc: "before_commit i s = (r, s1)" by fastforce
    obtain body where body: "tx_events s1 = tx_events s @ body" "tx_finished s1 = tx_finished s" "quiet body"
      "\<not> isl r \<Longrightarrow> committed_shape i body" "set (map (fst \<circ> snd) (switches body)) \<subseteq> set (relaxed_in_order i)"
      using before_commit_appends [of i] bc unfolding appends_def by (metis fst_conv snd_conv)
    have failed: ?thesis
      if "run_metadata_sync i es = (Inl (Undone e), tx_events (metadata_undo i s2))"
        and "tx_events s2 = tx_events s1 @ (if tx_finished s2 then [Called CommitTx False, StepFailed e] else [])" for e s2
    proof -
      obtain undo where undo: "tx_events (metadata_undo i s2) = tx_events s2 @ undo" "undo_shape i (tx_finished s2) undo"
        using metadata_undo_appends [of i s2] by blast
      show ?thesis
        using that undo s body(1,3,5) unfolding transaction_shape_def
        by (intro exI [of _ "Called BeginTx True # body @
            (if tx_finished s2 then [Called CommitTx False, StepFailed e] else []) @ undo"])
          (cases "tx_finished s2"; auto)
    qed
    show ?thesis
    proof (cases r)
      case (Inl e)
      then have "run_metadata_sync i es = (Inl (Undone e), tx_events (metadata_undo i s1))"
        using Pair Inr bc by (simp add: run_metadata_sync_def metadata_body_split next_phase_def)
      then show ?thesis using failed s body by simp
    next
      case r: (Inr u)
      show ?thesis
      proof (cases "in_context (commit_tx (mi_host i)) None (Some CommitOp) s1")
        case c: (Pair r2 s2)
        show ?thesis
        proof (cases r2)
          case (Inl e)
          then have "run_metadata_sync i es = (Inl (Undone e), tx_events (metadata_undo i s2))"
            using Pair Inr bc r c by (simp add: run_metadata_sync_def metadata_body_split next_phase_def)
          moreover have "tx_finished s2" "tx_events s2 = tx_events s1 @ [Called CommitTx False, StepFailed e]"
            using c Inl s body(2) by (auto simp: in_context_def commit_tx_def and_then_def ask_def report_def Let_def
                done_with_def calls_made_def split: sum.splits if_splits)
          ultimately show ?thesis using failed by simp
        next
          case (Inr v)
          then have "run_metadata_sync i es = (Inr (tx_applied s2),
              tx_events s2 @ map (\<lambda>(t, p, n). TableDone t p n) (tx_pending s2))"
            using Pair \<open>b = Inr a\<close> bc r c by (simp add: run_metadata_sync_def metadata_body_split next_phase_def)
          moreover have "tx_events s2 = tx_events s1 @ [Called CommitTx True]"
            using c Inr s body(2) by (auto simp: in_context_def commit_tx_def and_then_def ask_def report_def Let_def
                done_with_def calls_made_def split: sum.splits if_splits)
          ultimately show ?thesis using s body r quiet_done [of "tx_pending s2"]
            by (auto simp: transaction_shape_def)
        qed
      qed
    qed
  qed
qed

lemma kept_of_shape:
  "transaction_shape i r evs \<Longrightarrow> kept_writes [] evs = (if isl r then [] else filter is_write evs)"
proof (cases r)
  case (Inl f)
  assume t: "transaction_shape i r evs"
  have undo: "kept_writes held u = []" if "undo_shape i fin u" for held fin u
    using that
    by (auto simp: undo_shape_def restores_all_def kept_writes_quiet kept_writes_quiet_only split: if_splits)
  show ?thesis using t Inl undo
    by (auto simp: transaction_shape_def kept_writes_quiet split: metadata_failure.splits)
next
  case (Inr tot)
  assume t: "transaction_shape i r evs"
  then show ?thesis using Inr
    by (auto simp: transaction_shape_def kept_writes_quiet kept_writes_quiet_only dest!: committed_quiet)
qed

text \<open>C1: the metadata transaction of a sync (\<open>runMetadataSync\<close>) is all or nothing, whatever the databases
  answer and whichever call fails. When it returns totals, the log is a begin that went through, the
  constraints of the changed tables switched off, the upserts in the order of the contract, every delete of
  the plan in the reverse order, the same constraints switched on again, and one commit; every write of the
  log is kept. When it fails, none is kept: either nothing began, or after the part that ran every relaxed
  constraint is switched on again and the transaction rolled back, except after a failed commit, when no
  rollback is sent.\<close>

theorem metadata_sync_atomic:
  "\<exists>evs. snd (run_metadata_sync i es) = es @ evs \<and> transaction_shape i (fst (run_metadata_sync i es)) evs
     \<and> kept_writes [] evs = (if isl (fst (run_metadata_sync i es)) then [] else filter is_write evs)"
  using run_metadata_shape [of i es] kept_of_shape by blast

section \<open>Rows that are gone\<close>

definition example_change :: change_row where
  "example_change = \<lparr>cr_pk = ''1'', cr_values = [(''id'', SqlInt 1)]\<rparr>"

definition example_table_plan :: sync_plan_table where
  "example_table_plan = \<lparr>table = ''core.Rule'', scope_predicate = [], stats = \<lparr>unchanged = 0, low_confidence = 0\<rparr>,
     changes = \<lparr>cs_insert = [example_change], cs_update = [], cs_delete = []\<rparr>,
     sample_rows = \<lparr>s_insert = [], s_update = [], s_delete = []\<rparr>, conflicts = [], warnings = [], diff_duration = 0\<rparr>"

definition example_contract :: sync_contract where
  "example_contract = \<lparr>sc_definition_id = ''rule'', sc_root_table = ''core.Rule'', sc_root_key_column = ''id'',
     sc_tables = [(''core.Rule'', Some (example_policy [] CopyIdentity))], sc_execution_order = [''core.Rule''],
     sc_reverse_order = [''core.Rule''], sc_allowed_schemas = [''core''], sc_freeze_windows = [], sc_steps = [],
     sc_catalog = None\<rparr>"

definition empty_answer :: db_answer where
  "empty_answer = \<lparr>an_rows = [], an_affected = []\<rparr>"

definition example_metadata :: metadata_input where
  "example_metadata = \<lparr>mi_host = \<lambda>n c. Inr empty_answer, mi_dialect = Mssql, mi_contract = example_contract,
     mi_tables = [example_table_plan], mi_pks = [(''core.Rule'', [''id''])], mi_triggers = [(''core.Rule'', True)]\<rparr>"

text \<open>The source row has gone since the preview: nothing is written, and the sync reports one insert.\<close>

lemma vanished_rows_are_counted:
  "fst (run_metadata_sync example_metadata []) = Inr \<lparr>ap_insert = 1, ap_update = 0, ap_delete = 0\<rparr>
   \<and> filter is_write (snd (run_metadata_sync example_metadata [])) = []"
  by code_simp

end
