(* ===== verification/PlanStore.thy ===== *)
theory PlanStore
  imports MetadataSync
begin

text \<open>
  The store of sync plans (\<open>packages/sync/src/runtime/plan-store.ts\<close>): a cache in memory, files on disk that
  expire after a day, and a durable sink the host installs. A file holds a plan or a text that does not
  parse. The plan is kept as it is; the encoding of its values in the file is left out, and so are file
  operations that fail on a file that exists.
\<close>

section \<open>The store\<close>

definition plan_ttl_ms :: int where
  "plan_ttl_ms = 24 * 60 * 60 * 1000"

definition execute_max_age_ms :: int where
  "execute_max_age_ms = 60 * 60 * 1000"

record plan_store =
  ps_memory :: "(string, sync_plan) jsmap"
  ps_disk :: "(string, sync_plan option) jsmap option"  \<comment> \<open>\<open>None\<close>: no disk root\<close>

text \<open>The sink: its answer to a load, \<open>Inl\<close> when it throws.\<close>

type_synonym plan_sink = "string \<Rightarrow> string + sync_plan option"

definition is_expired :: "int \<Rightarrow> sync_plan \<Rightarrow> bool" where
  "is_expired now p = (plan_ttl_ms < now - pl_created_at p)"

definition plan_too_old_to_execute :: "int \<Rightarrow> sync_plan \<Rightarrow> bool" where
  "plan_too_old_to_execute now p = (execute_max_age_ms < now - pl_created_at p)"

definition remember :: "string \<Rightarrow> sync_plan \<Rightarrow> plan_store \<Rightarrow> plan_store" where
  "remember k p s = s\<lparr>ps_memory := js_set (ps_memory s) k p\<rparr>"

definition remove_file :: "string \<Rightarrow> plan_store \<Rightarrow> plan_store" where
  "remove_file k s = s\<lparr>ps_disk := map_option (\<lambda>d. js_delete d k) (ps_disk s)\<rparr>"

text \<open>\<open>savePlan\<close>: a plan whose totals are wrong is not stored. \<open>written\<close> is the outcome of writing the file;
  the sink is told last and its errors are dropped, so it does not show here.\<close>

definition save_plan :: "string \<Rightarrow> sync_plan \<Rightarrow> bool \<Rightarrow> plan_store \<Rightarrow> bool \<times> plan_store" where
  "save_plan k p written s = (case validate_plan (pl_tables p) (pl_totals p) of
       Some wrong \<Rightarrow> (False, s)
     | None \<Rightarrow> (let s1 = remember k p s in case ps_disk s1 of
           None \<Rightarrow> (True, s1)
         | Some d \<Rightarrow> if written then (True, s1\<lparr>ps_disk := Some (js_set d k (Some p))\<rparr>) else (False, s1)))"

definition load_from_sink :: "plan_sink \<Rightarrow> string \<Rightarrow> plan_store \<Rightarrow> sync_plan option \<times> plan_store" where
  "load_from_sink sink k s = (case sink k of
       Inr (Some p) \<Rightarrow> (Some p, remember k p s)
     | _ \<Rightarrow> (None, s))"

definition load_plan :: "plan_sink \<Rightarrow> int \<Rightarrow> string \<Rightarrow> plan_store \<Rightarrow> sync_plan option \<times> plan_store" where
  "load_plan sink now k s =
     (let rest = (case ps_disk s of
            None \<Rightarrow> load_from_sink sink k s
          | Some d \<Rightarrow> (case js_get d k of
                None \<Rightarrow> load_from_sink sink k s
              | Some None \<Rightarrow> load_from_sink sink k s
              | Some (Some p) \<Rightarrow> if is_expired now p then load_from_sink sink k (remove_file k s)
                               else (Some p, remember k p s)))
      in case js_get (ps_memory s) k of
           Some p \<Rightarrow> if is_expired now p then rest else (Some p, s)
         | None \<Rightarrow> rest)"

definition delete_plan :: "string \<Rightarrow> plan_store \<Rightarrow> plan_store" where
  "delete_plan k s = remove_file k (s\<lparr>ps_memory := js_delete (ps_memory s) k\<rparr>)"

text \<open>\<open>pruneExpired\<close>, given when each file was last written.\<close>

definition prune_expired :: "int \<Rightarrow> (string \<Rightarrow> int) \<Rightarrow> plan_store \<Rightarrow> plan_store" where
  "prune_expired now mtime s = s\<lparr>ps_disk := map_option (filter (\<lambda>(k, p). \<not> plan_ttl_ms < now - mtime k)) (ps_disk s)\<rparr>"

section \<open>Loading\<close>

text \<open>What a load returns it also caches.\<close>

lemma load_caches:
  assumes "load_plan sink now k s = (Some p, s')"
  shows "js_get (ps_memory s') k = Some p"
  using assms
  by (auto simp: load_plan_def load_from_sink_def remember_def remove_file_def Let_def
      split: option.splits if_splits sum.splits)

text \<open>A plan is served while it is fresh; an expired one only comes from the sink.\<close>

lemma load_fresh_or_durable:
  assumes "load_plan sink now k s = (Some p, s')"
  shows "\<not> is_expired now p \<or> sink k = Inr (Some p)"
  using assms
  by (auto simp: load_plan_def load_from_sink_def remember_def remove_file_def Let_def
      split: option.splits if_splits sum.splits)

lemma load_after_save:
  assumes "save_plan k p written s = (True, s1)" "\<not> is_expired now p"
  shows "fst (load_plan sink now k s1) = Some p \<and> fst (load_plan sink now k (s1\<lparr>ps_memory := []\<rparr>))
    = (if ps_disk s = None then fst (load_from_sink sink k s1) else Some p)"
  using assms
  by (auto simp: save_plan_def load_plan_def load_from_sink_def remember_def Let_def
      split: option.splits if_splits sum.splits)

text \<open>A plan that is too old to execute is too old for a day's cache only if it is more than a day old: the
  cap of an hour is the stricter one.\<close>

lemma executable_is_fresh: "\<not> plan_too_old_to_execute now p \<Longrightarrow> \<not> is_expired now p"
  by (simp add: is_expired_def plan_too_old_to_execute_def plan_ttl_ms_def execute_max_age_ms_def)

text \<open>Deleting does not reach the sink: what it still has comes back with the next load.\<close>

lemma deleted_plan_comes_back:
  "sink k = Inr (Some p) \<Longrightarrow> fst (load_plan sink now k (delete_plan k s)) = Some p"
  by (auto simp: load_plan_def load_from_sink_def delete_plan_def remove_file_def Let_def split: option.split)

end
