(* ===== verification/ExecuteSync.thy ===== *)
theory ExecuteSync
  imports FlowPipeline PlanStore
begin

text \<open>
  The execution of a saved plan (\<open>packages/sync/src/runtime/orchestrator/execute.ts\<close>): the gates before any
  write, among them the catalog comparison (\<open>runtime/catalog-drift.ts\<close>) and the check of the root row
  (\<open>orchestrator/gates/root-parent-preflight.ts\<close>); the preparation of the run; the steps before the metadata
  transaction, the transaction and the steps after it; the record of the run; and the release of the contract
  lock. Databases, connectors, the abort signal and the clock answer through \<open>execute_host\<close>. What the
  program does is a trace; how it ends is a stop (a refusal or an exception) or a result.
\<close>

section \<open>What is outside\<close>

record catalog_row =
  ct_schema :: string
  ct_table :: string
  ct_column :: string
  ct_type :: string
  ct_length :: "int option"

datatype catalog_query = ByTables "string list" | BySchemas "string list"

text \<open>\<open>eh_aborted n\<close> is the signal at its \<open>n\<close>th reading; the queries answer after their retries.\<close>

record execute_host =
  eh_now :: int
  eh_plan_sink :: plan_sink
  eh_needs_republish :: "string \<Rightarrow> bool"
  eh_environments :: "(string, sync_environment) jsmap"
  eh_connectors :: "string + string list"
  eh_dialect_of :: "string \<Rightarrow> dialect_kind option"
  eh_default_dialect :: "dialect_kind option"
  eh_catalog :: "side \<Rightarrow> catalog_query \<Rightarrow> string + catalog_row list"
  eh_freeze_registry :: "(string, freeze_window) jsmap"
  eh_root_query :: "string \<Rightarrow> string + row list"
  eh_primary_keys :: "string \<Rightarrow> string + row list"
  eh_trigger_batch :: "string list \<Rightarrow> string + row list"
  eh_trigger_count :: "string \<Rightarrow> string + row list"
  eh_pool :: "side \<Rightarrow> string + bool"
  eh_unlock :: "string + unit"
  eh_tx :: tx_host
  eh_flow :: flow_host
  eh_aborted :: "nat \<Rightarrow> bool"

record execute_options =
  eo_confirm :: bool
  eo_ready_ids :: "string list option"
  eo_override_freeze :: bool
  eo_user_upn :: "string option"

section \<open>Stops, results and the trace\<close>

datatype drift_issue =
    MissingOnSource string
  | MissingOnTarget string
  | ColumnMissingOnTarget string string
  | ColumnTypeDiffers string string string string

datatype refusal =
    NotConfirmed
  | PlanMissing
  | PlanTooOld
  | NeedsRepublish
  | SourceIsTargetOnly string
  | TargetIsSourceOnly string
  | NotEligible string
  | NoContract
  | CatalogDrifted "drift_issue list"
  | Frozen "freeze_window list"
  | PlanConflicted "(string \<times> plan_conflict list) list"
  | RootParentMissing
  | PostgresFlowSteps
  | PostgresLock
  | TargetPoolUnavailable
  | SourcePoolUnavailable
  | BeforeStepsNeedPools
  | AfterStepsNeedPools

text \<open>\<open>executeSync\<close> refuses, or throws: the abort, an error of a call, or an error of the plan.\<close>

datatype exec_stop =
    Refuse refusal
  | Aborted
  | Threw string
  | InvalidTotals string nat nat
  | NoFlowCatalog
  | BadFlow nat

datatype exec_cause = FlowCause flow_cause | MetadataCause metadata_failure

datatype exec_result =
    RunSucceeded
  | RunWithWarnings "step_warning list"
  | RunSkipped string string
  | RunCancelled
  | RunBroken exec_cause

datatype run_status = StatusSuccess | StatusFailed | StatusSkipped | StatusCancelled

datatype exec_event =
    Announced string
  | Read side string
  | SinkStarted
  | StartedEvent
  | Flow flow_act
  | Meta tx_event
  | TriggersProbed
  | CompletedEvent applied_totals "step_warning list"
  | SkippedRunEvent string string
  | CancelledEvent
  | FailedEvent exec_cause
  | SinkFinished run_status "applied_totals option"
  | UnlockedSource bool

text \<open>A gate: what it does, and the stop if it stops.\<close>

type_synonym gate = "exec_event list \<times> exec_stop option"

fun run_gates :: "gate list \<Rightarrow> exec_event list \<times> exec_stop option" where
  "run_gates [] = ([], None)"
| "run_gates ((es, s) # gs) = (case s of
     Some x \<Rightarrow> (es, Some x)
   | None \<Rightarrow> (let (es', r) = run_gates gs in (es @ es', r)))"

definition abort_gate :: "execute_host \<Rightarrow> nat \<Rightarrow> gate" where
  "abort_gate h n = ([], if eh_aborted h n then Some Aborted else None)"

section \<open>Catalog drift\<close>

record schema_snapshot =
  ss_tables :: "string list"
  ss_columns :: "(string, (string, string) jsmap) jsmap"

definition normalize_catalog_name :: "string \<Rightarrow> string" where
  "normalize_catalog_name s = js_lower (js_trim s)"

definition column_type_text :: "catalog_row \<Rightarrow> string" where
  "column_type_text r = (case ct_length r of
       Some n \<Rightarrow> if n = 0 then ct_type r else ct_type r @ ''('' @ show_int n @ '')''
     | None \<Rightarrow> ct_type r)"

definition add_catalog_row :: "schema_snapshot \<Rightarrow> catalog_row \<Rightarrow> schema_snapshot" where
  "add_catalog_row s r =
     (let qn = normalize_catalog_name (ct_schema r @ ''.'' @ ct_table r) in
      \<lparr>ss_tables = set_add (ss_tables s) qn,
       ss_columns = js_set (ss_columns s) qn
         (js_set (js_get_or (ss_columns s) qn []) (normalize_catalog_name (ct_column r)) (column_type_text r))\<rparr>)"

definition rows_to_snapshot :: "catalog_row list \<Rightarrow> schema_snapshot" where
  "rows_to_snapshot rows = foldl add_catalog_row \<lparr>ss_tables = [], ss_columns = []\<rparr> rows"

definition column_drift :: "string \<Rightarrow> (string, string) jsmap \<Rightarrow> string \<times> string \<Rightarrow> drift_issue list" where
  "column_drift t target_columns e = (case e of (c, ty) \<Rightarrow>
     (case js_get target_columns (normalize_catalog_name c) of
        None \<Rightarrow> [ColumnMissingOnTarget t c]
      | Some tt \<Rightarrow> if tt = [] then [ColumnMissingOnTarget t c]
                  else if tt \<noteq> ty then [ColumnTypeDiffers t c ty tt] else []))"

definition table_drift :: "schema_snapshot \<Rightarrow> schema_snapshot \<Rightarrow> string \<Rightarrow> drift_issue list" where
  "table_drift src tgt t =
     (if t \<notin> set (ss_tables src) then [MissingOnSource t]
      else if t \<notin> set (ss_tables tgt) then [MissingOnTarget t]
      else concat (map (column_drift t (js_get_or (ss_columns tgt) t [])) (js_get_or (ss_columns src) t [])))"

definition restricted_tables :: "string list \<Rightarrow> string list" where
  "restricted_tables names = set_of_list (map normalize_catalog_name names)"

text \<open>The schemas of the restricted tables; a name whose first dot is not inside it has none.\<close>

definition schema_list :: "string list \<Rightarrow> string list \<Rightarrow> string list" where
  "schema_list allowed restricted =
     foldl (\<lambda>acc qn. let s = takeWhile (\<lambda>c. c \<noteq> CHR ''.'') qn in
         if s \<noteq> [] \<and> length s < length qn then set_add acc s else acc) (set_of_list allowed) restricted"

definition load_snapshot :: "execute_host \<Rightarrow> side \<Rightarrow> string list \<Rightarrow> string list \<Rightarrow> string + schema_snapshot" where
  "load_snapshot h sd allowed restricted = map_sum id rows_to_snapshot
     (if restricted \<noteq> [] then eh_catalog h sd (ByTables restricted)
      else if schema_list allowed restricted = [] then Inr []
      else eh_catalog h sd (BySchemas (schema_list allowed restricted)))"

definition detect_catalog_drift :: "execute_host \<Rightarrow> string list \<Rightarrow> string list \<Rightarrow> string + drift_issue list" where
  "detect_catalog_drift h names allowed =
     (let restricted = restricted_tables names in
      case load_snapshot h OnSource allowed restricted of
        Inl e \<Rightarrow> Inl e
      | Inr src \<Rightarrow> (case load_snapshot h OnTarget allowed restricted of
            Inl e \<Rightarrow> Inl e
          | Inr tgt \<Rightarrow> Inr (concat (map (table_drift src tgt) restricted))))"

section \<open>The root row\<close>

definition number_of_value :: "sql_value option \<Rightarrow> decimal option" where
  "number_of_value v = (case v of
       None \<Rightarrow> None
     | Some x \<Rightarrow> (case x of SqlNull \<Rightarrow> Some (int_decimal 0) | SqlInt i \<Rightarrow> Some (int_decimal i)
         | SqlBool b \<Rightarrow> Some (int_decimal (if b then 1 else 0)) | SqlText t \<Rightarrow> js_number t
         | SqlOther t q \<Rightarrow> if t = q then js_number t else None))"

definition entity_text :: "entity_id \<Rightarrow> string" where
  "entity_text e = (case e of IdNum n \<Rightarrow> show_int n | IdText t \<Rightarrow> t)"

definition entity_id_matches :: "sql_value option \<Rightarrow> entity_id \<Rightarrow> bool" where
  "entity_id_matches v e =
     (v = Some (entity_value e)
      \<or> (number_of_value v \<noteq> None \<and> number_of_value v = numeric_entity_id e)
      \<or> (case v of None \<Rightarrow> [] | Some SqlNull \<Rightarrow> [] | Some x \<Rightarrow> js_string x) = entity_text e)"

definition contract_tables :: "sync_contract \<Rightarrow> string list" where
  "contract_tables c = map fst (sc_tables c)"

definition plan_requires_root :: "sync_plan \<Rightarrow> sync_contract \<Rightarrow> bool" where
  "plan_requires_root p c =
     (\<exists>t\<in>set (pl_tables p). table t \<noteq> sc_root_table c \<and> table t \<in> set (contract_tables c) \<and> has_upsert_work t)"

definition plan_inserts_root :: "sync_plan \<Rightarrow> sync_contract \<Rightarrow> bool" where
  "plan_inserts_root p c = (case table_result (pl_tables p) (sc_root_table c) of
       None \<Rightarrow> False
     | Some t \<Rightarrow> \<exists>r\<in>set (cs_insert (changes t)). entity_id_matches (js_get (cr_values r) (sc_root_key_column c)) (pl_entity_id p))"

definition entity_literal :: "entity_id \<Rightarrow> string" where
  "entity_literal e = (case e of IdNum n \<Rightarrow> show_int n | IdText t \<Rightarrow> CHR 0x27 # escape_quotes t @ [CHR 0x27])"

definition root_exists_sql :: "sync_contract \<Rightarrow> entity_id \<Rightarrow> string" where
  "root_exists_sql c e = ''SELECT TOP 1 1 AS ok FROM '' @ quote_mssql_table (sc_root_table c) @ '' WHERE [''
     @ sc_root_key_column c @ ''] = '' @ entity_literal e"

definition root_parent_ready :: "execute_host \<Rightarrow> sync_plan \<Rightarrow> sync_contract \<Rightarrow> exec_event list \<times> (string + bool)" where
  "root_parent_ready h p c =
     (if \<not> plan_requires_root p c \<or> plan_inserts_root p c then ([], Inr True)
      else let q = root_exists_sql c (pl_entity_id p) in
        ([Read OnTarget q], map_sum id (\<lambda>rows. rows \<noteq> []) (eh_root_query h q)))"

section \<open>The gates\<close>

definition role_gate :: "execute_host \<Rightarrow> sync_plan \<Rightarrow> exec_stop option" where
  "role_gate h p = (case get_environment (eh_environments h) (pl_source p) of
       Inl e \<Rightarrow> Some (Threw e)
     | Inr src \<Rightarrow> (case get_environment (eh_environments h) (pl_target p) of
           Inl e \<Rightarrow> Some (Threw e)
         | Inr tgt \<Rightarrow>
             if se_role src = TargetRole then Some (Refuse (SourceIsTargetOnly (se_name src)))
             else if se_role tgt = SourceRole then Some (Refuse (TargetIsSourceOnly (se_name tgt)))
             else None))"

definition connector_gate_of :: "execute_host \<Rightarrow> execute_options \<Rightarrow> sync_plan \<Rightarrow> exec_stop option" where
  "connector_gate_of h opts p =
     (case (case eo_ready_ids opts of Some r \<Rightarrow> Inr r | None \<Rightarrow> eh_connectors h) of
        Inl e \<Rightarrow> Some (Threw e)
      | Inr ready \<Rightarrow> (case (get_environment (eh_environments h) (pl_source p), get_environment (eh_environments h) (pl_target p)) of
            (Inr src, Inr tgt) \<Rightarrow>
              (case assert_env_connector_ready src ready of
                 Inl e \<Rightarrow> Some (Refuse (NotEligible e))
               | Inr u \<Rightarrow> (case assert_env_connector_ready tgt ready of
                     Inl e \<Rightarrow> Some (Refuse (NotEligible e))
                   | Inr u \<Rightarrow> (case assert_supported_direction src tgt of
                         Inl e \<Rightarrow> Some (Refuse (NotEligible e))
                       | Inr u \<Rightarrow> None)))
          | _ \<Rightarrow> None))"

definition drift_load_gate :: "execute_host \<Rightarrow> sync_contract \<Rightarrow> exec_stop option" where
  "drift_load_gate h c = (case detect_catalog_drift h (contract_tables c) (sc_allowed_schemas c) of
       Inl e \<Rightarrow> Some (Threw e) | Inr issues \<Rightarrow> None)"

definition catalog_reads :: "sync_contract \<Rightarrow> exec_event list" where
  "catalog_reads c = (let restricted = restricted_tables (contract_tables c) in
     if restricted = [] \<and> schema_list (sc_allowed_schemas c) restricted = [] then []
     else [Read OnSource ''catalog'', Read OnTarget ''catalog''])"

definition drift_gate :: "execute_host \<Rightarrow> sync_contract \<Rightarrow> exec_stop option" where
  "drift_gate h c = (case detect_catalog_drift h (contract_tables c) (sc_allowed_schemas c) of
       Inl e \<Rightarrow> None
     | Inr issues \<Rightarrow> if issues = [] then None else Some (Refuse (CatalogDrifted issues)))"

definition freeze_gate :: "execute_host \<Rightarrow> execute_options \<Rightarrow> sync_contract \<Rightarrow> exec_stop option" where
  "freeze_gate h opts c =
     (if sc_freeze_windows c = [] then None
      else let ev = evaluate_freeze_windows (sc_freeze_windows c) (eh_freeze_registry h) (eh_now h) in
        if fe_active ev \<and> \<not> eo_override_freeze opts then Some (Refuse (Frozen (fe_active_windows ev))) else None)"

definition conflict_gate :: "sync_plan \<Rightarrow> exec_stop option" where
  "conflict_gate p = (case filter (\<lambda>t. conflicts t \<noteq> []) (pl_tables p) of
       [] \<Rightarrow> None
     | ts \<Rightarrow> Some (Refuse (PlanConflicted (map (\<lambda>t. (table t, conflicts t)) ts))))"

definition root_load_gate :: "execute_host \<Rightarrow> sync_plan \<Rightarrow> sync_contract \<Rightarrow> exec_stop option" where
  "root_load_gate h p c = (case snd (root_parent_ready h p c) of Inl e \<Rightarrow> Some (Threw e) | Inr b \<Rightarrow> None)"

definition root_gate :: "execute_host \<Rightarrow> sync_plan \<Rightarrow> sync_contract \<Rightarrow> exec_stop option" where
  "root_gate h p c = (if snd (root_parent_ready h p c) = Inr False then Some (Refuse RootParentMissing) else None)"

definition totals_gate :: "sync_plan \<Rightarrow> exec_stop option" where
  "totals_gate p = map_option (\<lambda>(k, a, b). InvalidTotals k a b) (validate_plan (pl_tables p) (pl_totals p))"

text \<open>The gates of a loaded plan that need no contract, and those that do, in the order of the code.\<close>

definition plan_gates :: "execute_host \<Rightarrow> execute_options \<Rightarrow> sync_plan \<Rightarrow> gate list" where
  "plan_gates h opts p =
     [([], if plan_too_old_to_execute (eh_now h) p then Some (Refuse PlanTooOld) else None),
      ([], if eh_needs_republish h (pl_entity_type p) then Some (Refuse NeedsRepublish) else None),
      abort_gate h 1,
      ([Announced ''preflight''], role_gate h p),
      ([], connector_gate_of h opts p)]"

definition contract_gates :: "execute_host \<Rightarrow> execute_options \<Rightarrow> sync_plan \<Rightarrow> sync_contract \<Rightarrow> gate list" where
  "contract_gates h opts p c =
     [abort_gate h 2,
      (Announced ''catalog-drift'' # catalog_reads c, drift_load_gate h c),
      abort_gate h 3,
      ([], drift_gate h c),
      ([], freeze_gate h opts c),
      abort_gate h 4,
      ([Announced ''scope-check''], conflict_gate p),
      abort_gate h 5,
      (Announced ''root-parent-check'' # fst (root_parent_ready h p c), root_load_gate h p c),
      abort_gate h 6,
      ([], root_gate h p c),
      abort_gate h 7,
      ([Announced ''plan-validation''], totals_gate p)]"

section \<open>Preparing the run\<close>

definition dialect_of :: "execute_host \<Rightarrow> string \<Rightarrow> dialect_kind" where
  "dialect_of h name =
     (let i = js_trim (case js_get (eh_environments h) name of None \<Rightarrow> [] | Some e \<Rightarrow> given_or (se_connector_id e) [])
      in given_or (if i = [] then None else eh_dialect_of h i) (given_or (eh_default_dialect h) Mssql))"

text \<open>A schema-qualified name has a schema and a table.\<close>

definition is_qualified :: "string \<Rightarrow> bool" where
  "is_qualified qn = (case js_split CHR ''.'' qn of s # n # rest \<Rightarrow> s \<noteq> [] \<and> n \<noteq> [] | _ \<Rightarrow> False)"

definition fetch_pk_columns :: "execute_host \<Rightarrow> string list \<Rightarrow> (string, string list) jsmap" where
  "fetch_pk_columns h tabs = foldl (\<lambda>m qn. if is_qualified qn
       then js_set m qn (case eh_primary_keys h qn of Inl e \<Rightarrow> [] | Inr rows \<Rightarrow> map (\<lambda>r. js_string (column r ''name'')) rows)
       else m) [] tabs"

definition positive_value :: "sql_value \<Rightarrow> bool" where
  "positive_value v = (case v of SqlInt n \<Rightarrow> 0 < n | _ \<Rightarrow> False)"

definition table_has_triggers :: "execute_host \<Rightarrow> string \<Rightarrow> bool" where
  "table_has_triggers h qn = (is_qualified qn \<and>
     (case eh_trigger_count h qn of Inr (r # rs) \<Rightarrow> positive_value (column r ''cnt'') | _ \<Rightarrow> False))"

definition probe_triggers :: "execute_host \<Rightarrow> dialect_kind \<Rightarrow> string list \<Rightarrow> exec_event list \<times> (string, bool) jsmap" where
  "probe_triggers h d tabs =
     (if tabs = [] then ([], [])
      else if d \<noteq> Mssql then (map (Read OnTarget) tabs @ [TriggersProbed],
        foldl (\<lambda>m t. js_set m t (table_has_triggers h t)) [] tabs)
      else (case eh_trigger_batch h tabs of
          Inl e \<Rightarrow> ([Read OnTarget ''trigger-probe''], [])
        | Inr rows \<Rightarrow> ([Read OnTarget ''trigger-probe'', TriggersProbed],
            foldl (\<lambda>m r. js_set m (js_string (column r ''schemaName'') @ ''.'' @ js_string (column r ''tableName''))
              (positive_value (column r ''triggerCount''))) [] rows)))"

record prepared =
  pr_pks :: "(string, string list) jsmap"
  pr_catalog :: flow_catalog
  pr_flow :: scheduled_flow
  pr_target_dialect :: dialect_kind
  pr_target_pool :: bool
  pr_source_pool :: bool

definition lock_step_present :: "sync_contract \<Rightarrow> bool" where
  "lock_step_present c = (\<exists>st\<in>set (sc_steps c). fs_kind st = ''targetLock'')"

definition has_steps :: "scheduled_flow \<Rightarrow> bool" where
  "has_steps f = (sf_before f \<noteq> [] \<or> sf_after f \<noteq> [])"

definition postgres_refusal :: "dialect_kind \<Rightarrow> dialect_kind \<Rightarrow> scheduled_flow \<Rightarrow> bool \<Rightarrow> exec_stop option" where
  "postgres_refusal target source f lock =
     (if target = Postgres then
        (if has_steps f then Some (Refuse PostgresFlowSteps)
         else if source = Postgres \<and> lock then Some (Refuse PostgresLock) else None)
      else None)"

text \<open>The pools: only an MSSQL side has one, and one that resolves to nothing is refused where it is needed.\<close>

definition resolve_pools :: "execute_host \<Rightarrow> dialect_kind \<Rightarrow> dialect_kind \<Rightarrow> bool \<Rightarrow> exec_stop + (bool \<times> bool)" where
  "resolve_pools h target source steps =
     (if \<not> (target = Mssql \<or> source = Mssql \<or> steps) then Inr (False, False)
      else case (if target = Mssql then eh_pool h OnTarget else Inr False) of
          Inl e \<Rightarrow> Inl (Threw e)
        | Inr tp \<Rightarrow> (case (if source = Mssql then eh_pool h OnSource else Inr False) of
              Inl e \<Rightarrow> Inl (Threw e)
            | Inr sp \<Rightarrow>
                if target = Mssql \<and> \<not> tp then Inl (Refuse TargetPoolUnavailable)
                else if steps \<and> source = Mssql \<and> \<not> sp then Inl (Refuse SourcePoolUnavailable)
                else Inr (tp, sp)))"

definition prepare_run :: "execute_host \<Rightarrow> sync_plan \<Rightarrow> sync_contract \<Rightarrow> exec_event list \<times> (exec_stop + prepared)" where
  "prepare_run h p c =
     (if eh_aborted h 8 then ([], Inl Aborted)
      else let tabs = contract_tables c;
               es = Announced ''pk-discovery'' # map (Read OnSource) (filter is_qualified tabs)
        in if eh_aborted h 9 then (es, Inl Aborted)
        else (es, case sc_catalog c of
            None \<Rightarrow> Inl NoFlowCatalog
          | Some cat \<Rightarrow> (case schedule_flow_steps (sc_steps c) of
                Inl n \<Rightarrow> Inl (BadFlow n)
              | Inr f \<Rightarrow>
                  let target = dialect_of h (pl_target p); source = dialect_of h (pl_source p); lock = lock_step_present c in
                  case postgres_refusal target source f lock of
                    Some stop \<Rightarrow> Inl stop
                  | None \<Rightarrow> (case resolve_pools h target source (has_steps f \<or> lock) of
                        Inl stop \<Rightarrow> Inl stop
                      | Inr (tp, sp) \<Rightarrow> Inr \<lparr>pr_pks = fetch_pk_columns h tabs, pr_catalog = cat, pr_flow = f,
                          pr_target_dialect = target, pr_target_pool = tp, pr_source_pool = sp\<rparr>))))"

section \<open>The run\<close>

datatype body_end =
    BodyDone applied_totals "step_warning list"
  | BodyRefused refusal
  | BodySkipped string string
  | BodyFailed exec_cause

definition flow_run_of :: "execute_host \<Rightarrow> execute_options \<Rightarrow> sync_plan \<Rightarrow> sync_contract \<Rightarrow> prepared \<Rightarrow> flow_run" where
  "flow_run_of h opts p c pr = \<lparr>fr_host = (eh_flow h)\<lparr>ho_environments := eh_environments h\<rparr>,
     fr_source = pl_source p, fr_target = pl_target p, fr_entity_id = pl_entity_id p,
     fr_entity_type = sc_definition_id c, fr_user_upn = eo_user_upn opts, fr_catalog = pr_catalog pr\<rparr>"

definition run_part :: "flow_run \<Rightarrow> prepared \<Rightarrow> bool \<Rightarrow> nat \<Rightarrow> flow_step list
    \<Rightarrow> exec_event list \<times> (body_end + step_warning list)" where
  "run_part r pr deploy i steps =
     (if steps = [] then ([], Inr [])
      else if \<not> pr_target_pool pr \<or> \<not> pr_source_pool pr
        then ([], Inl (BodyRefused (if deploy then AfterStepsNeedPools else BeforeStepsNeedPools)))
      else case run_region r deploy i steps of
          (acts, Inr ws) \<Rightarrow> (map Flow acts, Inr ws)
        | (acts, Inl (GateSkipped step msg)) \<Rightarrow> (map Flow acts, Inl (BodySkipped step msg))
        | (acts, Inl (Failure e)) \<Rightarrow> (map Flow acts, Inl (BodyFailed (FlowCause e))))"

definition metadata_input_of :: "execute_host \<Rightarrow> sync_plan \<Rightarrow> sync_contract \<Rightarrow> prepared \<Rightarrow> metadata_input" where
  "metadata_input_of h p c pr = \<lparr>mi_host = eh_tx h, mi_dialect = pr_target_dialect pr, mi_contract = c,
     mi_tables = pl_tables p, mi_pks = pr_pks pr,
     mi_triggers = snd (probe_triggers h (pr_target_dialect pr) (data_movement_tables (pl_tables p)))\<rparr>"

definition metadata_part :: "execute_host \<Rightarrow> sync_plan \<Rightarrow> sync_contract \<Rightarrow> prepared
    \<Rightarrow> exec_event list \<times> (body_end + applied_totals)" where
  "metadata_part h p c pr =
     (let st = sf_metadata (pr_flow pr);
          es = fst (probe_triggers h (pr_target_dialect pr) (data_movement_tables (pl_tables p)));
          (res, tx) = run_metadata_sync (metadata_input_of h p c pr) []
      in (es @ [Announced (fs_id st), Flow (StepEvent (fs_id st))] @ map Meta tx
            @ (if isl res then [] else [Announced (fs_id st @ ''-done''), Flow (StepEvent (fs_id st @ ''-done''))]),
          case res of Inl e \<Rightarrow> Inl (BodyFailed (MetadataCause e)) | Inr totals \<Rightarrow> Inr totals))"

definition run_body :: "execute_host \<Rightarrow> execute_options \<Rightarrow> sync_plan \<Rightarrow> sync_contract \<Rightarrow> prepared
    \<Rightarrow> exec_event list \<times> body_end" where
  "run_body h opts p c pr =
     (let r = flow_run_of h opts p c pr; f = pr_flow pr in
      case run_part r pr False 0 (sf_before f) of
        (e1, Inl b) \<Rightarrow> (e1, b)
      | (e1, Inr w1) \<Rightarrow> (case metadata_part h p c pr of
            (e2, Inl b) \<Rightarrow> (e1 @ e2, b)
          | (e2, Inr totals) \<Rightarrow> (case run_part r pr True (length (sf_before f) + 1) (sf_after f) of
                (e3, Inl b) \<Rightarrow> (e1 @ e2 @ e3, b)
              | (e3, Inr w3) \<Rightarrow> (e1 @ e2 @ e3, BodyDone totals (w1 @ w3)))))"

definition no_totals :: applied_totals where
  "no_totals = \<lparr>ap_insert = 0, ap_update = 0, ap_delete = 0\<rparr>"

text \<open>The record of the run. Errors of the sink are only logged.\<close>

definition finish_run :: "execute_host \<Rightarrow> body_end \<Rightarrow> exec_event list \<times> (exec_stop + exec_result)" where
  "finish_run h b = (case b of
       BodyDone totals ws \<Rightarrow>
         ([Announced (if ws = [] then ''completed'' else ''deploy''), CompletedEvent totals ws,
           SinkFinished (if ws = [] then StatusSuccess else StatusFailed) (Some totals)],
          Inr (if ws = [] then RunSucceeded else RunWithWarnings ws))
     | BodyRefused r \<Rightarrow> ([], Inl (Refuse r))
     | BodySkipped step msg \<Rightarrow>
         ([Announced step, SkippedRunEvent step msg, SinkFinished StatusSkipped (Some no_totals)], Inr (RunSkipped step msg))
     | BodyFailed e \<Rightarrow>
         (if eh_aborted h 10 then ([Announced ''failed'', CancelledEvent, SinkFinished StatusCancelled None], Inr RunCancelled)
          else ([Announced ''failed'', FailedEvent e, SinkFinished StatusFailed None], Inr (RunBroken e))))"

definition unlock_source :: "execute_host \<Rightarrow> sync_contract \<Rightarrow> prepared \<Rightarrow> exec_event list" where
  "unlock_source h c pr =
     (if sc_definition_id c = ''contract'' \<and> lock_step_present c \<and> pr_source_pool pr
      then [UnlockedSource (\<not> isl (eh_unlock h))] else [])"

definition execute_inner :: "execute_host \<Rightarrow> execute_options \<Rightarrow> sync_plan \<Rightarrow> sync_contract
    \<Rightarrow> exec_event list \<times> (exec_stop + exec_result)" where
  "execute_inner h opts p c = (case prepare_run h p c of
       (es, Inl stop) \<Rightarrow> (es, Inl stop)
     | (es, Inr pr) \<Rightarrow>
         let (e1, b) = run_body h opts p c pr; (e2, res) = finish_run h b
         in (es @ e1 @ e2 @ unlock_source h c pr, res))"

definition execute_plan :: "execute_host \<Rightarrow> execute_options \<Rightarrow> sync_plan \<Rightarrow> exec_event list \<times> (exec_stop + exec_result)" where
  "execute_plan h opts p = (case run_gates (plan_gates h opts p) of
       (es, Some stop) \<Rightarrow> (es, Inl stop)
     | (es, None) \<Rightarrow> (case pl_contract p of
           None \<Rightarrow> (es, Inl (Refuse NoContract))
         | Some c \<Rightarrow> (case run_gates (contract_gates h opts p c) of
               (es2, Some stop) \<Rightarrow> (es @ es2, Inl stop)
             | (es2, None) \<Rightarrow>
                 let (es3, res) = execute_inner h opts p c
                 in (es @ es2 @ SinkStarted # Announced ''started'' # StartedEvent # es3, res))))"

text \<open>\<open>executeSync\<close>, with the store of plans before and after.\<close>

definition execute_sync :: "execute_host \<Rightarrow> execute_options \<Rightarrow> string \<Rightarrow> plan_store
    \<Rightarrow> (exec_stop + exec_result) \<times> exec_event list \<times> plan_store" where
  "execute_sync h opts k store =
     (if \<not> eo_confirm opts then (Inl (Refuse NotConfirmed), [], store)
      else if eh_aborted h 0 then (Inl Aborted, [], store)
      else case load_plan (eh_plan_sink h) (eh_now h) k store of
          (None, s) \<Rightarrow> (Inl (Refuse PlanMissing), [Announced ''load''], s)
        | (Some p, s) \<Rightarrow> (let (es, res) = execute_plan h opts p in (res, Announced ''load'' # es, s)))"

end
