(* ===== verification/ExecuteRuns.thy ===== *)
theory ExecuteRuns
  imports ExecuteSync
begin

text \<open>
  What an execution of a plan (\<open>ExecuteSync\<close>) guarantees: which plans its gates let through, when it reports
  success, that the metadata of its target is changed as a whole or not at all, and when the record of the
  run is finished. The last sections hold the cases where a started run is refused, or reported as skipped,
  although its metadata was committed, and concrete runs.
\<close>

section \<open>The gates\<close>

definition harmless :: "exec_event \<Rightarrow> bool" where
  "harmless e = (case e of Announced t \<Rightarrow> True | Read s t \<Rightarrow> True | _ \<Rightarrow> False)"

lemma harmless_simps [simp]: "harmless (Announced t)" "harmless (Read s t)" "\<not> harmless SinkStarted"
  by (simp_all add: harmless_def)

lemma run_gates_pass: "snd (run_gates gs) = None \<longleftrightarrow> list_all (\<lambda>g. snd g = None) gs"
proof (induction gs rule: run_gates.induct)
  case (2 es s gs)
  then show ?case by (cases s) (auto simp: Let_def split: prod.split)
qed simp

lemma run_gates_harmless:
  "list_all (\<lambda>g. list_all harmless (fst g)) gs \<Longrightarrow> list_all harmless (fst (run_gates gs))"
proof (induction gs rule: run_gates.induct)
  case (2 es s gs)
  then show ?case by (cases s) (auto simp: Let_def split: prod.split)
qed simp

lemma plan_gates_harmless: "list_all harmless (fst (run_gates (plan_gates h opts p)))"
  by (rule run_gates_harmless) (simp add: plan_gates_def abort_gate_def)

lemma contract_gates_harmless: "list_all harmless (fst (run_gates (contract_gates h opts p c)))"
  by (rule run_gates_harmless)
    (simp add: contract_gates_def abort_gate_def catalog_reads_def root_parent_ready_def Let_def)

section \<open>What the gates mean\<close>

definition not_aborted_before :: "execute_host \<Rightarrow> nat \<Rightarrow> bool" where
  "not_aborted_before h n = list_all (\<lambda>i. \<not> eh_aborted h i) [0..<n]"

definition catalogs_agree :: "schema_snapshot \<Rightarrow> schema_snapshot \<Rightarrow> string list \<Rightarrow> bool" where
  "catalogs_agree src tgt tabs = (\<forall>t\<in>set tabs. t \<in> set (ss_tables src) \<and> t \<in> set (ss_tables tgt)
     \<and> (\<forall>(c, ty)\<in>set (js_get_or (ss_columns src) t []). ty \<noteq> []
        \<and> js_get (js_get_or (ss_columns tgt) t []) (normalize_catalog_name c) = Some ty))"

definition catalogs_compatible :: "execute_host \<Rightarrow> sync_contract \<Rightarrow> bool" where
  "catalogs_compatible h c = (let tabs = restricted_tables (contract_tables c) in
     \<exists>src tgt. load_snapshot h OnSource (sc_allowed_schemas c) tabs = Inr src
       \<and> load_snapshot h OnTarget (sc_allowed_schemas c) tabs = Inr tgt \<and> catalogs_agree src tgt tabs)"

definition frozen_now :: "execute_host \<Rightarrow> sync_contract \<Rightarrow> bool" where
  "frozen_now h c = (\<exists>i\<in>set (sc_freeze_windows c). window_open (eh_freeze_registry h) (eh_now h) i)"

definition environments_fit :: "execute_host \<Rightarrow> execute_options \<Rightarrow> sync_plan \<Rightarrow> bool" where
  "environments_fit h opts p = (\<exists>src tgt ready.
     js_get (eh_environments h) (pl_source p) = Some src \<and> js_get (eh_environments h) (pl_target p) = Some tgt
     \<and> (case eo_ready_ids opts of Some r \<Rightarrow> Inr r | None \<Rightarrow> eh_connectors h) = Inr ready
     \<and> selectable_source src ready \<and> selectable_target tgt ready \<and> sync_direction_allowed src tgt)"

definition root_row_ready :: "execute_host \<Rightarrow> sync_plan \<Rightarrow> sync_contract \<Rightarrow> bool" where
  "root_row_ready h p c = (\<not> plan_requires_root p c \<or> plan_inserts_root p c
     \<or> (\<exists>r rs. eh_root_query h (root_exists_sql c (pl_entity_id p)) = Inr (r # rs)))"

text \<open>A plan that may be executed now.\<close>

definition admissible :: "execute_host \<Rightarrow> execute_options \<Rightarrow> sync_plan \<Rightarrow> sync_contract \<Rightarrow> bool" where
  "admissible h opts p c =
     (eh_now h - pl_created_at p \<le> execute_max_age_ms \<and> \<not> eh_needs_republish h (pl_entity_type p)
      \<and> environments_fit h opts p \<and> catalogs_compatible h c \<and> (eo_override_freeze opts \<or> \<not> frozen_now h c)
      \<and> (\<forall>t\<in>set (pl_tables p). conflicts t = []) \<and> root_row_ready h p c
      \<and> (case pl_totals p of None \<Rightarrow> True | Some t \<Rightarrow> t = compute_plan_totals (pl_tables p)))"

lemma environment_gates:
  "role_gate h p = None \<and> connector_gate_of h opts p = None \<longleftrightarrow> environments_fit h opts p"
  by (auto simp: role_gate_def connector_gate_of_def environments_fit_def get_environment_def selectable_source_def
      selectable_target_def env_can_be_source_def env_can_be_target_def connector_gate [symmetric]
      direction_gate [symmetric] split: option.splits sum.splits if_splits)

lemma column_drift_none:
  "column_drift t cols e = [] \<longleftrightarrow> (case e of (c, ty) \<Rightarrow> ty \<noteq> [] \<and> js_get cols (normalize_catalog_name c) = Some ty)"
  by (auto simp: column_drift_def split: prod.split option.split)

lemma table_drift_none:
  "table_drift src tgt t = [] \<longleftrightarrow> t \<in> set (ss_tables src) \<and> t \<in> set (ss_tables tgt)
     \<and> (\<forall>(c, ty)\<in>set (js_get_or (ss_columns src) t []). ty \<noteq> []
        \<and> js_get (js_get_or (ss_columns tgt) t []) (normalize_catalog_name c) = Some ty)"
  by (auto simp: table_drift_def column_drift_none)

lemma drift_gates:
  "drift_load_gate h c = None \<and> drift_gate h c = None \<longleftrightarrow> catalogs_compatible h c"
proof -
  have "concat (map (table_drift src tgt) tabs) = [] \<longleftrightarrow> catalogs_agree src tgt tabs" for src tgt tabs
    by (simp add: catalogs_agree_def table_drift_none)
  then show ?thesis
    by (simp add: drift_load_gate_def drift_gate_def catalogs_compatible_def detect_catalog_drift_def Let_def
        split: sum.split del: concat_eq_Nil_conv)
qed

lemma freeze_gate_open:
  "freeze_gate h opts c = None \<longleftrightarrow> eo_override_freeze opts \<or> \<not> frozen_now h c"
  by (auto simp: freeze_gate_def frozen_now_def evaluate_freeze_windows_def scan_freeze_lists Let_def filter_empty_conv)

lemma conflict_gate_open: "conflict_gate p = None \<longleftrightarrow> (\<forall>t\<in>set (pl_tables p). conflicts t = [])"
proof -
  have "conflict_gate p = None \<longleftrightarrow> filter (\<lambda>t. conflicts t \<noteq> []) (pl_tables p) = []"
    by (simp add: conflict_gate_def split: list.split)
  then show ?thesis by (simp add: filter_empty_conv)
qed

lemma root_gates: "root_load_gate h p c = None \<and> root_gate h p c = None \<longleftrightarrow> root_row_ready h p c"
  by (cases "eh_root_query h (root_exists_sql c (pl_entity_id p))")
    (auto simp: root_load_gate_def root_gate_def root_parent_ready_def root_row_ready_def Let_def neq_Nil_conv)

lemma totals_gate_open:
  "totals_gate p = None \<longleftrightarrow> (case pl_totals p of None \<Rightarrow> True | Some t \<Rightarrow> t = compute_plan_totals (pl_tables p))"
  by (auto simp: totals_gate_def validate_plan_def Let_def find_None_iff total_keys_def split: option.split)

lemma gates_open:
  "eo_confirm opts \<and> \<not> eh_aborted h 0 \<and> snd (run_gates (plan_gates h opts p)) = None \<and> snd (run_gates (contract_gates h opts p c)) = None
   \<longleftrightarrow> eo_confirm opts \<and> not_aborted_before h 8 \<and> admissible h opts p c"
proof -
  have "[0..<8] = [0, 1, 2, 3, 4, 5, 6, 7::nat]" by (simp add: upt_rec)
  then have ab: "not_aborted_before h 8 = list_all (\<lambda>i. \<not> eh_aborted h i) [0, 1, 2, 3, 4, 5, 6, 7]"
    by (simp add: not_aborted_before_def)
  have "snd (run_gates (plan_gates h opts p)) = None \<longleftrightarrow> eh_now h - pl_created_at p \<le> execute_max_age_ms
      \<and> \<not> eh_needs_republish h (pl_entity_type p) \<and> \<not> eh_aborted h 1 \<and> role_gate h p = None \<and> connector_gate_of h opts p = None"
    unfolding run_gates_pass by (auto simp: plan_gates_def abort_gate_def plan_too_old_to_execute_def)
  moreover have "snd (run_gates (contract_gates h opts p c)) = None \<longleftrightarrow>
      (\<not> eh_aborted h 2 \<and> \<not> eh_aborted h 3 \<and> \<not> eh_aborted h 4 \<and> \<not> eh_aborted h 5 \<and> \<not> eh_aborted h 6 \<and> \<not> eh_aborted h 7)
      \<and> (drift_load_gate h c = None \<and> drift_gate h c = None) \<and> freeze_gate h opts c = None \<and> conflict_gate p = None
      \<and> (root_load_gate h p c = None \<and> root_gate h p c = None) \<and> totals_gate p = None"
    unfolding run_gates_pass by (auto simp: contract_gates_def abort_gate_def)
  ultimately show ?thesis
    unfolding environment_gates drift_gates freeze_gate_open conflict_gate_open root_gates totals_gate_open admissible_def
    using environment_gates [of h p opts] by (auto simp: ab)
qed

section \<open>What the parts of a run do\<close>

text \<open>The events of the steps and of the transaction, without the record of the run and the lock.\<close>

definition working :: "exec_event \<Rightarrow> bool" where
  "working e = (case e of Announced t \<Rightarrow> True | Read s t \<Rightarrow> True | Flow a \<Rightarrow> True | Meta t \<Rightarrow> True | TriggersProbed \<Rightarrow> True
     | _ \<Rightarrow> False)"

definition finishes :: "exec_event list \<Rightarrow> (run_status \<times> applied_totals option) list" where
  "finishes es = concat (map (\<lambda>e. case e of SinkFinished s t \<Rightarrow> [(s, t)] | _ \<Rightarrow> []) es)"

definition transaction_of :: "exec_event list \<Rightarrow> tx_event list" where
  "transaction_of es = concat (map (\<lambda>e. case e of Meta t \<Rightarrow> [t] | _ \<Rightarrow> []) es)"

lemma working_simps [simp]:
  "working (Announced t)" "working (Read s t)" "working (Flow a)" "working (Meta m)" "working TriggersProbed"
  by (simp_all add: working_def)

lemma finishes_simps [simp]:
  "finishes [] = []" "finishes (e # es) = (case e of SinkFinished s t \<Rightarrow> [(s, t)] | _ \<Rightarrow> []) @ finishes es"
  "finishes (xs @ ys) = finishes xs @ finishes ys"
  by (simp_all add: finishes_def)

lemma transaction_of_simps [simp]:
  "transaction_of [] = []" "transaction_of (e # es) = (case e of Meta t \<Rightarrow> [t] | _ \<Rightarrow> []) @ transaction_of es"
  "transaction_of (xs @ ys) = transaction_of xs @ transaction_of ys"
  by (simp_all add: transaction_of_def)

lemma transaction_of_map [simp]: "transaction_of (map Meta ts) = ts" "transaction_of (map Flow fs) = []"
  "transaction_of (map (Read s) qs) = []"
  by (induction ts, simp_all) (induction fs, simp_all, induction qs, simp_all)

lemma working_effects:
  "list_all working es \<Longrightarrow> finishes es = [] \<and> SinkStarted \<notin> set es \<and> (\<forall>ok. UnlockedSource ok \<notin> set es)"
  by (induction es) (auto simp: working_def split: exec_event.splits)

lemma harmless_effects:
  "list_all harmless es \<Longrightarrow> list_all working es \<and> transaction_of es = [] \<and> (\<forall>a. Flow a \<notin> set es)"
  by (induction es) (auto simp: harmless_def split: exec_event.splits)

lemma prepare_run_harmless: "list_all harmless (fst (prepare_run h p c))"
  by (auto simp: prepare_run_def Let_def list_all_iff)

lemma run_part_working: "list_all working (fst (run_part r pr deploy i steps))"
  "transaction_of (fst (run_part r pr deploy i steps)) = []"
  by (auto simp: run_part_def list_all_iff split: prod.split sum.split flow_error.split)

lemma probe_triggers_reads: "list_all working (fst (probe_triggers h d tabs))"
  "transaction_of (fst (probe_triggers h d tabs)) = []"
  by (auto simp: probe_triggers_def list_all_iff split: sum.split)

lemma metadata_part_working: "list_all working (fst (metadata_part h p c pr))"
  using probe_triggers_reads(1) by (auto simp: metadata_part_def Let_def list_all_iff split: prod.split)

lemma metadata_part_transaction:
  "transaction_of (fst (metadata_part h p c pr)) = snd (run_metadata_sync (metadata_input_of h p c pr) [])"
  by (auto simp: metadata_part_def Let_def probe_triggers_reads split: prod.split)

lemma metadata_part_end:
  "snd (metadata_part h p c pr) = (case fst (run_metadata_sync (metadata_input_of h p c pr) []) of
     Inl e \<Rightarrow> Inl (BodyFailed (MetadataCause e)) | Inr totals \<Rightarrow> Inr totals)"
  by (auto simp: metadata_part_def Let_def split: prod.split)

text \<open>The body is the steps before, the transaction and the steps after, as far as it gets.\<close>

lemma run_body_cases:
  fixes h opts p c pr
  defines "r \<equiv> flow_run_of h opts p c pr" and "f \<equiv> pr_flow pr"
  obtains (before) es b where "run_part r pr False 0 (sf_before f) = (es, Inl b)" "run_body h opts p c pr = (es, b)"
    | (metadata) e1 w1 e2 b where "run_part r pr False 0 (sf_before f) = (e1, Inr w1)"
        "metadata_part h p c pr = (e2, Inl b)" "run_body h opts p c pr = (e1 @ e2, b)"
    | (after) e1 w1 e2 t e3 b where "run_part r pr False 0 (sf_before f) = (e1, Inr w1)"
        "metadata_part h p c pr = (e2, Inr t)" "run_part r pr True (length (sf_before f) + 1) (sf_after f) = (e3, Inl b)"
        "run_body h opts p c pr = (e1 @ e2 @ e3, b)"
    | (finished) e1 w1 e2 t e3 w3 where "run_part r pr False 0 (sf_before f) = (e1, Inr w1)"
        "metadata_part h p c pr = (e2, Inr t)" "run_part r pr True (length (sf_before f) + 1) (sf_after f) = (e3, Inr w3)"
        "run_body h opts p c pr = (e1 @ e2 @ e3, BodyDone t (w1 @ w3))"
proof -
  obtain e1 a where 1: "run_part r pr False 0 (sf_before f) = (e1, a)" by fastforce
  obtain e2 m where 2: "metadata_part h p c pr = (e2, m)" by fastforce
  obtain e3 z where 3: "run_part r pr True (length (sf_before f) + 1) (sf_after f) = (e3, z)" by fastforce
  note d = run_body_def [of h opts p c pr, folded r_def f_def, unfolded Let_def]
  show ?thesis
  proof (cases a)
    case (Inl b)
    then show ?thesis using before 1 d by (simp add: r_def f_def)
  next
    case a: (Inr w1)
    show ?thesis
    proof (cases m)
      case (Inl b)
      then show ?thesis using metadata 1 2 a d by (simp add: r_def f_def)
    next
      case m: (Inr t)
      show ?thesis
      proof (cases z)
        case (Inl b)
        then show ?thesis using after 1 2 3 a m d by (simp add: r_def f_def)
      next
        case (Inr w3)
        then show ?thesis using finished 1 2 3 a m d by (simp add: r_def f_def)
      qed
    qed
  qed
qed

lemma run_body_working: "list_all working (fst (run_body h opts p c pr))"
  using run_part_working(1) metadata_part_working
  by (cases rule: run_body_cases [of h opts p c pr]) (metis fst_conv list_all_append)+

lemma finish_run_effects:
  "SinkStarted \<notin> set (fst (finish_run h b)) \<and> (\<forall>ok. UnlockedSource ok \<notin> set (fst (finish_run h b)))
    \<and> transaction_of (fst (finish_run h b)) = []
    \<and> length (finishes (fst (finish_run h b))) = (if isl (snd (finish_run h b)) then 0 else 1)"
  by (auto simp: finish_run_def split: body_end.split)

lemma unlock_source_effects [simp]:
  "SinkStarted \<notin> set (unlock_source h c pr)" "finishes (unlock_source h c pr) = []" "transaction_of (unlock_source h c pr) = []"
  by (auto simp: unlock_source_def)

lemma execute_inner_effects:
  "SinkStarted \<notin> set (fst (execute_inner h opts p c))
    \<and> length (finishes (fst (execute_inner h opts p c))) = (if isl (snd (execute_inner h opts p c)) then 0 else 1)"
proof -
  obtain es r where pr: "prepare_run h p c = (es, r)" by fastforce
  then have es: "list_all working es" using prepare_run_harmless [of h p c] harmless_effects by fastforce
  show ?thesis
  proof (cases r)
    case (Inl stop)
    then show ?thesis using pr working_effects [OF es] by (simp add: execute_inner_def)
  next
    case (Inr q)
    obtain e1 b where b: "run_body h opts p c q = (e1, b)" by fastforce
    then have e1: "list_all working e1" using run_body_working [of h opts p c q] by simp
    obtain e2 res where f: "finish_run h b = (e2, res)" by fastforce
    show ?thesis
      using pr Inr b f working_effects [OF es] working_effects [OF e1] finish_run_effects [of h b]
      by (simp add: execute_inner_def)
  qed
qed

section \<open>Before the run starts\<close>

lemma take_harmless: "list_all harmless es \<Longrightarrow> takeWhile (\<lambda>e. e \<noteq> SinkStarted) (es @ xs) = es @ takeWhile (\<lambda>e. e \<noteq> SinkStarted) xs"
  by (induction es) auto

lemma execute_plan_shape:
  "(\<exists>c es. pl_contract p = Some c \<and> snd (run_gates (plan_gates h opts p)) = None
      \<and> snd (run_gates (contract_gates h opts p c)) = None \<and> list_all harmless es
      \<and> execute_plan h opts p = (es @ SinkStarted # Announced ''started'' # StartedEvent # fst (execute_inner h opts p c),
           snd (execute_inner h opts p c)))
   \<or> (\<exists>es stop. execute_plan h opts p = (es, Inl stop) \<and> list_all harmless es
      \<and> (snd (run_gates (plan_gates h opts p)) \<noteq> None \<or> pl_contract p = None
         \<or> snd (run_gates (contract_gates h opts p (the (pl_contract p)))) \<noteq> None))"
proof -
  obtain es s where g: "run_gates (plan_gates h opts p) = (es, s)" by fastforce
  have h1: "list_all harmless es" using plan_gates_harmless [of h opts p] g by simp
  show ?thesis
  proof (cases s)
    case (Some stop)
    then show ?thesis using g h1 by (simp add: execute_plan_def)
  next
    case None
    show ?thesis
    proof (cases "pl_contract p")
      case None
      then show ?thesis using g h1 \<open>s = None\<close> by (simp add: execute_plan_def)
    next
      case (Some c)
      obtain es2 s2 where g2: "run_gates (contract_gates h opts p c) = (es2, s2)" by fastforce
      have h2: "list_all harmless es2" using contract_gates_harmless [of h opts p c] g2 by simp
      obtain es3 res where i: "execute_inner h opts p c = (es3, res)" by fastforce
      show ?thesis
        using g g2 h1 h2 Some \<open>s = None\<close> i by (cases s2) (auto simp: execute_plan_def)
    qed
  qed
qed

lemma execute_sync_shape:
  obtains (started) p c es s where "fst (load_plan (eh_plan_sink h) (eh_now h) k store) = Some p" "pl_contract p = Some c"
      "eo_confirm opts" "not_aborted_before h 8" "admissible h opts p c" "list_all harmless es"
      "execute_sync h opts k store = (snd (execute_inner h opts p c),
         es @ SinkStarted # Announced ''started'' # StartedEvent # fst (execute_inner h opts p c), s)"
  | (stopped) es stop s where "execute_sync h opts k store = (Inl stop, es, s)" "list_all harmless es"
      "\<not> (eo_confirm opts \<and> not_aborted_before h 8 \<and> (\<exists>p c. fst (load_plan (eh_plan_sink h) (eh_now h) k store) = Some p
         \<and> pl_contract p = Some c \<and> admissible h opts p c))"
proof (cases "eo_confirm opts \<and> \<not> eh_aborted h 0")
  case False
  then have "\<not> (eo_confirm opts \<and> not_aborted_before h 8)"
    by (auto simp: not_aborted_before_def list_all_iff)
  moreover have "\<exists>stop s. execute_sync h opts k store = (Inl stop, [], s)"
    using False by (cases "eo_confirm opts") (simp_all add: execute_sync_def)
  then obtain stop s where "execute_sync h opts k store = (Inl stop, [], s)" by blast
  moreover have "list_all harmless []" by simp
  ultimately show ?thesis using stopped by blast
next
  case True
  obtain q s where l: "load_plan (eh_plan_sink h) (eh_now h) k store = (q, s)" by fastforce
  show ?thesis
  proof (cases q)
    case None
    then show ?thesis using True l stopped by (simp add: execute_sync_def)
  next
    case (Some p)
    have x: "execute_sync h opts k store = (snd (execute_plan h opts p), Announced ''load'' # fst (execute_plan h opts p), s)"
      using True l Some by (simp add: execute_sync_def split: prod.split)
    show ?thesis
    proof (rule disjE [OF execute_plan_shape [of p h opts]], goal_cases)
      case 1
      then obtain c es where a: "pl_contract p = Some c" "snd (run_gates (plan_gates h opts p)) = None"
        "snd (run_gates (contract_gates h opts p c)) = None" "list_all harmless es"
        "execute_plan h opts p = (es @ SinkStarted # Announced ''started'' # StartedEvent # fst (execute_inner h opts p c),
           snd (execute_inner h opts p c))"
        by blast
      show ?thesis
        using started [of p c "Announced ''load'' # es" s] a x l Some True gates_open [of opts h p c] by simp
    next
      case 2
      then obtain es stop where a: "execute_plan h opts p = (es, Inl stop)" "list_all harmless es"
        "snd (run_gates (plan_gates h opts p)) \<noteq> None \<or> pl_contract p = None
         \<or> snd (run_gates (contract_gates h opts p (the (pl_contract p)))) \<noteq> None"
        by blast
      have "\<not> (eo_confirm opts \<and> not_aborted_before h 8 \<and> (\<exists>p' c. q = Some p'
         \<and> pl_contract p' = Some c \<and> admissible h opts p' c))"
        using a(3) Some gates_open [of opts h p "the (pl_contract p)"] by auto
      then show ?thesis
        using stopped [of stop "Announced ''load'' # es" s] a x l by simp
    qed
  qed
qed

section \<open>When a run succeeds\<close>







section \<open>The transaction inside the run\<close>

definition committed :: "exec_event list \<Rightarrow> bool" where
  "committed es = (Meta (Called CommitTx True) \<in> set es)"

definition flow_events :: "exec_event list \<Rightarrow> flow_act list" where
  "flow_events es = concat (map (\<lambda>e. case e of Flow a \<Rightarrow> [a] | _ \<Rightarrow> []) es)"

text \<open>The transaction of a run is one block of its trace; what it wrote is kept if it was committed and none
  of it otherwise; and no flow step is run after a transaction that was not committed.\<close>

definition atomic_run :: "exec_event list \<Rightarrow> bool" where
  "atomic_run es = (\<exists>pre post. es = pre @ map Meta (transaction_of es) @ post
     \<and> kept_writes [] (transaction_of es) = (if committed es then filter is_write (transaction_of es) else [])
     \<and> (committed es \<or> transaction_of es = [] \<or> flow_events post = []))"

lemma committed_simps [simp]:
  "\<not> committed []" "committed (e # es) = (e = Meta (Called CommitTx True) \<or> committed es)"
  "committed (xs @ ys) = (committed xs \<or> committed ys)" "\<not> committed (map Flow fs)"
  by (auto simp: committed_def)

lemma flow_events_simps [simp]:
  "flow_events [] = []" "flow_events (e # es) = (case e of Flow a \<Rightarrow> [a] | _ \<Rightarrow> []) @ flow_events es"
  "flow_events (xs @ ys) = flow_events xs @ flow_events ys"
  by (simp_all add: flow_events_def)

lemma no_transaction: "transaction_of es = [] \<Longrightarrow> \<not> committed es \<and> atomic_run es"
proof -
  assume a: "transaction_of es = []"
  then have "\<not> committed es" by (induction es) (auto split: exec_event.splits)
  then show ?thesis using a unfolding atomic_run_def by (intro conjI exI [of _ es] exI [of _ "[]"]) auto
qed

lemma committed_map [simp]: "committed (map Meta ts) \<longleftrightarrow> Called CommitTx True \<in> set ts"
  by (auto simp: committed_def)

lemma quiet_no_commit: "quiet evs \<Longrightarrow> Called CommitTx ok \<notin> set evs"
  by (induction evs) (auto simp: control_event_def)

lemma commit_of_shape: "transaction_shape i r evs \<Longrightarrow> Called CommitTx True \<in> set evs \<longleftrightarrow> \<not> isl r"
  by (auto simp: transaction_shape_def undo_shape_def restores_all_def dest!: quiet_no_commit
      split: sum.splits metadata_failure.splits if_splits)

lemma transaction_facts:
  fixes i
  defines "evs \<equiv> snd (run_metadata_sync i [])" and "r \<equiv> fst (run_metadata_sync i [])"
  shows "kept_writes [] evs = (if isl r then [] else filter is_write evs)" "Called CommitTx True \<in> set evs \<longleftrightarrow> \<not> isl r"
    "evs \<noteq> []"
proof -
  have s: "transaction_shape i r evs" using run_metadata_shape [of i "[]"] by (simp add: evs_def r_def)
  show "kept_writes [] evs = (if isl r then [] else filter is_write evs)" by (rule kept_of_shape [OF s])
  show "Called CommitTx True \<in> set evs \<longleftrightarrow> \<not> isl r" by (rule commit_of_shape [OF s])
  show "evs \<noteq> []" using s by (auto simp: transaction_shape_def split: sum.splits metadata_failure.splits)
qed

text \<open>Everything around the transaction.\<close>

lemma atomic_around:
  assumes "transaction_of pre = []" "transaction_of post = []" "fst (run_metadata_sync i []) = r"
    and "isl r \<Longrightarrow> flow_events post = []"
  shows "atomic_run (pre @ map Meta (snd (run_metadata_sync i [])) @ post)
     \<and> committed (pre @ map Meta (snd (run_metadata_sync i [])) @ post) = (\<not> isl r)"
proof -
  note f = transaction_facts [of i, unfolded assms(3)]
  have c: "committed (pre @ map Meta (snd (run_metadata_sync i [])) @ post) = (\<not> isl r)"
    using no_transaction [OF assms(1)] no_transaction [OF assms(2)] f(2) by simp
  show ?thesis
    using assms f c unfolding atomic_run_def
    by (intro conjI exI [of _ pre] exI [of _ post]) auto
qed

lemma flow_events_reads [simp]: "list_all harmless es \<Longrightarrow> flow_events es = []"
  by (induction es) (auto simp: harmless_def split: exec_event.splits)

lemma metadata_part_block:
  obtains pre post where "fst (metadata_part h p c pr) = pre @ map Meta (snd (run_metadata_sync (metadata_input_of h p c pr) [])) @ post"
    "transaction_of pre = []" "transaction_of post = []"
    "\<not> isl (fst (run_metadata_sync (metadata_input_of h p c pr) [])) \<or> post = []"
proof -
  let ?m = "run_metadata_sync (metadata_input_of h p c pr) []" and ?st = "sf_metadata (pr_flow pr)"
  let ?es = "fst (probe_triggers h (pr_target_dialect pr) (data_movement_tables (pl_tables p)))"
  let ?post = "if isl (fst ?m) then [] else [Announced (fs_id ?st @ ''-done''), Flow (StepEvent (fs_id ?st @ ''-done''))]"
  have "fst (metadata_part h p c pr) = (?es @ [Announced (fs_id ?st), Flow (StepEvent (fs_id ?st))]) @ map Meta (snd ?m) @ ?post"
    by (simp add: metadata_part_def Let_def split: prod.split)
  then show ?thesis by (rule that) (auto simp: probe_triggers_reads)
qed

text \<open>Whatever surrounds the body of a run keeps it atomic.\<close>

lemma run_body_atomic:
  assumes "transaction_of as = []" "transaction_of bs = []" "flow_events bs = []"
  shows "atomic_run (as @ fst (run_body h opts p c pr) @ bs)
     \<and> (\<forall>t ws. snd (run_body h opts p c pr) = BodyDone t ws \<longrightarrow> committed (as @ fst (run_body h opts p c pr) @ bs))"
proof -
  let ?i = "metadata_input_of h p c pr"
  obtain pre post where m: "fst (metadata_part h p c pr) = pre @ map Meta (snd (run_metadata_sync ?i [])) @ post"
    "transaction_of pre = []" "transaction_of post = []" "\<not> isl (fst (run_metadata_sync ?i [])) \<or> post = []"
    by (rule metadata_part_block [of h p c pr])
  note parts = run_part_working(2) [of "flow_run_of h opts p c pr" pr]
  show ?thesis
  proof (cases rule: run_body_cases [of h opts p c pr])
    case (before es b)
    have "\<nexists>t ws. b = BodyDone t ws"
      using before(1) by (auto simp: run_part_def split: prod.splits sum.splits flow_error.splits if_splits)
    moreover have "transaction_of es = []" using before(1) parts [of False 0 "sf_before (pr_flow pr)"] by simp
    ultimately show ?thesis using before(2) assms no_transaction [of "as @ es @ bs"] by simp
  next
    case (metadata e1 w1 e2 b)
    have e1: "transaction_of e1 = []" using metadata(1) parts [of False 0 "sf_before (pr_flow pr)"] by simp
    have l: "isl (fst (run_metadata_sync ?i []))" "\<nexists>t ws. b = BodyDone t ws"
      using metadata(2) metadata_part_end [of h p c pr] by (auto split: sum.splits)
    have "as @ fst (run_body h opts p c pr) @ bs = (as @ e1 @ pre) @ map Meta (snd (run_metadata_sync ?i [])) @ bs"
      using metadata(2,3) m(1,4) l(1) by simp
    then show ?thesis
      using atomic_around [of "as @ e1 @ pre" bs ?i] e1 m assms l metadata(3) by simp
  next
    case (after e1 w1 e2 t e3 b)
    have e: "transaction_of e1 = []" "transaction_of e3 = []"
      using after(1,3) parts [of False 0 "sf_before (pr_flow pr)"]
        parts [of True "length (sf_before (pr_flow pr)) + 1" "sf_after (pr_flow pr)"] by simp_all
    have l: "\<not> isl (fst (run_metadata_sync ?i []))" "\<nexists>t ws. b = BodyDone t ws"
      using after(2,3) metadata_part_end [of h p c pr]
      by (auto simp: run_part_def split: sum.splits prod.splits flow_error.splits if_splits)
    have "as @ fst (run_body h opts p c pr) @ bs = (as @ e1 @ pre) @ map Meta (snd (run_metadata_sync ?i [])) @ (post @ e3 @ bs)"
      using after(2,4) m(1) by simp
    then show ?thesis
      using atomic_around [of "as @ e1 @ pre" "post @ e3 @ bs" ?i] e m assms l after(4) by simp
  next
    case (finished e1 w1 e2 t e3 w3)
    have e: "transaction_of e1 = []" "transaction_of e3 = []"
      using finished(1,3) parts [of False 0 "sf_before (pr_flow pr)"]
        parts [of True "length (sf_before (pr_flow pr)) + 1" "sf_after (pr_flow pr)"] by simp_all
    have l: "\<not> isl (fst (run_metadata_sync ?i []))"
      using finished(2) metadata_part_end [of h p c pr] by (auto split: sum.splits)
    have "as @ fst (run_body h opts p c pr) @ bs = (as @ e1 @ pre) @ map Meta (snd (run_metadata_sync ?i [])) @ (post @ e3 @ bs)"
      using finished(2,4) m(1) by simp
    then show ?thesis
      using atomic_around [of "as @ e1 @ pre" "post @ e3 @ bs" ?i] e m assms l finished(4) by simp
  qed
qed

lemma finish_flow_events: "flow_events (fst (finish_run h b)) = []" "flow_events (unlock_source h c pr) = []"
  by (auto simp: finish_run_def unlock_source_def split: body_end.split)

text \<open>What a result promises about the metadata.\<close>

definition promises_commit :: "exec_stop + exec_result \<Rightarrow> bool" where
  "promises_commit r = (case r of Inr RunSucceeded \<Rightarrow> True | Inr (RunWithWarnings ws) \<Rightarrow> True | _ \<Rightarrow> False)"

lemma execute_inner_atomic:
  assumes "transaction_of as = []"
  shows "atomic_run (as @ fst (execute_inner h opts p c))
    \<and> (promises_commit (snd (execute_inner h opts p c)) \<longrightarrow> committed (as @ fst (execute_inner h opts p c)))"
proof -
  obtain es r where pr: "prepare_run h p c = (es, r)" by fastforce
  then have es: "transaction_of es = []" using prepare_run_harmless [of h p c] harmless_effects by fastforce
  show ?thesis
  proof (cases r)
    case (Inl stop)
    then show ?thesis using pr es assms no_transaction [of "as @ es"] by (simp add: execute_inner_def promises_commit_def)
  next
    case (Inr q)
    let ?b = "run_body h opts p c q"
    have x: "execute_inner h opts p c = (es @ fst ?b @ fst (finish_run h (snd ?b)) @ unlock_source h c q, snd (finish_run h (snd ?b)))"
      using pr Inr by (simp add: execute_inner_def Let_def split: prod.split)
    have ended: "promises_commit (snd (finish_run h (snd ?b))) \<longleftrightarrow> (\<exists>t ws. snd ?b = BodyDone t ws)"
      by (auto simp: promises_commit_def finish_run_def split: body_end.split)
    show ?thesis
      using run_body_atomic [of "as @ es" "fst (finish_run h (snd ?b)) @ unlock_source h c q" h opts p c q]
        es assms finish_run_effects [of h "snd ?b"] finish_flow_events ended
      by (auto simp: x)
  qed
qed

section \<open>Properties of the execution\<close>

text \<open>C2: the gates of \<open>executeSync\<close>. A run is started exactly when the call is confirmed, the signal was
  quiet, and the stored plan is admissible: less than an hour old, its contract still the published one, both
  environments known, with enough rights, ready connectors and an allowed direction, the catalogs equal on
  every column of the plan's tables, no freeze window open (or overridden), no conflict, the root row there
  or inserted, and the totals right. Whatever happens, all the program does before it starts the run is to
  report and to read.\<close>

theorem run_starts_iff_admissible:
  "(SinkStarted \<in> set (fst (snd (execute_sync h opts k store))) \<longleftrightarrow>
      eo_confirm opts \<and> not_aborted_before h 8 \<and> (\<exists>p c. fst (load_plan (eh_plan_sink h) (eh_now h) k store) = Some p
        \<and> pl_contract p = Some c \<and> admissible h opts p c))
   \<and> list_all harmless (takeWhile (\<lambda>e. e \<noteq> SinkStarted) (fst (snd (execute_sync h opts k store))))"
proof (cases rule: execute_sync_shape [of h k store opts])
  case (started p c es s)
  then show ?thesis by (auto simp: take_harmless)
next
  case (stopped es stop s)
  then have "SinkStarted \<notin> set es" using harmless_effects working_effects by blast
  moreover have "list_all harmless (takeWhile (\<lambda>e. e \<noteq> SinkStarted) es)"
    using stopped(2) by (auto simp: list_all_iff dest: set_takeWhileD)
  ultimately show ?thesis using stopped by auto
qed


text \<open>C4: a run is atomic on the metadata of its target. The transaction is one block of its trace; its writes
  are all kept when it was committed and none is otherwise; without a commit no flow step follows the
  transaction; and a result that speaks of applied totals only comes from a commit.\<close>

theorem sync_run_atomic:
  "atomic_run (fst (snd (execute_sync h opts k store)))
   \<and> (if promises_commit (fst (execute_sync h opts k store)) then committed (fst (snd (execute_sync h opts k store))) else True)"
proof (cases rule: execute_sync_shape [of h k store opts])
  case (started p c es s)
  have "transaction_of (es @ [SinkStarted, Announced ''started'', StartedEvent]) = []"
    using harmless_effects [OF started(6)] by simp
  from execute_inner_atomic [OF this, of h opts p c] started(7) show ?thesis by simp
next
  case (stopped es stop s)
  then show ?thesis using harmless_effects no_transaction [of es] by (auto simp: promises_commit_def)
qed

text \<open>C14: the record of a run. A call that returns a result has finished the recorded run exactly once; a call
  that is refused or throws has not, even if it had started the run.\<close>

theorem run_finished_once:
  "length (finishes (fst (snd (execute_sync h opts k store)))) = (if isl (fst (execute_sync h opts k store)) then 0 else 1)
   \<and> length (filter (\<lambda>e. e = SinkStarted) (fst (snd (execute_sync h opts k store)))) \<le> 1"
proof (cases rule: execute_sync_shape [of h k store opts])
  case (started p c es s)
  have e: "finishes es = []" "filter (\<lambda>e. e = SinkStarted) es = []"
    using working_effects [of es] harmless_effects [OF started(6)] by (auto simp: filter_empty_conv)
  have "filter (\<lambda>e. e = SinkStarted) (fst (execute_inner h opts p c)) = []"
    using execute_inner_effects [of h opts p c] by (auto simp: filter_empty_conv)
  then show ?thesis using started(7) e execute_inner_effects [of h opts p c] by simp
next
  case (stopped es stop s)
  then have "finishes es = []" "filter (\<lambda>e. e = SinkStarted) es = []"
    using working_effects [of es] harmless_effects [of es] by (auto simp: filter_empty_conv)
  then show ?thesis using stopped(1) by simp
qed

section \<open>Runs that are never finished\<close>

text \<open>A Postgres target with any flow step: the run is recorded as started, then refused.\<close>

lemma postgres_steps_refused_late:
  assumes "sc_catalog c = Some cat" "schedule_flow_steps (sc_steps c) = Inr f" "has_steps f"
    and "dialect_of h (pl_target p) = Postgres" "\<not> eh_aborted h 8" "\<not> eh_aborted h 9"
  shows "snd (execute_inner h opts p c) = Inl (Refuse PostgresFlowSteps)"
  using assms by (auto simp: execute_inner_def prepare_run_def postgres_refusal_def Let_def)

text \<open>An MSSQL target, a Postgres source and a step after the transaction: the metadata is committed, and the
  call then refuses.\<close>

lemma refused_after_commit:
  assumes "sf_before (pr_flow pr) = []" "sf_after (pr_flow pr) \<noteq> []" "\<not> pr_source_pool pr"
    and "fst (run_metadata_sync (metadata_input_of h p c pr) []) = Inr totals"
  shows "snd (run_body h opts p c pr) = BodyRefused AfterStepsNeedPools
     \<and> Called CommitTx True \<in> set (transaction_of (fst (run_body h opts p c pr)))"
proof (cases rule: run_body_cases [of h opts p c pr])
  case (after e1 w1 e2 t e3 b)
  have "transaction_of e2 = snd (run_metadata_sync (metadata_input_of h p c pr) [])"
    using metadata_part_transaction [of h p c pr] after(2) by simp
  then show ?thesis
    using after assms transaction_facts(2) [of "metadata_input_of h p c pr"] by (auto simp: run_part_def)
qed (use assms metadata_part_end [of h p c pr] in \<open>auto simp: run_part_def\<close>)

lemma postgres_source_has_no_pool:
  "prepare_run h p c = (es, Inr pr) \<Longrightarrow> dialect_of h (pl_source p) = Postgres \<Longrightarrow> \<not> pr_source_pool pr"
  by (auto simp: prepare_run_def resolve_pools_def Let_def split: if_splits option.splits sum.splits prod.splits)

section \<open>A gate that stops too late\<close>

text \<open>An audit step after the transaction that answers \<open>stop\<close>: the run is recorded as skipped, with no rows,
  although its metadata was committed.\<close>

lemma skipped_after_commit:
  assumes "run_part (flow_run_of h opts p c pr) pr False 0 (sf_before (pr_flow pr)) = (e1, Inr w1)"
    and "fst (run_metadata_sync (metadata_input_of h p c pr) []) = Inr totals"
    and "run_part (flow_run_of h opts p c pr) pr True (length (sf_before (pr_flow pr)) + 1) (sf_after (pr_flow pr))
      = (e3, Inl (BodySkipped step msg))"
  shows "finishes (fst (finish_run h (snd (run_body h opts p c pr)))) = [(StatusSkipped, Some no_totals)]
     \<and> Called CommitTx True \<in> set (transaction_of (fst (run_body h opts p c pr)))"
proof (cases rule: run_body_cases [of h opts p c pr])
  case (after e1' w1' e2 t e3' b)
  have "transaction_of e2 = snd (run_metadata_sync (metadata_input_of h p c pr) [])"
    using metadata_part_transaction [of h p c pr] after(2) by simp
  then show ?thesis
    using after assms transaction_facts(2) [of "metadata_input_of h p c pr"] by (simp add: finish_run_def)
qed (use assms metadata_part_end [of h p c pr] in auto)

section \<open>The contract lock\<close>

text \<open>Every prepared run of a contract with a lock step ends with the release of the lock, whether its own lock
  step was reached or not.\<close>

lemma lock_released_whatever_happened:
  assumes "snd (prepare_run h p c) = Inr pr" "sc_definition_id c = ''contract''" "lock_step_present c" "pr_source_pool pr"
  shows "last (fst (execute_inner h opts p c)) = UnlockedSource (\<not> isl (eh_unlock h))"
proof -
  obtain es where "prepare_run h p c = (es, Inr pr)" using assms(1) by (cases "prepare_run h p c") simp
  then show ?thesis using assms by (simp add: execute_inner_def unlock_source_def Let_def split: prod.split)
qed

section \<open>Examples\<close>

definition example_environment :: "string \<Rightarrow> string \<Rightarrow> sync_environment" where
  "example_environment name connector = \<lparr>se_name = name, se_connector_id = Some connector, se_display_name = name, se_color = [],
     se_role = BothRoles, se_ring_order = 0, se_agent_url = None, se_etl_url = None, se_gate_url = None, se_service_urls = [],
     se_allowed_sync = None, se_access_mode = ReadWriteMode, se_allowed_operations = [], se_deny_dml = False,
     se_deny_ddl = False, se_approval_operations = []\<rparr>"

definition example_flow_host :: flow_host where
  "example_flow_host = \<lparr>ho_procedure = \<lambda>n c. Inr [], ho_batch = \<lambda>n c. Inl [], ho_http = \<lambda>n c. Inl [], ho_shell = \<lambda>n c. Inl [],
     ho_lookup = \<lambda>n l q d. Inl [], ho_environments = [], ho_platform = AnyShell\<rparr>"

text \<open>A target on MSSQL and a source on the given dialect; the databases hold one table and answer every call.\<close>

definition example_execute_host :: "dialect_kind \<Rightarrow> execute_host" where
  "example_execute_host source = \<lparr>eh_now = 1000, eh_plan_sink = \<lambda>k. Inr None, eh_needs_republish = \<lambda>e. False,
     eh_environments = [(''dev'', example_environment ''dev'' ''c1''), (''uat'', example_environment ''uat'' ''c2'')],
     eh_connectors = Inr [''c1'', ''c2''], eh_dialect_of = \<lambda>c. Some (if c = ''c1'' then source else Mssql),
     eh_default_dialect = None,
     eh_catalog = \<lambda>s q. Inr [\<lparr>ct_schema = ''core'', ct_table = ''Rule'', ct_column = ''id'', ct_type = ''int'', ct_length = None\<rparr>],
     eh_freeze_registry = [], eh_root_query = \<lambda>q. Inr [], eh_primary_keys = \<lambda>t. Inr [[(''name'', SqlText ''id'')]],
     eh_trigger_batch = \<lambda>ts. Inr [], eh_trigger_count = \<lambda>t. Inr [], eh_pool = \<lambda>s. Inr True, eh_unlock = Inr (),
     eh_tx = \<lambda>n c. Inr empty_answer, eh_flow = example_flow_host, eh_aborted = \<lambda>n. False\<rparr>"

definition example_options :: execute_options where
  "example_options = \<lparr>eo_confirm = True, eo_ready_ids = None, eo_override_freeze = False, eo_user_upn = None\<rparr>"

definition example_plan_with :: "flow_step list \<Rightarrow> sync_plan" where
  "example_plan_with steps = \<lparr>pl_entity_type = ''rule'', pl_entity_id = IdNum 1, pl_source = ''dev'', pl_target = ''uat'',
     pl_created_at = 0, pl_tables = [example_table_plan], pl_totals = None,
     pl_contract = Some (example_contract\<lparr>sc_steps := steps, sc_catalog := Some example_catalog\<rparr>)\<rparr>"

definition example_store :: "flow_step list \<Rightarrow> plan_store" where
  "example_store steps = \<lparr>ps_memory = [(''p1'', example_plan_with steps)], ps_disk = None\<rparr>"

lemma example_run_succeeds:
  "fst (execute_sync (example_execute_host Mssql) example_options ''p1'' (example_store [bare_step ''metadataSync'' ''metadataSync'']))
     = Inr RunSucceeded"
  by code_simp

text \<open>With a Postgres source and a step after the transaction the call refuses, having committed.\<close>

lemma example_refused_after_commit:
  "(case execute_sync (example_execute_host Postgres) example_options ''p1'' (example_store example_flow) of
     (res, es, s) \<Rightarrow> res = Inl (Refuse AfterStepsNeedPools) \<and> committed es \<and> SinkStarted \<in> set es \<and> finishes es = [])"
  by code_simp

end
