(* ===== verification/RunModel.thy ===== *)
theory RunModel
  imports Prelude
begin

text \<open>
  The run and step life cycles of \<open>packages/agent/src/domain/types/run-models.ts\<close>:
  the two status enums, the transition tables, the mutating operations
  (\<open>startStep\<close>, \<open>completeRun\<close>, ...) and their immutable counterparts
  (\<open>startStepPure\<close>, ...), which server and governance layers both use.

  A mutating operation returns the object as it is after the call together with
  the error it threw, if any: what a caller that catches the error still sees.
  A pure operation returns \<open>Inl\<close> the error or \<open>Inr\<close> the new object.
  \<open>new Date()\<close> is the argument \<open>now\<close>.
\<close>

section \<open>Data\<close>

datatype step_status = StepPending | StepRunning | StepCompleted | StepFailed | StepSkipped | StepBlocked

datatype run_status =
    RunPending | RunPlanning | RunRunning | RunWaitingForApproval
  | RunCompleted | RunFailed | RunCancelled | RunCrashed

datatype on_error = OnFail | OnSkip | OnContinue

datatype ('k) invalid_transition = InvalidTransition (entity: string) (current: 'k) (target: 'k)

record 'p step =
  s_id :: string
  s_definition_id :: string
  s_name :: string
  s_action :: string
  s_input :: 'p
  s_condition :: "string option"
  s_on_error :: on_error
  s_status :: step_status
  s_order :: int
  s_output :: 'p
  s_error :: "string option"
  s_started_at :: "int option"
  s_completed_at :: "int option"
  s_planner_step_name :: "string option"

record 'p agent_run =
  r_id :: string
  r_workflow_id :: string
  r_input :: 'p
  r_status :: run_status
  r_steps :: "'p step list"
  r_created_at :: int
  r_completed_at :: "int option"

section \<open>Steps\<close>

text \<open>\<open>STEP_TRANSITIONS\<close>: a status without an entry allows nothing.\<close>

fun step_transitions :: "step_status \<Rightarrow> step_status list option" where
  "step_transitions StepPending = Some [StepRunning, StepSkipped, StepBlocked]"
| "step_transitions StepRunning = Some [StepCompleted, StepFailed, StepBlocked, StepSkipped]"
| "step_transitions StepBlocked = Some [StepRunning, StepSkipped]"
| "step_transitions StepFailed = Some [StepRunning]"
| "step_transitions _ = None"

definition transition_step ::
  "'p step \<Rightarrow> step_status \<Rightarrow> step_status invalid_transition + 'p step" where
  "transition_step st tgt =
     (case step_transitions (s_status st) of
        None \<Rightarrow> Inl (InvalidTransition ''Step'' (s_status st) tgt)
      | Some allowed \<Rightarrow>
          if tgt \<in> set allowed then Inr (st\<lparr>s_status := tgt\<rparr>)
          else Inl (InvalidTransition ''Step'' (s_status st) tgt))"

type_synonym 'p step_result = "'p step \<times> step_status invalid_transition option"

definition start_step :: "int \<Rightarrow> 'p step \<Rightarrow> 'p step_result" where
  "start_step now st =
     (case transition_step st StepRunning of
        Inl e \<Rightarrow> (st, Some e)
      | Inr st' \<Rightarrow> (st'\<lparr>s_started_at := Some now\<rparr>, None))"

text \<open>\<open>output ?? {}\<close>: the empty object is the parameter \<open>empty_obj\<close> of the payload type.\<close>

definition complete_step :: "'p \<Rightarrow> int \<Rightarrow> 'p step \<Rightarrow> 'p option \<Rightarrow> 'p step_result" where
  "complete_step empty_obj now st out =
     (case transition_step st StepCompleted of
        Inl e \<Rightarrow> (st, Some e)
      | Inr st' \<Rightarrow>
          (st'\<lparr>s_output := (case out of None \<Rightarrow> empty_obj | Some x \<Rightarrow> x), s_completed_at := Some now\<rparr>, None))"

definition fail_step :: "int \<Rightarrow> 'p step \<Rightarrow> string \<Rightarrow> 'p step_result" where
  "fail_step now st err =
     (case transition_step st StepFailed of
        Inl e \<Rightarrow> (st, Some e)
      | Inr st' \<Rightarrow> (st'\<lparr>s_error := Some err, s_completed_at := Some now\<rparr>, None))"

definition block_step :: "int \<Rightarrow> 'p step \<Rightarrow> string \<Rightarrow> 'p step_result" where
  "block_step now st reason =
     (case transition_step st StepBlocked of
        Inl e \<Rightarrow> (st, Some e)
      | Inr st' \<Rightarrow> (st'\<lparr>s_error := Some reason, s_completed_at := Some now\<rparr>, None))"

definition assert_step_transition_allowed ::
  "'p step \<Rightarrow> step_status \<Rightarrow> step_status invalid_transition + unit" where
  "assert_step_transition_allowed st tgt =
     (case step_transitions (s_status st) of
        None \<Rightarrow> Inl (InvalidTransition ''Step'' (s_status st) tgt)
      | Some allowed \<Rightarrow>
          if tgt \<in> set allowed then Inr ()
          else Inl (InvalidTransition ''Step'' (s_status st) tgt))"

definition start_step_pure ::
  "int \<Rightarrow> 'p step \<Rightarrow> step_status invalid_transition + 'p step" where
  "start_step_pure now st =
     (case assert_step_transition_allowed st StepRunning of
        Inl e \<Rightarrow> Inl e
      | Inr _ \<Rightarrow> Inr (st\<lparr>s_status := StepRunning, s_started_at := Some now\<rparr>))"

definition complete_step_pure ::
  "'p \<Rightarrow> int \<Rightarrow> 'p step \<Rightarrow> 'p option \<Rightarrow> step_status invalid_transition + 'p step" where
  "complete_step_pure empty_obj now st out =
     (case assert_step_transition_allowed st StepCompleted of
        Inl e \<Rightarrow> Inl e
      | Inr _ \<Rightarrow>
          Inr (st\<lparr>s_status := StepCompleted,
                  s_output := (case out of None \<Rightarrow> empty_obj | Some x \<Rightarrow> x),
                  s_completed_at := Some now\<rparr>))"

definition fail_step_pure ::
  "int \<Rightarrow> 'p step \<Rightarrow> string \<Rightarrow> step_status invalid_transition + 'p step" where
  "fail_step_pure now st err =
     (case assert_step_transition_allowed st StepFailed of
        Inl e \<Rightarrow> Inl e
      | Inr _ \<Rightarrow>
          Inr (st\<lparr>s_status := StepFailed, s_error := Some err, s_completed_at := Some now\<rparr>))"

section \<open>Runs\<close>

fun run_transitions :: "run_status \<Rightarrow> run_status list option" where
  "run_transitions RunPending = Some [RunPlanning, RunRunning, RunFailed, RunCrashed]"
| "run_transitions RunPlanning = Some [RunRunning, RunFailed, RunCrashed]"
| "run_transitions RunRunning =
     Some [RunWaitingForApproval, RunCompleted, RunFailed, RunCancelled, RunCrashed]"
| "run_transitions RunWaitingForApproval = Some [RunRunning, RunCancelled, RunCrashed]"
| "run_transitions _ = None"

definition transition_run ::
  "'p agent_run \<Rightarrow> run_status \<Rightarrow> run_status invalid_transition + 'p agent_run" where
  "transition_run r tgt =
     (case run_transitions (r_status r) of
        None \<Rightarrow> Inl (InvalidTransition ''Run'' (r_status r) tgt)
      | Some allowed \<Rightarrow>
          if tgt \<in> set allowed then Inr (r\<lparr>r_status := tgt\<rparr>)
          else Inl (InvalidTransition ''Run'' (r_status r) tgt))"

text \<open>\<open>uuid\<close> is what \<open>randomUUID()\<close> returns.\<close>

definition create_run ::
  "string \<Rightarrow> int \<Rightarrow> string \<Rightarrow> 'p \<Rightarrow> string option \<Rightarrow> 'p agent_run" where
  "create_run uuid now workflow inp custom_id =
     \<lparr>r_id = (case custom_id of None \<Rightarrow> uuid | Some i \<Rightarrow> i),
      r_workflow_id = workflow, r_input = inp, r_status = RunPending, r_steps = [],
      r_created_at = now, r_completed_at = None\<rparr>"

type_synonym 'p run_result = "'p agent_run \<times> run_status invalid_transition option"

definition start_planning :: "'p agent_run \<Rightarrow> 'p run_result" where
  "start_planning r =
     (case transition_run r RunPlanning of Inl e \<Rightarrow> (r, Some e) | Inr r' \<Rightarrow> (r', None))"

text \<open>\<open>startRunning\<close> stores the steps before it checks the transition.\<close>

definition start_running :: "'p agent_run \<Rightarrow> 'p step list \<Rightarrow> 'p run_result" where
  "start_running r steps =
     (let r1 = r\<lparr>r_steps := steps\<rparr>
      in case transition_run r1 RunRunning of Inl e \<Rightarrow> (r1, Some e) | Inr r' \<Rightarrow> (r', None))"

definition complete_run :: "int \<Rightarrow> 'p agent_run \<Rightarrow> 'p run_result" where
  "complete_run now r =
     (case transition_run r RunCompleted of
        Inl e \<Rightarrow> (r, Some e) | Inr r' \<Rightarrow> (r'\<lparr>r_completed_at := Some now\<rparr>, None))"

definition fail_run :: "int \<Rightarrow> 'p agent_run \<Rightarrow> 'p run_result" where
  "fail_run now r =
     (case transition_run r RunFailed of
        Inl e \<Rightarrow> (r, Some e) | Inr r' \<Rightarrow> (r'\<lparr>r_completed_at := Some now\<rparr>, None))"

definition cancel_run :: "int \<Rightarrow> 'p agent_run \<Rightarrow> 'p run_result" where
  "cancel_run now r =
     (case transition_run r RunCancelled of
        Inl e \<Rightarrow> (r, Some e) | Inr r' \<Rightarrow> (r'\<lparr>r_completed_at := Some now\<rparr>, None))"

definition assert_run_transition_allowed ::
  "'p agent_run \<Rightarrow> run_status \<Rightarrow> run_status invalid_transition + unit" where
  "assert_run_transition_allowed r tgt =
     (case run_transitions (r_status r) of
        None \<Rightarrow> Inl (InvalidTransition ''Run'' (r_status r) tgt)
      | Some allowed \<Rightarrow>
          if tgt \<in> set allowed then Inr ()
          else Inl (InvalidTransition ''Run'' (r_status r) tgt))"

type_synonym 'p pure_run_result = "run_status invalid_transition + 'p agent_run"

definition start_planning_pure :: "'p agent_run \<Rightarrow> 'p pure_run_result" where
  "start_planning_pure r =
     (case assert_run_transition_allowed r RunPlanning of
        Inl e \<Rightarrow> Inl e | Inr _ \<Rightarrow> Inr (r\<lparr>r_status := RunPlanning\<rparr>))"

definition start_running_pure :: "'p agent_run \<Rightarrow> 'p step list \<Rightarrow> 'p pure_run_result" where
  "start_running_pure r steps =
     (let updated = r\<lparr>r_steps := steps\<rparr>
      in case assert_run_transition_allowed updated RunRunning of
           Inl e \<Rightarrow> Inl e | Inr _ \<Rightarrow> Inr (updated\<lparr>r_status := RunRunning\<rparr>))"

definition complete_run_pure :: "int \<Rightarrow> 'p agent_run \<Rightarrow> 'p pure_run_result" where
  "complete_run_pure now r =
     (case assert_run_transition_allowed r RunCompleted of
        Inl e \<Rightarrow> Inl e
      | Inr _ \<Rightarrow> Inr (r\<lparr>r_status := RunCompleted, r_completed_at := Some now\<rparr>))"

definition fail_run_pure :: "int \<Rightarrow> 'p agent_run \<Rightarrow> 'p pure_run_result" where
  "fail_run_pure now r =
     (case assert_run_transition_allowed r RunFailed of
        Inl e \<Rightarrow> Inl e
      | Inr _ \<Rightarrow> Inr (r\<lparr>r_status := RunFailed, r_completed_at := Some now\<rparr>))"

definition cancel_run_pure :: "int \<Rightarrow> 'p agent_run \<Rightarrow> 'p pure_run_result" where
  "cancel_run_pure now r =
     (case assert_run_transition_allowed r RunCancelled of
        Inl e \<Rightarrow> Inl e
      | Inr _ \<Rightarrow> Inr (r\<lparr>r_status := RunCancelled, r_completed_at := Some now\<rparr>))"

definition add_step_to_run_pure :: "'p agent_run \<Rightarrow> 'p step \<Rightarrow> 'p agent_run" where
  "add_step_to_run_pure r st = r\<lparr>r_steps := r_steps r @ [st]\<rparr>"

definition replace_step_in_run_pure :: "'p agent_run \<Rightarrow> 'p step \<Rightarrow> 'p agent_run" where
  "replace_step_in_run_pure r st =
     r\<lparr>r_steps := map (\<lambda>s. if s_id s = s_id st then st else s) (r_steps r)\<rparr>"

section \<open>The transition table as an interface\<close>

text \<open>
  Runs and steps are two instances of one contract: a table of allowed targets, a
  status field, and a guarded move that either stores the target or reports the
  rejected pair.
\<close>

locale status_machine =
  fixes table :: "'st \<Rightarrow> 'st list option"
    and status :: "'o \<Rightarrow> 'st"
    and move :: "'o \<Rightarrow> 'st \<Rightarrow> 'st invalid_transition + 'o"
    and name :: string
  assumes move_ok:
      "table (status x) = Some ts \<Longrightarrow> t \<in> set ts \<Longrightarrow> \<exists>y. move x t = Inr y \<and> status y = t"
    and move_bad:
      "(case table (status x) of None \<Rightarrow> True | Some ts \<Rightarrow> t \<notin> set ts) \<Longrightarrow>
        move x t = Inl (InvalidTransition name (status x) t)"
begin

lemma move_Inr_iff:
  "(\<exists>y. move x t = Inr y) \<longleftrightarrow> (\<exists>ts. table (status x) = Some ts \<and> t \<in> set ts)"
  using move_ok [where x = x and t = t] move_bad [where x = x and t = t]
  by (cases "table (status x)") fastforce+

lemma move_InrD: "move x t = Inr y \<Longrightarrow> (\<exists>ts. table (status x) = Some ts \<and> t \<in> set ts) \<and> status y = t"
  using move_Inr_iff [where x = x and t = t] move_ok [where x = x and t = t] by fastforce

lemma terminal_stuck: "table (status x) = None \<Longrightarrow> move x t = Inl (InvalidTransition name (status x) t)"
  by (rule move_bad) simp

end

interpretation step_sm: status_machine step_transitions s_status transition_step "''Step''"
  by unfold_locales (auto simp: transition_step_def split: option.splits)

interpretation run_sm: status_machine run_transitions r_status transition_run "''Run''"
  by unfold_locales (auto simp: transition_run_def split: option.splits)

section \<open>The life of a run as a sequence of operations\<close>

datatype 'p run_op =
    OpStartPlanning | OpStartRunning "'p step list" | OpCompleteRun int | OpFailRun int
  | OpCancelRun int | OpAddStep "'p step" | OpReplaceStep "'p step"

fun run_step :: "'p agent_run \<Rightarrow> 'p run_op \<Rightarrow> 'p agent_run" where
  "run_step r OpStartPlanning = fst (start_planning r)"
| "run_step r (OpStartRunning ss) = fst (start_running r ss)"
| "run_step r (OpCompleteRun now) = fst (complete_run now r)"
| "run_step r (OpFailRun now) = fst (fail_run now r)"
| "run_step r (OpCancelRun now) = fst (cancel_run now r)"
| "run_step r (OpAddStep st) = add_step_to_run_pure r st"
| "run_step r (OpReplaceStep st) = replace_step_in_run_pure r st"

lemmas run_op_defs =
  start_planning_def start_running_def complete_run_def fail_run_def cancel_run_def
  add_step_to_run_pure_def replace_step_in_run_pure_def

lemmas pure_run_defs =
  start_planning_pure_def start_running_pure_def complete_run_pure_def fail_run_pure_def
  cancel_run_pure_def assert_run_transition_allowed_def transition_run_def

text \<open>The completion time is set exactly in the terminal states the operations reach.\<close>

definition completion_consistent :: "'p agent_run \<Rightarrow> bool" where
  "completion_consistent r =
     (r_status r \<noteq> RunCrashed \<longrightarrow>
       (r_completed_at r \<noteq> None \<longleftrightarrow> r_status r \<in> {RunCompleted, RunFailed, RunCancelled}))"

lemma run_step_completion: "completion_consistent r \<Longrightarrow> completion_consistent (run_step r opn)"
  by (cases opn; cases "r_status r")
     (auto simp: completion_consistent_def run_op_defs transition_run_def Let_def)

interpretation run_life: invariant_system run_step completion_consistent
  by unfold_locales (rule run_step_completion)

lemma run_step_terminal:
  "run_transitions (r_status r) = None \<Longrightarrow>
     r_status (run_step r opn) = r_status r \<and> r_completed_at (run_step r opn) = r_completed_at r"
  by (cases opn) (auto simp: run_op_defs run_sm.terminal_stuck Let_def)

lemma run_step_status:
  "r_status (run_step r opn) = r_status r \<or>
     (\<exists>ts. run_transitions (r_status r) = Some ts \<and> r_status (run_step r opn) \<in> set ts)"
  by (cases opn) (auto simp: run_op_defs transition_run_def Let_def split: option.splits)

section \<open>Properties\<close>

definition as_pure :: "'a \<times> 'e option \<Rightarrow> 'e + 'a" where
  "as_pure res = (case snd res of None \<Rightarrow> Inr (fst res) | Some e \<Rightarrow> Inl e)"

text \<open>the immutable helpers and the mutating operations agree: for every run, step,
  time and argument, the pure helper returns the object the mutating operation leaves
  behind, or throws exactly the error the mutating operation throws.\<close>

theorem pure_helpers_agree:
  "start_step_pure now st = as_pure (start_step now st) \<and>
   complete_step_pure empty_obj now st out = as_pure (complete_step empty_obj now st out) \<and>
   fail_step_pure now st err = as_pure (fail_step now st err) \<and>
   start_planning_pure r = as_pure (start_planning r) \<and>
   start_running_pure r ss = as_pure (start_running r ss) \<and>
   complete_run_pure now r = as_pure (complete_run now r) \<and>
   fail_run_pure now r = as_pure (fail_run now r) \<and>
   cancel_run_pure now r = as_pure (cancel_run now r)"
  by (intro conjI)
    (simp_all add: as_pure_def pure_run_defs run_op_defs Let_def start_step_pure_def
      complete_step_pure_def fail_step_pure_def start_step_def complete_step_def fail_step_def
      assert_step_transition_allowed_def transition_step_def split: option.split)

text \<open>C31: from \<open>createRun\<close> on, whatever operations are applied in whatever order,
  accepted or rejected, a run carries a completion time exactly when it has completed,
  failed or been cancelled.\<close>

theorem run_completion_time:
  "completion_consistent (foldl run_step (create_run uuid now workflow inp cid) ops)"
  by (rule run_life.run_inv) (simp add: completion_consistent_def create_run_def)

text \<open>a run that has reached a status without transitions (completed, failed, cancelled,
  crashed) keeps that status and its completion time under every later sequence of
  operations.\<close>

theorem run_terminal_absorbing:
  assumes "run_transitions (r_status r) = None"
  shows "r_status (foldl run_step r ops) = r_status r \<and>
    r_completed_at (foldl run_step r ops) = r_completed_at r"
  using assms
proof (induction ops arbitrary: r)
  case Nil
  then show ?case by simp
next
  case (Cons opn ops)
  with run_step_terminal [OF Cons.prems, of opn] show ?case by simp
qed

theorem run_terminal_absorbing_witness:
  "r_status (foldl run_step
      ((create_run ''u'' 1 ''wf'' (0::nat) None)\<lparr>r_status := RunFailed\<rparr>)
      [OpStartPlanning, OpStartRunning [], OpCompleteRun 9]) = RunFailed"
  using run_terminal_absorbing [of "(create_run ''u'' 1 ''wf'' (0::nat) None)\<lparr>r_status := RunFailed\<rparr>"
      "[OpStartPlanning, OpStartRunning [], OpCompleteRun 9]"]
  by simp

text \<open>a rejected mutating operation throws the attempted pair of statuses and leaves
  the run as it was, with one exception: \<open>startRunning\<close> has by then already
  overwritten the run's steps.\<close>

theorem rejected_run_operation:
  "(snd (start_planning r) = Some e \<longrightarrow> fst (start_planning r) = r \<and>
      e = InvalidTransition ''Run'' (r_status r) RunPlanning) \<and>
   (snd (complete_run now r) = Some e \<longrightarrow> fst (complete_run now r) = r \<and>
      e = InvalidTransition ''Run'' (r_status r) RunCompleted) \<and>
   (snd (fail_run now r) = Some e \<longrightarrow> fst (fail_run now r) = r \<and>
      e = InvalidTransition ''Run'' (r_status r) RunFailed) \<and>
   (snd (cancel_run now r) = Some e \<longrightarrow> fst (cancel_run now r) = r \<and>
      e = InvalidTransition ''Run'' (r_status r) RunCancelled) \<and>
   (snd (start_running r ss) = Some e \<longrightarrow> fst (start_running r ss) = r\<lparr>r_steps := ss\<rparr> \<and>
      e = InvalidTransition ''Run'' (r_status r) RunRunning)"
  by (intro conjI)
    (auto simp: run_op_defs transition_run_def Let_def split: option.splits if_splits)

theorem rejected_run_operation_witness:
  "fst (start_running ((create_run ''u'' 1 ''wf'' (0::nat) None)\<lparr>r_status := RunCompleted\<rparr>)
      [\<lparr>s_id = ''s'', s_definition_id = [], s_name = [], s_action = [], s_input = 0,
        s_condition = None, s_on_error = OnFail, s_status = StepPending, s_order = 0, s_output = 0,
        s_error = None, s_started_at = None, s_completed_at = None, s_planner_step_name = None\<rparr>])
    \<noteq> (create_run ''u'' 1 ''wf'' (0::nat) None)\<lparr>r_status := RunCompleted\<rparr>"
proof -
  let ?r = "(create_run ''u'' 1 ''wf'' (0::nat) None)\<lparr>r_status := RunCompleted\<rparr>"
  let ?s = "[\<lparr>s_id = ''s'', s_definition_id = [], s_name = [], s_action = [], s_input = 0,
        s_condition = None, s_on_error = OnFail, s_status = StepPending, s_order = 0, s_output = 0,
        s_error = None, s_started_at = None, s_completed_at = None, s_planner_step_name = None\<rparr>]"
  have "snd (start_running ?r ?s) = Some (InvalidTransition ''Run'' RunCompleted RunRunning)"
    by (simp add: start_running_def transition_run_def create_run_def)
  with rejected_run_operation [of ?r "InvalidTransition ''Run'' RunCompleted RunRunning" 0 ?s]
  show ?thesis by (simp add: create_run_def)
qed

end
