(* ===== verification/RunQueue.thy ===== *)
theory RunQueue
  imports Prelude "HOL-Library.Product_Lexorder" "HOL-Library.Multiset"
begin

text \<open>
  The run queue of \<open>packages/server/src/infra/queue/run-queue.ts\<close>: a concurrency
  limit over all runs and one per user (\<open>upn\<close>), a waiting list kept in priority
  order, and release closures that promote waiters.

  The object identity of a queue entry is its number \<open>w_eid\<close>; a release closure is
  its index in \<open>q_tickets\<close>, where its captured flag \<open>released\<close> lives. Resolving or
  rejecting an entry's promise appends to \<open>q_settled\<close>, and \<open>broadcast\<close> appends to
  \<open>q_events\<close>. Firing an entry's abort signal is the operation \<open>Abort\<close>. \<open>now\<close> is
  \<open>Date.now()\<close>.
\<close>

section \<open>Data\<close>

datatype run_priority = Critical | High | Normal | Low

fun priority_order :: "run_priority \<Rightarrow> int" where
  "priority_order Critical = 0"
| "priority_order High = 1"
| "priority_order Normal = 2"
| "priority_order Low = 3"

record queue_entry =
  w_eid :: nat
  w_run_id :: string
  w_priority :: run_priority
  w_upn :: "string option"
  w_enqueued_at :: int
  w_signal :: bool

record ticket =
  t_run_id :: string
  t_upn :: "string option"
  t_released :: bool

datatype reject_reason = RunCancelledWhileQueued | RunRemovedFromQueue

datatype settlement = Resolved (ticket_index: nat) | Rejected reject_reason

record run_queued_event =
  ev_run_id :: string
  ev_position :: nat
  ev_queue_length :: nat
  ev_actor_upn :: "string option"

record run_queue =
  q_max_concurrent :: int
  q_max_per_upn :: int
  q_active :: int
  q_active_by_upn :: "(string, int) jsmap"
  q_total_processed :: nat
  q_total_dropped :: nat
  q_waiting :: "queue_entry list"
  q_tickets :: "ticket list"
  q_settled :: "(nat \<times> settlement) list"
  q_events :: "run_queued_event list"
  q_next_eid :: nat

text \<open>\<open>Number(process.env[..]) || d\<close>: an unset, unparsable or zero value gives \<open>d\<close>.\<close>

definition env_number_or :: "int option \<Rightarrow> int \<Rightarrow> int" where
  "env_number_or v d = (case v of None \<Rightarrow> d | Some n \<Rightarrow> if n = 0 then d else n)"

definition new_run_queue :: "int option \<Rightarrow> int option \<Rightarrow> int option \<Rightarrow> int option \<Rightarrow> run_queue" where
  "new_run_queue max_concurrent max_per_upn env_concurrent env_upn =
     \<lparr>q_max_concurrent =
        (case max_concurrent of Some n \<Rightarrow> n | None \<Rightarrow> env_number_or env_concurrent 8),
      q_max_per_upn = (case max_per_upn of Some n \<Rightarrow> n | None \<Rightarrow> env_number_or env_upn 2),
      q_active = 0, q_active_by_upn = [], q_total_processed = 0, q_total_dropped = 0,
      q_waiting = [], q_tickets = [], q_settled = [], q_events = [], q_next_eid = 0\<rparr>"

section \<open>Operations\<close>

text \<open>A falsy owner (\<open>null\<close> or the empty string) is anonymous.\<close>

definition owner_key :: "string option \<Rightarrow> string option" where
  "owner_key upn = (case upn of None \<Rightarrow> None | Some u \<Rightarrow> if u = [] then None else Some u)"

definition normalize_owner :: "string option \<Rightarrow> string option" where
  "normalize_owner upn = owner_key (map_option (\<lambda>u. js_lower (js_trim u)) upn)"

definition can_start_immediately :: "run_queue \<Rightarrow> string option \<Rightarrow> bool" where
  "can_start_immediately q upn =
     (if q_active q \<ge> q_max_concurrent q then False
      else case owner_key upn of
        None \<Rightarrow> True
      | Some u \<Rightarrow> js_get_or (q_active_by_upn q) u 0 < q_max_per_upn q)"

definition activate :: "run_queue \<Rightarrow> string option \<Rightarrow> run_queue" where
  "activate q upn =
     (let q1 = q\<lparr>q_active := q_active q + 1\<rparr>
      in case owner_key upn of
        None \<Rightarrow> q1
      | Some u \<Rightarrow>
          q1\<lparr>q_active_by_upn :=
               js_set (q_active_by_upn q) u (js_get_or (q_active_by_upn q) u 0 + 1)\<rparr>)"

definition deactivate :: "run_queue \<Rightarrow> string option \<Rightarrow> run_queue" where
  "deactivate q upn =
     (let q1 = q\<lparr>q_active := max 0 (q_active q - 1)\<rparr>
      in case owner_key upn of
        None \<Rightarrow> q1
      | Some u \<Rightarrow>
          (let n = js_get_or (q_active_by_upn q) u 1 - 1
           in if n \<le> 0 then q1\<lparr>q_active_by_upn := js_delete (q_active_by_upn q) u\<rparr>
              else q1\<lparr>q_active_by_upn := js_set (q_active_by_upn q) u n\<rparr>))"

definition upn_active :: "run_queue \<Rightarrow> string option \<Rightarrow> int" where
  "upn_active q upn =
     (case owner_key upn of None \<Rightarrow> 0 | Some u \<Rightarrow> js_get_or (q_active_by_upn q) u 0)"

text \<open>One iteration of the scan: what is best after looking at the entry at an index.\<close>

definition consider_waiter ::
  "run_queue \<Rightarrow> (nat \<times> queue_entry) option \<Rightarrow> nat \<times> queue_entry \<Rightarrow> (nat \<times> queue_entry) option" where
  "consider_waiter q best iw =
     (let w = snd iw in
      if \<not> can_start_immediately q (w_upn w) then best
      else case best of
        None \<Rightarrow> Some iw
      | Some (_, b) \<Rightarrow>
          (let pri_cmp = priority_order (w_priority w) - priority_order (w_priority b)
           in if pri_cmp < 0 then Some iw
              else if pri_cmp > 0 then best
              else
                (let w_active = upn_active q (w_upn w); b_active = upn_active q (w_upn b)
                 in if w_active < b_active
                       \<or> w_active = b_active \<and> w_enqueued_at w < w_enqueued_at b
                    then Some iw else best)))"

definition pick_loop :: "run_queue \<Rightarrow> (nat \<times> queue_entry) option" where
  "pick_loop q = foldl (consider_waiter q) None (enumerate 0 (q_waiting q))"

definition pick_next_waiter :: "run_queue \<Rightarrow> (queue_entry \<times> run_queue) option" where
  "pick_next_waiter q =
     (case pick_loop q of
        None \<Rightarrow> None
      | Some (i, w) \<Rightarrow> Some (w, q\<lparr>q_waiting := remove_at i (q_waiting q)\<rparr>))"

text \<open>\<open>createRelease\<close> allocates a closure; the caller gets its index.\<close>

definition create_release :: "run_queue \<Rightarrow> string \<Rightarrow> string option \<Rightarrow> nat \<times> run_queue" where
  "create_release q rid upn =
     (length (q_tickets q),
      q\<lparr>q_tickets := q_tickets q @ [\<lparr>t_run_id = rid, t_upn = upn, t_released = False\<rparr>]\<rparr>)"

definition start_waiter :: "run_queue \<Rightarrow> queue_entry \<Rightarrow> run_queue" where
  "start_waiter q w =
     (let q1 = activate q (w_upn w);
          q2 = q1\<lparr>q_total_processed := q_total_processed q1 + 1\<rparr>;
          (i, q3) = create_release q2 (w_run_id w) (w_upn w)
      in q3\<lparr>q_settled := q_settled q3 @ [(w_eid w, Resolved i)]\<rparr>)"

lemma length_remove_at_less: "i < length xs \<Longrightarrow> length (remove_at i xs) < length xs"
  by (cases xs) simp_all

lemma consider_waiter_cases:
  "consider_waiter q best iw = best \<or>
     (consider_waiter q best iw = Some iw \<and> can_start_immediately q (w_upn (snd iw)))"
  by (auto simp: consider_waiter_def Let_def split: option.split prod.split)

lemma foldl_consider_mem:
  "foldl (consider_waiter q) best iws = Some iw \<Longrightarrow>
     best = Some iw \<or> (iw \<in> set iws \<and> can_start_immediately q (w_upn (snd iw)))"
proof (induction iws arbitrary: best)
  case Nil
  then show ?case by simp
next
  case (Cons x iws)
  from Cons.prems have "foldl (consider_waiter q) (consider_waiter q best x) iws = Some iw"
    by simp
  from Cons.IH [OF this] consider_waiter_cases [of q best x] show ?case by auto
qed

lemma pick_loop_index:
  "pick_loop q = Some (i, w) \<Longrightarrow>
     i < length (q_waiting q) \<and> q_waiting q ! i = w \<and> can_start_immediately q (w_upn w)"
  by (auto simp: pick_loop_def in_set_enumerate_eq dest!: foldl_consider_mem)

lemma pick_next_waiter_shrinks:
  "pick_next_waiter q = Some (w, q') \<Longrightarrow> length (q_waiting q') < length (q_waiting q)"
  by (auto simp: pick_next_waiter_def length_remove_at_less dest!: pick_loop_index
      split: option.splits prod.splits)

lemma start_waiter_waiting [simp]: "q_waiting (start_waiter q w) = q_waiting q"
  by (simp add: start_waiter_def activate_def create_release_def Let_def split: option.split)

function promote :: "run_queue \<Rightarrow> run_queue" where
  "promote q =
     (if q_active q < q_max_concurrent q then
        (case pick_next_waiter q of
           None \<Rightarrow> q
         | Some (w, q1) \<Rightarrow> promote (start_waiter q1 w))
      else q)"
  by pat_completeness auto
termination
  by (relation "measure (\<lambda>q. length (q_waiting q))") (auto dest: pick_next_waiter_shrinks)

declare promote.simps [simp del]

definition acquire ::
  "run_queue \<Rightarrow> int \<Rightarrow> string \<Rightarrow> run_priority option \<Rightarrow> bool \<Rightarrow> string option \<Rightarrow> run_queue" where
  "acquire q now rid priority signal upn =
     (let owner = normalize_owner upn;
          pri = (case priority of None \<Rightarrow> Normal | Some p \<Rightarrow> p)
      in if can_start_immediately q owner then
           (let q1 = activate q owner;
                q2 = q1\<lparr>q_total_processed := q_total_processed q1 + 1\<rparr>
            in snd (create_release q2 rid owner))
         else
           (let entry = \<lparr>w_eid = q_next_eid q, w_run_id = rid, w_priority = pri, w_upn = owner,
                         w_enqueued_at = now, w_signal = signal\<rparr>;
                idx = find_index (\<lambda>w. priority_order (w_priority w) > priority_order pri) (q_waiting q);
                waiting = (case idx of None \<Rightarrow> q_waiting q @ [entry]
                           | Some i \<Rightarrow> insert_at i entry (q_waiting q));
                position = (case idx of None \<Rightarrow> length (q_waiting q) + 1 | Some i \<Rightarrow> i + 1)
            in q\<lparr>q_waiting := waiting,
                 q_events := q_events q @ [\<lparr>ev_run_id = rid, ev_position = position,
                     ev_queue_length = length waiting, ev_actor_upn = owner\<rparr>],
                 q_next_eid := Suc (q_next_eid q)\<rparr>))"

text \<open>Calling a release closure: the first call counts, later calls return at once.\<close>

definition release :: "run_queue \<Rightarrow> nat \<Rightarrow> run_queue" where
  "release q i =
     (if i < length (q_tickets q) \<and> \<not> t_released (q_tickets q ! i) then
        promote (deactivate
          (q\<lparr>q_tickets := (q_tickets q)[i := (q_tickets q ! i)\<lparr>t_released := True\<rparr>]\<rparr>)
          (t_upn (q_tickets q ! i)))
      else q)"

text \<open>The abort listener of an entry that was queued with a signal.\<close>

definition on_abort :: "run_queue \<Rightarrow> nat \<Rightarrow> run_queue" where
  "on_abort q eid =
     (case find_index (\<lambda>w. w_eid w = eid \<and> w_signal w) (q_waiting q) of
        None \<Rightarrow> q
      | Some i \<Rightarrow>
          q\<lparr>q_waiting := remove_at i (q_waiting q),
            q_total_dropped := q_total_dropped q + 1,
            q_settled := q_settled q @ [(eid, Rejected RunCancelledWhileQueued)]\<rparr>)"

definition remove :: "run_queue \<Rightarrow> string \<Rightarrow> bool \<times> run_queue" where
  "remove q rid =
     (case find_index (\<lambda>w. w_run_id w = rid) (q_waiting q) of
        None \<Rightarrow> (False, q)
      | Some i \<Rightarrow>
          (True, q\<lparr>q_waiting := remove_at i (q_waiting q),
                   q_total_dropped := q_total_dropped q + 1,
                   q_settled := q_settled q @
                     [(w_eid (q_waiting q ! i), Rejected RunRemovedFromQueue)]\<rparr>))"

record queue_stats =
  st_concurrency :: int
  st_max_per_upn :: int
  st_active :: int
  st_queued :: nat
  st_total_processed :: nat
  st_total_dropped :: nat
  st_by_upn :: "(string, int \<times> nat) jsmap"
  st_entries :: "(string \<times> run_priority \<times> string option \<times> int) list"

definition stats :: "run_queue \<Rightarrow> int \<Rightarrow> queue_stats" where
  "stats q now =
     (let by0 = foldl (\<lambda>m e. js_set m (fst e) (snd e, 0)) [] (q_active_by_upn q);
          by1 = foldl (\<lambda>m w. case owner_key (w_upn w) of
                    None \<Rightarrow> m
                  | Some u \<Rightarrow>
                      (let (a, n) = js_get_or m u (0, 0) in js_set m u (a, Suc n)))
                  by0 (q_waiting q)
      in \<lparr>st_concurrency = q_max_concurrent q, st_max_per_upn = q_max_per_upn q,
          st_active = q_active q, st_queued = length (q_waiting q),
          st_total_processed = q_total_processed q, st_total_dropped = q_total_dropped q,
          st_by_upn = by1,
          st_entries = map (\<lambda>w. (w_run_id w, w_priority w, w_upn w, now - w_enqueued_at w)) (q_waiting q)\<rparr>)"

datatype queue_op =
    Acquire int string "run_priority option" bool "string option"
  | Release nat
  | Abort nat
  | Remove string

fun queue_step :: "run_queue \<Rightarrow> queue_op \<Rightarrow> run_queue" where
  "queue_step q (Acquire now rid pri sig upn) = acquire q now rid pri sig upn"
| "queue_step q (Release i) = release q i"
| "queue_step q (Abort eid) = on_abort q eid"
| "queue_step q (Remove rid) = snd (remove q rid)"

section \<open>Invariant\<close>

definition open_tickets :: "run_queue \<Rightarrow> nat" where
  "open_tickets q = length (filter (\<lambda>t. \<not> t_released t) (q_tickets q))"

definition held_by :: "run_queue \<Rightarrow> string \<Rightarrow> nat" where
  "held_by q u = length (filter (\<lambda>t. \<not> t_released t \<and> owner_key (t_upn t) = Some u) (q_tickets q))"

text \<open>The counters are the numbers of closures handed out and not yet called.\<close>

definition counts_ok :: "run_queue \<Rightarrow> bool" where
  "counts_ok q \<longleftrightarrow> q_active q = int (open_tickets q) \<and>
     (\<forall>u. js_get_or (q_active_by_upn q) u 0 = int (held_by q u)) \<and>
     (\<forall>u n. js_get (q_active_by_upn q) u = Some n \<longrightarrow> 0 < n)"

definition limits_ok :: "run_queue \<Rightarrow> bool" where
  "limits_ok q \<longleftrightarrow> q_active q \<le> max 0 (q_max_concurrent q) \<and>
     (\<forall>u. js_get_or (q_active_by_upn q) u 0 \<le> max 0 (q_max_per_upn q))"

definition no_startable_waiter :: "run_queue \<Rightarrow> bool" where
  "no_startable_waiter q \<longleftrightarrow> (\<forall>w\<in>set (q_waiting q). \<not> can_start_immediately q (w_upn w))"

definition waiting_sorted :: "run_queue \<Rightarrow> bool" where
  "waiting_sorted q \<longleftrightarrow> sorted (map (\<lambda>w. priority_order (w_priority w)) (q_waiting q))"

definition is_rejected :: "settlement \<Rightarrow> bool" where
  "is_rejected s = (case s of Rejected _ \<Rightarrow> True | Resolved _ \<Rightarrow> False)"

text \<open>Every queued entry is waiting or settled, and settled once.\<close>

definition settled_ok :: "run_queue \<Rightarrow> bool" where
  "settled_ok q \<longleftrightarrow>
     mset (map w_eid (q_waiting q)) + mset (map fst (q_settled q)) = mset [0..<q_next_eid q] \<and>
     q_total_processed q = length (q_tickets q) \<and>
     q_total_dropped q = length (filter (\<lambda>s. is_rejected (snd s)) (q_settled q))"

definition queue_core :: "run_queue \<Rightarrow> bool" where
  "queue_core q \<longleftrightarrow> counts_ok q \<and> limits_ok q \<and> waiting_sorted q \<and> settled_ok q"

definition queue_inv :: "run_queue \<Rightarrow> bool" where
  "queue_inv q \<longleftrightarrow> queue_core q \<and> no_startable_waiter q"

lemmas queue_core_defs =
  queue_core_def counts_ok_def limits_ok_def waiting_sorted_def settled_ok_def
  open_tickets_def held_by_def

lemma mset_remove_at: "i < length xs \<Longrightarrow> add_mset (xs ! i) (mset (remove_at i xs)) = mset xs"
  by (subst (3) remove_at_split [of i xs], simp) (simp add: remove_at_def)

lemma mset_map_remove_at:
  "i < length xs \<Longrightarrow> add_mset (f (xs ! i)) (mset (map f (remove_at i xs))) = mset (map f xs)"
  by (metis image_mset_add_mset mset_map mset_remove_at)

lemma sorted_remove_at: "sorted (map f xs) \<Longrightarrow> sorted (map f (remove_at i xs))"
proof (induction xs arbitrary: i)
  case Nil
  then show ?case by simp
next
  case (Cons x xs)
  then show ?case using set_remove_at_subset by (cases i) fastforce+
qed

lemma can_start_frame [simp]:
  "can_start_immediately (q\<lparr>q_waiting := ws\<rparr>) u = can_start_immediately q u"
  "can_start_immediately (q\<lparr>q_total_processed := n\<rparr>) u = can_start_immediately q u"
  "can_start_immediately (q\<lparr>q_total_dropped := n\<rparr>) u = can_start_immediately q u"
  "can_start_immediately (q\<lparr>q_tickets := ts\<rparr>) u = can_start_immediately q u"
  "can_start_immediately (q\<lparr>q_settled := se\<rparr>) u = can_start_immediately q u"
  "can_start_immediately (q\<lparr>q_events := es\<rparr>) u = can_start_immediately q u"
  "can_start_immediately (q\<lparr>q_next_eid := k\<rparr>) u = can_start_immediately q u"
  by (simp_all add: can_start_immediately_def split: option.split)

text \<open>Activating a run never makes another one startable.\<close>

lemma can_start_activate:
  "can_start_immediately (activate q u) v \<Longrightarrow> can_start_immediately q v"
  by (auto simp: can_start_immediately_def activate_def Let_def split: option.splits if_splits)

lemma activate_frame [simp]:
  "q_max_concurrent (activate q u) = q_max_concurrent q"
  "q_max_per_upn (activate q u) = q_max_per_upn q"
  "q_waiting (activate q u) = q_waiting q"
  "q_tickets (activate q u) = q_tickets q"
  "q_settled (activate q u) = q_settled q"
  "q_next_eid (activate q u) = q_next_eid q"
  "q_total_processed (activate q u) = q_total_processed q"
  "q_total_dropped (activate q u) = q_total_dropped q"
  by (simp_all add: activate_def Let_def split: option.split)

lemma deactivate_frame [simp]:
  "q_max_concurrent (deactivate q u) = q_max_concurrent q"
  "q_max_per_upn (deactivate q u) = q_max_per_upn q"
  "q_waiting (deactivate q u) = q_waiting q"
  "q_tickets (deactivate q u) = q_tickets q"
  "q_settled (deactivate q u) = q_settled q"
  "q_next_eid (deactivate q u) = q_next_eid q"
  "q_total_processed (deactivate q u) = q_total_processed q"
  "q_total_dropped (deactivate q u) = q_total_dropped q"
  by (simp_all add: deactivate_def Let_def split: option.split)

text \<open>Handing out a closure to an owner that may start keeps the counters and the limits.\<close>

lemma counts_grant:
  assumes "counts_ok q"
  shows "counts_ok ((activate q u)\<lparr>q_total_processed := n,
           q_tickets := q_tickets q @ [\<lparr>t_run_id = rid, t_upn = u, t_released = False\<rparr>]\<rparr>)"
proof (cases "owner_key u")
  case None
  with assms show ?thesis
    by (simp add: counts_ok_def open_tickets_def held_by_def activate_def Let_def)
next
  case (Some v)
  from assms have pos: "\<And>w k. js_get (q_active_by_upn q) w = Some k \<Longrightarrow> 0 < k"
    and cnt: "\<And>w. js_get_or (q_active_by_upn q) w 0 = int (held_by q w)"
    by (auto simp: counts_ok_def)
  from Some assms show ?thesis
    by (auto simp: counts_ok_def open_tickets_def held_by_def activate_def Let_def dest: pos)
qed

lemma limits_grant:
  assumes "limits_ok q" and "can_start_immediately q u"
  shows "limits_ok ((activate q u)\<lparr>q_total_processed := n, q_tickets := ts\<rparr>)"
  using assms
  by (auto simp: limits_ok_def can_start_immediately_def activate_def Let_def max_def
      split: option.splits if_splits)

lemma filter_update_released:
  assumes "i < length ts" and "\<not> t_released (ts ! i)" and "P (ts ! i)"
    and "\<And>t. P (t\<lparr>t_released := True\<rparr>) = P t"
  shows "length (filter (\<lambda>t. \<not> t_released t \<and> P t) ts) =
    Suc (length (filter (\<lambda>t. \<not> t_released t \<and> P t) (ts[i := (ts ! i)\<lparr>t_released := True\<rparr>])))"
proof -
  have "length (filter (\<lambda>t. \<not> t_released t \<and> P t) (take i ts @ [ts ! i] @ drop (Suc i) ts)) =
    Suc (length (filter (\<lambda>t. \<not> t_released t \<and> P t)
      (take i ts @ [(ts ! i)\<lparr>t_released := True\<rparr>] @ drop (Suc i) ts)))"
    using assms by simp
  then show ?thesis
    using assms(1) by (simp add: upd_conv_take_nth_drop flip: id_take_nth_drop)
qed

lemma filter_update_other:
  assumes "i < length ts" and "\<not> P (ts ! i)" and "\<And>t. P (t\<lparr>t_released := True\<rparr>) = P t"
  shows "filter (\<lambda>t. \<not> t_released t \<and> P t) (ts[i := (ts ! i)\<lparr>t_released := True\<rparr>]) =
    filter (\<lambda>t. \<not> t_released t \<and> P t) ts"
proof -
  have "filter (\<lambda>t. \<not> t_released t \<and> P t)
      (take i ts @ [(ts ! i)\<lparr>t_released := True\<rparr>] @ drop (Suc i) ts) =
    filter (\<lambda>t. \<not> t_released t \<and> P t) (take i ts @ [ts ! i] @ drop (Suc i) ts)"
    using assms by simp
  then show ?thesis
    using assms(1) by (simp add: upd_conv_take_nth_drop flip: id_take_nth_drop)
qed

lemma counts_release:
  assumes "counts_ok q" and i: "i < length (q_tickets q)" and fresh: "\<not> t_released (q_tickets q ! i)"
  shows "counts_ok (deactivate
    (q\<lparr>q_tickets := (q_tickets q)[i := (q_tickets q ! i)\<lparr>t_released := True\<rparr>]\<rparr>)
    (t_upn (q_tickets q ! i)))" (is "counts_ok (deactivate ?q1 ?u)")
proof -
  have cnt: "\<And>w. js_get_or (q_active_by_upn q) w 0 = int (held_by q w)"
    and pos: "\<And>w k. js_get (q_active_by_upn q) w = Some k \<Longrightarrow> 0 < k"
    and act: "q_active q = int (open_tickets q)"
    using assms(1) by (auto simp: counts_ok_def)
  have open1: "open_tickets q = Suc (open_tickets ?q1)"
    using filter_update_released [OF i fresh, of "\<lambda>t. True"] by (simp add: open_tickets_def)
  have held_other: "held_by ?q1 w = held_by q w" if "owner_key ?u \<noteq> Some w" for w
    using filter_update_other [OF i, of "\<lambda>t. owner_key (t_upn t) = Some w"] that
    by (simp add: held_by_def)
  have held_same: "held_by q w = Suc (held_by ?q1 w)" if "owner_key ?u = Some w" for w
    using filter_update_released [OF i fresh, of "\<lambda>t. owner_key (t_upn t) = Some w"] that
    by (simp add: held_by_def)
  have get1: "js_get_or (q_active_by_upn q) w 1 = js_get_or (q_active_by_upn q) w 0"
    if "owner_key ?u = Some w" for w
    using cnt [of w] held_same [OF that] by (auto simp: js_get_or_def split: option.splits)
  show ?thesis
    using act open1 cnt pos held_other held_same get1
    by (auto simp: counts_ok_def deactivate_def Let_def open_tickets_def held_by_def
        split: option.splits if_splits)
qed

lemma limits_deactivate: "limits_ok q \<Longrightarrow> limits_ok (deactivate (q\<lparr>q_tickets := ts\<rparr>) u)"
proof (cases "owner_key u")
  case (Some v)
  assume "limits_ok q"
  then have act: "q_active q \<le> max 0 (q_max_concurrent q)"
    and lim: "\<And>w. js_get_or (q_active_by_upn q) w 0 \<le> max 0 (q_max_per_upn q)"
    by (auto simp: limits_ok_def)
  have "js_get_or (q_active_by_upn q) v 1 - 1 \<le> max 0 (js_get_or (q_active_by_upn q) v 0)"
    by (auto simp: js_get_or_def split: option.splits)
  with lim [of v] have "js_get_or (q_active_by_upn q) v 1 - 1 \<le> max 0 (q_max_per_upn q)"
    by linarith
  with Some act lim show ?thesis
    by (auto simp: limits_ok_def deactivate_def Let_def max_def split: if_splits)
qed (auto simp: limits_ok_def deactivate_def Let_def)

lemma core_start_waiter:
  assumes core: "queue_core q" and pick: "pick_next_waiter q = Some (w, q1)"
  shows "queue_core (start_waiter q1 w)"
proof -
  obtain i where i: "i < length (q_waiting q)" and w: "q_waiting q ! i = w"
    and can: "can_start_immediately q (w_upn w)"
    and q1: "q1 = q\<lparr>q_waiting := remove_at i (q_waiting q)\<rparr>"
    using pick by (auto simp: pick_next_waiter_def dest!: pick_loop_index split: option.splits prod.splits)
  have m: "add_mset (w_eid w) (mset (map w_eid (remove_at i (q_waiting q)))) = mset (map w_eid (q_waiting q))"
    using mset_map_remove_at [OF i, of w_eid] w by simp
  have c1: "counts_ok q1" and l1: "limits_ok q1" and can1: "can_start_immediately q1 (w_upn w)"
    using core can by (auto simp: q1 queue_core_def counts_ok_def limits_ok_def open_tickets_def held_by_def)
  have "counts_ok (start_waiter q1 w)"
    using counts_grant [OF c1, where u = "w_upn w" and rid = "w_run_id w"]
    by (simp add: start_waiter_def create_release_def Let_def counts_ok_def open_tickets_def held_by_def)
  moreover have "limits_ok (start_waiter q1 w)"
    using limits_grant [OF l1 can1]
    by (simp add: start_waiter_def create_release_def Let_def limits_ok_def)
  moreover have "waiting_sorted (start_waiter q1 w)"
    using core by (simp add: q1 waiting_sorted_def queue_core_def sorted_remove_at)
  moreover have "settled_ok (start_waiter q1 w)"
    using core m
    by (simp add: q1 queue_core_def settled_ok_def start_waiter_def create_release_def Let_def is_rejected_def)
      (metis add_mset_add_single union_mset_add_mset_left union_mset_add_mset_right)
  ultimately show ?thesis by (simp add: queue_core_def)
qed

lemma core_promote: "queue_core q \<Longrightarrow> queue_core (promote q)"
proof (induction q rule: promote.induct)
  case (1 q)
  have step: "pick_next_waiter q = Some (w, q1) \<Longrightarrow> queue_core (start_waiter q1 w)" for w q1
    by (rule core_start_waiter [OF "1.prems"])
  show ?case
    using "1.IH" "1.prems" step by (subst promote.simps) (auto split: option.split)
qed

lemma foldl_consider_Some:
  "best \<noteq> None \<Longrightarrow> foldl (consider_waiter q) best iws \<noteq> None"
proof (induction iws arbitrary: best)
  case Nil
  then show ?case by simp
next
  case (Cons x iws)
  have "consider_waiter q best x \<noteq> None"
    using consider_waiter_cases [of q best x] Cons.prems by auto
  from Cons.IH [OF this] show ?case by simp
qed

lemma pick_loop_None:
  assumes "pick_loop q = None" and "w \<in> set (q_waiting q)"
  shows "\<not> can_start_immediately q (w_upn w)"
proof
  assume can: "can_start_immediately q (w_upn w)"
  obtain i where "i < length (q_waiting q)" "q_waiting q ! i = w"
    using assms(2) by (auto simp: in_set_conv_nth)
  then have "(i, w) \<in> set (enumerate 0 (q_waiting q))"
    by (simp add: in_set_enumerate_eq)
  then obtain xs ys where split: "enumerate 0 (q_waiting q) = xs @ (i, w) # ys"
    by (meson split_list)
  have "consider_waiter q (foldl (consider_waiter q) None xs) (i, w) \<noteq> None"
    using can by (auto simp: consider_waiter_def Let_def split: option.splits)
  then have "pick_loop q \<noteq> None"
    unfolding pick_loop_def split by (simp add: foldl_consider_Some)
  with assms(1) show False by simp
qed

lemma promote_no_startable: "no_startable_waiter (promote q)"
proof (induction q rule: promote.induct)
  case (1 q)
  show ?case
  proof (cases "q_active q < q_max_concurrent q")
    case False
    then show ?thesis
      by (subst promote.simps) (auto simp: no_startable_waiter_def can_start_immediately_def)
  next
    case True
    show ?thesis
    proof (cases "pick_next_waiter q")
      case None
      then have "pick_loop q = None"
        by (auto simp: pick_next_waiter_def split: option.splits prod.splits)
      with True None show ?thesis
        by (subst promote.simps) (auto simp: no_startable_waiter_def dest: pick_loop_None)
    next
      case (Some wq)
      then show ?thesis
        using True "1.IH" by (subst promote.simps) (auto split: prod.splits)
    qed
  qed
qed

lemma waiting_insert_sorted:
  assumes "sorted (map (\<lambda>w. priority_order (w_priority w)) ws)"
    and "priority_order (w_priority e) = p"
  shows "sorted (map (\<lambda>w. priority_order (w_priority w))
    (takeWhile (\<lambda>w. \<not> priority_order (w_priority w) > p) ws @ [e] @
     dropWhile (\<lambda>w. \<not> priority_order (w_priority w) > p) ws))"
  using assms
proof (induction ws)
  case Nil
  then show ?case by simp
next
  case (Cons w ws)
  then show ?case by (auto dest: set_takeWhileD set_dropWhileD)
qed

lemma mset_insert_while:
  "mset (map f (takeWhile P xs @ [x] @ dropWhile P xs)) = add_mset (f x) (mset (map f xs))"
proof -
  have "mset (map f xs) = mset (map f (takeWhile P xs @ dropWhile P xs))" by simp
  then show ?thesis by (simp only: map_append mset_append mset.simps list.map) simp
qed

lemma acquire_inv: "queue_inv q \<Longrightarrow> queue_inv (acquire q now rid pri sig upn)"
proof (cases "can_start_immediately q (normalize_owner upn)")
  case True
  let ?u = "normalize_owner upn"
  assume inv: "queue_inv q"
  then have "counts_ok q" "limits_ok q" by (simp_all add: queue_inv_def queue_core_def)
  from counts_grant [OF this(1), where u = ?u and n = "q_total_processed q + 1" and rid = rid] limits_grant [OF this(2) True]
  have "counts_ok (acquire q now rid pri sig upn)" "limits_ok (acquire q now rid pri sig upn)"
    using True by (simp_all add: acquire_def create_release_def Let_def)
  moreover have "no_startable_waiter (acquire q now rid pri sig upn)"
    using inv True
    by (auto simp: queue_inv_def no_startable_waiter_def acquire_def create_release_def Let_def
        dest: can_start_activate)
  ultimately show ?thesis
    using inv True
    by (simp add: queue_inv_def queue_core_def waiting_sorted_def settled_ok_def acquire_def
        create_release_def Let_def)
next
  case False
  assume inv: "queue_inv q"
  let ?pri = "case pri of None \<Rightarrow> Normal | Some p \<Rightarrow> p"
  let ?e = "\<lparr>w_eid = q_next_eid q, w_run_id = rid, w_priority = ?pri, w_upn = normalize_owner upn,
     w_enqueued_at = now, w_signal = sig\<rparr>"
  let ?P = "\<lambda>w. priority_order (w_priority w) > priority_order ?pri"
  have waiting: "q_waiting (acquire q now rid pri sig upn) =
      takeWhile (\<lambda>w. \<not> ?P w) (q_waiting q) @ [?e] @ dropWhile (\<lambda>w. \<not> ?P w) (q_waiting q)"
    using False insert_at_find_index_eq [where P = ?P and xs = "q_waiting q" and x = ?e]
    by (simp add: acquire_def Let_def)
  have "waiting_sorted (acquire q now rid pri sig upn)"
    unfolding waiting_sorted_def waiting
    by (rule waiting_insert_sorted) (use inv in \<open>simp_all add: queue_inv_def queue_core_def waiting_sorted_def\<close>)
  moreover have "mset (map w_eid (q_waiting (acquire q now rid pri sig upn))) =
      add_mset (q_next_eid q) (mset (map w_eid (q_waiting q)))"
    unfolding waiting mset_insert_while by simp
  moreover have "set (q_waiting (acquire q now rid pri sig upn)) = insert ?e (set (q_waiting q))"
    unfolding waiting by (auto dest: set_takeWhileD set_dropWhileD)
      (metis UnE set_append takeWhile_dropWhile_id)
  moreover have "counts_ok (acquire q now rid pri sig upn)"
    using inv False
    by (simp add: acquire_def Let_def queue_inv_def queue_core_def counts_ok_def open_tickets_def held_by_def)
  moreover have "limits_ok (acquire q now rid pri sig upn)"
    using inv False by (simp add: acquire_def Let_def queue_inv_def queue_core_def limits_ok_def)
  moreover have "can_start_immediately (acquire q now rid pri sig upn) v = can_start_immediately q v" for v
    using False by (simp add: acquire_def Let_def can_start_immediately_def split: option.split)
  moreover have "q_settled (acquire q now rid pri sig upn) = q_settled q"
    "q_tickets (acquire q now rid pri sig upn) = q_tickets q"
    "q_next_eid (acquire q now rid pri sig upn) = Suc (q_next_eid q)"
    "q_total_processed (acquire q now rid pri sig upn) = q_total_processed q"
    "q_total_dropped (acquire q now rid pri sig upn) = q_total_dropped q"
    using False by (simp_all add: acquire_def Let_def)
  ultimately show ?thesis
    using inv False
    by (auto simp: queue_inv_def queue_core_def settled_ok_def no_startable_waiter_def)
qed

lemma release_inv: "queue_inv q \<Longrightarrow> queue_inv (release q i)"
proof (cases "i < length (q_tickets q) \<and> \<not> t_released (q_tickets q ! i)")
  case True
  assume inv: "queue_inv q"
  let ?q = "deactivate (q\<lparr>q_tickets := (q_tickets q)[i := (q_tickets q ! i)\<lparr>t_released := True\<rparr>]\<rparr>)
    (t_upn (q_tickets q ! i))"
  have "queue_core ?q"
    using inv True counts_release [of q i] limits_deactivate [of q]
    by (simp add: queue_inv_def queue_core_def waiting_sorted_def settled_ok_def)
  then show ?thesis
    using True by (simp add: release_def queue_inv_def core_promote promote_no_startable)
qed (auto simp: release_def)

lemma drop_waiter_inv:
  assumes "queue_inv q" and i: "i < length (q_waiting q)" and "w_eid (q_waiting q ! i) = eid"
  shows "queue_inv (q\<lparr>q_waiting := remove_at i (q_waiting q), q_total_dropped := Suc (q_total_dropped q),
     q_settled := q_settled q @ [(eid, Rejected why)]\<rparr>)"
proof -
  have "add_mset eid (mset (map w_eid (remove_at i (q_waiting q)))) = mset (map w_eid (q_waiting q))"
    using mset_map_remove_at [OF i, of w_eid] assms(3) by simp
  moreover have "set (remove_at i (q_waiting q)) \<subseteq> set (q_waiting q)"
    by (rule set_remove_at_subset)
  ultimately show ?thesis
    using assms(1)
    by (auto simp: queue_inv_def queue_core_defs no_startable_waiter_def sorted_remove_at is_rejected_def)
      (metis add_mset_add_single union_mset_add_mset_left union_mset_add_mset_right)
qed

lemma on_abort_inv: "queue_inv q \<Longrightarrow> queue_inv (on_abort q eid)"
  by (auto simp: on_abort_def find_index_Some intro: drop_waiter_inv split: option.split)

lemma remove_inv: "queue_inv q \<Longrightarrow> queue_inv (snd (remove q rid))"
  by (auto simp: remove_def find_index_Some intro: drop_waiter_inv split: option.split)

lemma queue_step_inv: "queue_inv q \<Longrightarrow> queue_inv (queue_step q opn)"
  by (cases opn) (simp_all add: acquire_inv release_inv on_abort_inv remove_inv)

interpretation queue_run: invariant_system queue_step queue_inv
  by unfold_locales (rule queue_step_inv)

lemma new_run_queue_inv: "queue_inv (new_run_queue mc mu ec eu)"
  by (simp add: queue_inv_def queue_core_defs no_startable_waiter_def new_run_queue_def)

section \<open>The fair pick\<close>

definition fair_key :: "run_queue \<Rightarrow> queue_entry \<Rightarrow> int \<times> int \<times> int" where
  "fair_key q w = (priority_order (w_priority w), upn_active q (w_upn w), w_enqueued_at w)"

lemma consider_waiter_best:
  "consider_waiter q best x = Some y \<Longrightarrow>
     (can_start_immediately q (w_upn (snd x)) \<longrightarrow> fair_key q (snd y) \<le> fair_key q (snd x)) \<and>
     (\<forall>b. best = Some b \<longrightarrow> fair_key q (snd y) \<le> fair_key q (snd b))"
  by (auto simp: consider_waiter_def fair_key_def less_eq_prod_def Let_def
      split: if_splits option.splits prod.splits)

lemma foldl_consider_best:
  "foldl (consider_waiter q) best iws = Some y \<Longrightarrow>
     (\<forall>x\<in>set iws. can_start_immediately q (w_upn (snd x)) \<longrightarrow> fair_key q (snd y) \<le> fair_key q (snd x)) \<and>
     (\<forall>b. best = Some b \<longrightarrow> fair_key q (snd y) \<le> fair_key q (snd b))"
proof (induction iws arbitrary: best)
  case Nil
  then show ?case by simp
next
  case (Cons x iws)
  let ?b = "consider_waiter q best x"
  have fin: "foldl (consider_waiter q) ?b iws = Some y" using Cons.prems by simp
  note IH = Cons.IH [OF fin]
  have head: "can_start_immediately q (w_upn (snd x)) \<longrightarrow> fair_key q (snd y) \<le> fair_key q (snd x)"
  proof
    assume can: "can_start_immediately q (w_upn (snd x))"
    then have "?b \<noteq> None" by (auto simp: consider_waiter_def Let_def split: option.splits)
    then obtain z where z: "?b = Some z" by blast
    have "fair_key q (snd y) \<le> fair_key q (snd z)" using IH z by blast
    also have "\<dots> \<le> fair_key q (snd x)" using consider_waiter_best [OF z] can by blast
    finally show "fair_key q (snd y) \<le> fair_key q (snd x)" .
  qed
  have "fair_key q (snd y) \<le> fair_key q (snd b)" if "best = Some b" for b
  proof -
    have "?b \<noteq> None" using consider_waiter_cases [of q best x] that by auto
    then obtain z where z: "?b = Some z" by blast
    have "fair_key q (snd y) \<le> fair_key q (snd z)" using IH z by blast
    also have "\<dots> \<le> fair_key q (snd b)" using consider_waiter_best [OF z] that by blast
    finally show ?thesis .
  qed
  with head IH show ?case by auto
qed

lemma promote_tickets: "\<exists>ts. q_tickets (promote q) = q_tickets q @ ts"
proof (induction q rule: promote.induct)
  case (1 q)
  have step: "\<exists>ts. q_tickets (start_waiter q1 w) = q_tickets q @ ts"
    if "pick_next_waiter q = Some (w, q1)" for w q1
    using that by (auto simp: pick_next_waiter_def start_waiter_def create_release_def Let_def
        split: option.splits prod.splits)
  show ?case
    using "1.IH" step by (subst promote.simps) (fastforce split: option.split)
qed

section \<open>Properties\<close>

text \<open>C13: in every state a queue can reach from its constructor, the number of active runs
  is exactly the number of release closures handed out and not yet called, it never exceeds
  the concurrency limit, and no user ever has more active runs than the per-user limit.\<close>

theorem run_queue_limits:
  "counts_ok (foldl queue_step (new_run_queue mc mu ec eu) ops) \<and>
   limits_ok (foldl queue_step (new_run_queue mc mu ec eu) ops)"
  using queue_run.run_inv [OF new_run_queue_inv, of mc mu ec eu ops]
  by (simp add: queue_inv_def queue_core_def)

text \<open>C34: the queue is work conserving: in every reachable state no waiting run could be
  started under the limits, so a free slot is never left idle while an eligible run waits.\<close>

theorem run_queue_work_conserving:
  "no_startable_waiter (foldl queue_step (new_run_queue mc mu ec eu) ops)"
  using queue_run.run_inv [OF new_run_queue_inv, of mc mu ec eu ops]
  by (simp add: queue_inv_def)

text \<open>C33: no queued run is lost and no promise is settled twice: in every reachable state
  the identities of the entries still waiting and of the settled promises are together
  exactly the entries ever queued, each once; the counters of processed and dropped runs
  are the closures granted and the promises rejected; and the waiting list is in priority
  order.\<close>

theorem run_queue_settles_once:
  "settled_ok (foldl queue_step (new_run_queue mc mu ec eu) ops) \<and>
   waiting_sorted (foldl queue_step (new_run_queue mc mu ec eu) ops)"
  using queue_run.run_inv [OF new_run_queue_inv, of mc mu ec eu ops]
  by (simp add: queue_inv_def queue_core_def)

text \<open>the waiter picked for promotion is one that may start now, and among all waiters
  that may start it has the smallest triple of priority band, runs its user already has
  active, and time of enqueueing; picking takes exactly that entry off the list.\<close>

theorem pick_next_waiter_fair:
  assumes "pick_next_waiter q = Some (w, q')"
  shows "w \<in> set (q_waiting q) \<and> can_start_immediately q (w_upn w) \<and>
    (\<forall>v\<in>set (q_waiting q). can_start_immediately q (w_upn v) \<longrightarrow> fair_key q w \<le> fair_key q v) \<and>
    add_mset w (mset (q_waiting q')) = mset (q_waiting q)"
proof -
  obtain i where pick: "pick_loop q = Some (i, w)"
    and q': "q' = q\<lparr>q_waiting := remove_at i (q_waiting q)\<rparr>"
    using assms by (auto simp: pick_next_waiter_def split: option.splits prod.splits)
  have best: "\<forall>x\<in>set (enumerate 0 (q_waiting q)).
      can_start_immediately q (w_upn (snd x)) \<longrightarrow> fair_key q w \<le> fair_key q (snd x)"
    using foldl_consider_best [OF pick [unfolded pick_loop_def]] by simp
  have "\<forall>v\<in>set (q_waiting q). can_start_immediately q (w_upn v) \<longrightarrow> fair_key q w \<le> fair_key q v"
  proof (intro ballI impI)
    fix v
    assume "v \<in> set (q_waiting q)" and can: "can_start_immediately q (w_upn v)"
    then obtain k where "k < length (q_waiting q)" and "q_waiting q ! k = v"
      by (auto simp: in_set_conv_nth)
    then have "(k, v) \<in> set (enumerate 0 (q_waiting q))"
      by (simp add: in_set_enumerate_eq)
    with best can show "fair_key q w \<le> fair_key q v" by fastforce
  qed
  with pick_loop_index [OF pick] mset_remove_at [of i "q_waiting q"] q' show ?thesis
    by auto
qed

definition demo_queue :: run_queue where
  "demo_queue = foldl queue_step (new_run_queue (Some 2) (Some 1) None None)
     [Acquire 1 ''a'' None False (Some ''ann''), Acquire 2 ''b'' None False (Some ''bob''),
      Acquire 3 ''c'' None False (Some ''ann''), Acquire 4 ''d'' (Some High) False None]"

theorem pick_next_waiter_fair_witness:
  "\<exists>w q'. pick_next_waiter (demo_queue\<lparr>q_active := 1\<rparr>) = Some (w, q') \<and> w_run_id w = ''d'' \<and>
     w \<in> set (q_waiting demo_queue)"
proof -
  have "map_option (\<lambda>r. w_run_id (fst r)) (pick_next_waiter (demo_queue\<lparr>q_active := 1\<rparr>)) = Some ''d''"
    by code_simp
  then obtain w q' where pick: "pick_next_waiter (demo_queue\<lparr>q_active := 1\<rparr>) = Some (w, q')"
    and "w_run_id w = ''d''" by auto
  with pick_next_waiter_fair [OF pick] show ?thesis by auto
qed

text \<open>a release closure counts once: calling it again, with nothing in between, changes
  nothing, whatever the first call promoted.\<close>

theorem release_idempotent: "release (release q i) i = release q i"
proof (cases "i < length (q_tickets q) \<and> \<not> t_released (q_tickets q ! i)")
  case True
  let ?q = "deactivate (q\<lparr>q_tickets := (q_tickets q)[i := (q_tickets q ! i)\<lparr>t_released := True\<rparr>]\<rparr>)
    (t_upn (q_tickets q ! i))"
  obtain ts where "q_tickets (promote ?q) = q_tickets ?q @ ts"
    using promote_tickets by blast
  then have "t_released (q_tickets (promote ?q) ! i)"
    using True by (simp add: nth_append)
  then show ?thesis using True by (simp add: release_def)
qed (auto simp: release_def)

end
