(* ===== verification/Rollback.thy ===== *)
theory Rollback
  imports Prelude "HOL-Library.Multiset"
begin

text \<open>
  The effect ledger and its rollback: \<open>packages/server/src/infra/effects/\<close>
  (\<open>tracker.ts\<close>, \<open>snapshots.ts\<close>, \<open>queries.ts\<close>, \<open>rollback.ts\<close>), the rows it keeps
  (\<open>infra/persistence/adapters/sqlite/db/effects.ts\<close>) and the tool wrapper that
  feeds it (\<open>runtime/execution/workspace-effects.ts\<close>).

  The world a function works on is one record: the file system (a node per path,
  the faults the operating system answers with, the permission bits a new file gets),
  the two tables, the tracker's sequence counters, the broadcast events and the
  audit rows. Contents are text. \<open>hashContent\<close> (SHA-256) is the argument \<open>h\<close>, and
  identifiers and times are arguments. Missing parent directories are \<open>WriteOp\<close>
  faults; an \<open>MkdirOp\<close> that succeeds changes nothing else. No other process runs between two
  steps; what such a process did before is part of the world.
\<close>

section \<open>Data\<close>

datatype effect_kind = Create | Modify | Delete | Command | Network
datatype effect_status = Pending | Applied | Compensated | Skipped
datatype rollback_action = Deleted | Restored | Recreated

datatype effect_metadata = NoMetadata | IdempotentWrite | MissingOnDelete | CommandOutput string

record effect =
  eff_id :: string
  eff_run :: string
  seq :: nat
  kind :: effect_kind
  tool :: string
  target :: string
  pre_hash :: "string option"
  post_hash :: "string option"
  status :: effect_status
  metadata :: effect_metadata
  created_at :: int

record file_snapshot =
  snap_id :: string
  snap_effect :: string
  snap_run :: string
  file_path :: string
  content :: "string option"
  snap_hash :: "string option"
  file_mode :: "nat option"
  snap_at :: int

type_synonym item_reason = "string \<times> string \<times> string"

record rollback_result =
  total :: nat
  compensated :: nat
  skipped :: nat
  failed :: "item_reason list"

record rollback_preview =
  would_compensate :: "(string \<times> string \<times> effect_kind \<times> bool) list"
  would_skip :: "item_reason list"
  would_fail :: "item_reason list"

datatype event =
    EffectRecorded string string effect_kind string
  | SnapshotCaptured string string
  | RollbackBlocked string nat "string list"
  | RollbackStarted string nat
  | RollbackEffect string string effect_kind string rollback_action
  | RollbackCompleted string nat nat nat nat "string list"

section \<open>The world: file system and tables\<close>

datatype node = File (node_text: string) (node_perm: nat) | Dir
datatype fs_op = ReadOp | StatOp | WriteOp | ChmodOp | UnlinkOp | MkdirOp

record world =
  nodes :: "string \<Rightarrow> node option"
  faults :: "fs_op \<Rightarrow> string \<Rightarrow> string option"
  new_file_perm :: nat
  effects :: "effect list"
  snapshots :: "file_snapshot list"
  seq_counters :: "(string, nat) jsmap"
  broadcasts :: "event list"
  audits :: "(string \<times> nat \<times> nat \<times> nat \<times> nat \<times> string list) list"

definition read_file :: "world \<Rightarrow> string \<Rightarrow> string + string" where
  "read_file w p = (case faults w ReadOp p of Some m \<Rightarrow> Inl m | None \<Rightarrow>
     (case nodes w p of None \<Rightarrow> Inl ''ENOENT'' | Some Dir \<Rightarrow> Inl ''EISDIR'' | Some (File c m) \<Rightarrow> Inr c))"

text \<open>\<open>stat\<close>: whether it is a regular file, and its mode with the file type bits.\<close>

definition stat :: "world \<Rightarrow> string \<Rightarrow> string + (bool \<times> nat)" where
  "stat w p = (case faults w StatOp p of Some m \<Rightarrow> Inl m | None \<Rightarrow>
     (case nodes w p of None \<Rightarrow> Inl ''ENOENT'' | Some Dir \<Rightarrow> Inr (False, 16384)
      | Some (File c m) \<Rightarrow> Inr (True, 32768 + m)))"

definition write_file :: "world \<Rightarrow> string \<Rightarrow> string \<Rightarrow> world \<times> string option" where
  "write_file w p c = (case faults w WriteOp p of Some m \<Rightarrow> (w, Some m) | None \<Rightarrow>
     (case nodes w p of None \<Rightarrow> (w\<lparr>nodes := (nodes w)(p \<mapsto> File c (new_file_perm w))\<rparr>, None)
      | Some Dir \<Rightarrow> (w, Some ''EISDIR'')
      | Some (File c' m) \<Rightarrow> (w\<lparr>nodes := (nodes w)(p \<mapsto> File c m)\<rparr>, None)))"

definition chmod :: "world \<Rightarrow> string \<Rightarrow> nat \<Rightarrow> world \<times> string option" where
  "chmod w p m = (case faults w ChmodOp p of Some e \<Rightarrow> (w, Some e) | None \<Rightarrow>
     (case nodes w p of None \<Rightarrow> (w, Some ''ENOENT'') | Some Dir \<Rightarrow> (w, None)
      | Some (File c m') \<Rightarrow> (w\<lparr>nodes := (nodes w)(p \<mapsto> File c m)\<rparr>, None)))"

definition unlink :: "world \<Rightarrow> string \<Rightarrow> world \<times> string option" where
  "unlink w p = (case faults w UnlinkOp p of Some m \<Rightarrow> (w, Some m) | None \<Rightarrow>
     (case nodes w p of None \<Rightarrow> (w, Some ''ENOENT'') | Some Dir \<Rightarrow> (w, Some ''EPERM'')
      | Some (File c m) \<Rightarrow> (w\<lparr>nodes := (nodes w)(p := None)\<rparr>, None)))"

definition emit :: "event \<Rightarrow> world \<Rightarrow> world" where
  "emit ev w = w\<lparr>broadcasts := broadcasts w @ [ev]\<rparr>"

definition insert_effect :: "effect \<Rightarrow> world \<Rightarrow> world" where
  "insert_effect e w = w\<lparr>effects := effects w @ [e]\<rparr>"

definition insert_file_snapshot :: "file_snapshot \<Rightarrow> world \<Rightarrow> world" where
  "insert_file_snapshot s w = w\<lparr>snapshots := snapshots w @ [s]\<rparr>"

definition mark_effect_compensated :: "string \<Rightarrow> world \<Rightarrow> world" where
  "mark_effect_compensated i w =
     w\<lparr>effects := map (\<lambda>e. if eff_id e = i then e\<lparr>status := Compensated\<rparr> else e) (effects w)\<rparr>"

definition list_effects_by_run :: "world \<Rightarrow> string \<Rightarrow> effect list" where
  "list_effects_by_run w r = sort_key seq (filter (\<lambda>e. eff_run e = r) (effects w))"

definition list_effects_by_target :: "world \<Rightarrow> string \<Rightarrow> effect list" where
  "list_effects_by_target w p = sort_key created_at (filter (\<lambda>e. target e = p) (effects w))"

definition list_file_snapshots_by_run :: "world \<Rightarrow> string \<Rightarrow> file_snapshot list" where
  "list_file_snapshots_by_run w r = sort_key snap_at (filter (\<lambda>s. snap_run s = r) (snapshots w))"

definition get_file_snapshot_by_effect_id :: "world \<Rightarrow> string \<Rightarrow> file_snapshot option" where
  "get_file_snapshot_by_effect_id w i = find (\<lambda>s. snap_effect s = i) (snapshots w)"

section \<open>Queries\<close>

definition get_run_effects :: "world \<Rightarrow> string \<Rightarrow> effect list" where
  "get_run_effects w r = list_effects_by_run w r"

definition get_file_history :: "world \<Rightarrow> string \<Rightarrow> effect list" where
  "get_file_history w p = list_effects_by_target w p"

definition get_run_snapshots :: "world \<Rightarrow> string \<Rightarrow> file_snapshot list" where
  "get_run_snapshots w r = list_file_snapshots_by_run w r"

definition is_file_effect :: "effect \<Rightarrow> bool" where
  "is_file_effect e = (kind e = Create \<or> kind e = Modify \<or> kind e = Delete)"

definition is_external_effect :: "effect \<Rightarrow> bool" where
  "is_external_effect e = (kind e = Command \<or> kind e = Network)"

record effect_stats =
  st_total :: nat
  st_creates :: nat
  st_modifies :: nat
  st_deletes :: nat
  st_commands :: nat
  st_network :: nat
  st_compensated :: nat
  st_idempotent :: nat

definition get_effect_stats :: "world \<Rightarrow> string \<Rightarrow> effect_stats" where
  "get_effect_stats w r = (let es = get_run_effects w r in
     \<lparr>st_total = length es,
      st_creates = length (filter (\<lambda>e. kind e = Create) es),
      st_modifies = length (filter (\<lambda>e. kind e = Modify) es),
      st_deletes = length (filter (\<lambda>e. kind e = Delete) es),
      st_commands = length (filter (\<lambda>e. kind e = Command) es),
      st_network = length (filter (\<lambda>e. kind e = Network) es),
      st_compensated = length (filter (\<lambda>e. status e = Compensated) es),
      st_idempotent = length (filter (\<lambda>e. metadata e = IdempotentWrite) es)\<rparr>)"

definition run_has_compensatable_effects :: "world \<Rightarrow> string \<Rightarrow> bool" where
  "run_has_compensatable_effects w r =
     list_ex (\<lambda>e. is_file_effect e \<and> status e \<noteq> Compensated) (get_run_effects w r)"

section \<open>Snapshots and the effect tracker\<close>

definition capture_snapshot ::
  "(string \<Rightarrow> string) \<Rightarrow> string \<Rightarrow> int \<Rightarrow> string \<Rightarrow> string \<Rightarrow> string \<Rightarrow> world \<Rightarrow> world \<times> file_snapshot option" where
  "capture_snapshot h sid now r eid p w =
     (let save = (\<lambda>c hs m.
            let s = \<lparr>snap_id = sid, snap_effect = eid, snap_run = r, file_path = p, content = c,
                     snap_hash = hs, file_mode = m, snap_at = now\<rparr>
            in (emit (SnapshotCaptured sid eid) (insert_file_snapshot s w), Some s))
      in case stat w p of Inl _ \<Rightarrow> (w, None)
       | Inr (is_file, mode) \<Rightarrow>
           if is_file then
             (case read_file w p of Inl _ \<Rightarrow> (w, None)
              | Inr c \<Rightarrow> save (Some c) (Some (h c)) (Some mode))
           else save None None None)"

definition is_idempotent :: "(string \<Rightarrow> string) \<Rightarrow> world \<Rightarrow> effect \<Rightarrow> bool" where
  "is_idempotent h w e =
     (if is_external_effect e then False
      else (case post_hash e of None \<Rightarrow> False
        | Some ph \<Rightarrow> if ph = [] then False else
           (case read_file w (target e) of Inr c \<Rightarrow> h c = ph | Inl _ \<Rightarrow> kind e = Delete)))"

definition next_seq :: "world \<Rightarrow> string \<Rightarrow> world \<times> nat" where
  "next_seq w r = (let current = js_get_or (seq_counters w) r 0 in
     (w\<lparr>seq_counters := js_set (seq_counters w) r (current + 1)\<rparr>, current))"

definition reset_effect_seq :: "world \<Rightarrow> string \<Rightarrow> world" where
  "reset_effect_seq w r = w\<lparr>seq_counters := js_delete (seq_counters w) r\<rparr>"

definition record_effect ::
  "string \<Rightarrow> int \<Rightarrow> string \<Rightarrow> effect_kind \<Rightarrow> string \<Rightarrow> string \<Rightarrow> string option \<Rightarrow> string option
     \<Rightarrow> effect_metadata \<Rightarrow> world \<Rightarrow> world \<times> effect" where
  "record_effect eid now r k t p pre post md w =
     (let (w1, n) = next_seq w r;
          e = \<lparr>eff_id = eid, eff_run = r, seq = n, kind = k, tool = t, target = p, pre_hash = pre,
               post_hash = post, status = Applied, metadata = md, created_at = now\<rparr>
      in (emit (EffectRecorded eid r k p) (insert_effect e w1), e))"

definition record_file_write ::
  "(string \<Rightarrow> string) \<Rightarrow> string \<Rightarrow> string \<Rightarrow> int \<Rightarrow> string \<Rightarrow> string \<Rightarrow> string \<Rightarrow> string
     \<Rightarrow> world \<Rightarrow> world \<times> effect" where
  "record_file_write h eid sid now r t p new_content w =
     (let new_hash = h new_content;
          old = read_file w p;
          same = (case old of Inl _ \<Rightarrow> False | Inr c \<Rightarrow> h c = new_hash)
      in if same then record_effect eid now r Modify t p (Some new_hash) (Some new_hash) IdempotentWrite w
         else
           let k = (case stat w p of Inl _ \<Rightarrow> Create | Inr _ \<Rightarrow> Modify);
               pre = (case stat w p of Inl _ \<Rightarrow> None | Inr _ \<Rightarrow>
                        (case old of Inl _ \<Rightarrow> None | Inr c \<Rightarrow> Some (h c)));
               (w1, e) = record_effect eid now r k t p pre (Some new_hash) NoMetadata w;
               (w2, s) = capture_snapshot h sid now r eid p w1
           in (w2, e))"

definition record_file_delete ::
  "(string \<Rightarrow> string) \<Rightarrow> string \<Rightarrow> string \<Rightarrow> int \<Rightarrow> string \<Rightarrow> string \<Rightarrow> string \<Rightarrow> world \<Rightarrow> world \<times> effect" where
  "record_file_delete h eid sid now r t p w =
     (case read_file w p of
        Inl _ \<Rightarrow> record_effect eid now r Delete t p None None MissingOnDelete w
      | Inr c \<Rightarrow>
          let (w1, e) = record_effect eid now r Delete t p (Some (h c)) None NoMetadata w;
              (w2, s) = capture_snapshot h sid now r eid p w1
          in (w2, e))"

text \<open>\<open>wrapWithEffects\<close>: the \<open>write_file\<close> tool (already resolved path) and \<open>run_command\<close>.\<close>

definition wrapped_write_file ::
  "(string \<Rightarrow> string) \<Rightarrow> string \<Rightarrow> string \<Rightarrow> int \<Rightarrow> string \<Rightarrow> (string \<Rightarrow> string \<Rightarrow> world \<Rightarrow> world)
     \<Rightarrow> string \<Rightarrow> string \<Rightarrow> world \<Rightarrow> world" where
  "wrapped_write_file h eid sid now r execute p c w =
     execute p c (fst (record_file_write h eid sid now r ''write_file'' p c w))"

definition wrapped_run_command ::
  "string \<Rightarrow> int \<Rightarrow> string \<Rightarrow> (string \<Rightarrow> world \<Rightarrow> world \<times> string) \<Rightarrow> string \<Rightarrow> world \<Rightarrow> world \<times> string" where
  "wrapped_run_command eid now r execute cmd w =
     (let (w1, out) = execute cmd w
      in (fst (record_effect eid now r Command ''run_command'' cmd None None
                (CommandOutput (take 1000 out)) w1), out))"

section \<open>Rollback\<close>

definition safe_file_hash :: "(string \<Rightarrow> string) \<Rightarrow> world \<Rightarrow> string \<Rightarrow> string option" where
  "safe_file_hash h w p = (case read_file w p of Inl _ \<Rightarrow> None | Inr c \<Rightarrow> Some (h c))"

definition kind_name :: "effect_kind \<Rightarrow> string" where
  "kind_name k = (case k of Create \<Rightarrow> ''create'' | Modify \<Rightarrow> ''modify'' | Delete \<Rightarrow> ''delete''
     | Command \<Rightarrow> ''command'' | Network \<Rightarrow> ''network'')"

text \<open>One effect of the preview: which list it joins, and with what.\<close>

definition preview_compensate :: "effect \<Rightarrow> bool \<Rightarrow> rollback_preview \<Rightarrow> rollback_preview" where
  "preview_compensate e has_snapshot pv =
     pv\<lparr>would_compensate := would_compensate pv @ [(eff_id e, target e, kind e, has_snapshot)]\<rparr>"

definition preview_skip :: "effect \<Rightarrow> string \<Rightarrow> rollback_preview \<Rightarrow> rollback_preview" where
  "preview_skip e reason pv = pv\<lparr>would_skip := would_skip pv @ [(eff_id e, target e, reason)]\<rparr>"

definition preview_fail :: "effect \<Rightarrow> string \<Rightarrow> rollback_preview \<Rightarrow> rollback_preview" where
  "preview_fail e reason pv = pv\<lparr>would_fail := would_fail pv @ [(eff_id e, target e, reason)]\<rparr>"

definition preview_effect :: "(string \<Rightarrow> string) \<Rightarrow> world \<Rightarrow> rollback_preview \<Rightarrow> effect \<Rightarrow> rollback_preview" where
  "preview_effect h w pv e =
     (if status e = Compensated then preview_skip e ''Already compensated'' pv
      else let snapshot = get_file_snapshot_by_effect_id w (eff_id e);
               current = safe_file_hash h w (target e)
      in case kind e of
        Create \<Rightarrow>
          if current = post_hash e then preview_compensate e False pv
          else if current = None then preview_skip e ''File already deleted'' pv
          else preview_fail e ''File was modified after creation by another source'' pv
      | Modify \<Rightarrow>
          if snapshot = None then preview_fail e ''No snapshot available'' pv
          else if current \<noteq> post_hash e \<and> current \<noteq> None
            then preview_fail e ''File was modified by another source since this effect'' pv
          else preview_compensate e True pv
      | Delete \<Rightarrow>
          if Option.bind snapshot content = None then preview_skip e ''No pre-delete snapshot'' pv
          else if current \<noteq> None then preview_fail e ''File was recreated after deletion'' pv
          else preview_compensate e True pv
      | Command \<Rightarrow> pv
      | Network \<Rightarrow> pv)"

definition preview_external :: "rollback_preview \<Rightarrow> effect \<Rightarrow> rollback_preview" where
  "preview_external pv e = preview_skip e (kind_name (kind e) @ '' effects cannot be rolled back'') pv"

definition preview_rollback :: "(string \<Rightarrow> string) \<Rightarrow> world \<Rightarrow> string \<Rightarrow> rollback_preview" where
  "preview_rollback h w r =
     (let es = get_run_effects w r;
          pv = foldl (preview_effect h w)
                 \<lparr>would_compensate = [], would_skip = [], would_fail = []\<rparr> (rev (filter is_file_effect es))
      in foldl preview_external pv (filter is_external_effect es))"

text \<open>The state of the loop of \<open>rollbackRun\<close>.\<close>

record rollback_state =
  rb_world :: world
  rb_compensated :: nat
  rb_skipped :: nat
  rb_failed :: "item_reason list"
  rb_targets :: "string list"

definition finish_undo :: "string \<Rightarrow> effect \<Rightarrow> rollback_action \<Rightarrow> world \<Rightarrow> rollback_state \<Rightarrow> rollback_state" where
  "finish_undo r e action w rb =
     rb\<lparr>rb_world := emit (RollbackEffect r (eff_id e) (kind e) (target e) action)
                     (mark_effect_compensated (eff_id e) w),
        rb_compensated := rb_compensated rb + 1,
        rb_targets := rb_targets rb @ [target e]\<rparr>"

definition undo_failed :: "effect \<Rightarrow> string \<Rightarrow> world \<Rightarrow> rollback_state \<Rightarrow> rollback_state" where
  "undo_failed e msg w rb = rb\<lparr>rb_world := w, rb_failed := rb_failed rb @ [(eff_id e, target e, msg)]\<rparr>"

definition undo_skipped :: "rollback_state \<Rightarrow> rollback_state" where
  "undo_skipped rb = rb\<lparr>rb_skipped := rb_skipped rb + 1\<rparr>"

definition restore_file :: "world \<Rightarrow> string \<Rightarrow> string \<Rightarrow> nat option \<Rightarrow> world \<times> string option" where
  "restore_file w p c mode =
     (case write_file w p c of
        (w1, Some err) \<Rightarrow> (w1, Some err)
      | (w1, None) \<Rightarrow> (case mode of None \<Rightarrow> (w1, None) | Some m \<Rightarrow> chmod w1 p (m mod 4096)))"

definition undo_create :: "(string \<Rightarrow> string) \<Rightarrow> string \<Rightarrow> effect \<Rightarrow> rollback_state \<Rightarrow> rollback_state" where
  "undo_create h r e rb =
     (let current = safe_file_hash h (rb_world rb) (target e)
      in if current = post_hash e then
           (case unlink (rb_world rb) (target e) of
              (w1, None) \<Rightarrow> finish_undo r e Deleted w1 rb
            | (w1, Some err) \<Rightarrow> undo_failed e err w1 rb)
         else if current = None then undo_skipped rb
         else rb)"

definition undo_modify :: "string \<Rightarrow> effect \<Rightarrow> file_snapshot option \<Rightarrow> rollback_state \<Rightarrow> rollback_state" where
  "undo_modify r e snapshot rb =
     (case Option.bind snapshot content of
        Some c \<Rightarrow>
          (case restore_file (rb_world rb) (target e) c (Option.bind snapshot file_mode) of
             (w1, None) \<Rightarrow> finish_undo r e Restored w1 rb
           | (w1, Some err) \<Rightarrow> undo_failed e err w1 rb)
      | None \<Rightarrow> finish_undo r e Restored (fst (unlink (rb_world rb) (target e))) rb)"

definition mkdir_parent :: "world \<Rightarrow> string \<Rightarrow> string option" where
  "mkdir_parent w p = faults w MkdirOp p"

definition undo_delete :: "string \<Rightarrow> effect \<Rightarrow> file_snapshot option \<Rightarrow> rollback_state \<Rightarrow> rollback_state" where
  "undo_delete r e snapshot rb =
     (case Option.bind snapshot content of
        Some c \<Rightarrow>
          (case mkdir_parent (rb_world rb) (target e) of
             Some err \<Rightarrow> undo_failed e err (rb_world rb) rb
           | None \<Rightarrow>
               (case restore_file (rb_world rb) (target e) c (Option.bind snapshot file_mode) of
                  (w1, None) \<Rightarrow> finish_undo r e Recreated w1 rb
                | (w1, Some err) \<Rightarrow> undo_failed e err w1 rb))
      | None \<Rightarrow> undo_skipped rb)"

definition rollback_effect :: "(string \<Rightarrow> string) \<Rightarrow> string \<Rightarrow> rollback_state \<Rightarrow> effect \<Rightarrow> rollback_state" where
  "rollback_effect h r rb e =
     (if status e = Compensated then undo_skipped rb
      else let snapshot = get_file_snapshot_by_effect_id (rb_world rb) (eff_id e)
           in case kind e of
                Create \<Rightarrow> undo_create h r e rb
              | Modify \<Rightarrow> undo_modify r e snapshot rb
              | Delete \<Rightarrow> undo_delete r e snapshot rb
              | Command \<Rightarrow> rb
              | Network \<Rightarrow> rb)"

definition rollback_blocked :: "string \<Rightarrow> rollback_preview \<Rightarrow> world \<Rightarrow> world \<times> rollback_result" where
  "rollback_blocked r pv w =
     (emit (RollbackBlocked r (length (would_fail pv)) (map (\<lambda>f. fst (snd f)) (would_fail pv))) w,
      \<lparr>total = length (would_compensate pv) + length (would_skip pv) + length (would_fail pv),
       compensated = 0, skipped = length (would_skip pv), failed = would_fail pv\<rparr>)"

definition rollback_apply :: "(string \<Rightarrow> string) \<Rightarrow> string \<Rightarrow> world \<Rightarrow> rollback_state" where
  "rollback_apply h r w =
     (let es = get_run_effects w r
      in foldl (rollback_effect h r)
           \<lparr>rb_world = emit (RollbackStarted r (length es)) w, rb_compensated = 0, rb_skipped = 0,
            rb_failed = [], rb_targets = []\<rparr>
           (rev (filter is_file_effect es)))"

definition rollback_run :: "(string \<Rightarrow> string) \<Rightarrow> string \<Rightarrow> world \<Rightarrow> world \<times> rollback_result" where
  "rollback_run h r w =
     (let pv = preview_rollback h w r
      in if would_fail pv \<noteq> [] then rollback_blocked r pv w
         else
           let es = get_run_effects w r;
               rb = rollback_apply h r w;
               sk = rb_skipped rb + length (filter is_external_effect es);
               w1 = emit (RollbackCompleted r (length es) (rb_compensated rb) sk
                            (length (rb_failed rb)) (rb_targets rb)) (rb_world rb);
               w2 = w1\<lparr>audits := audits w1 @ [(r, length es, rb_compensated rb, sk,
                            length (rb_failed rb), rb_targets rb)]\<rparr>
           in (w2, \<lparr>total = length es, compensated = rb_compensated rb, skipped = sk,
                    failed = rb_failed rb\<rparr>))"

section \<open>Frame rules\<close>

named_theorems ledger "what each primitive of the ledger leaves alone"

lemma emit_frame [simp, ledger]:
  "nodes (emit ev w) = nodes w" "faults (emit ev w) = faults w"
  "new_file_perm (emit ev w) = new_file_perm w" "effects (emit ev w) = effects w"
  "snapshots (emit ev w) = snapshots w" "seq_counters (emit ev w) = seq_counters w"
  by (simp_all add: emit_def)

lemma insert_effect_frame [simp, ledger]:
  "nodes (insert_effect e w) = nodes w" "faults (insert_effect e w) = faults w"
  "new_file_perm (insert_effect e w) = new_file_perm w"
  "effects (insert_effect e w) = effects w @ [e]"
  "snapshots (insert_effect e w) = snapshots w" "seq_counters (insert_effect e w) = seq_counters w"
  by (simp_all add: insert_effect_def)

lemma insert_file_snapshot_frame [simp, ledger]:
  "nodes (insert_file_snapshot s w) = nodes w" "faults (insert_file_snapshot s w) = faults w"
  "new_file_perm (insert_file_snapshot s w) = new_file_perm w"
  "effects (insert_file_snapshot s w) = effects w"
  "snapshots (insert_file_snapshot s w) = snapshots w @ [s]"
  "seq_counters (insert_file_snapshot s w) = seq_counters w"
  by (simp_all add: insert_file_snapshot_def)

lemma mark_frame [simp, ledger]:
  "nodes (mark_effect_compensated i w) = nodes w" "faults (mark_effect_compensated i w) = faults w"
  "new_file_perm (mark_effect_compensated i w) = new_file_perm w"
  "snapshots (mark_effect_compensated i w) = snapshots w"
  "seq_counters (mark_effect_compensated i w) = seq_counters w"
  by (simp_all add: mark_effect_compensated_def)

text \<open>File operations change the nodes of one path and nothing else.\<close>

definition only_path :: "string \<Rightarrow> world \<Rightarrow> world \<Rightarrow> bool" where
  "only_path p w w' = (faults w' = faults w \<and> new_file_perm w' = new_file_perm w \<and>
     effects w' = effects w \<and> snapshots w' = snapshots w \<and> seq_counters w' = seq_counters w \<and>
     (\<forall>q. q \<noteq> p \<longrightarrow> nodes w' q = nodes w q))"




lemma only_path_refl [simp]: "only_path p w w"
  by (simp add: only_path_def)



text \<open>What one step of the rollback may touch.\<close>

definition undo_frame :: "effect \<Rightarrow> rollback_state \<Rightarrow> rollback_state \<Rightarrow> bool" where
  "undo_frame e rb rb' = (faults (rb_world rb') = faults (rb_world rb) \<and>
     snapshots (rb_world rb') = snapshots (rb_world rb) \<and>
     (\<forall>q. q \<noteq> target e \<longrightarrow> nodes (rb_world rb') q = nodes (rb_world rb) q) \<and>
     map eff_run (effects (rb_world rb')) = map eff_run (effects (rb_world rb)) \<and>
     map eff_id (effects (rb_world rb')) = map eff_id (effects (rb_world rb)) \<and>
     filter (\<lambda>x. eff_id x \<noteq> eff_id e) (effects (rb_world rb')) =
       filter (\<lambda>x. eff_id x \<noteq> eff_id e) (effects (rb_world rb)))"




lemma undo_skipped_frame [simp]: "undo_frame e rb (undo_skipped rb)" "undo_frame e rb rb"
  by (simp_all add: undo_frame_def undo_skipped_def)








section \<open>What the rollback loop leaves alone\<close>




lemma set_get_run_effects [simp]:
  "set (get_run_effects w r) = {e \<in> set (effects w). eff_run e = r}"
  by (auto simp: get_run_effects_def list_effects_by_run_def)

lemma get_run_effects_emit [simp]: "get_run_effects (emit ev w) r = get_run_effects w r"
  by (simp add: get_run_effects_def list_effects_by_run_def)




lemma rollback_run_cases:
  "(would_fail (preview_rollback h w r) \<noteq> [] \<and>
     rollback_run h r w = rollback_blocked r (preview_rollback h w r) w) \<or>
   (would_fail (preview_rollback h w r) = [] \<and>
     nodes (fst (rollback_run h r w)) = nodes (rb_world (rollback_apply h r w)) \<and>
     effects (fst (rollback_run h r w)) = effects (rb_world (rollback_apply h r w)) \<and>
     snd (rollback_run h r w) =
       \<lparr>total = length (get_run_effects w r), compensated = rb_compensated (rollback_apply h r w),
        skipped = rb_skipped (rollback_apply h r w) +
          length (filter is_external_effect (get_run_effects w r)),
        failed = rb_failed (rollback_apply h r w)\<rparr>)"
  by (auto simp: rollback_run_def Let_def emit_def)


definition witness_world :: world where
  "witness_world = \<lparr>nodes = (\<lambda>p. if p = ''/a'' then Some (File ''old'' 420) else None),
     faults = (\<lambda>_ _. None), new_file_perm = 420, effects = [], snapshots = [], seq_counters = [],
     broadcasts = [], audits = []\<rparr>"


section \<open>The preview and the accounting\<close>

definition preview_ids :: "rollback_preview \<Rightarrow> string multiset" where
  "preview_ids pv = mset (map fst (would_compensate pv)) + mset (map fst (would_skip pv))
     + mset (map fst (would_fail pv))"

lemma preview_ids_empty: "preview_ids \<lparr>would_compensate = [], would_skip = [], would_fail = []\<rparr> = {#}"
  by (simp add: preview_ids_def)

lemma preview_adds [simp]:
  "preview_ids (preview_compensate e b pv) = add_mset (eff_id e) (preview_ids pv)"
  "preview_ids (preview_skip e m pv) = add_mset (eff_id e) (preview_ids pv)"
  "preview_ids (preview_fail e m pv) = add_mset (eff_id e) (preview_ids pv)"
  by (simp_all add: preview_ids_def preview_compensate_def preview_skip_def preview_fail_def)

lemma preview_effect_ids:
  "is_file_effect e \<Longrightarrow> preview_ids (preview_effect h w pv e) = add_mset (eff_id e) (preview_ids pv)"
  by (auto simp: preview_effect_def Let_def is_file_effect_def)

lemma preview_loop_ids:
  "\<forall>e\<in>set es. is_file_effect e \<Longrightarrow>
   preview_ids (foldl (preview_effect h w) pv es) = preview_ids pv + mset (map eff_id es)"
  by (induction es arbitrary: pv) (auto simp: preview_effect_ids)

lemma preview_external_ids:
  "preview_ids (foldl preview_external pv es) = preview_ids pv + mset (map eff_id es)"
  by (induction es arbitrary: pv) (auto simp: preview_external_def)

lemma file_or_external: "is_file_effect e \<noteq> is_external_effect e"
  by (cases "kind e") (auto simp: is_file_effect_def is_external_effect_def)

lemma split_file_external:
  "mset (filter is_file_effect es) + mset (filter is_external_effect es) = mset es"
proof (induction es)
  case Nil
  then show ?case by simp
next
  case (Cons e es)
  then show ?case using file_or_external [of e] by auto
qed

lemma length_file_external:
  "length (filter is_file_effect es) + length (filter is_external_effect es) = length es"
proof (induction es)
  case Nil
  then show ?case by simp
next
  case (Cons e es)
  then show ?case using file_or_external [of e] by auto
qed

lemma preview_partition:
  "preview_ids (preview_rollback h w r) = mset (map eff_id (get_run_effects w r))"
proof -
  let ?es = "get_run_effects w r"
  have "preview_ids (preview_rollback h w r) =
      mset (map eff_id (filter is_file_effect ?es)) + mset (map eff_id (filter is_external_effect ?es))"
    by (simp add: preview_rollback_def Let_def preview_external_ids preview_loop_ids preview_ids_empty)
  also have "\<dots> = image_mset eff_id (mset (filter is_file_effect ?es) + mset (filter is_external_effect ?es))"
    by simp
  also have "\<dots> = mset (map eff_id ?es)" unfolding split_file_external by simp
  finally show ?thesis .
qed

lemma preview_total:
  "length (would_compensate (preview_rollback h w r)) + length (would_skip (preview_rollback h w r))
     + length (would_fail (preview_rollback h w r)) = length (get_run_effects w r)"
proof -
  have "size (preview_ids (preview_rollback h w r)) = length (get_run_effects w r)"
    unfolding preview_partition by simp
  then show ?thesis by (simp add: preview_ids_def)
qed

definition rb_count :: "rollback_state \<Rightarrow> nat" where
  "rb_count rb = rb_compensated rb + rb_skipped rb + length (rb_failed rb)"

lemma rb_count_simps [simp]:
  "rb_count (finish_undo r e a w rb) = Suc (rb_count rb)"
  "rb_count (undo_failed e m w rb) = Suc (rb_count rb)"
  "rb_count (undo_skipped rb) = Suc (rb_count rb)"
  by (simp_all add: rb_count_def finish_undo_def undo_failed_def undo_skipped_def)

lemma rollback_effect_count: "rb_count (rollback_effect h r rb e) \<le> Suc (rb_count rb)"
  by (auto simp: rollback_effect_def Let_def undo_create_def undo_modify_def undo_delete_def
      split: effect_kind.split option.split prod.split)

lemma rollback_loop_count: "rb_count (foldl (rollback_effect h r) rb es) \<le> rb_count rb + length es"
proof (induction es arbitrary: rb)
  case Nil
  then show ?case by simp
next
  case (Cons e es)
  show ?case
    using rollback_effect_count [of h r rb e] Cons [of "rollback_effect h r rb e"] by simp
qed

lemma rollback_apply_count:
  "rb_count (rollback_apply h r w) + length (filter is_external_effect (get_run_effects w r))
     \<le> length (get_run_effects w r)"
proof -
  have "rb_count (rollback_apply h r w) \<le> length (filter is_file_effect (get_run_effects w r))"
    unfolding rollback_apply_def Let_def
    by (rule order_trans [OF rollback_loop_count]) (simp add: rb_count_def)
  moreover have "length (filter is_file_effect (get_run_effects w r))
      + length (filter is_external_effect (get_run_effects w r)) = length (get_run_effects w r)"
    by (rule length_file_external)
  ultimately show ?thesis by simp
qed

text \<open>The preview lists every effect of the run exactly once (to compensate, to skip or failing).
  The rollback is all or nothing at that point: one failing entry blocks it, and a blocked rollback
  changes no file and no ledger row, compensates nothing and reports every failing effect. In both
  cases the reported total is the number of the run's effects, and the three counts never exceed it.\<close>

theorem rollback_blocked_or_accounted:
  "preview_ids (preview_rollback h w r) = mset (map eff_id (get_run_effects w r)) \<and>
   (let res = snd (rollback_run h r w); w' = fst (rollback_run h r w) in
      total res = length (get_run_effects w r) \<and>
      compensated res + skipped res + length (failed res) \<le> total res \<and>
      (if would_fail (preview_rollback h w r) = [] then True
       else nodes w' = nodes w \<and> effects w' = effects w \<and> snapshots w' = snapshots w \<and>
            compensated res = 0 \<and> failed res = would_fail (preview_rollback h w r)))"
  using rollback_run_cases [of h w r] preview_partition [of h w r] preview_total [of h w r]
    rollback_apply_count [of h r w]
  by (auto simp: Let_def rollback_blocked_def rb_count_def)

section \<open>A recorded write and its undo\<close>

text \<open>A request of the \<open>write_file\<close> tool: identifiers, time, path and new text.\<close>

record write_request =
  req_eid :: string
  req_sid :: string
  req_at :: int
  req_path :: string
  req_text :: string

definition do_write :: "string \<Rightarrow> string \<Rightarrow> world \<Rightarrow> world" where
  "do_write p c w = fst (write_file w p c)"

definition run_write :: "(string \<Rightarrow> string) \<Rightarrow> string \<Rightarrow> world \<Rightarrow> write_request \<Rightarrow> world" where
  "run_write h r w q =
     wrapped_write_file h (req_eid q) (req_sid q) (req_at q) r do_write (req_path q) (req_text q) w"

definition run_writes :: "(string \<Rightarrow> string) \<Rightarrow> string \<Rightarrow> write_request list \<Rightarrow> world \<Rightarrow> world" where
  "run_writes h r qs w = foldl (run_write h r) w qs"

text \<open>A ledger entry \<open>e\<close> that records request \<open>q\<close>, made in the world \<open>w\<close> and now seen in \<open>W\<close>.\<close>

definition recorded :: "(string \<Rightarrow> string) \<Rightarrow> world \<Rightarrow> world \<Rightarrow> write_request \<Rightarrow> effect \<Rightarrow> bool" where
  "recorded h w W q e = (eff_id e = req_eid q \<and> target e = req_path q \<and> status e = Applied \<and>
     post_hash e = Some (h (req_text q)) \<and>
     (case nodes w (req_path q) of
        None \<Rightarrow> kind e = Create \<and> (\<exists>m. nodes W (req_path q) = Some (File (req_text q) m))
      | Some Dir \<Rightarrow> False
      | Some (File c m) \<Rightarrow> kind e = Modify \<and> m < 4096 \<and>
          nodes W (req_path q) = Some (File (req_text q) m) \<and>
          (case get_file_snapshot_by_effect_id W (eff_id e) of None \<Rightarrow> False
           | Some s \<Rightarrow> content s = Some c \<and> file_mode s = Some (32768 + m))))"




lemma perm_of_mode [simp]: "m < 4096 \<Longrightarrow> (32768 + m) mod 4096 = (m :: nat)"
  using mod_mult_self1 [of m 8 4096] by (simp add: add.commute)



lemma recorded_emit [simp]: "recorded h w (emit ev W) = recorded h w W"
  by (rule ext)+ (auto simp: recorded_def get_file_snapshot_by_effect_id_def
      split: option.split node.split)






lemmas tracking_defs = run_write_def wrapped_write_file_def record_file_write_def read_file_def stat_def
  record_effect_def next_seq_def capture_snapshot_def do_write_def write_file_def




lemma find_none: "(\<forall>x\<in>set xs. \<not> P x) \<Longrightarrow> find P xs = None"
  by (induction xs) auto








section \<open>Superseded and idempotent entries block the rollback\<close>

lemma preview_fail_mono:
  "would_fail pv \<noteq> [] \<Longrightarrow> would_fail (preview_effect h w pv e) \<noteq> []"
  by (auto simp: preview_effect_def Let_def preview_compensate_def preview_skip_def preview_fail_def
      split: effect_kind.split)

lemma preview_fail_loop:
  "would_fail pv \<noteq> [] \<Longrightarrow> would_fail (foldl (preview_effect h w) pv es) \<noteq> []"
  by (induction es arbitrary: pv) (auto simp: preview_fail_mono)

lemma preview_external_fail: "would_fail (foldl preview_external pv es) = would_fail pv"
  by (induction es arbitrary: pv) (auto simp: preview_external_def preview_skip_def)

lemma preview_blocked_by:
  assumes "e \<in> set es" "\<And>pv. would_fail (preview_effect h w pv e) \<noteq> []"
  shows "would_fail (foldl (preview_effect h w) pv es) \<noteq> []"
  using assms(1)
proof (induction es arbitrary: pv)
  case Nil
  then show ?case by simp
next
  case (Cons a es)
  then show ?case using assms(2) preview_fail_loop by auto
qed

lemma rollback_blocked_by:
  assumes "e \<in> set (effects w)" "eff_run e = r" "is_file_effect e"
    and "\<And>pv. would_fail (preview_effect h w pv e) \<noteq> []"
  shows "would_fail (preview_rollback h w r) \<noteq> []"
  unfolding preview_rollback_def Let_def preview_external_fail
  by (rule preview_blocked_by [of e]) (use assms in auto)

lemma blocked_nodes: "would_fail (preview_rollback h w r) \<noteq> [] \<Longrightarrow>
    nodes (fst (rollback_run h r w)) = nodes w \<and> compensated (snd (rollback_run h r w)) = 0"
  using rollback_run_cases [of h w r] by (auto simp: rollback_blocked_def)

text \<open>The rollback of a run that wrote one file twice is always blocked, also when nobody else
  touched the file: two open entries of the run with different recorded results name the same
  file, the file is readable, so it differs from one of them, and the preview takes the run's own later
  write for a foreign one. No file of the run is restored.\<close>

theorem superseded_write_blocks_rollback:
  assumes "e1 \<in> set (effects w)" "e2 \<in> set (effects w)" "eff_run e1 = r" "eff_run e2 = r"
    and "kind e1 = Create \<or> kind e1 = Modify" "kind e2 = Create \<or> kind e2 = Modify"
    and "status e1 = Applied" "status e2 = Applied" "target e1 = target e2"
    and "post_hash e1 \<noteq> post_hash e2" "read_file w (target e1) = Inr c"
  shows "nodes (fst (rollback_run h r w)) = nodes w \<and> compensated (snd (rollback_run h r w)) = 0"
proof -
  have stale: "would_fail (preview_effect h w pv e) \<noteq> []"
    if "kind e = Create \<or> kind e = Modify" "status e = Applied" "target e = target e1"
      "post_hash e \<noteq> Some (h c)" for pv e
    using that assms(11)
    by (auto simp: preview_effect_def Let_def safe_file_hash_def preview_fail_def)
  have "post_hash e1 \<noteq> Some (h c) \<or> post_hash e2 \<noteq> Some (h c)" using assms(10) by auto
  then have "would_fail (preview_rollback h w r) \<noteq> []"
  proof
    assume "post_hash e1 \<noteq> Some (h c)"
    then show ?thesis
      by (intro rollback_blocked_by [OF assms(1,3)] stale) (use assms in \<open>auto simp: is_file_effect_def\<close>)
  next
    assume "post_hash e2 \<noteq> Some (h c)"
    then show ?thesis
      by (intro rollback_blocked_by [OF assms(2,4)] stale) (use assms in \<open>auto simp: is_file_effect_def\<close>)
  qed
  then show ?thesis by (rule blocked_nodes)
qed

definition twice_written :: world where
  "twice_written = run_writes id ''r''
     [\<lparr>req_eid = ''e1'', req_sid = ''s1'', req_at = 1, req_path = ''/b'', req_text = ''one''\<rparr>,
      \<lparr>req_eid = ''e2'', req_sid = ''s2'', req_at = 2, req_path = ''/b'', req_text = ''two''\<rparr>] witness_world"

theorem superseded_write_blocks_rollback_witness:
  "nodes (fst (rollback_run id ''r'' twice_written)) = nodes twice_written \<and>
   compensated (snd (rollback_run id ''r'' twice_written)) = 0"
  by (rule superseded_write_blocks_rollback [where ?e1.0 = "effects twice_written ! 0"
        and ?e2.0 = "effects twice_written ! 1" and c = "''two''"])
    (simp_all add: twice_written_def run_writes_def witness_world_def tracking_defs Let_def)

text \<open>A write of the text a file already has is recorded as a modification without a snapshot,
  and that entry alone blocks the rollback of the whole run from then on, whatever the file holds:
  none of the run's other writes can be rolled back.\<close>

theorem idempotent_write_blocks_rollback:
  assumes "read_file w p = Inr c" "h c = h t"
    and "req_eid q \<notin> snap_effect ` set (snapshots w)" "req_path q = p" "req_text q = t"
  shows "let w' = fst (record_file_write h (req_eid q) (req_sid q) (req_at q) r tn p t w);
             w'' = w'\<lparr>nodes := ns\<rparr>
         in metadata (last (effects w')) = IdempotentWrite \<and>
            nodes (fst (rollback_run h r w'')) = ns \<and> compensated (snd (rollback_run h r w'')) = 0"
proof -
  let ?e = "\<lparr>eff_id = req_eid q, eff_run = r, seq = js_get_or (seq_counters w) r 0, kind = Modify,
     tool = tn, target = p, pre_hash = Some (h t), post_hash = Some (h t), status = Applied,
     metadata = IdempotentWrite, created_at = req_at q\<rparr>"
  let ?w' = "fst (record_file_write h (req_eid q) (req_sid q) (req_at q) r tn p t w)"
  let ?w = "?w'\<lparr>nodes := ns\<rparr>"
  have eff: "effects ?w' = effects w @ [?e]" "snapshots ?w' = snapshots w"
    using assms(1,2) by (simp_all add: record_file_write_def record_effect_def next_seq_def Let_def)
  have "find (\<lambda>s. snap_effect s = req_eid q) (snapshots w) = None"
    using assms(3) by (intro find_none) (auto simp: image_iff)
  then have "would_fail (preview_effect h ?w pv ?e) \<noteq> []" for pv
    using eff(2) by (simp add: preview_effect_def get_file_snapshot_by_effect_id_def preview_fail_def)
  then have "would_fail (preview_rollback h ?w r) \<noteq> []"
    by (rule rollback_blocked_by [of ?e, rotated -1]) (use eff in \<open>simp_all add: is_file_effect_def\<close>)
  then show ?thesis using blocked_nodes [of h ?w r] eff(1) by (simp add: Let_def)
qed

theorem idempotent_write_blocks_rollback_witness:
  "compensated (snd (rollback_run id ''r''
     ((fst (record_file_write id ''e1'' ''s1'' 1 ''r'' ''write_file'' ''/a'' ''old''
        witness_world))\<lparr>nodes := nodes witness_world\<rparr>))) = 0"
  using idempotent_write_blocks_rollback
    [where w = witness_world and p = "''/a''" and c = "''old''" and t = "''old''" and h = id
       and q = "\<lparr>req_eid = ''e1'', req_sid = ''s1'', req_at = 1, req_path = ''/a'', req_text = ''old''\<rparr>"
       and r = "''r''" and tn = "''write_file''" and ns = "nodes witness_world"]
  by (simp add: witness_world_def read_file_def Let_def)

end
