(* ===== verification/PlanTypes.thy ===== *)
theory PlanTypes
  imports Prelude
begin

text \<open>
  The plan data the planner components share: steps, edges and results
  (\<open>packages/agent/src/domain/types/planner-delegate.ts\<close>, \<open>core/plan/types.ts\<close>,
  \<open>core/plan/internal/types-pipeline.ts\<close>, \<open>types-verifier.ts\<close>) and the path normalisers
  (\<open>internal/paths.ts\<close>, \<open>core/plan/blueprint-contract/normalize.ts\<close>,
  \<open>core/plan/pipeline-repair/path-normalize.ts\<close>). Prose fields no modelled function reads
  (input contracts, context requirements, budget hints) are left out.
\<close>

section \<open>Steps and plans\<close>

datatype relation_type = ReadDependency | WriteOwner
datatype effect_class = Readonly | FilesystemWrite | FilesystemScaffold | ShellEffect | MixedEffect
datatype verification_mode = NoVerification | RunTests | MutationRequired | DeterministicFollowup
datatype on_error = OnRetry | OnSkip | OnAbort

type_synonym artifact_relation = "relation_type \<times> string"

record execution_envelope =
  allowed_tools :: "string list"
  required_source_artifacts :: "string list"
  target_artifacts :: "string list"
  effect_class_of :: effect_class
  verification_mode_of :: verification_mode
  artifact_relations :: "artifact_relation list"
  forbidden_artifacts :: "string list"
  required_checks :: "string list"

record tool_step =
  ts_tool :: string
  ts_on_error :: "on_error option"
  ts_max_retries :: "nat option"

record subagent_step =
  sa_objective :: string
  sa_acceptance_criteria :: "string list"
  sa_required_tools :: "string list"
  sa_context :: execution_envelope
  sa_can_run_parallel :: bool
  sa_workflow_relations :: "artifact_relation list"

datatype step_body = DeterministicTool tool_step | SubagentTask subagent_step

record plan_step =
  step_name :: string
  depends_on :: "string list"
  body :: step_body

record plan_edge =
  e_from :: string
  e_to :: string

record plan =
  steps :: "plan_step list"
  edges :: "plan_edge list"

section \<open>Results\<close>

datatype step_status = SPending | SRunning | SCompleted | SFailed | SSkipped
datatype acceptance_state = APending | APendingVerification | AAccepted | ARepairRequired | ABlocked | ARejected

datatype pipeline_status = PCompleted | PFailed

datatype finding =
    ForbiddenArtifactWrite "string list"
  | MissingRequiredOutput "string list"
  | HallucinatedArtifact "string list"
  | UnresolvedBlocker "string list"
  | RequiredCheckSkipped

datatype step_error =
    OtherError string
  | WaitingOn "string list"
  | UpstreamFailed
  | AbortedBy string
  | ContractErrors "step_error option" "finding list"

datatype failure_class =
    FailTimeout | FailBudget | FailToolMisuse | FailBlueprintContract | FailSyntax | FailSpawn | FailCancelled
  | FailTransientProvider | FailPlatformUnconfigured | FailUnknown

record child_result =
  child_success :: bool
  unresolved_blockers :: "string list"

record tool_call =
  call_name :: string
  call_path :: "string option"

record step_result =
  r_name :: string
  r_status :: step_status
  r_execution :: step_status
  r_acceptance :: "acceptance_state option"
  r_error :: "step_error option"
  r_failure :: "failure_class option"
  r_tool_calls :: "tool_call list option"
  r_child :: "child_result option"
  r_produced :: "string list"
  r_modified :: "string list"
  r_verifications :: nat
  r_reconciliation :: "(bool \<times> finding list) option"

section \<open>Verification\<close>

datatype severity = SevWarning | SevError | SevFatal
datatype verifier_outcome = OutPass | OutRetry | OutFail
datatype verifier_mode = ModeRepair | ModeReverify | ModeBlocked
datatype evidence_source = FromContract | FromDeterministic | FromLlm
datatype ownership_mode = DeterministicOwner | SharedOwners | IntegrationLayer | PlannerFault | Ambiguous
datatype repair_class =
    OwnerImplementation | IntegrationWiring | ContractDrift | PathScope | RuntimeFailure | SyntaxFailure
  | PlaceholderLogic | VerificationGap

record evidence =
  ev_id :: string
  ev_step :: string
  ev_source :: evidence_source
  ev_kind :: string
  ev_message :: string
  ev_paths :: "string list"

record verifier_issue =
  vi_code :: string
  vi_severity :: severity
  vi_retryable :: bool
  vi_owner :: string
  vi_confidence :: real
  vi_mode :: ownership_mode
  vi_suspected :: "string list"
  vi_primary :: "string option"
  vi_affected :: "string list"
  vi_source :: "string list option"
  vi_evidence :: "string list"
  vi_class :: repair_class
  vi_summary :: string

record step_assessment =
  va_step :: string
  va_outcome :: verifier_outcome
  va_issues :: "string list"
  va_details :: "verifier_issue list option"
  va_evidence :: "evidence list option"
  va_retryable :: bool

record repair_task =
  rt_step :: string
  rt_mode :: verifier_mode
  rt_owned :: "verifier_issue list"
  rt_dependency :: "verifier_issue list"
  rt_required_accepted :: "string list"

record repair_plan =
  rp_tasks :: "repair_task list"
  rp_rerun_order :: "string list"
  rp_skipped :: "string list"

record verifier_decision =
  vd_overall :: verifier_outcome
  vd_steps :: "step_assessment list"
  vd_unresolved :: "string list"
  vd_repair :: "repair_plan option"

section \<open>Paths\<close>

definition to_posix_path :: "string \<Rightarrow> string" where
  "to_posix_path s = map (\<lambda>c. if c = CHR 0x5C then CHR ''/'' else c) s"

definition strip_leading_dot_slash :: "string \<Rightarrow> string" where
  "strip_leading_dot_slash s = (if starts_with s ''./'' then drop 2 s else s)"

definition canonicalize_relative :: "string \<Rightarrow> string" where
  "canonicalize_relative s = strip_leading_dot_slash (to_posix_path s)"

definition normalize_spec_path :: "string \<Rightarrow> string" where
  "normalize_spec_path s = js_trim (canonicalize_relative s)"

definition normalize_tool_call_path :: "string option \<Rightarrow> string" where
  "normalize_tool_call_path v = (case v of None \<Rightarrow> []
     | Some s \<Rightarrow> js_trim (strip_leading_dot_slash (to_posix_path s)))"

definition normalize_artifact_path :: "string \<Rightarrow> string" where
  "normalize_artifact_path s = strip_leading_dot_slash s"

definition subagents :: "plan_step list \<Rightarrow> (plan_step \<times> subagent_step) list" where
  "subagents ss = concat (map (\<lambda>s. case body s of SubagentTask sa \<Rightarrow> [(s, sa)] | DeterministicTool t \<Rightarrow> []) ss)"

end
