(* ===== verification/PlanGraph.thy ===== *)
theory PlanGraph
  imports PlanTypes
begin

text \<open>
  The graph passes of plan validation (\<open>packages/agent/src/core/plan/validate/graph.ts\<close>) and
  the edge collection of the plan parser (\<open>core/plan/generate-parse/parse.ts\<close> lines 132 to 178,
  \<open>stripRedundantVerificationSteps\<close> in \<open>generate-parse/helpers.ts\<close>).

  The two recursive searches take fuel; \<open>None\<close> is a recursion deeper than the fuel (a cyclic
  \<open>longestPath\<close> would exhaust the stack). The theorems show that the number of steps plus one
  always suffices, so the fuel is never the reason for a result.
\<close>

section \<open>Adjacency\<close>

type_synonym adjacency = "(string, string list) jsmap"

definition neighbours :: "adjacency \<Rightarrow> string \<Rightarrow> string list" where
  "neighbours adj v = js_get_or adj v []"

text \<open>\<open>adj.get(e.from)?.push(e.to)\<close>: edges from unknown steps are dropped.\<close>

definition push_edge :: "adjacency \<Rightarrow> plan_edge \<Rightarrow> adjacency" where
  "push_edge adj e = (case js_get adj (e_from e) of None \<Rightarrow> adj
     | Some ns \<Rightarrow> js_set adj (e_from e) (ns @ [e_to e]))"

definition build_adjacency :: "string list \<Rightarrow> plan_edge list \<Rightarrow> adjacency" where
  "build_adjacency names es = foldl push_edge (foldl (\<lambda>m n. js_set m n []) [] names) es"

section \<open>The cycle search\<close>

datatype colour = White | Grey | Black

type_synonym colours = "(string, colour) jsmap"

fun dfs :: "nat \<Rightarrow> adjacency \<Rightarrow> colours \<Rightarrow> string \<Rightarrow> (bool \<times> colours) option"
  and dfs_loop :: "nat \<Rightarrow> adjacency \<Rightarrow> colours \<Rightarrow> string list \<Rightarrow> (bool \<times> colours) option" where
  "dfs 0 adj c v = None"
| "dfs (Suc n) adj c v =
     (case dfs_loop n adj (js_set c v Grey) (neighbours adj v) of
        None \<Rightarrow> None
      | Some (True, c') \<Rightarrow> Some (True, c')
      | Some (False, c') \<Rightarrow> Some (False, js_set c' v Black))"
| "dfs_loop n adj c [] = Some (False, c)"
| "dfs_loop n adj c (w # ws) =
     (if js_get c w = Some Grey then Some (True, c)
      else if js_get c w = Some White then
        (case dfs n adj c w of
           None \<Rightarrow> None
         | Some (True, c') \<Rightarrow> Some (True, c')
         | Some (False, c') \<Rightarrow> dfs_loop n adj c' ws)
      else dfs_loop n adj c ws)"

text \<open>The first root whose search meets a cycle.\<close>

fun find_cycle :: "nat \<Rightarrow> adjacency \<Rightarrow> colours \<Rightarrow> string list \<Rightarrow> string option option" where
  "find_cycle n adj c [] = Some None"
| "find_cycle n adj c (v # vs) =
     (if js_get c v = Some White then
        (case dfs n adj c v of
           None \<Rightarrow> None
         | Some (True, c') \<Rightarrow> Some (Some v)
         | Some (False, c') \<Rightarrow> find_cycle n adj c' vs)
      else find_cycle n adj c vs)"

section \<open>The critical path\<close>

fun longest :: "nat \<Rightarrow> adjacency \<Rightarrow> (string, nat) jsmap \<Rightarrow> string \<Rightarrow> (nat \<times> (string, nat) jsmap) option"
  and longest_children ::
    "nat \<Rightarrow> adjacency \<Rightarrow> (string, nat) jsmap \<Rightarrow> nat \<Rightarrow> string list \<Rightarrow> (nat \<times> (string, nat) jsmap) option" where
  "longest 0 adj memo v = None"
| "longest (Suc n) adj memo v =
     (case js_get memo v of
        Some d \<Rightarrow> Some (d, memo)
      | None \<Rightarrow>
          (case longest_children n adj memo 0 (neighbours adj v) of
             None \<Rightarrow> None
           | Some (m, memo') \<Rightarrow> Some (1 + m, js_set memo' v (1 + m))))"
| "longest_children n adj memo m [] = Some (m, memo)"
| "longest_children n adj memo m (w # ws) =
     (case longest n adj memo w of
        None \<Rightarrow> None
      | Some (d, memo') \<Rightarrow> longest_children n adj memo' (max m d) ws)"

text \<open>The loop over all nodes is the loop over children with the same memo.\<close>

definition longest_path :: "nat \<Rightarrow> string list \<Rightarrow> adjacency \<Rightarrow> nat option" where
  "longest_path n names adj = map_option fst (longest_children n adj [] 0 names)"

section \<open>Graph validation\<close>

datatype diagnostic =
    CycleDetected string
  | ExcessiveFanout string nat
  | ExcessiveDepth nat
  | TooManySteps nat
  | UnknownTool string string
  | EdgeUnknownSource string string
  | EdgeUnknownTarget string string
  | DependencyNotFound string string

definition validate_graph :: "plan_step list \<Rightarrow> plan_edge list \<Rightarrow> diagnostic list option" where
  "validate_graph ss es =
     (let names = set_of_list (map step_name ss);
          adj = build_adjacency names es;
          fuel = length names + 1;
          colour0 = foldl (\<lambda>m n. js_set m n White) [] names
      in case find_cycle fuel adj colour0 names of
           None \<Rightarrow> None
         | Some cyc \<Rightarrow>
             let d1 = (case cyc of None \<Rightarrow> [] | Some v \<Rightarrow> [CycleDetected v]);
                 d2 = d1 @ concat (map (\<lambda>(n, ns). if length ns > 8 then [ExcessiveFanout n (length ns)] else []) adj)
             in case (if d2 = [] then map_option (\<lambda>d. if d > 10 then [ExcessiveDepth d] else [])
                        (longest_path fuel names adj) else Some d2) of
                  None \<Rightarrow> None
                | Some d3 \<Rightarrow> Some (d3 @ (if length ss > 15 then [TooManySteps (length ss)] else [])))"

definition validate_tool_references :: "plan_step list \<Rightarrow> string list \<Rightarrow> diagnostic list" where
  "validate_tool_references ss available =
     concat (map (\<lambda>s. case body s of
         DeterministicTool t \<Rightarrow> if ts_tool t \<in> set available then [] else [UnknownTool (step_name s) (ts_tool t)]
       | SubagentTask sa \<Rightarrow> []) ss)"

section \<open>Edges of a parsed plan\<close>

definition parse_edge :: "string list \<Rightarrow> plan_edge list \<times> diagnostic list \<Rightarrow> plan_edge \<Rightarrow> plan_edge list \<times> diagnostic list" where
  "parse_edge names acc e =
     (if e_from e \<notin> set names then (fst acc, snd acc @ [EdgeUnknownSource (e_from e) (e_to e)])
      else if e_to e \<notin> set names then (fst acc, snd acc @ [EdgeUnknownTarget (e_from e) (e_to e)])
      else (fst acc @ [e], snd acc))"

definition add_dependency ::
  "string list \<Rightarrow> plan_step \<Rightarrow> plan_edge list \<times> diagnostic list \<Rightarrow> string \<Rightarrow> plan_edge list \<times> diagnostic list" where
  "add_dependency names s acc dep =
     (if dep \<notin> set names then (fst acc, snd acc @ [DependencyNotFound (step_name s) dep])
      else if list_ex (\<lambda>e. e_from e = dep \<and> e_to e = step_name s) (fst acc) then acc
      else (fst acc @ [\<lparr>e_from = dep, e_to = step_name s\<rparr>], snd acc))"

definition collect_edges :: "plan_step list \<Rightarrow> plan_edge list \<Rightarrow> plan_edge list \<times> diagnostic list" where
  "collect_edges ss raw =
     (let names = map step_name ss;
          acc = foldl (parse_edge names) ([], []) raw
      in foldl (\<lambda>acc s. foldl (add_dependency names s) acc (depends_on s)) acc ss)"

text \<open>\<open>stripRedundantVerificationSteps\<close>: \<open>verifyToolNames\<close> is created empty and never added to.\<close>

definition strip_redundant_verification_steps ::
  "plan_step list \<Rightarrow> plan_edge list \<Rightarrow> plan_step list \<times> plan_edge list" where
  "strip_redundant_verification_steps ss es =
     (let verify_tool_names = ([] :: string list);
          to_remove = map step_name (filter (\<lambda>s. case body s of
              DeterministicTool t \<Rightarrow> ts_tool t \<in> set verify_tool_names
            | SubagentTask sa \<Rightarrow> False) ss)
      in if to_remove = [] then (ss, es)
         else (map (\<lambda>s. s\<lparr>depends_on := filter (\<lambda>d. d \<notin> set to_remove) (depends_on s)\<rparr>)
                 (filter (\<lambda>s. step_name s \<notin> set to_remove) ss),
               filter (\<lambda>e. e_from e \<notin> set to_remove \<and> e_to e \<notin> set to_remove) es))"

section \<open>Correctness of the cycle search\<close>

definition edge_rel :: "string set \<Rightarrow> adjacency \<Rightarrow> (string \<times> string) set" where
  "edge_rel N adj = {(v, w). v \<in> N \<and> w \<in> N \<and> w \<in> set (neighbours adj v)}"

definition coloured :: "colour \<Rightarrow> colours \<Rightarrow> string set" where
  "coloured k c = {v. js_get c v = Some k}"

definition search_inv :: "string set \<Rightarrow> adjacency \<Rightarrow> colours \<Rightarrow> bool" where
  "search_inv N adj c = ({v. js_get c v \<noteq> None} = N \<and>
     edge_rel N adj `` coloured Black c \<subseteq> coloured Black c \<and>
     acyclic (edge_rel N adj \<inter> coloured Black c \<times> coloured Black c))"

lemma coloured_set:
  "coloured k (js_set c v k') = (if k = k' then insert v (coloured k c) else coloured k c - {v})"
  by (auto simp: coloured_def)

lemma acyclic_extend:
  assumes "R `` B \<subseteq> B" "acyclic (R \<inter> B \<times> B)" "v \<notin> B" "R `` {v} \<subseteq> B"
  shows "acyclic (R \<inter> insert v B \<times> insert v B)"
proof (rule acyclicI, rule allI, rule notI)
  let ?R = "R \<inter> insert v B \<times> insert v B"
  have inB: "y \<in> B" if "(x, y) \<in> ?R" for x y using that assms(1,4) by blast
  have stay: "(x, y) \<in> (R \<inter> B \<times> B)\<^sup>+ \<and> y \<in> B" if "(x, y) \<in> ?R\<^sup>+" "x \<in> B" for x y
    using that(1)
  proof (induction rule: trancl_induct)
    case (base y)
    then show ?case using that(2) inB by (blast intro: r_into_trancl)
  next
    case (step y z)
    then show ?case using inB by (blast intro: trancl_into_trancl)
  qed
  fix x assume cyc: "(x, x) \<in> ?R\<^sup>+"
  then have "x \<in> B" using inB by (meson tranclD2)
  then show False using stay [OF cyc] assms(2) by (auto simp: acyclic_def)
qed

lemma search_inv_mono:
  assumes "search_inv N adj c" "v \<in> N" "v \<notin> coloured Black c"
  shows "search_inv N adj (js_set c v Grey)"
proof -
  have "coloured Black (js_set c v Grey) = coloured Black c" using assms(3) by (auto simp: coloured_set)
  moreover have "{u. js_get (js_set c v Grey) u \<noteq> None} = N"
    using assms(1,2) by (auto simp: search_inv_def)
  ultimately show ?thesis using assms(1) by (simp add: search_inv_def)
qed

lemma search_inv_blacken:
  assumes "search_inv N adj c" "v \<in> N" "v \<notin> coloured Black c"
    and "\<forall>w\<in>set (neighbours adj v). w \<in> N \<longrightarrow> w \<in> coloured Black c"
  shows "search_inv N adj (js_set c v Black)"
proof -
  let ?R = "edge_rel N adj" and ?B = "coloured Black c"
  have succ: "?R `` {v} \<subseteq> ?B" using assms(4) by (auto simp: edge_rel_def)
  have "acyclic (?R \<inter> insert v ?B \<times> insert v ?B)"
    by (rule acyclic_extend) (use assms succ in \<open>auto simp: search_inv_def\<close>)
  moreover have "?R `` insert v ?B \<subseteq> insert v ?B" using succ assms(1) by (auto simp: search_inv_def)
  moreover have "{u. js_get (js_set c v Black) u \<noteq> None} = N"
    using assms(1,2) by (auto simp: search_inv_def)
  ultimately show ?thesis by (simp add: search_inv_def coloured_set)
qed

text \<open>The outcome of a search from colours \<open>c\<close> that has to leave the nodes \<open>vs\<close> black.\<close>

definition search_ok :: "string set \<Rightarrow> adjacency \<Rightarrow> colours \<Rightarrow> string set \<Rightarrow> (bool \<times> colours) option \<Rightarrow> bool" where
  "search_ok N adj c vs res = (case res of None \<Rightarrow> False
     | Some (b, c') \<Rightarrow> if b then \<not> acyclic (edge_rel N adj)
         else search_inv N adj c' \<and> coloured Grey c' = coloured Grey c \<and>
              coloured Black c \<subseteq> coloured Black c' \<and> coloured White c' \<subseteq> coloured White c \<and>
              vs \<inter> N \<subseteq> coloured Black c')"

lemma finite_coloured [simp]: "finite (coloured k c)"
  by (rule finite_subset [of _ "set (js_keys c)"]) (auto simp: coloured_def js_keys_get)

lemma search_ok_trans:
  assumes "search_ok N adj c' ws res" "coloured Grey c' = coloured Grey c"
    "coloured Black c \<subseteq> coloured Black c'" "coloured White c' \<subseteq> coloured White c"
    "w \<in> N \<longrightarrow> w \<in> coloured Black c'"
  shows "search_ok N adj c (insert w ws) res"
proof (cases res)
  case None
  then show ?thesis using assms(1) by (simp add: search_ok_def)
next
  case (Some r)
  obtain b c2 where r: "r = (b, c2)" by (cases r)
  show ?thesis
  proof (cases b)
    case True
    then show ?thesis using assms(1) Some r by (simp add: search_ok_def)
  next
    case False
    then have "search_inv N adj c2" "coloured Grey c2 = coloured Grey c'"
      "coloured Black c' \<subseteq> coloured Black c2" "coloured White c2 \<subseteq> coloured White c'"
      "ws \<inter> N \<subseteq> coloured Black c2"
      using assms(1) Some r by (auto simp: search_ok_def)
    then show ?thesis using assms(2-5) Some r False by (auto simp: search_ok_def)
  qed
qed

lemma other_colour:
  "search_inv N adj c \<Longrightarrow> js_get c w \<noteq> Some Grey \<Longrightarrow> js_get c w \<noteq> Some White \<Longrightarrow>
     w \<in> N \<longrightarrow> w \<in> coloured Black c"
  by (cases "js_get c w"; cases "the (js_get c w)") (auto simp: search_inv_def coloured_def)

lemma dfs_correct:
  "search_inv N adj c \<Longrightarrow> v \<in> coloured White c \<Longrightarrow> \<forall>g\<in>coloured Grey c. (g, v) \<in> (edge_rel N adj)\<^sup>*
     \<Longrightarrow> card (coloured White c) \<le> n \<Longrightarrow> search_ok N adj c {v} (dfs n adj c v)"
  "search_inv N adj c \<Longrightarrow> \<forall>w\<in>set ws. w \<in> N \<longrightarrow> (\<forall>g\<in>coloured Grey c. (g, w) \<in> (edge_rel N adj)\<^sup>+)
     \<Longrightarrow> card (coloured White c) \<le> n \<Longrightarrow> search_ok N adj c (set ws) (dfs_loop n adj c ws)"
proof (induction n adj c v and n adj c ws rule: dfs_dfs_loop.induct)
  case (1 adj c v)
  then show ?case using finite_coloured card_0_eq by (metis empty_iff le_zero_eq)
next
  case (2 n adj c v)
  let ?R = "edge_rel N adj" and ?c = "js_set c v Grey"
  have vN: "v \<in> N" and vB: "v \<notin> coloured Black c" and vG: "v \<notin> coloured Grey c"
    using "2.prems"(1,2) by (auto simp: search_inv_def coloured_def)
  have inv: "search_inv N adj ?c" by (rule search_inv_mono [OF "2.prems"(1) vN vB])
  have reach: "\<forall>w\<in>set (neighbours adj v). w \<in> N \<longrightarrow> (\<forall>g\<in>coloured Grey ?c. (g, w) \<in> ?R\<^sup>+)"
  proof (intro ballI impI)
    fix w g assume w: "w \<in> set (neighbours adj v)" "w \<in> N" and g: "g \<in> coloured Grey ?c"
    have "(v, w) \<in> ?R" using w vN by (simp add: edge_rel_def)
    moreover have "(g, v) \<in> ?R\<^sup>*" using g "2.prems"(3) by (auto simp: coloured_set)
    ultimately show "(g, w) \<in> ?R\<^sup>+" by (rule rtrancl_into_trancl1 [rotated])
  qed
  have "card (coloured White ?c) \<le> n" using "2.prems"(2,4) by (simp add: coloured_set)
  from "2.IH" [OF inv reach this]
  obtain b c' where loop: "dfs_loop n adj ?c (neighbours adj v) = Some (b, c')"
    and ok: "search_ok N adj ?c (set (neighbours adj v)) (Some (b, c'))"
    by (cases "dfs_loop n adj ?c (neighbours adj v)") (auto simp: search_ok_def)
  show ?case
  proof (cases b)
    case True
    then show ?thesis using loop ok by (simp add: search_ok_def)
  next
    case False
    then have c': "search_inv N adj c'" "coloured Grey c' = insert v (coloured Grey c)"
      "coloured Black ?c \<subseteq> coloured Black c'" "coloured White c' \<subseteq> coloured White ?c"
      "set (neighbours adj v) \<inter> N \<subseteq> coloured Black c'"
      using ok by (auto simp: search_ok_def coloured_set)
    have "v \<in> coloured Grey c'" using c'(2) by simp
    then have vB': "v \<notin> coloured Black c'" by (auto simp: coloured_def)
    have "search_inv N adj (js_set c' v Black)"
      by (rule search_inv_blacken [OF c'(1) vN vB']) (use c'(5) in blast)
    then show ?thesis
      using loop False c' vB vG by (auto simp: search_ok_def coloured_set)
  qed
next
  case (3 n adj c)
  then show ?case by (simp add: search_ok_def)
next
  case (4 n adj c w ws)
  let ?R = "edge_rel N adj"
  consider (grey) "js_get c w = Some Grey" | (white) "js_get c w = Some White"
    | (other) "js_get c w \<noteq> Some Grey" "js_get c w \<noteq> Some White" by blast
  then show ?case
  proof cases
    case grey
    then have "w \<in> coloured Grey c" "w \<in> N"
      using "4.prems"(1) by (auto simp: coloured_def search_inv_def)
    then have "(w, w) \<in> ?R\<^sup>+" using "4.prems"(2) by auto
    then show ?thesis using grey by (auto simp: search_ok_def acyclic_def)
  next
    case white
    then have wW: "w \<in> coloured White c" and wN: "w \<in> N"
      using "4.prems"(1) by (auto simp: coloured_def search_inv_def)
    have "\<forall>g\<in>coloured Grey c. (g, w) \<in> ?R\<^sup>*" using "4.prems"(2) wN by (auto intro: trancl_into_rtrancl)
    then have ok: "search_ok N adj c {w} (dfs n adj c w)"
      using "4.IH"(1) white "4.prems" wW by simp
    then obtain b c' where d: "dfs n adj c w = Some (b, c')"
      by (auto simp: search_ok_def split: option.splits)
    show ?thesis
    proof (cases b)
      case True
      then show ?thesis using d ok white by (simp add: search_ok_def)
    next
      case False
      then have c': "search_inv N adj c'" "coloured Grey c' = coloured Grey c"
        "coloured Black c \<subseteq> coloured Black c'" "coloured White c' \<subseteq> coloured White c" "w \<in> coloured Black c'"
        using ok d wN by (auto simp: search_ok_def)
      have "card (coloured White c') \<le> n"
        using card_mono [OF finite_coloured c'(4)] "4.prems"(3) by simp
      then have "search_ok N adj c' (set ws) (dfs_loop n adj c' ws)"
        using "4.IH"(2) white d False c' "4.prems"(2) by simp
      from search_ok_trans [OF this c'(2-4)] c'(5)
      have "search_ok N adj c (insert w (set ws)) (dfs_loop n adj c' ws)" by simp
      then show ?thesis using white d False by simp
    qed
  next
    case other
    then have "search_ok N adj c (set ws) (dfs_loop n adj c ws)"
      using "4.IH"(3) "4.prems" by simp
    from search_ok_trans [OF this refl order_refl order_refl other_colour [OF "4.prems"(1) other]]
    show ?thesis using other by simp
  qed
qed

lemma find_cycle_correct:
  "search_inv N adj c \<Longrightarrow> coloured Grey c = {} \<Longrightarrow> card (coloured White c) \<le> n \<Longrightarrow>
     case find_cycle n adj c vs of None \<Rightarrow> False
     | Some (Some v) \<Rightarrow> \<not> acyclic (edge_rel N adj)
     | Some None \<Rightarrow> (\<exists>c'. search_inv N adj c' \<and> coloured Black c \<union> (set vs \<inter> N) \<subseteq> coloured Black c')"
proof (induction n adj c vs rule: find_cycle.induct)
  case (1 n adj c)
  then show ?case by auto
next
  case (2 n adj c v vs)
  show ?case
  proof (cases "js_get c v = Some White")
    case True
    then have "v \<in> coloured White c" by (simp add: coloured_def)
    then have ok: "search_ok N adj c {v} (dfs n adj c v)" using dfs_correct(1) "2.prems" by simp
    then obtain b c' where d: "dfs n adj c v = Some (b, c')"
      by (auto simp: search_ok_def split: option.splits)
    show ?thesis
    proof (cases b)
      case b: True
      then show ?thesis using True d ok by (simp add: search_ok_def)
    next
      case b: False
      then have c': "search_inv N adj c'" "coloured Grey c' = {}" "coloured Black c \<subseteq> coloured Black c'"
        "coloured White c' \<subseteq> coloured White c" "{v} \<inter> N \<subseteq> coloured Black c'"
        using ok d "2.prems"(2) by (auto simp: search_ok_def)
      have "card (coloured White c') \<le> n" using card_mono [OF finite_coloured c'(4)] "2.prems"(3) by simp
      then have "case find_cycle n adj c' vs of None \<Rightarrow> False
         | Some (Some v) \<Rightarrow> \<not> acyclic (edge_rel N adj)
         | Some None \<Rightarrow> (\<exists>c''. search_inv N adj c'' \<and> coloured Black c' \<union> (set vs \<inter> N) \<subseteq> coloured Black c'')"
        using "2.IH"(1) True d b c' by simp
      moreover have "coloured Black c \<union> (set (v # vs) \<inter> N) \<subseteq> coloured Black c''"
        if "coloured Black c' \<union> (set vs \<inter> N) \<subseteq> coloured Black c''" for c''
        using that c'(3,5) by auto
      ultimately show ?thesis using True d b by (auto split: option.splits)
    qed
  next
    case False
    have "js_get c v \<noteq> Some Grey" using "2.prems"(2) by (auto simp: coloured_def)
    then have vb: "v \<in> N \<longrightarrow> v \<in> coloured Black c" using other_colour [OF "2.prems"(1) _ False] by blast
    have "case find_cycle n adj c vs of None \<Rightarrow> False
         | Some (Some v) \<Rightarrow> \<not> acyclic (edge_rel N adj)
         | Some None \<Rightarrow> (\<exists>c'. search_inv N adj c' \<and> coloured Black c \<union> (set vs \<inter> N) \<subseteq> coloured Black c')"
      using "2.IH"(2) False "2.prems" by simp
    moreover have "coloured Black c \<union> (set (v # vs) \<inter> N) \<subseteq> coloured Black c'"
      if "coloured Black c \<union> (set vs \<inter> N) \<subseteq> coloured Black c'" for c'
      using that vb by auto
    ultimately show ?thesis using False by (auto split: option.splits)
  qed
qed

section \<open>The adjacency of a plan\<close>

lemma empty_adjacency: "js_get (foldl (\<lambda>m n. js_set m n x) m names) v =
    (if v \<in> set names then Some x else js_get m v)"
  by (induction names arbitrary: m) auto

lemma push_edge_get: "js_get (push_edge adj e) v =
    map_option (\<lambda>ns. if e_from e = v then ns @ [e_to e] else ns) (js_get adj v)"
  by (cases "js_get adj (e_from e)"; cases "js_get adj v") (auto simp: push_edge_def)

lemma push_edges:
  "js_get (foldl push_edge adj es) v =
     map_option (\<lambda>ns. ns @ map e_to (filter (\<lambda>e. e_from e = v) es)) (js_get adj v)"
proof (induction es arbitrary: adj)
  case Nil
  then show ?case by (simp add: option.map_ident)
next
  case (Cons e es)
  then show ?case by (cases "js_get adj v") (auto simp: push_edge_get)
qed

lemma neighbours_built: "neighbours (build_adjacency names es) v =
    (if v \<in> set names then map e_to (filter (\<lambda>e. e_from e = v) es) else [])"
  by (simp add: neighbours_def js_get_or_def build_adjacency_def push_edges empty_adjacency)

text \<open>The dependency relation of a plan: its edges between known steps.\<close>

definition plan_relation :: "string set \<Rightarrow> plan_edge list \<Rightarrow> (string \<times> string) set" where
  "plan_relation N es = {(a, b). a \<in> N \<and> b \<in> N \<and> \<lparr>e_from = a, e_to = b\<rparr> \<in> set es}"

lemma edge_mem: "\<lparr>e_from = a, e_to = b\<rparr> \<in> set es \<longleftrightarrow> (\<exists>e\<in>set es. e_from e = a \<and> e_to e = b)"
proof
  assume "\<exists>e\<in>set es. e_from e = a \<and> e_to e = b"
  then obtain e where "e \<in> set es" "e_from e = a" "e_to e = b" by blast
  moreover have "e = \<lparr>e_from = e_from e, e_to = e_to e\<rparr>" by simp
  ultimately show "\<lparr>e_from = a, e_to = b\<rparr> \<in> set es" by metis
qed force

lemma edge_rel_built: "edge_rel (set names) (build_adjacency names es) = plan_relation (set names) es"
  by (auto simp: edge_rel_def neighbours_built plan_relation_def edge_mem)

lemma card_white0: "card (coloured White (foldl (\<lambda>m n. js_set m n White) [] names)) \<le> length names"
proof -
  have "coloured White (foldl (\<lambda>m n. js_set m n White) [] names) = set names"
    by (auto simp: coloured_def empty_adjacency split: if_splits)
  then show ?thesis by (simp add: card_length)
qed

lemma find_cycle_plan:
  "case find_cycle (length names + 1) (build_adjacency names es)
      (foldl (\<lambda>m n. js_set m n White) [] names) names of
     None \<Rightarrow> False
   | Some None \<Rightarrow> acyclic (plan_relation (set names) es)
   | Some (Some v) \<Rightarrow> \<not> acyclic (plan_relation (set names) es)"
proof -
  let ?c = "foldl (\<lambda>m n. js_set m n White) [] names" and ?adj = "build_adjacency names es"
  have inv: "search_inv (set names) ?adj ?c"
    by (auto simp: search_inv_def coloured_def empty_adjacency acyclic_def split: if_splits)
  have grey: "coloured Grey ?c = {}" by (auto simp: coloured_def empty_adjacency split: if_splits)
  have "card (coloured White ?c) \<le> length names + 1" using card_white0 [of names] by simp
  note res = find_cycle_correct [OF inv grey this, of names]
  have "acyclic (plan_relation (set names) es)"
    if c': "search_inv (set names) ?adj c'" "set names \<subseteq> coloured Black c'" for c'
  proof -
    have "plan_relation (set names) es \<subseteq> edge_rel (set names) ?adj \<inter> coloured Black c' \<times> coloured Black c'"
      using c'(2) by (auto simp: edge_rel_built plan_relation_def)
    then show ?thesis using c'(1) acyclic_subset by (auto simp: search_inv_def)
  qed
  then show ?thesis using res by (auto simp: edge_rel_built split: option.splits)
qed

section \<open>Correctness of the critical path\<close>

fun is_path :: "adjacency \<Rightarrow> string list \<Rightarrow> bool" where
  "is_path adj [] = True"
| "is_path adj [v] = True"
| "is_path adj (v # w # p) = (w \<in> set (neighbours adj v) \<and> is_path adj (w # p))"

definition deepest :: "adjacency \<Rightarrow> string \<Rightarrow> nat \<Rightarrow> bool" where
  "deepest adj v d = ((\<exists>p. is_path adj (v # p) \<and> length (v # p) = d) \<and>
     (\<forall>p. is_path adj (v # p) \<longrightarrow> length (v # p) \<le> d))"

definition bounded :: "adjacency \<Rightarrow> nat \<Rightarrow> string \<Rightarrow> bool" where
  "bounded adj n v = (\<forall>p. is_path adj (v # p) \<longrightarrow> length (v # p) \<le> n)"

definition memo_ok :: "adjacency \<Rightarrow> (string, nat) jsmap \<Rightarrow> bool" where
  "memo_ok adj memo = (\<forall>v d. js_get memo v = Some d \<longrightarrow> deepest adj v d)"

lemma is_path_Cons: "is_path adj (v # p) \<longleftrightarrow> p = [] \<or> (hd p \<in> set (neighbours adj v) \<and> is_path adj p)"
  by (cases p) auto

lemma deepest_pos: "deepest adj v d \<Longrightarrow> 0 < d"
  by (auto simp: deepest_def)

lemma deepest_step:
  assumes "\<forall>w\<in>set (neighbours adj v). \<exists>d\<le>m. deepest adj w d"
    and "m = 0 \<or> (\<exists>w\<in>set (neighbours adj v). deepest adj w m)"
  shows "deepest adj v (1 + m)"
proof -
  have "length (v # p) \<le> 1 + m" if p: "is_path adj (v # p)" for p
  proof (cases p)
    case (Cons w q)
    then have "w \<in> set (neighbours adj v)" "is_path adj (w # q)" using p by auto
    then show ?thesis using assms(1) Cons by (fastforce simp: deepest_def)
  qed simp
  moreover have "\<exists>p. is_path adj (v # p) \<and> length (v # p) = 1 + m"
    using assms(2)
  proof
    assume "m = 0"
    then show ?thesis by (intro exI [of _ "[]"]) simp
  next
    assume "\<exists>w\<in>set (neighbours adj v). deepest adj w m"
    then obtain w q where "w \<in> set (neighbours adj v)" "is_path adj (w # q)" "length (w # q) = m"
      by (auto simp: deepest_def)
    then show ?thesis by (intro exI [of _ "w # q"]) simp
  qed
  ultimately show ?thesis by (simp add: deepest_def)
qed

lemma bounded_step: "bounded adj (Suc n) v \<Longrightarrow> w \<in> set (neighbours adj v) \<Longrightarrow> bounded adj n w"
  by (auto simp: bounded_def) (metis Suc_le_mono is_path.simps(3) length_Cons)

lemma longest_correct:
  "memo_ok adj memo \<Longrightarrow> bounded adj n v \<Longrightarrow>
     \<exists>d memo'. longest n adj memo v = Some (d, memo') \<and> deepest adj v d \<and> memo_ok adj memo'"
  "memo_ok adj memo \<Longrightarrow> \<forall>w\<in>set ws. bounded adj n w \<Longrightarrow>
     \<exists>m' memo'. longest_children n adj memo m ws = Some (m', memo') \<and> memo_ok adj memo' \<and> m \<le> m' \<and>
       (m' = m \<or> (\<exists>w\<in>set ws. deepest adj w m')) \<and> (\<forall>w\<in>set ws. \<exists>d\<le>m'. deepest adj w d)"
proof (induction n adj memo v and n adj memo m ws rule: longest_longest_children.induct)
  case (1 adj memo v)
  have False using "1.prems"(2) [unfolded bounded_def, rule_format, of "[]"] by simp
  then show ?case ..
next
  case (2 n adj memo v)
  show ?case
  proof (cases "js_get memo v")
    case (Some d)
    then show ?thesis using "2.prems"(1) by (simp add: memo_ok_def)
  next
    case None
    have "\<forall>w\<in>set (neighbours adj v). bounded adj n w" using bounded_step "2.prems"(2) by blast
    from "2.IH" [OF None "2.prems"(1) this]
    obtain m memo' where res: "longest_children n adj memo 0 (neighbours adj v) = Some (m, memo')"
      "memo_ok adj memo'" "m = 0 \<or> (\<exists>w\<in>set (neighbours adj v). deepest adj w m)"
      "\<forall>w\<in>set (neighbours adj v). \<exists>d\<le>m. deepest adj w d" by auto
    have "deepest adj v (1 + m)" by (rule deepest_step [OF res(4,3)])
    then show ?thesis using res None by (auto simp: memo_ok_def)
  qed
next
  case (3 n adj memo m)
  then show ?case by simp
next
  case (4 n adj memo m w ws)
  obtain d memo1 where d: "longest n adj memo w = Some (d, memo1)" "deepest adj w d" "memo_ok adj memo1"
    using "4.IH"(1) "4.prems" by auto
  obtain m' memo' where m': "longest_children n adj memo1 (max m d) ws = Some (m', memo')"
    "memo_ok adj memo'" "max m d \<le> m'" "m' = max m d \<or> (\<exists>w\<in>set ws. deepest adj w m')"
    "\<forall>w\<in>set ws. \<exists>d\<le>m'. deepest adj w d"
    using "4.IH"(2) d "4.prems"(2) by force
  have "m' = m \<or> (\<exists>u\<in>set (w # ws). deepest adj u m')"
    using m'(4) d(2) by (auto simp: max_def split: if_splits)
  then show ?case using d m' by auto
qed

lemma path_edges: "is_path adj p \<Longrightarrow> Suc i < length p \<Longrightarrow> p ! Suc i \<in> set (neighbours adj (p ! i))"
proof (induction adj p arbitrary: i rule: is_path.induct)
  case (3 adj v w p)
  then show ?case by (cases i) auto
qed auto

lemma path_reaches:
  "is_path adj p \<Longrightarrow> i < j \<Longrightarrow> j < length p \<Longrightarrow>
     (p ! i, p ! j) \<in> {(v, w). w \<in> set (neighbours adj v)}\<^sup>+"
proof (induction j)
  case 0
  then show ?case by simp
next
  case (Suc j)
  have edge: "(p ! j, p ! Suc j) \<in> {(v, w). w \<in> set (neighbours adj v)}"
    using path_edges Suc.prems by simp
  show ?case
  proof (cases "i = j")
    case True
    then show ?thesis using edge by blast
  next
    case False
    then show ?thesis using Suc edge by (auto intro: trancl_into_trancl)
  qed
qed

lemma plan_paths_bounded:
  assumes "acyclic (plan_relation (set names) es)"
  shows "bounded (build_adjacency names es) (length names + 1) v"
  unfolding bounded_def
proof (intro allI impI)
  let ?adj = "build_adjacency names es" and ?E = "{(v, w). w \<in> set (neighbours (build_adjacency names es) v)}"
  fix p assume path: "is_path ?adj (v # p)"
  have src: "x \<in> set names" if "(x, y) \<in> ?E" for x y
    using that by (auto simp: neighbours_built split: if_splits)
  have acyc: "acyclic ?E"
  proof (rule acyclicI, rule allI, rule notI)
    fix x assume cyc: "(x, x) \<in> ?E\<^sup>+"
    have "(a, b) \<in> ?E\<^sup>+ \<Longrightarrow> b \<in> set names \<Longrightarrow> (a, b) \<in> (edge_rel (set names) ?adj)\<^sup>+" for a b
    proof (induction rule: trancl_induct)
      case (base y)
      then show ?case using src by (auto simp: edge_rel_def)
    next
      case (step y z)
      then have "(y, z) \<in> edge_rel (set names) ?adj" "y \<in> set names" using src by (auto simp: edge_rel_def)
      then show ?case using step by (meson trancl_into_trancl)
    qed
    moreover have "x \<in> set names" using cyc src by (meson tranclD)
    ultimately show False using cyc assms by (auto simp: edge_rel_built acyclic_def)
  qed
  have dist: "distinct (v # p)"
  proof (rule ccontr)
    assume "\<not> distinct (v # p)"
    then obtain i j where "i < j" "j < length (v # p)" "(v # p) ! i = (v # p) ! j"
      by (metis distinct_conv_nth nat_neq_iff)
    then show False using path_reaches [OF path] acyc by (metis acyclic_def)
  qed
  have "set (butlast (v # p)) \<subseteq> set names"
  proof
    fix x assume "x \<in> set (butlast (v # p))"
    then obtain i where "i < length (butlast (v # p))" "x = butlast (v # p) ! i" by (metis in_set_conv_nth)
    then have "Suc i < length (v # p)" "x = (v # p) ! i"
      by (simp_all only: nth_butlast length_butlast)
    then have "(x, (v # p) ! Suc i) \<in> ?E" using path_edges [OF path] by simp
    then show "x \<in> set names" by (rule src)
  qed
  then have "card (set (butlast (v # p))) \<le> card (set names)" by (simp add: card_mono)
  moreover have "card (set (butlast (v # p))) = length p"
    using dist distinct_card [OF distinct_butlast] by (metis length_butlast length_Cons diff_Suc_1)
  ultimately show "length (v # p) \<le> length names + 1" using card_length [of names] by simp
qed

text \<open>C22: The cycle diagnostic is exact: validation always returns, and it reports \<open>cycle_detected\<close> exactly
  when the dependency relation between the plan's steps has a cycle.\<close>

theorem cycle_detected_iff_cycle:
  "map_option (list_ex (\<lambda>d. case d of CycleDetected v \<Rightarrow> True | _ \<Rightarrow> False)) (validate_graph ss es) =
     Some (\<not> acyclic (plan_relation (set (map step_name ss)) es))"
proof -
  let ?names = "set_of_list (map step_name ss)"
  let ?adj = "build_adjacency ?names es"
  let ?fan = "concat (map (\<lambda>(n, ns). if length ns > 8 then [ExcessiveFanout n (length ns)] else []) ?adj)"
  obtain cyc where cyc: "find_cycle (length ?names + 1) ?adj (foldl (\<lambda>m n. js_set m n White) [] ?names) ?names = Some cyc"
    "(cyc = None) = acyclic (plan_relation (set (map step_name ss)) es)"
    using find_cycle_plan [of ?names es] by (auto split: option.splits)
  have fan: "\<not> list_ex (\<lambda>d. case d of CycleDetected v \<Rightarrow> True | _ \<Rightarrow> False) ?fan"
    by (auto simp: list_ex_iff split: if_splits)
  have path: "\<exists>d. longest_path (length ?names + 1) ?names ?adj = Some d" if "cyc = None"
    using longest_correct(2) [of ?adj "[]" ?names "length ?names + 1" 0]
      plan_paths_bounded [of ?names es] that cyc(2)
    by (auto simp: longest_path_def memo_ok_def)
  show ?thesis
    using cyc fan path
    by (cases cyc) (auto simp: validate_graph_def Let_def)
qed

text \<open>On a plan without cycles the critical path length is computed within the fuel and is exact: some
  dependency chain of steps has that many nodes and none has more.\<close>

theorem longest_path_is_critical_path:
  assumes "acyclic (plan_relation (set names) es)" "names \<noteq> []"
  shows "\<exists>d. longest_path (length names + 1) names (build_adjacency names es) = Some d \<and>
    (\<exists>v p. v \<in> set names \<and> is_path (build_adjacency names es) (v # p) \<and> length (v # p) = d) \<and>
    (\<forall>v p. v \<in> set names \<longrightarrow> is_path (build_adjacency names es) (v # p) \<longrightarrow> length (v # p) \<le> d)"
proof -
  let ?adj = "build_adjacency names es"
  obtain d memo where d: "longest_children (length names + 1) ?adj [] 0 names = Some (d, memo)"
    "d = 0 \<or> (\<exists>w\<in>set names. deepest ?adj w d)" "\<forall>w\<in>set names. \<exists>k\<le>d. deepest ?adj w k"
    using longest_correct(2) [of ?adj "[]" names "length names + 1" 0] plan_paths_bounded [OF assms(1)]
    by (auto simp: memo_ok_def)
  have "d \<noteq> 0" using d(3) assms(2) deepest_pos by (metis hd_in_set le_zero_eq less_irrefl)
  then obtain w where "w \<in> set names" "deepest ?adj w d" using d(2) by auto
  then have "\<exists>v p. v \<in> set names \<and> is_path ?adj (v # p) \<and> length (v # p) = d" by (auto simp: deepest_def)
  moreover have "length (v # p) \<le> d" if v: "v \<in> set names" and p: "is_path ?adj (v # p)" for v p
  proof -
    obtain k where "k \<le> d" "deepest ?adj v k" using d(3) v by blast
    then show ?thesis using p by (fastforce simp: deepest_def)
  qed
  ultimately show ?thesis using d(1) by (auto simp: longest_path_def)
qed

definition two_steps :: adjacency where
  "two_steps = build_adjacency [''a'', ''b''] [\<lparr>e_from = ''a'', e_to = ''b''\<rparr>]"

theorem longest_path_is_critical_path_witness:
  "\<exists>d. longest_path (length [''a'', ''b''] + 1) [''a'', ''b''] two_steps = Some d \<and>
    (\<exists>v p. v \<in> set [''a'', ''b''] \<and> is_path two_steps (v # p) \<and> length (v # p) = d) \<and>
    (\<forall>v p. v \<in> set [''a'', ''b''] \<longrightarrow> is_path two_steps (v # p) \<longrightarrow> length (v # p) \<le> d)"
proof -
  have rel: "plan_relation (set [''a'', ''b'']) [\<lparr>e_from = ''a'', e_to = ''b''\<rparr>] = {(''a'', ''b'')}"
    by (auto simp: plan_relation_def)
  have "acyclic ({} :: (string \<times> string) set)" by (simp add: acyclic_def)
  then have "acyclic {(''a'', ''b'')}" by (simp add: acyclic_insert)
  then have "acyclic (plan_relation (set [''a'', ''b'']) [\<lparr>e_from = ''a'', e_to = ''b''\<rparr>])" unfolding rel .
  from longest_path_is_critical_path [OF this] show ?thesis unfolding two_steps_def by simp
qed

text \<open>Every edge a parsed plan keeps connects two of its steps, every unknown endpoint is reported, and
  the redundant-verification pass changes no plan at all.\<close>

theorem parsed_edges_known:
  "list_all (\<lambda>e. e_from e \<in> set (map step_name ss) \<and> e_to e \<in> set (map step_name ss)) (fst (collect_edges ss raw)) \<and>
   (snd (collect_edges ss raw) = []) =
      (list_all (\<lambda>e. e_from e \<in> set (map step_name ss) \<and> e_to e \<in> set (map step_name ss)) raw \<and>
       list_all (\<lambda>s. list_all (\<lambda>d. d \<in> set (map step_name ss)) (depends_on s)) ss) \<and>
   strip_redundant_verification_steps ss es = (ss, es)"
proof -
  let ?N = "map step_name ss"
  let ?ok = "list_all (\<lambda>e. e_from e \<in> set ?N \<and> e_to e \<in> set ?N)"
  have p: "?ok (fst acc) \<Longrightarrow> ?ok (fst (foldl (parse_edge ?N) acc es)) \<and>
      (snd (foldl (parse_edge ?N) acc es) = []) = (snd acc = [] \<and> ?ok es)" for acc es
    by (induction es arbitrary: acc) (auto simp: parse_edge_def)
  have a: "?ok (fst acc) \<Longrightarrow> s \<in> set ss \<Longrightarrow> ?ok (fst (foldl (add_dependency ?N s) acc ds)) \<and>
      (snd (foldl (add_dependency ?N s) acc ds) = []) = (snd acc = [] \<and> list_all (\<lambda>d. d \<in> set ?N) ds)" for acc s ds
    by (induction ds arbitrary: acc) (auto simp: add_dependency_def)
  have b: "?ok (fst acc) \<Longrightarrow> set ts \<subseteq> set ss \<Longrightarrow>
      ?ok (fst (foldl (\<lambda>acc s. foldl (add_dependency ?N s) acc (depends_on s)) acc ts)) \<and>
      (snd (foldl (\<lambda>acc s. foldl (add_dependency ?N s) acc (depends_on s)) acc ts) = []) =
        (snd acc = [] \<and> list_all (\<lambda>s. list_all (\<lambda>d. d \<in> set ?N) (depends_on s)) ts)" for acc ts
  proof (induction ts arbitrary: acc)
    case Nil
    then show ?case by simp
  next
    case (Cons t ts)
    have "t \<in> set ss" using Cons.prems(2) by simp
    note this_step = a [OF Cons.prems(1) this, of "depends_on t"]
    show ?case
      using Cons.IH [of "foldl (add_dependency ?N t) acc (depends_on t)"] this_step Cons.prems(2)
      by (simp del: set_map)
  qed
  have strip: "strip_redundant_verification_steps ss es = (ss, es)"
  proof -
    have "filter (\<lambda>s. case body s of DeterministicTool t \<Rightarrow> ts_tool t \<in> set ([] :: string list)
        | SubagentTask sa \<Rightarrow> False) ss = []"
      by (auto simp: filter_empty_conv split: step_body.splits)
    then show ?thesis by (simp add: strip_redundant_verification_steps_def Let_def)
  qed
  show ?thesis
    using p [of "([], [])" raw] b [of "foldl (parse_edge ?N) ([], []) raw" ss] strip
    by (simp add: collect_edges_def Let_def)
qed

end
