(* ===== verification/Pipeline.thy ===== *)
theory Pipeline
  imports PlanGraph
begin

text \<open>
  The plan executor of \<open>packages/agent/src/core/plan/\<close>: the runtime model
  (\<open>runtime-model.ts\<close>), acceptance blockers and contract reconciliation
  (\<open>pipeline-repair/reconcile.ts\<close>), the dependency graph (\<open>pipeline/graph.ts\<close>) and the
  slot scheduler (\<open>pipeline/index.ts\<close>).

  The scheduler is a state machine. \<open>Turn\<close> is one iteration of the \<open>while\<close> loop
  (with the state of the abort signal), \<open>Settle\<close> the completion of one step in flight
  with the result its execution gave. Steps settle in any order, and several may settle
  between two iterations. What executing a step returns (tools, child agents) is the
  argument of \<open>Settle\<close>. \<open>p_started\<close> and \<open>p_ended\<close> record the calls of \<open>onStepStart\<close> and \<open>onStepEnd\<close>.
\<close>

section \<open>The runtime model\<close>

definition get_step_dependencies :: "plan_step \<Rightarrow> plan \<Rightarrow> string list" where
  "get_step_dependencies s p =
     foldl (\<lambda>acc e. if e_to e = step_name s then set_add acc (e_from e) else acc)
       (set_of_list (depends_on s)) (edges p)"

definition collect_artifact_reads :: "subagent_step \<Rightarrow> string list" where
  "collect_artifact_reads sa = map (\<lambda>r. normalize_artifact_path (snd r))
     (filter (\<lambda>r. fst r = ReadDependency) (artifact_relations (sa_context sa)))"

definition collect_artifact_writes :: "subagent_step \<Rightarrow> string list" where
  "collect_artifact_writes sa =
     foldl (\<lambda>ws a. set_add ws (normalize_artifact_path a))
       (foldl (\<lambda>ws r. if fst r = WriteOwner then set_add ws (normalize_artifact_path (snd r)) else ws) []
          (artifact_relations (sa_context sa)))
       (target_artifacts (sa_context sa))"

record execution_node =
  xn_depends_on :: "string list"
  xn_downstream :: "string list"

record ownership_node =
  own_step :: "string option"
  own_consumers :: "string list"
  own_relations :: "relation_type list"

record runtime_model =
  execution_graph :: "(string, execution_node) jsmap"
  ownership_graph :: "(string, ownership_node) jsmap"
  accepted_dependencies :: "(string, string list) jsmap"

record artifact_scan =
  as_consumers :: "(string, string list) jsmap"
  as_owners :: "(string, string) jsmap"
  as_relations :: "(string, relation_type list) jsmap"
  as_accepted :: "(string, string list) jsmap"

definition add_owner :: "string \<Rightarrow> artifact_scan \<Rightarrow> string \<Rightarrow> artifact_scan" where
  "add_owner n sc a = sc\<lparr>as_owners := js_set (as_owners sc) a n,
     as_relations := js_set (as_relations sc) a (set_add (js_get_or (as_relations sc) a []) WriteOwner)\<rparr>"

definition add_consumer :: "string \<Rightarrow> artifact_scan \<Rightarrow> string \<Rightarrow> artifact_scan" where
  "add_consumer n sc a = sc\<lparr>
     as_consumers := js_set (as_consumers sc) a (set_add (js_get_or (as_consumers sc) a []) n),
     as_relations := js_set (as_relations sc) a (set_add (js_get_or (as_relations sc) a []) ReadDependency)\<rparr>"

definition scan_step :: "artifact_scan \<Rightarrow> plan_step \<times> subagent_step \<Rightarrow> artifact_scan" where
  "scan_step sc ssa =
     (let (s, sa) = ssa; n = step_name s;
          sc1 = foldl (add_owner n) sc (collect_artifact_writes sa);
          reads = set_of_list (collect_artifact_reads sa @
                    map normalize_artifact_path (required_source_artifacts (sa_context sa)));
          sc2 = foldl (add_consumer n) sc1 reads;
          deps = foldl (\<lambda>ds a. case js_get (as_owners sc2) a of
                     Some owner \<Rightarrow> if owner \<noteq> [] \<and> owner \<noteq> n then set_add ds owner else ds
                   | None \<Rightarrow> ds) [] reads
      in sc2\<lparr>as_accepted := js_set (as_accepted sc2) n deps\<rparr>)"

definition compile_planner_runtime :: "plan \<Rightarrow> runtime_model" where
  "compile_planner_runtime p =
     (let sc = foldl scan_step \<lparr>as_consumers = [], as_owners = [], as_relations = [], as_accepted = []\<rparr>
                 (subagents (steps p));
          all = set_of_list (js_keys (as_owners sc) @ js_keys (as_consumers sc))
      in \<lparr>execution_graph = foldl (\<lambda>g s. js_set g (step_name s)
              \<lparr>xn_depends_on = get_step_dependencies s p,
               xn_downstream = map e_to (filter (\<lambda>e. e_from e = step_name s) (edges p))\<rparr>) [] (steps p),
          ownership_graph = foldl (\<lambda>g a. js_set g a
              \<lparr>own_step = js_get (as_owners sc) a, own_consumers = js_get_or (as_consumers sc) a [],
               own_relations = js_get_or (as_relations sc) a []\<rparr>) [] all,
          accepted_dependencies = as_accepted sc\<rparr>)"

section \<open>Acceptance blockers\<close>

definition append_owned_targets :: "runtime_model \<Rightarrow> string \<Rightarrow> string list \<Rightarrow> string list" where
  "append_owned_targets rm n into =
     foldl (\<lambda>acc e. if own_step (snd e) = Some n then set_add acc (fst e) else acc) into (ownership_graph rm)"

definition append_artifacts :: "runtime_model \<Rightarrow> string list \<Rightarrow> string \<times> step_result \<Rightarrow> string list" where
  "append_artifacts rm acc e =
     append_owned_targets rm (fst e) (foldl set_add (foldl set_add acc (r_produced (snd e))) (r_modified (snd e)))"

type_synonym results = "(string, step_result) jsmap"

definition collect_accepted_artifacts :: "results option \<Rightarrow> results \<Rightarrow> runtime_model \<Rightarrow> string list" where
  "collect_accepted_artifacts prior res rm =
     foldl (append_artifacts rm) []
       (filter (\<lambda>e. r_acceptance (snd e) = Some AAccepted) ((case prior of None \<Rightarrow> [] | Some p \<Rightarrow> p) @ res))"

definition collect_runnable_artifacts :: "results option \<Rightarrow> results \<Rightarrow> runtime_model \<Rightarrow> string list" where
  "collect_runnable_artifacts prior res rm =
     foldl (append_artifacts rm) []
       (filter (\<lambda>e. r_status (snd e) = SCompleted \<and>
            (r_acceptance (snd e) = Some AAccepted \<or> r_acceptance (snd e) = Some APendingVerification))
          ((case prior of None \<Rightarrow> [] | Some p \<Rightarrow> p) @ res))"

definition artifact_satisfied :: "string \<Rightarrow> string list \<Rightarrow> bool" where
  "artifact_satisfied required available =
     (required \<in> set available \<or> normalize_spec_path required \<in> set available \<or>
      list_ex (\<lambda>c. normalize_spec_path c = normalize_spec_path required) available)"

definition get_repair_task :: "repair_task list option \<Rightarrow> string \<Rightarrow> repair_task option" where
  "get_repair_task repair n = (case repair of None \<Rightarrow> None | Some ts \<Rightarrow> find (\<lambda>t. rt_step t = n) ts)"

definition unresolved_blockers_of ::
  "string \<Rightarrow> runtime_model \<Rightarrow> repair_task option \<Rightarrow> string list \<Rightarrow> string list \<Rightarrow> string list" where
  "unresolved_blockers_of n rm task accepted runnable =
     (let repair_required = set_of_list (case task of None \<Rightarrow> [] | Some t \<Rightarrow> rt_required_accepted t);
          handoff = foldl (\<lambda>acc dep. foldl set_add acc
              (map fst (filter (\<lambda>e. own_step (snd e) = Some dep) (ownership_graph rm)))) []
              (js_get_or (accepted_dependencies rm) n [])
      in filter (\<lambda>a. \<not> artifact_satisfied a accepted) repair_required @
         filter (\<lambda>a. a \<notin> set repair_required \<and> \<not> artifact_satisfied a runnable \<and> \<not> artifact_satisfied a accepted)
           handoff)"

section \<open>Post-execution reconciliation\<close>

definition collect_reported_artifacts :: "step_result \<Rightarrow> string list" where
  "collect_reported_artifacts r =
     (let norm = (\<lambda>a. normalize_tool_call_path (Some a));
          base = foldl set_add [] (map norm (r_produced r) @ map norm (r_modified r))
      in foldl (\<lambda>acc c. let path = normalize_tool_call_path (call_path c) in
             if path = [] then acc
             else if call_name c = ''write_file'' \<or> call_name c = ''replace_in_file'' \<or> call_name c = ''append_file''
             then set_add acc path else acc) base
           (case r_tool_calls r of None \<Rightarrow> [] | Some cs \<Rightarrow> cs))"

definition is_error_finding :: "finding \<Rightarrow> bool" where
  "is_error_finding f = (f \<noteq> RequiredCheckSkipped)"

definition reconciliation_findings :: "execution_envelope \<Rightarrow> step_result \<Rightarrow> finding list" where
  "reconciliation_findings ctx r =
     (let norm = (\<lambda>a. normalize_tool_call_path (Some a));
          reported = collect_reported_artifacts r;
          targets = set_of_list (map norm (target_artifacts ctx));
          sources = set_of_list (map norm (required_source_artifacts ctx));
          forbidden = set_of_list (map norm (forbidden_artifacts ctx));
          blockers = (case r_child r of None \<Rightarrow> [] | Some c \<Rightarrow> unresolved_blockers c);
          satisfied = (case r_child r of None \<Rightarrow> False | Some c \<Rightarrow> child_success c \<and> unresolved_blockers c = []);
          touched = filter (\<lambda>a. a \<in> set forbidden) reported;
          missing = (if effect_class_of ctx \<noteq> Readonly \<and> \<not> satisfied
                     then filter (\<lambda>a. a \<notin> set reported) targets else []);
          hallucinated = filter (\<lambda>a. a \<notin> set targets \<and> a \<notin> set sources) reported
      in (if touched \<noteq> [] then [ForbiddenArtifactWrite touched] else []) @
         (if missing \<noteq> [] then [MissingRequiredOutput missing] else []) @
         (if hallucinated \<noteq> [] then [HallucinatedArtifact hallucinated] else []) @
         (if blockers \<noteq> [] then [UnresolvedBlocker blockers] else []) @
         (if required_checks ctx \<noteq> [] \<and> r_verifications r = 0 then [RequiredCheckSkipped] else []))"

definition apply_reconciliation :: "subagent_step \<Rightarrow> step_result \<Rightarrow> step_result" where
  "apply_reconciliation sa r =
     (if r_tool_calls r = None \<and> r_child r = None then r
      else let fs = reconciliation_findings (sa_context sa) r in
        if fs = [] then r\<lparr>r_reconciliation := Some (True, [])\<rparr>
        else if \<not> list_ex is_error_finding fs then r\<lparr>r_reconciliation := Some (True, fs)\<rparr>
        else r\<lparr>r_status := SFailed, r_execution := SFailed, r_acceptance := Some ARepairRequired,
               r_error := Some (ContractErrors (r_error r) (filter is_error_finding fs)),
               r_reconciliation := Some (False, fs)\<rparr>)"

section \<open>The scheduler\<close>

record pipe_config =
  c_plan :: plan
  c_model :: runtime_model
  c_repair :: "repair_task list option"
  c_prior :: "results option"
  c_max_parallel :: nat

record pipe_state =
  p_adj :: adjacency
  p_in_degree :: "(string, int) jsmap"
  p_results :: results
  p_completed :: "string list"
  p_failed :: "string list"
  p_in_flight :: "string list"
  p_started :: "string list"
  p_ended :: "string list"
  p_done :: bool
  p_aborted :: bool
  p_crashed :: bool

definition step_names :: "plan \<Rightarrow> string list" where
  "step_names p = map step_name (steps p)"

definition find_step :: "plan \<Rightarrow> string \<Rightarrow> plan_step option" where
  "find_step p n = js_get (js_map_of_list (map (\<lambda>s. (step_name s, s)) (steps p))) n"

definition build_in_degree :: "plan \<Rightarrow> (string, int) jsmap" where
  "build_in_degree p = foldl (\<lambda>m e. js_set m (e_to e) (js_get_or m (e_to e) 0 + 1))
     (foldl (\<lambda>m n. js_set m n 0) [] (step_names p)) (edges p)"

definition release_downstream :: "adjacency \<Rightarrow> string \<Rightarrow> (string, int) jsmap \<Rightarrow> (string, int) jsmap" where
  "release_downstream adj n deg =
     foldl (\<lambda>m d. js_set m d (js_get_or m d 1 - 1)) deg (neighbours adj n)"

definition take_prior :: "plan \<Rightarrow> pipe_state \<Rightarrow> string \<times> step_result \<Rightarrow> pipe_state" where
  "take_prior p s e =
     (if r_status (snd e) = SCompleted \<and> fst e \<in> set (step_names p) then
        s\<lparr>p_results := js_set (p_results s) (fst e) (snd e),
          p_completed := set_add (p_completed s) (fst e),
          p_in_degree := release_downstream (p_adj s) (fst e) (p_in_degree s)\<rparr>
      else s)"

definition start_pipeline :: "pipe_config \<Rightarrow> pipe_state" where
  "start_pipeline cfg = foldl (take_prior (c_plan cfg))
     \<lparr>p_adj = build_adjacency (step_names (c_plan cfg)) (edges (c_plan cfg)),
      p_in_degree = build_in_degree (c_plan cfg), p_results = [], p_completed = [], p_failed = [],
      p_in_flight = [], p_started = [], p_ended = [], p_done = False, p_aborted = False, p_crashed = False\<rparr>
     (case c_prior cfg of None \<Rightarrow> [] | Some prior \<Rightarrow> prior)"

definition blockers_of :: "pipe_config \<Rightarrow> pipe_state \<Rightarrow> string \<Rightarrow> string list" where
  "blockers_of cfg s n = unresolved_blockers_of n (c_model cfg) (get_repair_task (c_repair cfg) n)
     (collect_accepted_artifacts (c_prior cfg) (p_results s) (c_model cfg))
     (collect_runnable_artifacts (c_prior cfg) (p_results s) (c_model cfg))"

definition collect_ready :: "pipe_config \<Rightarrow> pipe_state \<Rightarrow> string list" where
  "collect_ready cfg s = map fst (filter (\<lambda>(n, deg).
     \<not> (deg \<noteq> 0 \<or> n \<in> set (p_completed s) \<or> n \<in> set (p_failed s) \<or> js_has (p_results s) n
        \<or> n \<in> set (p_in_flight s)) \<and> blockers_of cfg s n = []) (p_in_degree s))"

definition launch_one :: "nat \<Rightarrow> pipe_state \<Rightarrow> string \<Rightarrow> pipe_state" where
  "launch_one m s n = (if length (p_in_flight s) \<ge> m then s
     else s\<lparr>p_started := p_started s @ [n], p_in_flight := p_in_flight s @ [n]\<rparr>)"

definition launch_ready :: "pipe_config \<Rightarrow> pipe_state \<Rightarrow> pipe_state" where
  "launch_ready cfg s = foldl (launch_one (c_max_parallel cfg)) s (collect_ready cfg s)"

definition skipped_result :: "string \<Rightarrow> step_error \<Rightarrow> step_result" where
  "skipped_result n err = \<lparr>r_name = n, r_status = SSkipped, r_execution = SSkipped,
     r_acceptance = Some ABlocked, r_error = Some err, r_failure = None, r_tool_calls = None, r_child = None,
     r_produced = [], r_modified = [], r_verifications = 0, r_reconciliation = None\<rparr>"

text \<open>The artifacts are collected before the loop: the results written in it do not count.\<close>

definition mark_blocked :: "pipe_config \<Rightarrow> pipe_state \<Rightarrow> pipe_state" where
  "mark_blocked cfg s = s\<lparr>p_results := foldl (\<lambda>res n.
       if js_has res n then res
       else js_set res n (skipped_result n
              (if blockers_of cfg s n \<noteq> [] then WaitingOn (blockers_of cfg s n) else UpstreamFailed)))
     (p_results s) (step_names (c_plan cfg))\<rparr>"

definition on_error_of :: "plan_step \<Rightarrow> on_error" where
  "on_error_of st = (case body st of
      DeterministicTool t \<Rightarrow> (case ts_on_error t of None \<Rightarrow> OnRetry | Some x \<Rightarrow> x)
    | SubagentTask sa \<Rightarrow> OnAbort)"

definition complete_named :: "string \<Rightarrow> pipe_state \<Rightarrow> pipe_state" where
  "complete_named n s = s\<lparr>p_completed := set_add (p_completed s) n,
     p_in_degree := release_downstream (p_adj s) n (p_in_degree s)\<rparr>"

definition abort_one :: "string \<Rightarrow> pipe_state \<Rightarrow> string \<Rightarrow> pipe_state" where
  "abort_one by s n = (if js_has (p_results s) n then s
     else s\<lparr>p_results := js_set (p_results s) n (skipped_result n (AbortedBy by)),
            p_failed := set_add (p_failed s) n\<rparr>)"

definition apply_outcome :: "plan \<Rightarrow> plan_step \<Rightarrow> step_result \<Rightarrow> pipe_state \<Rightarrow> pipe_state" where
  "apply_outcome p st r s =
     (let n = step_name st in
      if r_status r = SCompleted then complete_named n s
      else if r_status r \<noteq> SFailed then s
      else case on_error_of st of
        OnSkip \<Rightarrow> complete_named n s
      | OnAbort \<Rightarrow> foldl (abort_one n) (s\<lparr>p_failed := set_add (p_failed s) n\<rparr>) (step_names p)
      | OnRetry \<Rightarrow> s\<lparr>p_failed := set_add (p_failed s) n\<rparr>)"

text \<open>\<open>settleNamedStep\<close> and its \<open>finally\<close>. A name without a step throws when the step is read.\<close>

definition settle_named :: "pipe_config \<Rightarrow> string \<Rightarrow> step_result \<Rightarrow> pipe_state \<Rightarrow> pipe_state" where
  "settle_named cfg n raw s =
     (case find_step (c_plan cfg) n of
        None \<Rightarrow> s\<lparr>p_in_flight := filter (\<lambda>m. m \<noteq> n) (p_in_flight s), p_crashed := True\<rparr>
      | Some st \<Rightarrow>
          let final = (case body st of SubagentTask sa \<Rightarrow> apply_reconciliation sa raw
                       | DeterministicTool t \<Rightarrow> raw);
              s1 = s\<lparr>p_results := js_set (p_results s) n final, p_ended := p_ended s @ [n]\<rparr>;
              s2 = apply_outcome (c_plan cfg) st final s1
          in s2\<lparr>p_in_flight := filter (\<lambda>m. m \<noteq> n) (p_in_flight s2)\<rparr>)"

definition main_turn :: "pipe_config \<Rightarrow> bool \<Rightarrow> pipe_state \<Rightarrow> pipe_state" where
  "main_turn cfg aborted s =
     (if length (p_completed s) + length (p_failed s) \<ge> length (steps (c_plan cfg)) then s\<lparr>p_done := True\<rparr>
      else if aborted then s\<lparr>p_done := True, p_aborted := True\<rparr>
      else let s1 = launch_ready cfg s in
        if p_in_flight s1 = [] then (mark_blocked cfg s1)\<lparr>p_done := True\<rparr> else s1)"

datatype pipe_event = Turn bool | Settle string step_result

definition pipe_step :: "pipe_config \<Rightarrow> pipe_state \<Rightarrow> pipe_event \<Rightarrow> pipe_state" where
  "pipe_step cfg s ev = (case ev of
      Turn aborted \<Rightarrow> if p_done s \<or> p_crashed s then s else main_turn cfg aborted s
    | Settle n raw \<Rightarrow> if n \<in> set (p_in_flight s) then settle_named cfg n raw s else s)"

definition run_pipeline :: "pipe_config \<Rightarrow> pipe_event list \<Rightarrow> pipe_state" where
  "run_pipeline cfg evs = foldl (pipe_step cfg) (start_pipeline cfg) evs"

text \<open>The value returned once the loop is left and nothing is in flight.\<close>

definition pipeline_result :: "pipe_state \<Rightarrow> pipeline_status \<times> nat" where
  "pipeline_result s =
     ((if p_aborted s \<or> list_ex (\<lambda>r. r_status r = SFailed) (js_values (p_results s)) then PFailed else PCompleted),
      length (filter (\<lambda>r. r_status r = SCompleted) (js_values (p_results s))))"

section \<open>In-degrees count the open edges\<close>

definition open_edges :: "plan \<Rightarrow> string list \<Rightarrow> string \<Rightarrow> nat" where
  "open_edges p done v = length (filter (\<lambda>e. e_to e = v \<and> e_from e \<notin> set done) (edges p))"

definition well_formed_plan :: "plan \<Rightarrow> bool" where
  "well_formed_plan p = (distinct (step_names p) \<and>
     list_all (\<lambda>e. e_from e \<in> set (step_names p) \<and> e_to e \<in> set (step_names p)) (edges p))"

lemma count_up:
  "js_get (foldl (\<lambda>m e. js_set m (f e) (js_get_or m (f e) 0 + (1 :: int))) m es) v =
     (if js_get m v = None \<and> v \<notin> f ` set es then None
      else Some (js_get_or m v 0 + int (length (filter (\<lambda>e. f e = v) es))))"
proof (induction es arbitrary: m)
  case Nil
  then show ?case by (auto simp: js_get_or_def split: option.split)
next
  case (Cons e es)
  have "js_get_or m' k 0 = (case js_get m' k of None \<Rightarrow> 0 | Some x \<Rightarrow> x)" for m' :: "('b, int) jsmap" and k
    by (simp add: js_get_or_def)
  then show ?case
    by (cases "js_get m v"; cases "f e = v") (auto simp: Cons.IH)
qed

lemma count_down:
  "set ds \<subseteq> {v. js_get m v \<noteq> None} \<Longrightarrow>
   js_get (foldl (\<lambda>m d. js_set m d (js_get_or m d 1 - (1 :: int))) m ds) v =
     map_option (\<lambda>x. x - int (length (filter (\<lambda>d. d = v) ds))) (js_get m v)"
proof (induction ds arbitrary: m)
  case Nil
  then show ?case by (simp add: option.map_ident)
next
  case (Cons d ds)
  obtain y where "js_get m d = Some y" using Cons.prems by auto
  have sub: "set ds \<subseteq> {v. js_get (js_set m d (y - 1)) v \<noteq> None}" using Cons.prems by auto
  have "js_get_or m d 1 = y" using \<open>js_get m d = Some y\<close> by (simp add: js_get_or_def)
  then have "js_get (foldl (\<lambda>m d. js_set m d (js_get_or m d 1 - 1)) m (d # ds)) v =
      map_option (\<lambda>x. x - int (length (filter (\<lambda>d. d = v) ds))) (js_get (js_set m d (y - 1)) v)"
    using Cons.IH [OF sub] by simp
  then show ?case
    using \<open>js_get m d = Some y\<close> by (cases "d = v"; cases "js_get m v") simp_all
qed

lemma js_wf_foldl: "js_wf m \<Longrightarrow> js_wf (foldl (\<lambda>m d. js_set m (f d) (g m d)) m ds)"
  by (induction ds arbitrary: m) auto

lemma js_has_keys: "js_has m k \<longleftrightarrow> k \<in> set (js_keys m)"
  by (simp add: js_has_get js_keys_get)

lemma open_edges_release:
  "n \<notin> set done \<Longrightarrow>
   open_edges p (set_add done n) v + length (filter (\<lambda>d. d = v) (map e_to (filter (\<lambda>e. e_from e = n) (edges p))))
     = open_edges p done v"
proof -
  assume n: "n \<notin> set done"
  have "length (filter (\<lambda>e. e_to e = v \<and> e_from e \<notin> set (set_add done n)) es) +
      length (filter (\<lambda>d. d = v) (map e_to (filter (\<lambda>e. e_from e = n) es))) =
      length (filter (\<lambda>e. e_to e = v \<and> e_from e \<notin> set done) es)" for es
    using n by (induction es) auto
  then show ?thesis by (simp only: open_edges_def)
qed

section \<open>The scheduler invariant\<close>

definition deg_ok :: "plan \<Rightarrow> pipe_state \<Rightarrow> bool" where
  "deg_ok p s = (js_wf (p_in_degree s) \<and> p_adj s = build_adjacency (step_names p) (edges p) \<and>
     (\<forall>v. js_get (p_in_degree s) v =
        (if v \<in> set (step_names p) then Some (int (open_edges p (p_completed s) v)) else None)))"

definition books_ok :: "plan \<Rightarrow> pipe_state \<Rightarrow> bool" where
  "books_ok p s = (
     distinct (p_completed s) \<and> distinct (p_failed s) \<and> distinct (p_in_flight s) \<and> distinct (p_started s) \<and>
     set (p_completed s) \<union> set (p_failed s) \<subseteq> set (js_keys (p_results s)) \<and>
     set (js_keys (p_results s)) \<subseteq> set (step_names p) \<and>
     set (p_in_flight s) \<subseteq> set (p_started s) \<and> set (p_started s) \<subseteq> set (step_names p) \<and>
     set (p_started s) \<subseteq> set (p_in_flight s) \<union> set (js_keys (p_results s)) \<and>
     set (p_completed s) \<inter> set (p_in_flight s) = {} \<and>
     ((set (p_completed s) \<union> set (p_in_flight s)) \<inter> set (p_failed s) = {} \<or>
        set (step_names p) \<subseteq> set (js_keys (p_results s))))"

definition order_ok :: "plan \<Rightarrow> pipe_state \<Rightarrow> bool" where
  "order_ok p s = (\<forall>n\<in>set (p_started s). \<forall>e\<in>set (edges p). e_to e = n \<longrightarrow> e_from e \<in> set (p_completed s))"

definition pipe_inv :: "pipe_config \<Rightarrow> pipe_state \<Rightarrow> bool" where
  "pipe_inv cfg s = (let p = c_plan cfg in well_formed_plan p \<longrightarrow>
     deg_ok p s \<and> books_ok p s \<and> order_ok p s \<and>
     length (p_in_flight s) \<le> c_max_parallel cfg \<and> \<not> p_crashed s \<and>
     (p_done s \<and> \<not> p_aborted s \<longrightarrow>
        set (step_names p) \<subseteq> set (js_keys (p_results s)) \<union> set (p_in_flight s)))"

lemma release_ok:
  assumes "well_formed_plan p" "deg_ok p s" "n \<notin> set (p_completed s)"
  shows "deg_ok p (s\<lparr>p_completed := set_add (p_completed s) n,
     p_in_degree := release_downstream (p_adj s) n (p_in_degree s)\<rparr>)"
proof (cases "n \<in> set (step_names p)")
  case True
  have nb: "neighbours (p_adj s) n = map e_to (filter (\<lambda>e. e_from e = n) (edges p))"
    using assms(2) True by (simp add: deg_ok_def neighbours_built)
  have dom: "set (neighbours (p_adj s) n) \<subseteq> {v. js_get (p_in_degree s) v \<noteq> None}"
    unfolding nb using assms(1,2) by (auto simp: deg_ok_def well_formed_plan_def list_all_iff)
  have "js_get (release_downstream (p_adj s) n (p_in_degree s)) v =
      (if v \<in> set (step_names p) then Some (int (open_edges p (set_add (p_completed s) n) v)) else None)" for v
  proof -
    have "int (open_edges p (p_completed s) v) =
        int (open_edges p (set_add (p_completed s) n) v) + int (length (filter (\<lambda>d. d = v) (neighbours (p_adj s) n)))"
      using open_edges_release [OF assms(3), of p v] unfolding nb by presburger
    moreover have "js_get (release_downstream (p_adj s) n (p_in_degree s)) v =
        map_option (\<lambda>x. x - int (length (filter (\<lambda>d. d = v) (neighbours (p_adj s) n)))) (js_get (p_in_degree s) v)"
      unfolding release_downstream_def by (rule count_down [OF dom])
    moreover have "js_get (p_in_degree s) v =
        (if v \<in> set (step_names p) then Some (int (open_edges p (p_completed s) v)) else None)"
      using assms(2) by (simp add: deg_ok_def)
    ultimately show ?thesis by simp
  qed
  then show ?thesis using assms(2) by (simp add: deg_ok_def release_downstream_def js_wf_foldl)
next
  case False
  then have "neighbours (p_adj s) n = []" using assms(2) by (simp add: deg_ok_def neighbours_built)
  moreover have "open_edges p (set_add (p_completed s) n) v = open_edges p (p_completed s) v" for v
    using assms(1) False unfolding open_edges_def well_formed_plan_def list_all_iff
    by (intro arg_cong [of _ _ length] filter_cong) auto
  ultimately show ?thesis using assms(2) by (simp add: deg_ok_def release_downstream_def)
qed

lemma deg_ok_cong: "p_adj s' = p_adj s \<Longrightarrow> p_in_degree s' = p_in_degree s \<Longrightarrow>
    p_completed s' = p_completed s \<Longrightarrow> deg_ok p s' = deg_ok p s"
  by (simp add: deg_ok_def)

text \<open>Launching keeps the books: a ready step is new and has no open edge.\<close>

lemma collect_ready_props:
  assumes "deg_ok p s" "n \<in> set (collect_ready cfg s)"
  shows "n \<in> set (step_names p)" "open_edges p (p_completed s) n = 0" "n \<notin> set (p_completed s)"
    "n \<notin> set (p_failed s)" "n \<notin> set (js_keys (p_results s))" "n \<notin> set (p_in_flight s)"
proof -
  obtain deg where mem: "(n, deg) \<in> set (p_in_degree s)" "deg = 0"
    and rest: "n \<notin> set (p_completed s)" "n \<notin> set (p_failed s)" "n \<notin> set (js_keys (p_results s))" "n \<notin> set (p_in_flight s)"
    using assms(2) by (auto simp: collect_ready_def js_has_keys)
  have "js_wf (p_in_degree s)" using assms(1) by (simp add: deg_ok_def)
  then have "js_get (p_in_degree s) n = Some 0" using mem js_get_iff by metis
  then show "n \<in> set (step_names p)" "open_edges p (p_completed s) n = 0"
    using assms(1) by (auto simp: deg_ok_def split: if_splits)
  show "n \<notin> set (p_completed s)" "n \<notin> set (p_failed s)" "n \<notin> set (js_keys (p_results s))" "n \<notin> set (p_in_flight s)"
    using rest by auto
qed

lemma distinct_ready: "deg_ok p s \<Longrightarrow> distinct (collect_ready cfg s)"
  by (simp add: collect_ready_def deg_ok_def js_wf_def distinct_map_filter)

lemma launch_frame:
  "p_results (foldl (launch_one m) s ns) = p_results s"
  "p_completed (foldl (launch_one m) s ns) = p_completed s"
  "p_failed (foldl (launch_one m) s ns) = p_failed s"
  "p_adj (foldl (launch_one m) s ns) = p_adj s"
  "p_in_degree (foldl (launch_one m) s ns) = p_in_degree s"
  "p_done (foldl (launch_one m) s ns) = p_done s"
  "p_aborted (foldl (launch_one m) s ns) = p_aborted s"
  "p_crashed (foldl (launch_one m) s ns) = p_crashed s"
  by (induction ns arbitrary: s) (simp_all add: launch_one_def)

lemma launch_prefix:
  "\<exists>k. p_in_flight (foldl (launch_one m) s ns) = p_in_flight s @ take k ns \<and>
       p_started (foldl (launch_one m) s ns) = p_started s @ take k ns \<and>
       (length (p_in_flight s) \<le> m \<longrightarrow> length (p_in_flight (foldl (launch_one m) s ns)) \<le> m)"
proof (induction ns arbitrary: s)
  case Nil
  then show ?case by simp
next
  case (Cons n ns)
  show ?case
  proof (cases "length (p_in_flight s) \<ge> m")
    case True
    have stay: "launch_one m s n = s" for n using True by (simp add: launch_one_def)
    have "foldl (launch_one m) s ns = s" for ns by (induction ns) (simp_all add: stay)
    moreover have "launch_one m s n = s" using True by (simp add: launch_one_def)
    ultimately show ?thesis by (intro exI [of _ 0]) simp
  next
    case False
    let ?s = "s\<lparr>p_started := p_started s @ [n], p_in_flight := p_in_flight s @ [n]\<rparr>"
    obtain k where "p_in_flight (foldl (launch_one m) ?s ns) = p_in_flight ?s @ take k ns"
      "p_started (foldl (launch_one m) ?s ns) = p_started ?s @ take k ns"
      "length (p_in_flight ?s) \<le> m \<longrightarrow> length (p_in_flight (foldl (launch_one m) ?s ns)) \<le> m"
      using Cons.IH by blast
    moreover have "launch_one m s n = ?s" using False by (simp add: launch_one_def)
    ultimately show ?thesis using False by (intro exI [of _ "Suc k"]) simp
  qed
qed

lemma launch_ready_inv:
  assumes wf: "well_formed_plan (c_plan cfg)" and inv: "pipe_inv cfg s" and "\<not> p_done s"
  shows "pipe_inv cfg (launch_ready cfg s)"
proof -
  let ?p = "c_plan cfg" and ?r = "collect_ready cfg s"
  have d: "deg_ok ?p s" and b: "books_ok ?p s" and o: "order_ok ?p s"
    and len: "length (p_in_flight s) \<le> c_max_parallel cfg"
    using inv wf by (simp_all add: pipe_inv_def Let_def)
  obtain k where k: "p_in_flight (launch_ready cfg s) = p_in_flight s @ take k ?r"
    "p_started (launch_ready cfg s) = p_started s @ take k ?r"
    "length (p_in_flight (launch_ready cfg s)) \<le> c_max_parallel cfg"
    using launch_prefix [of "c_max_parallel cfg" s ?r] len by (auto simp: launch_ready_def)
  note fr = launch_frame [of "c_max_parallel cfg" s ?r, folded launch_ready_def]
  have new: "\<forall>n\<in>set (take k ?r). n \<in> set (step_names ?p) \<and> open_edges ?p (p_completed s) n = 0 \<and>
      n \<notin> set (p_completed s) \<and> n \<notin> set (p_failed s) \<and> n \<notin> set (js_keys (p_results s)) \<and> n \<notin> set (p_in_flight s)"
    using collect_ready_props [OF d] by (blast dest: in_set_takeD)
  then have newS: "\<forall>n\<in>set (take k ?r). n \<notin> set (p_started s)" using b unfolding books_ok_def by blast
  have dt: "distinct (take k ?r)" using distinct_ready [OF d] by (rule distinct_take)
  have "deg_ok ?p (launch_ready cfg s)" using d fr deg_ok_cong by metis
  moreover have "books_ok ?p (launch_ready cfg s)"
    using b new newS dt unfolding books_ok_def k fr by auto
  moreover have "order_ok ?p (launch_ready cfg s)"
    using o new unfolding order_ok_def k fr open_edges_def by (fastforce simp: filter_empty_conv)
  ultimately show ?thesis using assms k(3) inv by (simp add: pipe_inv_def Let_def fr)
qed

section \<open>Settling keeps the invariant\<close>

lemma mark_blocked_keys:
  "set (js_keys (p_results (mark_blocked cfg s))) = set (js_keys (p_results s)) \<union> set (step_names (c_plan cfg))"
proof -
  have "set (js_keys (foldl (\<lambda>res n. if js_has res n then res else js_set res n (f n)) res ns))
      = set (js_keys res) \<union> set ns" for f :: "string \<Rightarrow> step_result" and res ns
    by (induction ns arbitrary: res) (auto simp: js_has_keys)
  then show ?thesis by (simp add: mark_blocked_def)
qed

lemma mark_blocked_frame:
  "p_completed (mark_blocked cfg s) = p_completed s" "p_failed (mark_blocked cfg s) = p_failed s"
  "p_in_flight (mark_blocked cfg s) = p_in_flight s" "p_started (mark_blocked cfg s) = p_started s"
  "p_adj (mark_blocked cfg s) = p_adj s" "p_in_degree (mark_blocked cfg s) = p_in_degree s"
  "p_crashed (mark_blocked cfg s) = p_crashed s" "p_aborted (mark_blocked cfg s) = p_aborted s"
  by (simp_all add: mark_blocked_def)

lemma main_turn_inv:
  assumes wf: "well_formed_plan (c_plan cfg)" and inv: "pipe_inv cfg s" and nd: "\<not> p_done s"
  shows "pipe_inv cfg (main_turn cfg ab s)"
proof -
  let ?p = "c_plan cfg"
  have d: "deg_ok ?p s" and b: "books_ok ?p s" using inv wf by (simp_all add: pipe_inv_def Let_def)
  consider (full) "length (p_completed s) + length (p_failed s) \<ge> length (steps ?p)"
    | (ab) "\<not> length (p_completed s) + length (p_failed s) \<ge> length (steps ?p)" ab
    | (run) "\<not> length (p_completed s) + length (p_failed s) \<ge> length (steps ?p)" "\<not> ab" by blast
  then show ?thesis
  proof cases
    case full
    have "set (step_names ?p) \<subseteq> set (js_keys (p_results s)) \<union> set (p_in_flight s)"
    proof (cases "set (step_names ?p) \<subseteq> set (js_keys (p_results s))")
      case False
      then have "set (p_completed s) \<inter> set (p_failed s) = {}" using b by (auto simp: books_ok_def)
      then have "card (set (p_completed s) \<union> set (p_failed s)) = length (p_completed s) + length (p_failed s)"
        using b by (simp add: books_ok_def card_Un_disjoint distinct_card)
      moreover have "card (set (step_names ?p)) = length (steps ?p)"
      proof -
        have "distinct (step_names ?p)" using wf by (simp add: well_formed_plan_def)
        moreover have "length (step_names ?p) = length (steps ?p)" by (simp add: step_names_def)
        ultimately show ?thesis using distinct_card by metis
      qed
      moreover have sub: "set (p_completed s) \<union> set (p_failed s) \<subseteq> set (step_names ?p)"
        using b by (auto simp: books_ok_def)
      ultimately have "set (p_completed s) \<union> set (p_failed s) = set (step_names ?p)"
        using full by (intro card_seteq) auto
      then show ?thesis using b by (auto simp: books_ok_def)
    qed auto
    then show ?thesis using inv full wf
      by (simp add: main_turn_def pipe_inv_def Let_def deg_ok_def books_ok_def order_ok_def)
  next
    case ab
    then show ?thesis using inv
      by (simp add: main_turn_def pipe_inv_def Let_def deg_ok_def books_ok_def order_ok_def)
  next
    case run
    have l: "pipe_inv cfg (launch_ready cfg s)" by (rule launch_ready_inv [OF wf inv nd])
    show ?thesis
    proof (cases "p_in_flight (launch_ready cfg s) = []")
      case True
      then have "pipe_inv cfg ((mark_blocked cfg (launch_ready cfg s))\<lparr>p_done := True\<rparr>)"
        using l wf
        by (auto simp: pipe_inv_def Let_def deg_ok_def books_ok_def order_ok_def mark_blocked_frame mark_blocked_keys)
      then show ?thesis using run True by (simp add: main_turn_def Let_def)
    next
      case False
      then show ?thesis using run l by (simp add: main_turn_def Let_def)
    qed
  qed
qed

lemma find_step_name: "find_step p n = Some st \<Longrightarrow> step_name st = n"
  unfolding find_step_def by (drule js_get_map_of_list) auto

lemma find_step_known: "n \<in> set (step_names p) \<Longrightarrow> find_step p n \<noteq> None"
  unfolding find_step_def js_keys_get [symmetric] set_keys_map_of_list
  by (auto simp: step_names_def image_image)

text \<open>The outcome functions on a state in which \<open>n\<close> just settled.\<close>

lemma complete_named_inv:
  assumes "well_formed_plan p" "deg_ok p s" "books_ok p s" "order_ok p s" "n \<in> set (p_in_flight s)"
  shows "deg_ok p (complete_named n (s\<lparr>p_results := js_set (p_results s) n r, p_ended := en,
      p_in_flight := filter (\<lambda>m. m \<noteq> n) (p_in_flight s)\<rparr>))"
    and "books_ok p (complete_named n (s\<lparr>p_results := js_set (p_results s) n r, p_ended := en,
      p_in_flight := filter (\<lambda>m. m \<noteq> n) (p_in_flight s)\<rparr>))"
    and "order_ok p (complete_named n (s\<lparr>p_results := js_set (p_results s) n r, p_ended := en,
      p_in_flight := filter (\<lambda>m. m \<noteq> n) (p_in_flight s)\<rparr>))"
proof -
  let ?s = "s\<lparr>p_results := js_set (p_results s) n r, p_ended := en,
      p_in_flight := filter (\<lambda>m. m \<noteq> n) (p_in_flight s)\<rparr>"
  have nc: "n \<notin> set (p_completed s)" using assms(3,5) by (auto simp: books_ok_def)
  have "deg_ok p ?s" using assms(2) by (simp add: deg_ok_def)
  then show "deg_ok p (complete_named n ?s)"
    using release_ok [OF assms(1), of ?s n] nc by (simp add: complete_named_def)
  show "books_ok p (complete_named n ?s)"
    using assms(3,5) nc by (auto simp: books_ok_def complete_named_def)
  show "order_ok p (complete_named n ?s)" using assms(4) by (auto simp: order_ok_def complete_named_def)
qed

lemma abort_frame:
  "p_completed (foldl (abort_one by) s ns) = p_completed s"
  "p_in_flight (foldl (abort_one by) s ns) = p_in_flight s"
  "p_started (foldl (abort_one by) s ns) = p_started s"
  "p_adj (foldl (abort_one by) s ns) = p_adj s"
  "p_in_degree (foldl (abort_one by) s ns) = p_in_degree s"
  "p_done (foldl (abort_one by) s ns) = p_done s"
  "p_aborted (foldl (abort_one by) s ns) = p_aborted s"
  "p_crashed (foldl (abort_one by) s ns) = p_crashed s"
  "set (js_keys (p_results (foldl (abort_one by) s ns))) = set (js_keys (p_results s)) \<union> set ns"
  by (induction ns arbitrary: s) (auto simp: abort_one_def js_has_keys)

lemma abort_failed:
  "distinct (p_failed s) \<Longrightarrow> distinct (p_failed (foldl (abort_one by) s ns))"
  "set (p_failed (foldl (abort_one by) s ns)) \<subseteq> set (p_failed s) \<union> set ns"
proof -
  have one: "set (p_failed (abort_one by s n)) \<subseteq> insert n (set (p_failed s))"
    "distinct (p_failed s) \<Longrightarrow> distinct (p_failed (abort_one by s n))" for s n
    by (auto simp: abort_one_def)
  show "distinct (p_failed s) \<Longrightarrow> distinct (p_failed (foldl (abort_one by) s ns))"
    by (induction ns arbitrary: s) (simp_all add: one(2))
  show "set (p_failed (foldl (abort_one by) s ns)) \<subseteq> set (p_failed s) \<union> set ns"
  proof (induction ns arbitrary: s)
    case (Cons n ns)
    then show ?case using one(1) [of s n] Cons.IH [of "abort_one by s n"] by auto
  qed simp
qed

lemma apply_outcome_inv:
  assumes wf: "well_formed_plan p" and d: "deg_ok p s" and b: "books_ok p s" and o: "order_ok p s"
    and n: "n \<in> set (p_in_flight s)" "step_name st = n"
    and s1_def: "s1 = s\<lparr>p_results := js_set (p_results s) n r, p_ended := en,
      p_in_flight := filter (\<lambda>m. m \<noteq> n) (p_in_flight s)\<rparr>"
  shows "deg_ok p (apply_outcome p st r s1) \<and> books_ok p (apply_outcome p st r s1) \<and>
    order_ok p (apply_outcome p st r s1)"
proof -
  note comp = complete_named_inv [OF wf d b o n(1), where r = r and en = en, folded s1_def]
  have nN: "n \<in> set (step_names p)" using b n(1) by (auto simp: books_ok_def)
  have plain: "deg_ok p s1" "books_ok p s1" "order_ok p s1"
    using d b o nN by (auto simp: s1_def deg_ok_def books_ok_def order_ok_def)
  let ?f = "s1\<lparr>p_failed := set_add (p_failed s1) n\<rparr>"
  have nk: "n \<in> set (js_keys (p_results s1))" "n \<notin> set (p_in_flight s1)" "n \<notin> set (p_completed s1)"
    using b n(1) by (auto simp: s1_def books_ok_def)
  have fail: "deg_ok p ?f" "books_ok p ?f" "order_ok p ?f"
    using plain nk by (auto simp: deg_ok_def books_ok_def order_ok_def)
  let ?a = "foldl (abort_one n) ?f (step_names p)"
  have "deg_ok p ?a \<and> books_ok p ?a \<and> order_ok p ?a"
  proof -
    have K: "set (js_keys (p_results ?a)) = set (step_names p)"
      using fail(2) by (auto simp: abort_frame books_ok_def)
    have "deg_ok p ?a" using fail(1) deg_ok_cong abort_frame(1,4,5) by metis
    moreover have "order_ok p ?a" using fail(3) by (simp add: order_ok_def abort_frame)
    moreover have "books_ok p ?a"
    proof -
      have "set (p_failed ?a) \<subseteq> set (step_names p)"
        using abort_failed(2) [of n ?f "step_names p"] fail(2) by (auto simp: books_ok_def)
      moreover have "distinct (p_failed ?a)" using fail(2) by (intro abort_failed(1)) (simp add: books_ok_def)
      ultimately show ?thesis using fail(2) unfolding books_ok_def K abort_frame(1-3) by blast
    qed
    ultimately show ?thesis by blast
  qed
  then show ?thesis
    using comp plain fail n(2) by (auto simp: apply_outcome_def Let_def split: on_error.split)
qed

lemma outcome_in_flight:
  "apply_outcome p st r (s\<lparr>p_in_flight := x\<rparr>) = (apply_outcome p st r s)\<lparr>p_in_flight := x\<rparr>"
  "p_in_flight (apply_outcome p st r s) = p_in_flight s"
proof -
  have one: "abort_one by (s\<lparr>p_in_flight := x\<rparr>) n = (abort_one by s n)\<lparr>p_in_flight := x\<rparr>" for "by" s n
    by (simp add: abort_one_def)
  have all: "foldl (abort_one by) (s\<lparr>p_in_flight := x\<rparr>) ns = (foldl (abort_one by) s ns)\<lparr>p_in_flight := x\<rparr>" for "by" s ns
    by (induction ns arbitrary: s) (simp_all add: one)
  have "foldl (abort_one by) (s\<lparr>p_in_flight := x, p_failed := f\<rparr>) ns =
      (foldl (abort_one by) (s\<lparr>p_failed := f\<rparr>) ns)\<lparr>p_in_flight := x\<rparr>" for "by" f ns
  proof -
    have comm: "s\<lparr>p_in_flight := x, p_failed := f\<rparr> = s\<lparr>p_failed := f, p_in_flight := x\<rparr>" by simp
    show ?thesis unfolding comm by (rule all)
  qed
  then show "apply_outcome p st r (s\<lparr>p_in_flight := x\<rparr>) = (apply_outcome p st r s)\<lparr>p_in_flight := x\<rparr>"
    by (simp add: apply_outcome_def Let_def complete_named_def split: on_error.split)
  show "p_in_flight (apply_outcome p st r s) = p_in_flight s"
    by (simp add: apply_outcome_def Let_def complete_named_def abort_frame split: on_error.split)
qed

lemma outcome_frame:
  "p_done (apply_outcome p st r s) = p_done s" "p_aborted (apply_outcome p st r s) = p_aborted s"
  "p_crashed (apply_outcome p st r s) = p_crashed s"
  "set (js_keys (p_results s)) \<subseteq> set (js_keys (p_results (apply_outcome p st r s)))"
  by (auto simp: apply_outcome_def Let_def complete_named_def abort_frame split: on_error.split)

lemma settle_inv:
  assumes wf: "well_formed_plan (c_plan cfg)" and inv: "pipe_inv cfg s" and n: "n \<in> set (p_in_flight s)"
  shows "pipe_inv cfg (settle_named cfg n raw s)"
proof -
  let ?p = "c_plan cfg"
  have ok: "deg_ok ?p s" "books_ok ?p s" "order_ok ?p s"
    and len: "length (p_in_flight s) \<le> c_max_parallel cfg" "\<not> p_crashed s"
    and dn: "p_done s \<and> \<not> p_aborted s \<longrightarrow>
        set (step_names ?p) \<subseteq> set (js_keys (p_results s)) \<union> set (p_in_flight s)"
    using inv wf by (simp_all add: pipe_inv_def Let_def)
  have "n \<in> set (step_names ?p)" using ok(2) n by (auto simp: books_ok_def)
  then obtain st where st: "find_step ?p n = Some st" using find_step_known by blast
  note nm = find_step_name [OF st]
  let ?f = "case body st of SubagentTask sa \<Rightarrow> apply_reconciliation sa raw | DeterministicTool t \<Rightarrow> raw"
  let ?fl = "filter (\<lambda>m. m \<noteq> n) (p_in_flight s)"
  let ?s1 = "s\<lparr>p_results := js_set (p_results s) n ?f, p_ended := p_ended s @ [n], p_in_flight := ?fl\<rparr>"
  let ?s2 = "s\<lparr>p_results := js_set (p_results s) n ?f, p_ended := p_ended s @ [n]\<rparr>"
  have "?s1 = ?s2\<lparr>p_in_flight := ?fl\<rparr>" by simp
  then have eq: "settle_named cfg n raw s = apply_outcome ?p st ?f ?s1"
    unfolding settle_named_def st option.case Let_def outcome_in_flight(2)
    by (simp only: outcome_in_flight(1)) simp
  have "deg_ok ?p (apply_outcome ?p st ?f ?s1) \<and> books_ok ?p (apply_outcome ?p st ?f ?s1) \<and>
      order_ok ?p (apply_outcome ?p st ?f ?s1)"
    by (rule apply_outcome_inv [OF wf ok n nm refl])
  moreover have "length ?fl \<le> c_max_parallel cfg"
    using len(1) length_filter_le order_trans by blast
  moreover have "p_done s \<and> \<not> p_aborted s \<longrightarrow> set (step_names ?p) \<subseteq>
      set (js_keys (p_results (apply_outcome ?p st ?f ?s1))) \<union> set ?fl"
    using dn outcome_frame(4) [of ?s1 ?p st ?f] by auto
  ultimately show ?thesis
    unfolding eq using len by (simp add: pipe_inv_def Let_def outcome_frame outcome_in_flight(2))
qed

lemma pipe_step_inv: "pipe_inv cfg s \<Longrightarrow> pipe_inv cfg (pipe_step cfg s ev)"
proof (cases "well_formed_plan (c_plan cfg)")
  case True
  assume "pipe_inv cfg s"
  then show ?thesis using main_turn_inv [OF True] settle_inv [OF True]
    by (auto simp: pipe_step_def split: pipe_event.split)
qed (simp add: pipe_inv_def)

interpretation scheduler: invariant_system "pipe_step cfg" "pipe_inv cfg" for cfg
  by unfold_locales (rule pipe_step_inv)

section \<open>The start\<close>

lemma build_in_degree_ok:
  assumes "well_formed_plan p"
  shows "js_get (build_in_degree p) v = (if v \<in> set (step_names p) then Some (int (open_edges p [] v)) else None)"
proof -
  have zero: "js_get (foldl (\<lambda>m n. js_set m n x) m ns) v = (if v \<in> set ns then Some x else js_get m v)"
    for m :: "(string, int) jsmap" and x ns v
    by (induction ns arbitrary: m) auto
  have "v \<notin> e_to ` set (edges p)" if "v \<notin> set (step_names p)"
    using that assms by (auto simp: well_formed_plan_def list_all_iff)
  moreover have "js_get_or (foldl (\<lambda>m n. js_set m n 0) [] (step_names p)) v (0 :: int) = 0" for v
    by (simp add: js_get_or_def zero)
  ultimately show ?thesis
    by (auto simp: build_in_degree_def count_up zero open_edges_def)
qed

lemma start_inv:
  assumes prior: "js_wf (case c_prior cfg of None \<Rightarrow> [] | Some pr \<Rightarrow> pr)"
  shows "pipe_inv cfg (start_pipeline cfg)"
proof (cases "well_formed_plan (c_plan cfg)")
  case True
  let ?p = "c_plan cfg"
  define ok where "ok s \<longleftrightarrow> deg_ok ?p s \<and> books_ok ?p s \<and> p_in_flight s = [] \<and> p_started s = [] \<and>
     p_failed s = [] \<and> \<not> p_done s \<and> \<not> p_crashed s" for s
  have step: "ok (take_prior ?p s e)" if "ok s" "fst e \<notin> set (p_completed s)" for s e
  proof (cases "r_status (snd e) = SCompleted \<and> fst e \<in> set (step_names ?p)")
    case True
    have "deg_ok ?p (s\<lparr>p_completed := set_add (p_completed s) (fst e),
        p_in_degree := release_downstream (p_adj s) (fst e) (p_in_degree s)\<rparr>)"
      by (rule release_ok) (use that \<open>well_formed_plan ?p\<close> in \<open>simp_all add: ok_def\<close>)
    then show ?thesis using that True by (auto simp: ok_def take_prior_def deg_ok_def books_ok_def)
  qed (use that in \<open>auto simp: ok_def take_prior_def\<close>)
  have loop: "ok (foldl (take_prior ?p) s es)"
    if "ok s" "distinct (map fst es)" "fst ` set es \<inter> set (p_completed s) = {}" for s es
    using that
  proof (induction es arbitrary: s)
    case (Cons e es)
    have "set (p_completed (take_prior ?p s e)) \<subseteq> insert (fst e) (set (p_completed s))"
      by (auto simp: take_prior_def)
    moreover have "fst ` set es \<inter> insert (fst e) (set (p_completed s)) = {}" using Cons.prems(2,3) by auto
    ultimately have "fst ` set es \<inter> set (p_completed (take_prior ?p s e)) = {}" by blast
    moreover have "ok (take_prior ?p s e)" using step Cons.prems by auto
    ultimately show ?case using Cons.IH Cons.prems(2) by simp
  qed simp
  have js: "js_wf (build_in_degree ?p)" by (simp add: build_in_degree_def js_wf_foldl)
  have "ok (start_pipeline cfg)"
    unfolding start_pipeline_def
    by (rule loop) (use prior build_in_degree_ok [OF True] js in
        \<open>auto simp: ok_def deg_ok_def books_ok_def js_wf_def js_keys_def\<close>)
  then show ?thesis by (simp add: pipe_inv_def Let_def ok_def order_ok_def)
qed (simp add: pipe_inv_def)

lemma run_pipeline_inv:
  "js_wf (case c_prior cfg of None \<Rightarrow> [] | Some pr \<Rightarrow> pr) \<Longrightarrow> pipe_inv cfg (run_pipeline cfg evs)"
  unfolding run_pipeline_def by (rule scheduler.run_inv) (rule start_inv)

section \<open>What the scheduler promises\<close>

definition prior_wf :: "pipe_config \<Rightarrow> bool" where
  "prior_wf cfg = js_wf (case c_prior cfg of None \<Rightarrow> [] | Some pr \<Rightarrow> pr)"

text \<open>C7: Whatever the order in which steps settle and whatever their results, the scheduler starts no step
  twice and no unknown step, never has more than \<open>maxParallel\<close> steps in flight, never crashes on a
  missing step, and starts a step only when every step it depends on has completed (or failed
  with \<open>onError: skip\<close>).\<close>

theorem pipeline_respects_dependencies:
  assumes "well_formed_plan (c_plan cfg)" "prior_wf cfg"
  shows "let s = run_pipeline cfg evs in
    distinct (p_started s) \<and> set (p_started s) \<subseteq> set (step_names (c_plan cfg)) \<and>
    length (p_in_flight s) \<le> c_max_parallel cfg \<and> \<not> p_crashed s \<and>
    (\<forall>n\<in>set (p_started s). \<forall>e\<in>set (edges (c_plan cfg)). e_to e = n \<longrightarrow> e_from e \<in> set (p_completed s))"
proof -
  have "pipe_inv cfg (run_pipeline cfg evs)"
    by (rule run_pipeline_inv) (use assms(2) in \<open>simp add: prior_wf_def\<close>)
  then show ?thesis using assms(1) by (simp add: pipe_inv_def Let_def books_ok_def order_ok_def)
qed

definition tool_plan_step :: "string \<Rightarrow> plan_step" where
  "tool_plan_step n = \<lparr>step_name = n, depends_on = [],
     body = DeterministicTool \<lparr>ts_tool = ''think'', ts_on_error = None, ts_max_retries = None\<rparr>\<rparr>"

definition two_step_config :: pipe_config where
  "two_step_config = (let p = \<lparr>steps = [tool_plan_step ''a'', tool_plan_step ''b''],
       edges = [\<lparr>e_from = ''a'', e_to = ''b''\<rparr>]\<rparr>
     in \<lparr>c_plan = p, c_model = compile_planner_runtime p, c_repair = None, c_prior = None, c_max_parallel = 4\<rparr>)"

definition done_result :: "string \<Rightarrow> step_result" where
  "done_result n = (skipped_result n UpstreamFailed)\<lparr>r_status := SCompleted, r_execution := SCompleted,
     r_acceptance := Some AAccepted, r_error := None\<rparr>"

lemma two_step_wf: "well_formed_plan (c_plan two_step_config)" "prior_wf two_step_config"
  by (simp_all add: two_step_config_def Let_def well_formed_plan_def step_names_def tool_plan_step_def prior_wf_def)

theorem pipeline_respects_dependencies_witness:
  "let s = run_pipeline two_step_config [Turn False, Settle ''a'' (done_result ''a''), Turn False] in
    distinct (p_started s) \<and> set (p_started s) \<subseteq> set (step_names (c_plan two_step_config)) \<and>
    length (p_in_flight s) \<le> c_max_parallel two_step_config \<and> \<not> p_crashed s \<and>
    (\<forall>n\<in>set (p_started s). \<forall>e\<in>set (edges (c_plan two_step_config)). e_to e = n \<longrightarrow> e_from e \<in> set (p_completed s))"
  by (rule pipeline_respects_dependencies [OF two_step_wf])

text \<open>When the loop has ended without an abort and nothing is in flight, every step of the plan has
  exactly one result (run, failed, skipped or carried over) and no other step has one.\<close>

theorem pipeline_reports_every_step:
  assumes "well_formed_plan (c_plan cfg)" "prior_wf cfg"
    and "p_done (run_pipeline cfg evs)" "\<not> p_aborted (run_pipeline cfg evs)" "p_in_flight (run_pipeline cfg evs) = []"
  shows "set (js_keys (p_results (run_pipeline cfg evs))) = set (step_names (c_plan cfg))"
proof -
  have "pipe_inv cfg (run_pipeline cfg evs)"
    by (rule run_pipeline_inv) (use assms(2) in \<open>simp add: prior_wf_def\<close>)
  then show ?thesis using assms by (auto simp: pipe_inv_def Let_def books_ok_def)
qed

definition solo_config :: pipe_config where
  "solo_config = \<lparr>c_plan = \<lparr>steps = [tool_plan_step ''a''], edges = []\<rparr>,
     c_model = \<lparr>execution_graph = [], ownership_graph = [], accepted_dependencies = []\<rparr>,
     c_repair = None, c_prior = None, c_max_parallel = 4\<rparr>"

theorem pipeline_reports_every_step_witness:
  "set (js_keys (p_results (run_pipeline solo_config
      [Turn False, Settle ''a'' (done_result ''a''), Turn False]))) = {''a''}"
proof -
  have names: "step_names (c_plan solo_config) = [''a'']"
    by (simp add: solo_config_def step_names_def tool_plan_step_def)
  have wf: "well_formed_plan (c_plan solo_config)" "prior_wf solo_config"
    by (simp_all add: solo_config_def well_formed_plan_def step_names_def tool_plan_step_def prior_wf_def)
  let ?s = "run_pipeline solo_config [Turn False, Settle ''a'' (done_result ''a''), Turn False]"
  have "p_done ?s" "\<not> p_aborted ?s" "p_in_flight ?s = []" by code_simp+
  from pipeline_reports_every_step [OF wf this] show ?thesis by (simp add: names)
qed

lemma set_values_js_set: "snd ` set (js_set m k v) \<subseteq> insert v (snd ` set m)"
  by (induction m) (auto simp: js_set_def)

lemma marked_skipped:
  "\<forall>r\<in>snd ` set res. r_status r = SSkipped \<Longrightarrow>
   \<forall>r\<in>snd ` set (foldl (\<lambda>res n. if js_has res n then res else js_set res n (skipped_result n (f n))) res ns).
      r_status r = SSkipped"
proof (induction ns arbitrary: res)
  case Nil
  then show ?case by simp
next
  case (Cons n ns)
  have "r_status (skipped_result n (f n)) = SSkipped" by (simp add: skipped_result_def)
  then have "\<forall>r\<in>insert (skipped_result n (f n)) (snd ` set res). r_status r = SSkipped"
    using Cons.prems by simp
  then have new: "\<forall>r\<in>snd ` set (js_set res n (skipped_result n (f n))). r_status r = SSkipped"
    using set_values_js_set [of res n "skipped_result n (f n)"] by (meson subsetD)
  show ?case
    unfolding foldl.simps using Cons.IH [OF Cons.prems] Cons.IH [OF new]
    by (cases "js_has res n") (simp_all only: if_True if_False)
qed

text \<open>A plan in which nothing can start is reported as completed: when every step has an incoming edge,
  the first iteration marks all steps as skipped, ends the loop and returns the status \<open>completed\<close>
  with zero completed steps.\<close>

theorem blocked_plan_reported_completed:
  assumes "well_formed_plan (c_plan cfg)" "c_prior cfg = None" "steps (c_plan cfg) \<noteq> []"
    and "\<forall>n\<in>set (step_names (c_plan cfg)). \<exists>e\<in>set (edges (c_plan cfg)). e_to e = n"
  shows "let s = run_pipeline cfg [Turn False] in
    p_done s \<and> p_started s = [] \<and> pipeline_result s = (PCompleted, 0) \<and>
    set (js_keys (p_results s)) = set (step_names (c_plan cfg))"
proof -
  let ?p = "c_plan cfg" and ?s0 = "start_pipeline cfg"
  have s0: "p_completed ?s0 = []" "p_failed ?s0 = []" "p_results ?s0 = []" "p_in_flight ?s0 = []"
    "p_started ?s0 = []" "\<not> p_done ?s0" "\<not> p_crashed ?s0" "\<not> p_aborted ?s0"
    by (simp_all add: start_pipeline_def assms(2))
  have deg: "deg_ok ?p ?s0"
    using start_inv [of cfg] assms(1,2) by (simp add: pipe_inv_def Let_def)
  have "collect_ready cfg ?s0 = []"
  proof (rule ccontr)
    assume "collect_ready cfg ?s0 \<noteq> []"
    then obtain n where n: "n \<in> set (collect_ready cfg ?s0)" by (meson hd_in_set)
    note r = collect_ready_props [OF deg n]
    obtain e where "e \<in> set (edges ?p)" "e_to e = n" using assms(4) r(1) by blast
    then show False using r(2) s0(1) by (auto simp: open_edges_def filter_empty_conv)
  qed
  then have launch: "launch_ready cfg ?s0 = ?s0" by (simp add: launch_ready_def)
  have turn: "run_pipeline cfg [Turn False] = (mark_blocked cfg ?s0)\<lparr>p_done := True\<rparr>"
    using s0 assms(3) by (simp add: run_pipeline_def pipe_step_def main_turn_def Let_def launch)
  have "\<forall>r\<in>set (js_values (p_results (mark_blocked cfg ?s0))). r_status r = SSkipped"
  proof -
    note ok = marked_skipped [where res = "[]"]
    show ?thesis by (simp add: mark_blocked_def js_values_def s0(3)) (use ok in auto)
  qed
  then have vals: "r_status r = SSkipped" if "r \<in> set (js_values (p_results (mark_blocked cfg ?s0)))" for r
    using that by blast
  have "pipeline_result (run_pipeline cfg [Turn False]) = (PCompleted, 0)"
    unfolding turn using vals s0(8)
    by (auto simp: pipeline_result_def list_ex_iff mark_blocked_frame filter_empty_conv)
  moreover have "set (js_keys (p_results (run_pipeline cfg [Turn False]))) = set (step_names ?p)"
    unfolding turn by (simp add: mark_blocked_keys s0(3)) (simp add: js_keys_def)
  ultimately show ?thesis by (simp add: turn mark_blocked_frame s0)
qed

definition cyclic_config :: pipe_config where
  "cyclic_config = \<lparr>c_plan = \<lparr>steps = [tool_plan_step ''a'', tool_plan_step ''b''],
       edges = [\<lparr>e_from = ''a'', e_to = ''b''\<rparr>, \<lparr>e_from = ''b'', e_to = ''a''\<rparr>]\<rparr>,
     c_model = \<lparr>execution_graph = [], ownership_graph = [], accepted_dependencies = []\<rparr>,
     c_repair = None, c_prior = None, c_max_parallel = 4\<rparr>"

theorem blocked_plan_reported_completed_witness:
  "pipeline_result (run_pipeline cyclic_config [Turn False]) = (PCompleted, 0)"
  using blocked_plan_reported_completed [of cyclic_config]
  by (simp add: cyclic_config_def well_formed_plan_def step_names_def tool_plan_step_def Let_def)

section \<open>Contract reconciliation\<close>

lemma empty_filter_subset: "filter P xs = [] \<longleftrightarrow> (\<forall>x\<in>set xs. \<not> P x)"
  by (simp add: filter_empty_conv)

text \<open>C35: The reconciliation of a subagent's result with its contract is exact: with evidence, a completed
  result stays completed exactly when it touched no forbidden artifact, reported nothing outside its
  targets and sources, has no unresolved blocker, and produced every target unless the step is
  read-only or the child declared success; nothing else is changed into a completed result.\<close>

theorem reconciliation_exact:
  "r_status (apply_reconciliation sa r) = SCompleted \<longleftrightarrow>
     r_status r = SCompleted \<and>
     (r_tool_calls r = None \<and> r_child r = None \<or>
      (let norm = (\<lambda>as. set (map (\<lambda>a. normalize_tool_call_path (Some a)) as));
           ctx = sa_context sa; reported = set (collect_reported_artifacts r)
       in reported \<inter> norm (forbidden_artifacts ctx) = {} \<and>
          reported \<subseteq> norm (target_artifacts ctx) \<union> norm (required_source_artifacts ctx) \<and>
          (case r_child r of None \<Rightarrow> True | Some c \<Rightarrow> unresolved_blockers c = []) \<and>
          (effect_class_of ctx = Readonly \<or>
           (case r_child r of None \<Rightarrow> False | Some c \<Rightarrow> child_success c \<and> unresolved_blockers c = []) \<or>
           norm (target_artifacts ctx) \<subseteq> reported)))"
proof (cases "r_tool_calls r = None \<and> r_child r = None")
  case True
  then show ?thesis by (simp add: apply_reconciliation_def)
next
  case False
  let ?fs = "reconciliation_findings (sa_context sa) r"
  have "r_status (apply_reconciliation sa r) = SCompleted \<longleftrightarrow>
      r_status r = SCompleted \<and> \<not> list_ex is_error_finding ?fs"
    using False by (auto simp: apply_reconciliation_def Let_def)
  moreover have "\<not> list_ex is_error_finding ?fs \<longleftrightarrow>
      (let norm = (\<lambda>as. set (map (\<lambda>a. normalize_tool_call_path (Some a)) as));
           ctx = sa_context sa; reported = set (collect_reported_artifacts r)
       in reported \<inter> norm (forbidden_artifacts ctx) = {} \<and>
          reported \<subseteq> norm (target_artifacts ctx) \<union> norm (required_source_artifacts ctx) \<and>
          (case r_child r of None \<Rightarrow> True | Some c \<Rightarrow> unresolved_blockers c = []) \<and>
          (effect_class_of ctx = Readonly \<or>
           (case r_child r of None \<Rightarrow> False | Some c \<Rightarrow> child_success c \<and> unresolved_blockers c = []) \<or>
           norm (target_artifacts ctx) \<subseteq> reported))"
    unfolding reconciliation_findings_def Let_def
    by (cases "r_child r") (auto simp: is_error_finding_def empty_filter_subset)
  ultimately show ?thesis using False by (simp only: simp_thms)
qed

section \<open>Carried-over steps\<close>

text \<open>A step that was complete when the executor started, because a previous run handed its result over, is never
  started.\<close>

definition settled_before :: "string \<Rightarrow> pipe_state \<Rightarrow> bool" where
  "settled_before n s = (n \<in> set (p_completed s) \<and> n \<notin> set (p_started s))"

lemma apply_outcome_started: "p_started (apply_outcome p st r s) = p_started s"
  by (simp add: apply_outcome_def Let_def complete_named_def abort_frame split: on_error.split)

lemma apply_outcome_completed: "set (p_completed s) \<subseteq> set (p_completed (apply_outcome p st r s))"
  by (auto simp: apply_outcome_def Let_def complete_named_def abort_frame split: on_error.split)

lemma main_turn_settled: "settled_before n s \<Longrightarrow> settled_before n (main_turn cfg ab s)"
proof -
  assume n: "settled_before n s"
  then have "n \<notin> set (collect_ready cfg s)" by (auto simp: collect_ready_def settled_before_def)
  moreover obtain k where "p_started (launch_ready cfg s) = p_started s @ take k (collect_ready cfg s)"
    unfolding launch_ready_def using launch_prefix [of "c_max_parallel cfg" s "collect_ready cfg s"] by blast
  ultimately have "settled_before n (launch_ready cfg s)"
    using n by (auto simp: settled_before_def launch_ready_def launch_frame dest: in_set_takeD)
  then show "settled_before n (main_turn cfg ab s)"
    using n by (auto simp: main_turn_def Let_def settled_before_def mark_blocked_frame)
qed

lemma pipe_step_settled: "settled_before n s \<Longrightarrow> settled_before n (pipe_step cfg s ev)"
  using main_turn_settled [of n s cfg] apply_outcome_completed
  by (fastforce simp: pipe_step_def settle_named_def settled_before_def Let_def apply_outcome_started
      split: pipe_event.split option.split step_body.split)

lemma take_prior_settled:
  assumes "settled_before n s" shows "settled_before n (take_prior p s e)"
  using assms by (simp add: take_prior_def settled_before_def)

lemma start_pipeline_settled:
  assumes "c_prior cfg = Some prior" "js_get prior n = Some r" "r_status r = SCompleted"
    "n \<in> set (step_names (c_plan cfg))"
  shows "settled_before n (start_pipeline cfg)"
proof -
  have "settled_before n (foldl (take_prior p) s es)" if "p_started s = []" "(n, r) \<in> set es" "p = c_plan cfg" for p s es
    using that
  proof (induction es arbitrary: s)
    case (Cons e es)
    have started: "p_started (take_prior p s e) = []" using Cons.prems by (simp add: take_prior_def)
    show ?case
    proof (cases "e = (n, r)")
      case True
      then have "settled_before n (take_prior p s e)"
        using Cons.prems assms by (simp add: take_prior_def settled_before_def)
      then have "settled_before n (foldl (take_prior p) (take_prior p s e) es)"
        by (induction es rule: rev_induct) (auto intro: take_prior_settled)
      then show ?thesis by simp
    next
      case False
      then show ?thesis using Cons started by simp
    qed
  qed simp
  then show ?thesis using assms(1) js_get_mem [OF assms(2)] by (simp add: start_pipeline_def)
qed

lemma carried_over_never_starts:
  assumes "c_prior cfg = Some prior" "js_get prior n = Some r" "r_status r = SCompleted"
    "n \<in> set (step_names (c_plan cfg))"
  shows "n \<notin> set (p_started (run_pipeline cfg evs))"
proof -
  have "settled_before n (run_pipeline cfg evs)"
    unfolding run_pipeline_def using start_pipeline_settled [OF assms]
    by (induction evs rule: rev_induct) (auto intro: pipe_step_settled)
  then show ?thesis by (simp add: settled_before_def)
qed

end
