(* ===== verification/Policy.thy ===== *)
theory Policy
  imports JsonText
begin

text \<open>
  The policy engine (\<open>packages/agent/src/core/policy/\<close>): the facts a tool step is judged by
  (\<open>selectors.ts\<close>, \<open>extractToolFacts\<close>), selector matching and the priority resolution, operator
  grants (\<open>tool-approval-grants.ts\<close>) and the decision itself (\<open>evaluate.ts\<close>), with the enums
  of \<open>domain/enums/policy.ts\<close> and the context of \<open>domain/types/policy-context.ts\<close>.

  \<open>node:path\<close> is the POSIX one; \<open>cwd\<close> is the working directory \<open>resolve\<close> falls back to. A command
  selector holds a regular expression its author chose: the matcher takes the engine as a parameter,
  \<open>rx source flags text\<close>, \<open>None\<close> for a source that does not compile. The three fixed SQL
  patterns are written out.
\<close>

section \<open>Data\<close>

datatype policy_effect = Allow | RequireApproval | Deny
datatype policy_run_mode = Developer | Hosted
datatype policy_role = Admin | HostedUser | Visitor
datatype policy_scope = Sandbox | AttachmentStore | AppWorkspace | System
datatype policy_db_environment = Dev | Uat | Prod
datatype policy_db_operation = QueryRead | SyncPreview | SyncExecute | SyncCustomSql | SyncShellExecute | Ddl | Dml
datatype policy_network = NetNone | NetAllow
datatype grant_scope = GrantInstance | GrantRun

text \<open>What \<open>Number(x)\<close> gives: a number, or \<open>NaN\<close>, which compares with nothing.\<close>

datatype js_number = Num real | NaN

fun num_gt :: "js_number \<Rightarrow> js_number \<Rightarrow> bool" where
  "num_gt (Num a) (Num b) = (a > b)"
| "num_gt NaN y = False"
| "num_gt (Num a) NaN = False"

fun num_eq :: "js_number \<Rightarrow> js_number \<Rightarrow> bool" where
  "num_eq (Num a) (Num b) = (a = b)"
| "num_eq NaN y = False"
| "num_eq (Num a) NaN = False"

text \<open>The selectors of a rule. \<open>sel_other\<close> are keys of the stored object the schema does not know;
  they count for \<open>Object.keys\<close> and nothing else.\<close>

record policy_selectors =
  sel_role :: "policy_role option"
  sel_run_mode :: "policy_run_mode option"
  sel_tool :: "string option"
  sel_path :: "string option"
  sel_command :: "string option"
  sel_network :: "policy_network option"
  sel_scope :: "policy_scope option"
  sel_db_environment :: "policy_db_environment option"
  sel_db_operation :: "policy_db_operation option"
  sel_other :: "string list"

record rule_parameters =
  p_priority :: "js_number option"
  p_selectors :: "policy_selectors option"
  p_reason :: "string option"

record policy_rule =
  rule_name :: string
  rule_effect :: policy_effect
  rule_condition :: string
  rule_parameters :: rule_parameters

text \<open>The parts of a step the policy reads.\<close>

type_synonym tool_args = "(string, json) jsmap"

record policy_step =
  step_action :: string
  step_input :: tool_args

record tool_approval_grant =
  g_tool_name :: string
  g_args :: tool_args
  g_scope :: "grant_scope option"

record policy_context =
  c_run_mode :: policy_run_mode
  c_role :: policy_role
  c_sandbox_root :: "string option"
  c_default_db_environment :: "policy_db_environment option"
  c_grants :: "tool_approval_grant list option"

record tool_facts =
  f_tool :: string
  f_path :: "string option"
  f_command :: "string option"
  f_scope :: "policy_scope option"
  f_network :: "policy_network option"
  f_db_environment :: "policy_db_environment option"
  f_db_operation :: "policy_db_operation option"

section \<open>Paths\<close>

text \<open>\<open>path.resolve\<close> of an absolute text: the segments after \<open>.\<close> and \<open>..\<close> are worked off.\<close>

definition push_segment :: "string list \<Rightarrow> string \<Rightarrow> string list" where
  "push_segment acc seg = (if seg = [] \<or> seg = ''.'' then acc
     else if seg = ''..'' then butlast acc else acc @ [seg])"

definition norm_segments :: "string \<Rightarrow> string list" where
  "norm_segments p = foldl push_segment [] (js_split CHR ''/'' p)"

definition is_absolute :: "string \<Rightarrow> bool" where
  "is_absolute p = starts_with p ''/''"

definition path_segments :: "string \<Rightarrow> string \<Rightarrow> string list" where
  "path_segments cwd p = norm_segments (if is_absolute p then p else cwd @ ''/'' @ p)"

definition path_text :: "string list \<Rightarrow> string" where
  "path_text segs = CHR ''/'' # js_join ''/'' segs"

definition path_resolve :: "string \<Rightarrow> string \<Rightarrow> string" where
  "path_resolve cwd p = path_text (path_segments cwd p)"

text \<open>\<open>resolve(root, p)\<close>.\<close>

definition path_resolve2 :: "string \<Rightarrow> string \<Rightarrow> string \<Rightarrow> string" where
  "path_resolve2 cwd base p = (if is_absolute p then path_resolve cwd p else path_resolve cwd (base @ ''/'' @ p))"

definition classify_path :: "string \<Rightarrow> string \<Rightarrow> string option \<Rightarrow> policy_scope" where
  "classify_path cwd raw sandbox_root = (
     if starts_with raw ''sandbox://'' then Sandbox
     else if starts_with raw ''workspace://'' then AppWorkspace
     else if starts_with raw ''attachment://'' then AttachmentStore
     else case sandbox_root of
       None \<Rightarrow> System
     | Some r \<Rightarrow>
         if r = [] then System
         else let abs = (if is_absolute raw then path_resolve cwd raw else path_resolve2 cwd r raw);
                  top = path_resolve cwd r in
           if abs = top \<or> starts_with abs (top @ ''/'') then Sandbox else AppWorkspace)"

section \<open>Tool facts\<close>

definition word_char :: "char \<Rightarrow> bool" where
  "word_char c = (let n = of_char c :: nat in
     48 \<le> n \<and> n \<le> 57 \<or> 65 \<le> n \<and> n \<le> 90 \<or> 97 \<le> n \<and> n \<le> 122 \<or> n = 95)"

text \<open>\<open>(a|b|...)\b\<close> at the start of a text, ignoring case.\<close>

definition keyword_at :: "string list \<Rightarrow> string \<Rightarrow> bool" where
  "keyword_at ks s = (\<exists>k\<in>set ks. starts_with (js_lower s) k
     \<and> (drop (length k) s = [] \<or> \<not> word_char (hd (drop (length k) s))))"

definition mssql_dml_re :: "string \<Rightarrow> bool" where
  "mssql_dml_re sql = keyword_at [''insert'', ''update'', ''delete'', ''merge'', ''truncate''] (dropWhile is_space sql)"

definition mssql_ddl_re :: "string \<Rightarrow> bool" where
  "mssql_ddl_re sql = keyword_at [''create'', ''alter'', ''drop'', ''grant'', ''revoke''] (dropWhile is_space sql)"

definition exec_sp_help :: "string \<Rightarrow> bool" where
  "exec_sp_help s = (starts_with (js_lower s) ''exec'' \<and>
     (let r = drop 4 s; t = (if starts_with (js_lower r) ''ute'' then drop 3 r else r) in
       t \<noteq> [] \<and> is_space (hd t) \<and> keyword_at [''sp_help''] (dropWhile is_space t)))"

definition mssql_read_re :: "string \<Rightarrow> bool" where
  "mssql_read_re sql = (let s = dropWhile is_space sql in
     keyword_at [''select'', ''with'', ''sp_help''] s \<or> exec_sp_help s)"

definition arg_string :: "tool_args \<Rightarrow> string \<Rightarrow> string option" where
  "arg_string input k = (case js_get input k of Some (JStr s) \<Rightarrow> Some s | _ \<Rightarrow> None)"

definition normalize_db_environment :: "json option \<Rightarrow> policy_db_environment option" where
  "normalize_db_environment raw = (case raw of
     Some (JStr s) \<Rightarrow> (let key = js_lower s in
       if key = ''dev'' then Some Dev else if key = ''uat'' then Some Uat
       else if key = ''prod'' then Some Prod else None)
   | _ \<Rightarrow> None)"

fun first_environment :: "json option list \<Rightarrow> policy_db_environment option" where
  "first_environment [] = None"
| "first_environment (raw # rest) =
     (case normalize_db_environment raw of Some k \<Rightarrow> Some k | None \<Rightarrow> first_environment rest)"

definition extract_db_environment :: "tool_args \<Rightarrow> policy_context option \<Rightarrow> policy_db_environment option" where
  "extract_db_environment input ctx =
     (case first_environment (map (js_get input)
        [''environment'', ''dbEnvironment'', ''env'', ''connection'', ''target'']) of
       Some k \<Rightarrow> Some k
     | None \<Rightarrow> Option.bind ctx c_default_db_environment)"

definition classify_db_operation :: "string \<Rightarrow> string \<Rightarrow> policy_db_operation" where
  "classify_db_operation tool sql = (
     if tool = ''sync_preview'' \<or> ends_with tool ''_sync_preview'' then SyncPreview
     else if tool \<in> {''sync_diff_scan'', ''resolve_sync_scope'', ''search_sync_entities'',
       ''compare_catalogs'', ''list_environments'', ''list_sync_definitions''} then SyncPreview
     else if tool = ''sync_execute'' \<or> ends_with tool ''_sync_execute'' then SyncExecute
     else if mssql_ddl_re sql then Ddl
     else if mssql_dml_re sql then Dml
     else if mssql_read_re sql \<or> tool \<in> {''explore_mssql_schema'', ''inspect_definition'',
       ''profile_data'', ''discover_relationships''} then QueryRead
     else if sql \<noteq> [] then Dml else QueryRead)"

text \<open>\<open>replace(/\s+/g, " ")\<close>.\<close>

function collapse_spaces :: "string \<Rightarrow> string" where
  "collapse_spaces [] = []"
| "collapse_spaces (c # cs) =
     (if is_space c then CHR '' '' # collapse_spaces (dropWhile is_space cs) else c # collapse_spaces cs)"
  by pat_completeness auto
termination
  by (relation "measure length") (auto simp: le_imp_less_Suc length_dropWhile_le)

definition path_tools :: "string list" where
  "path_tools = [''read_file'', ''write_file'', ''append_file'', ''replace_in_file'',
     ''list_directory'', ''search_files'']"

definition mssql_tool :: "string \<Rightarrow> bool" where
  "mssql_tool a = (starts_with a ''mssql_'' \<or> a \<in> {''query_mssql'', ''explore_mssql_schema'',
     ''export_query_to_file'', ''inspect_definition'', ''profile_data'', ''discover_relationships''})"

definition sync_tool :: "string \<Rightarrow> bool" where
  "sync_tool a = (a \<in> {''sync_preview'', ''sync_execute'', ''sync_diff_scan'', ''resolve_sync_scope'',
     ''search_sync_entities'', ''compare_catalogs'', ''list_environments'', ''list_sync_definitions''})"

definition path_facts :: "string \<Rightarrow> policy_step \<Rightarrow> policy_context option \<Rightarrow> tool_facts \<Rightarrow> tool_facts" where
  "path_facts cwd st ctx f = (
     if step_action st \<notin> set path_tools then f
     else case arg_string (step_input st) ''path'' of
       Some (c # cs) \<Rightarrow> f\<lparr>f_path := Some (c # cs),
         f_scope := Some (classify_path cwd (c # cs) (Option.bind ctx c_sandbox_root))\<rparr>
     | _ \<Rightarrow> if step_action st = ''search_files'' \<and> Option.bind ctx c_sandbox_root \<notin> {None, Some []}
         then f\<lparr>f_scope := Some Sandbox\<rparr> else f)"

definition nullish :: "json option \<Rightarrow> bool" where
  "nullish v = (v = None \<or> v = Some JNull)"

definition command_facts :: "policy_step \<Rightarrow> tool_facts \<Rightarrow> tool_facts" where
  "command_facts st f = (
     if step_action st \<noteq> ''run_command'' \<and> step_action st \<noteq> ''shell'' then f
     else let v = js_get (step_input st) ''command'';
              cmd = (if nullish v then js_get (step_input st) ''cmd'' else v) in
       case cmd of
         Some (JStr (c # cs)) \<Rightarrow> f\<lparr>f_command := Some (js_trim (collapse_spaces (c # cs)))\<rparr>
       | _ \<Rightarrow> f)"

definition mssql_facts :: "policy_step \<Rightarrow> policy_context option \<Rightarrow> tool_facts \<Rightarrow> tool_facts" where
  "mssql_facts st ctx f = (
     if \<not> mssql_tool (step_action st) then f
     else let input = step_input st;
              sql = (case arg_string input ''sql'' of Some s \<Rightarrow> s
                     | None \<Rightarrow> (case arg_string input ''query'' of Some s \<Rightarrow> s | None \<Rightarrow> [])) in
       f\<lparr>f_db_environment := extract_db_environment input ctx,
         f_db_operation := Some (classify_db_operation (step_action st) sql)\<rparr>)"

definition sync_facts :: "policy_step \<Rightarrow> policy_context option \<Rightarrow> tool_facts \<Rightarrow> tool_facts" where
  "sync_facts st ctx f = (
     if \<not> sync_tool (step_action st) then f
     else f\<lparr>f_db_environment := extract_db_environment (step_input st) ctx,
            f_db_operation := Some (classify_db_operation (step_action st) [])\<rparr>)"

definition network_facts :: "policy_step \<Rightarrow> tool_facts \<Rightarrow> tool_facts" where
  "network_facts st f = (if step_action st = ''fetch_url'' then f\<lparr>f_network := Some NetAllow\<rparr> else f)"

definition extract_tool_facts :: "string \<Rightarrow> policy_step \<Rightarrow> policy_context option \<Rightarrow> tool_facts" where
  "extract_tool_facts cwd st ctx =
     network_facts st (sync_facts st ctx (mssql_facts st ctx (command_facts st (path_facts cwd st ctx
       \<lparr>f_tool = step_action st, f_path = None, f_command = None, f_scope = None, f_network = None,
        f_db_environment = None, f_db_operation = None\<rparr>))))"

section \<open>Selector matching\<close>

definition no_selectors :: "policy_selectors \<Rightarrow> bool" where
  "no_selectors sel = (sel_role sel = None \<and> sel_run_mode sel = None \<and> sel_tool sel = None \<and> sel_path sel = None
     \<and> sel_command sel = None \<and> sel_network sel = None \<and> sel_scope sel = None
     \<and> sel_db_environment sel = None \<and> sel_db_operation sel = None \<and> sel_other sel = [])"

definition match_tool :: "string \<Rightarrow> string \<Rightarrow> bool" where
  "match_tool pat tool = (
     if pat = ''*'' \<or> pat = tool then True
     else if ends_with pat ''*'' then starts_with tool (drop_last 1 pat)
     else False)"

definition match_path :: "string \<Rightarrow> string option \<Rightarrow> bool" where
  "match_path pat v = (case v of None \<Rightarrow> False | Some value \<Rightarrow>
     if value = [] then False
     else if pat = ''*'' \<or> pat = ''**'' \<or> pat = value then True
     else if ends_with pat ''://**'' then starts_with value (drop_last 2 pat)
     else if ends_with pat ''/**'' then starts_with value (drop_last 3 pat)
     else if ends_with pat ''*'' then starts_with value (drop_last 1 pat)
     else False)"

text \<open>\<open>/^\/(.+)\/([gimsuy]*)$/\<close>: the body and the flags of a literal.\<close>

definition regex_literal :: "string \<Rightarrow> (string \<times> string) option" where
  "regex_literal src = (
     if \<not> starts_with src ''/'' then None
     else let rest = drop 1 src;
              flags = rev (takeWhile (\<lambda>c. c \<noteq> CHR ''/'') (rev rest));
              body = drop_last (length flags + 1) rest in
       if length flags < length rest \<and> body \<noteq> [] \<and> set flags \<subseteq> set ''gimsuy''
         \<and> CHR 0x0A \<notin> set body \<and> CHR 0x0D \<notin> set body
       then Some (body, flags) else None)"

definition match_command :: "(string \<Rightarrow> string \<Rightarrow> string \<Rightarrow> bool option) \<Rightarrow> string \<Rightarrow> string option \<Rightarrow> bool" where
  "match_command rx src v = (case v of None \<Rightarrow> False | Some value \<Rightarrow>
     if value = [] then False
     else (case (case regex_literal src of Some (body, flags) \<Rightarrow> rx body flags value
                 | None \<Rightarrow> rx src ''i'' value) of
       None \<Rightarrow> False | Some hit \<Rightarrow> hit))"

definition matches_selector_rule ::
  "(string \<Rightarrow> string \<Rightarrow> string \<Rightarrow> bool option) \<Rightarrow> policy_rule \<Rightarrow> tool_facts \<Rightarrow> policy_context option \<Rightarrow> bool" where
  "matches_selector_rule rx rule f ctx = (case p_selectors (rule_parameters rule) of
     None \<Rightarrow> False
   | Some sel \<Rightarrow>
       if no_selectors sel then False
       else if sel_role sel \<noteq> None \<and> sel_role sel \<noteq> map_option c_role ctx then False
       else if sel_run_mode sel \<noteq> None \<and> sel_run_mode sel \<noteq> map_option c_run_mode ctx then False
       else if (case sel_tool sel of None \<Rightarrow> False | Some p \<Rightarrow> \<not> match_tool p (f_tool f)) then False
       else if sel_scope sel \<noteq> None \<and> sel_scope sel \<noteq> f_scope f then False
       else if sel_network sel \<noteq> None \<and> sel_network sel \<noteq> f_network f then False
       else if sel_db_environment sel \<noteq> None \<and> sel_db_environment sel \<noteq> f_db_environment f then False
       else if sel_db_operation sel \<noteq> None \<and> sel_db_operation sel \<noteq> f_db_operation f then False
       else if (case sel_path sel of None \<Rightarrow> False | Some p \<Rightarrow> \<not> match_path p (f_path f)) then False
       else if (case sel_command sel of None \<Rightarrow> False | Some p \<Rightarrow> \<not> match_command rx p (f_command f)) then False
       else True)"

section \<open>Resolution\<close>

definition effect_rank :: "policy_effect \<Rightarrow> nat" where
  "effect_rank e = (case e of Deny \<Rightarrow> 3 | RequireApproval \<Rightarrow> 2 | Allow \<Rightarrow> 1)"

definition rule_priority :: "policy_rule \<Rightarrow> js_number" where
  "rule_priority rule = (case p_priority (rule_parameters rule) of None \<Rightarrow> Num 0 | Some n \<Rightarrow> n)"

definition better_rule ::
  "(policy_rule \<Rightarrow> bool) \<Rightarrow> (policy_rule \<times> js_number \<times> nat) option \<Rightarrow> policy_rule
     \<Rightarrow> (policy_rule \<times> js_number \<times> nat) option" where
  "better_rule matches best rule = (
     if rule_condition rule \<noteq> ''selectors'' then best
     else if \<not> matches rule then best
     else let priority = rule_priority rule; rank = effect_rank (rule_effect rule) in
       case best of None \<Rightarrow> Some (rule, priority, rank)
       | Some (b, bp, br) \<Rightarrow>
           if num_gt priority bp \<or> num_eq priority bp \<and> rank > br then Some (rule, priority, rank) else best)"

definition resolve_selector_rules ::
  "(string \<Rightarrow> string \<Rightarrow> string \<Rightarrow> bool option) \<Rightarrow> policy_rule list \<Rightarrow> tool_facts \<Rightarrow> policy_context option
     \<Rightarrow> (policy_rule \<times> policy_effect) option" where
  "resolve_selector_rules rx rules f ctx =
     map_option (\<lambda>b. (fst b, rule_effect (fst b)))
       (foldl (better_rule (\<lambda>rule. matches_selector_rule rx rule f ctx)) None rules)"

section \<open>Operator grants\<close>

definition runtime_tool_arg_keys :: "string list" where
  "runtime_tool_arg_keys = [''__plannerTrace'']"

definition strip_runtime_tool_args :: "tool_args \<Rightarrow> tool_args" where
  "strip_runtime_tool_args args = foldl (\<lambda>out e.
     if fst e \<in> set runtime_tool_arg_keys then out else js_set out (fst e) (snd e)) [] args"

definition stable_tool_args_key :: "tool_args \<Rightarrow> string" where
  "stable_tool_args_key args = stringify (JObj (strip_runtime_tool_args args))"

definition resolve_grant_scope :: "tool_approval_grant \<Rightarrow> grant_scope" where
  "resolve_grant_scope g = (if g_scope g = Some GrantRun then GrantRun else GrantInstance)"

definition grant_allows_tool_step :: "tool_approval_grant \<Rightarrow> string \<Rightarrow> tool_args \<Rightarrow> bool" where
  "grant_allows_tool_step g tool args = (
     if g_tool_name g \<noteq> tool then False
     else if resolve_grant_scope g = GrantRun then True
     else stable_tool_args_key (g_args g) = stable_tool_args_key args)"

definition has_tool_approval_grant :: "policy_context option \<Rightarrow> policy_step \<Rightarrow> bool" where
  "has_tool_approval_grant ctx st = (case Option.bind ctx c_grants of
     None \<Rightarrow> False
   | Some gs \<Rightarrow> if gs = [] then False
       else list_ex (\<lambda>g. grant_allows_tool_step g (step_action st) (step_input st)) gs)"

section \<open>The decision\<close>

text \<open>\<open>evaluatePreStep\<close> returns null, returns a reason to ask for approval, or throws
  \<open>PolicyViolationError\<close>.\<close>

datatype decision = Proceed | AskApproval string | PolicyViolation string string

definition matches_legacy :: "policy_rule \<Rightarrow> policy_step \<Rightarrow> bool" where
  "matches_legacy rule st = (
     if starts_with (rule_condition rule) ''action:''
     then step_action st = js_split CHR '':'' (rule_condition rule) ! 1
     else False)"

definition policy_message :: "string \<Rightarrow> string \<Rightarrow> string" where
  "policy_message name reason = ''Policy '' @ [CHR 0x27] @ name @ [CHR 0x27] @ '': '' @ reason"

fun legacy_scan :: "policy_rule list \<Rightarrow> policy_step \<Rightarrow> decision option" where
  "legacy_scan [] st = None"
| "legacy_scan (rule # rules) st = (
     if rule_condition rule = ''selectors'' then legacy_scan rules st
     else if \<not> matches_legacy rule st then legacy_scan rules st
     else if rule_effect rule = Deny then Some (PolicyViolation (rule_name rule) (rule_condition rule))
     else if rule_effect rule = RequireApproval
       then Some (AskApproval (policy_message (rule_name rule) (rule_condition rule)))
     else legacy_scan rules st)"

definition selector_reason :: "policy_rule \<Rightarrow> string" where
  "selector_reason rule = (case p_reason (rule_parameters rule) of Some r \<Rightarrow> r
     | None \<Rightarrow> ''selector match: '' @ rule_name rule)"

definition evaluate_pre_step ::
  "string \<Rightarrow> (string \<Rightarrow> string \<Rightarrow> string \<Rightarrow> bool option) \<Rightarrow> policy_rule list \<Rightarrow> policy_step
     \<Rightarrow> policy_context option \<Rightarrow> decision" where
  "evaluate_pre_step cwd rx rules st ctx = (
     if has_tool_approval_grant ctx st then Proceed
     else case legacy_scan rules st of
       Some d \<Rightarrow> d
     | None \<Rightarrow> (case resolve_selector_rules rx rules (extract_tool_facts cwd st ctx) ctx of
         Some (rule, eff) \<Rightarrow>
           let reason = selector_reason rule in
           (case eff of Deny \<Rightarrow> PolicyViolation (rule_name rule) reason
            | RequireApproval \<Rightarrow> AskApproval (policy_message (rule_name rule) reason)
            | Allow \<Rightarrow> Proceed)
       | None \<Rightarrow>
           if map_option c_run_mode ctx = Some Hosted
           then PolicyViolation ''hosted_default_deny''
             (''no policy rule allows tool '' @ [CHR 0x22] @ step_action st @ [CHR 0x22] @ '' in hosted mode'')
           else Proceed))"

text \<open>The evaluator's own state: the rules in insertion order.\<close>

definition add_rule :: "policy_rule list \<Rightarrow> policy_rule \<Rightarrow> policy_rule list" where
  "add_rule rules rule = rules @ [rule]"

definition remove_rule :: "policy_rule list \<Rightarrow> string \<Rightarrow> policy_rule list" where
  "remove_rule rules name = filter (\<lambda>r. rule_name r \<noteq> name) rules"

definition list_rules :: "policy_rule list \<Rightarrow> policy_rule list" where
  "list_rules rules = rules"
section \<open>The winning selector rule\<close>











lemma legacy_scan_None:
  "legacy_scan rules st = None \<longleftrightarrow>
     (\<forall>r\<in>set rules. rule_condition r \<noteq> ''selectors'' \<and> matches_legacy r st \<longrightarrow> rule_effect r = Allow)"
proof (induction rules)
  case (Cons r rs)
  then show ?case by (cases "rule_effect r") auto
qed simp





text \<open>Sample rules: workspace writes are denied, sandbox writes allowed with a higher priority.\<close>

definition any_selector :: policy_selectors where
  "any_selector = \<lparr>sel_role = None, sel_run_mode = None, sel_tool = None, sel_path = None, sel_command = None,
     sel_network = None, sel_scope = None, sel_db_environment = None, sel_db_operation = None, sel_other = []\<rparr>"


definition sample_context :: policy_context where
  "sample_context = \<lparr>c_run_mode = Hosted, c_role = HostedUser, c_sandbox_root = Some ''/sb'',
     c_default_db_environment = None, c_grants = None\<rparr>"

definition sample_write :: "string \<Rightarrow> policy_step" where
  "sample_write p = \<lparr>step_action = ''write_file'', step_input = [(''path'', JStr p)]\<rparr>"




section \<open>Grants\<close>

lemma update_fresh: "k \<notin> fst ` set m \<Longrightarrow> AList.update k v m = m @ [(k, v)]"
  by (induction m) auto

lemma foldl_js_set_filter:
  "distinct (map fst es) \<Longrightarrow> fst ` set es \<inter> fst ` set out = {} \<Longrightarrow>
     foldl (\<lambda>out e. if fst e \<in> K then out else js_set out (fst e) (snd e)) out es
       = out @ filter (\<lambda>e. fst e \<notin> K) es"
proof (induction es arbitrary: out)
  case (Cons e es)
  have fresh: "js_set out (fst e) (snd e) = out @ [e]"
    using Cons.prems(2) update_fresh [of "fst e" out "snd e"] by (simp add: js_set_def)
  show ?case
    using Cons.prems Cons.IH [of out] Cons.IH [of "out @ [e]"] fresh by auto
qed simp

lemma strip_is_filter:
  "js_wf args \<Longrightarrow> strip_runtime_tool_args args = filter (\<lambda>e. fst e \<noteq> ''__plannerTrace'') args"
  using foldl_js_set_filter [of args "[]" "set runtime_tool_arg_keys"]
  by (simp add: strip_runtime_tool_args_def js_wf_def runtime_tool_arg_keys_def)

text \<open>A step is covered by an operator grant exactly when the context holds a grant for the same tool that is
  run-scoped or whose arguments, the planner's trace argument left out, are the step's arguments (with the
  keys in the same order): the comparison of JSON texts never confuses two argument objects.\<close>

theorem grant_covers_exactly:
  assumes "js_wf (step_input st)" "\<forall>g\<in>set gs. js_wf (g_args g)" "c_grants ctx = Some gs"
  shows "has_tool_approval_grant (Some ctx) st \<longleftrightarrow>
    (\<exists>g\<in>set gs. g_tool_name g = step_action st \<and> (g_scope g = Some GrantRun
      \<or> filter (\<lambda>e. fst e \<noteq> ''__plannerTrace'') (g_args g)
        = filter (\<lambda>e. fst e \<noteq> ''__plannerTrace'') (step_input st)))"
proof -
  have "stable_tool_args_key (g_args g) = stable_tool_args_key (step_input st) \<longleftrightarrow>
      filter (\<lambda>e. fst e \<noteq> ''__plannerTrace'') (g_args g) = filter (\<lambda>e. fst e \<noteq> ''__plannerTrace'') (step_input st)"
    if "g \<in> set gs" for g
    unfolding stable_tool_args_key_def stringify_inj json.inject using assms that by (simp add: strip_is_filter)
  then have "grant_allows_tool_step g (step_action st) (step_input st) \<longleftrightarrow> g_tool_name g = step_action st
      \<and> (g_scope g = Some GrantRun \<or> filter (\<lambda>e. fst e \<noteq> ''__plannerTrace'') (g_args g)
        = filter (\<lambda>e. fst e \<noteq> ''__plannerTrace'') (step_input st))" if "g \<in> set gs" for g
    using that by (auto simp: grant_allows_tool_step_def resolve_grant_scope_def)
  then show ?thesis
    using assms(3) by (auto simp: has_tool_approval_grant_def list_ex_iff)
qed

theorem grant_covers_exactly_witness:
  "has_tool_approval_grant (Some (sample_context\<lparr>c_grants := Some [\<lparr>g_tool_name = ''write_file'',
     g_args = [(''__plannerTrace'', JNull), (''path'', JStr ''a.md'')], g_scope = None\<rparr>]\<rparr>)) (sample_write ''a.md'')"
  by (subst grant_covers_exactly) (auto simp: sample_write_def js_wf_def)

section \<open>Sandbox containment\<close>

lemma js_split_seps: "x \<in> set (js_split sep s) \<Longrightarrow> sep \<notin> set x"
  by (induction sep s arbitrary: x rule: js_split.induct) (auto split: if_splits list.splits)

definition clean_segment :: "string \<Rightarrow> bool" where
  "clean_segment seg = (seg \<noteq> [] \<and> seg \<noteq> ''.'' \<and> seg \<noteq> ''..'' \<and> CHR ''/'' \<notin> set seg)"

lemma push_segment_clean:
  "CHR ''/'' \<notin> set seg \<Longrightarrow> \<forall>x\<in>set acc. clean_segment x \<Longrightarrow> \<forall>x\<in>set (push_segment acc seg). clean_segment x"
  by (auto simp: push_segment_def clean_segment_def dest: in_set_butlastD)

lemma norm_segments_clean: "x \<in> set (norm_segments p) \<Longrightarrow> clean_segment x"
proof -
  have fold: "\<forall>x\<in>set (foldl push_segment acc ss). clean_segment x"
    if "\<forall>s\<in>set ss. CHR ''/'' \<notin> set s" "\<forall>x\<in>set acc. clean_segment x" for ss acc
    using that
  proof (induction ss arbitrary: acc)
    case (Cons seg ss)
    then show ?case using Cons.IH [OF _ push_segment_clean [of seg acc]] by simp
  qed simp
  have "\<forall>s\<in>set (js_split CHR ''/'' p). CHR ''/'' \<notin> set s" using js_split_seps by blast
  from fold [OF this, of "[]"] show "x \<in> set (norm_segments p) \<Longrightarrow> clean_segment x"
    by (simp add: norm_segments_def)
qed

lemma path_segments_clean: "x \<in> set (path_segments cwd p) \<Longrightarrow> clean_segment x"
  unfolding path_segments_def by (rule norm_segments_clean)

lemma js_join_append: "xs \<noteq> [] \<Longrightarrow> ys \<noteq> [] \<Longrightarrow> js_join s (xs @ ys) = js_join s xs @ s @ js_join s ys"
proof (induction s xs rule: js_join.induct)
  case (2 s x)
  then show ?case by (cases ys) simp_all
qed simp_all

lemma js_split_joined_prefix:
  "xs \<noteq> [] \<Longrightarrow> \<forall>x\<in>set xs. sep \<notin> set x \<Longrightarrow> js_split sep (js_join [sep] xs @ sep # rest) = xs @ js_split sep rest"
  by (induction "[sep]" xs rule: js_join.induct) (auto simp: js_split_append)

lemma path_text_prefix:
  assumes "T \<noteq> []" "\<forall>x\<in>set T. clean_segment x" "\<forall>x\<in>set A. clean_segment x"
  shows "path_text A = path_text T \<or> starts_with (path_text A) (path_text T @ ''/'') \<longleftrightarrow> take (length T) A = T"
proof
  have nosep: "\<forall>x\<in>set T. CHR ''/'' \<notin> set x" "\<forall>x\<in>set A. CHR ''/'' \<notin> set x"
    using assms(2,3) by (auto simp: clean_segment_def)
  have A_ne: "A \<noteq> []" if "js_join ''/'' A = js_join ''/'' T @ r" for r
  proof
    assume "A = []"
    then have "js_join ''/'' T = []" using that by simp
    moreover obtain t ts where "T = t # ts" using assms(1) by (cases T) auto
    ultimately show False using assms(2) by (simp add: join_first clean_segment_def)
  qed
  assume "path_text A = path_text T \<or> starts_with (path_text A) (path_text T @ ''/'')"
  then consider "js_join ''/'' A = js_join ''/'' T" | r where "js_join ''/'' A = js_join ''/'' T @ CHR ''/'' # r"
    by (auto simp: path_text_def starts_with_append)
  then show "take (length T) A = T"
  proof cases
    case 1
    then have "A \<noteq> []" using A_ne [of "[]"] by simp
    then have "A = js_split CHR ''/'' (js_join ''/'' A)" using js_split_join nosep(2) by metis
    also have "\<dots> = T" unfolding 1 using js_split_join nosep(1) assms(1) by metis
    finally show ?thesis by simp
  next
    case 2
    have "A = js_split CHR ''/'' (js_join ''/'' A)"
      using js_split_join nosep(2) A_ne [OF 2] by metis
    also have "\<dots> = T @ js_split CHR ''/'' r"
      unfolding 2 by (rule js_split_joined_prefix) (use assms(1) nosep in auto)
    finally have "A = T @ js_split CHR ''/'' r" .
    then have "take (length T) A = take (length T) (T @ js_split CHR ''/'' r)" by (rule arg_cong)
    then show ?thesis by simp
  qed
next
  assume "take (length T) A = T"
  then obtain U where A: "A = T @ U" by (metis append_take_drop_id)
  show "path_text A = path_text T \<or> starts_with (path_text A) (path_text T @ ''/'')"
  proof (cases "U = []")
    case False
    then show ?thesis using assms(1) by (simp add: A js_join_append path_text_def starts_with_append)
  qed (simp add: A)
qed

text \<open>C38: Without one of the virtual schemes, a path is classified as inside the sandbox exactly when, after
  every \<open>.\<close> and \<open>..\<close> is worked off, its segments begin with the segments of the sandbox root; the
  segments compared contain no \<open>..\<close>, so a traversal cannot leave the sandbox. The root is not \<open>/\<close>.\<close>

theorem sandbox_scope_exact:
  assumes "\<not> starts_with raw ''sandbox://''" "\<not> starts_with raw ''workspace://''" "\<not> starts_with raw ''attachment://''"
    and "base \<noteq> []" "path_segments cwd base \<noteq> []"
  defines "segs \<equiv> path_segments cwd (if is_absolute raw then raw else base @ ''/'' @ raw)"
  shows "(classify_path cwd raw (Some base) = Sandbox
          \<longleftrightarrow> take (length (path_segments cwd base)) segs = path_segments cwd base)
    \<and> ''..'' \<notin> set segs \<and> ''..'' \<notin> set (path_segments cwd base)"
proof -
  have "(if is_absolute raw then path_resolve cwd raw else path_resolve2 cwd base raw) = path_text segs"
    by (simp add: segs_def path_resolve_def path_resolve2_def)
  then have "classify_path cwd raw (Some base) = Sandbox \<longleftrightarrow>
      path_text segs = path_text (path_segments cwd base)
      \<or> starts_with (path_text segs) (path_text (path_segments cwd base) @ ''/'')"
    using assms(1-4) by (simp add: classify_path_def Let_def path_resolve_def [of cwd base])
  also have "\<dots> \<longleftrightarrow> take (length (path_segments cwd base)) segs = path_segments cwd base"
    by (rule path_text_prefix) (use assms(5) path_segments_clean in \<open>auto simp: segs_def\<close>)
  finally show ?thesis
    using path_segments_clean by (auto simp: segs_def clean_segment_def)
qed

theorem sandbox_scope_exact_witness:
  "classify_path ''/srv'' ''a/../../x'' (Some ''/sb/run'') \<noteq> Sandbox
   \<and> classify_path ''/srv'' ''a/../x'' (Some ''/sb/run'') = Sandbox"
proof -
  have base: "path_segments ''/srv'' ''/sb/run'' = [''sb'', ''run'']" by code_simp
  have segs: "path_segments ''/srv'' ''/sb/run/a/../../x'' = [''sb'', ''x'']"
    "path_segments ''/srv'' ''/sb/run/a/../x'' = [''sb'', ''run'', ''x'']" by code_simp+
  show ?thesis
    using sandbox_scope_exact [of "''a/../../x''" "''/sb/run''" "''/srv''"]
      sandbox_scope_exact [of "''a/../x''" "''/sb/run''" "''/srv''"]
    by (simp add: base segs is_absolute_def)
qed

section \<open>Divergences\<close>

text \<open>A hosted step that a legacy rule allows is still refused when no selector rule matches.\<close>

lemma hosted_legacy_allow_refused:
  assumes "\<not> has_tool_approval_grant (Some ctx) st" "c_run_mode ctx = Hosted"
    and "\<forall>r\<in>set rules. rule_condition r = ''action:'' @ step_action st \<and> rule_effect r = Allow"
    and "CHR '':'' \<notin> set (step_action st)"
  shows "(\<forall>r\<in>set rules. matches_legacy r st)
    \<and> (\<exists>why. evaluate_pre_step cwd rx rules st (Some ctx) = PolicyViolation ''hosted_default_deny'' why)"
proof -
  have "rule_condition r \<noteq> ''selectors''" if "r \<in> set rules" for r using assms(3) that by force
  then have "foldl (better_rule m) None rules = None" for m
    by (induction rules rule: rev_induct) (auto simp: better_rule_def)
  moreover have "legacy_scan rules st = None" using assms(3) by (simp add: legacy_scan_None)
  moreover have "matches_legacy r st" if "r \<in> set rules" for r
    using assms(3,4) that js_split_no_sep [of "CHR '':''" "step_action st"] by (simp add: matches_legacy_def)
  ultimately show ?thesis
    using assms(1,2) by (simp add: evaluate_pre_step_def resolve_selector_rules_def)
qed

text \<open>A batch that begins with a read counts as a read, whatever follows.\<close>

lemma read_prefix_hides_ddl:
  "classify_db_operation ''query_mssql'' ''select 1; drop table t'' = QueryRead"
  by code_simp

text \<open>A directory pattern also covers siblings whose name starts with the directory's.\<close>

lemma directory_pattern_covers_sibling:
  "match_path ''/data/**'' (Some ''/database/secret'')"
  by code_simp

text \<open>A rule whose only selector key is misspelt is not inert: it matches every step.\<close>

lemma misspelt_selector_matches_all:
  assumes "p_selectors (rule_parameters rule) = Some (any_selector\<lparr>sel_other := [''dbEnv'']\<rparr>)"
  shows "matches_selector_rule rx rule f ctx"
  using assms by (simp add: matches_selector_rule_def no_selectors_def any_selector_def)

end
