(* ===== verification/LineDiff.thy ===== *)
theory LineDiff
  imports Prelude "HOL-Library.Sublist"
begin

text \<open>
  The line diff the UI shows (\<open>packages/ui/src/lib/line-text-diff.ts\<close>): splitting into lines, the
  longest-common-subsequence table and the walk over it (\<open>diffLinesLcs\<close>), the numbered rows
  (\<open>buildLineTextDiff\<close>), and collapsing and expanding unchanged stretches. The table is the list of its
  rows, filled backwards as the code fills it; \<open>lcs\<close> is the reference it is compared with. Line numbers
  and counts are naturals.
\<close>

section \<open>Rows and edit operations\<close>

datatype line_diff_kind = Same | Added | Removed | Ellipsis

datatype line_diff_row = LineDiffRow (row_kind: line_diff_kind) (row_text: string)
  (row_old: "nat option") (row_new: "nat option") (row_omitted: "nat option")
  (row_hidden: "line_diff_row list option") (row_id: "string option")

datatype line_op = EqualOp string | DeleteOp string | InsertOp string

definition max_lines :: nat where
  "max_lines = 4000"

text \<open>\<open>replace(/\r\n/g, "\n")\<close>.\<close>

fun unix_newlines :: "string \<Rightarrow> string" where
  "unix_newlines (c # d # cs) = (if c = CHR 0x0D \<and> d = CHR 0x0A then CHR 0x0A # unix_newlines cs
     else c # unix_newlines (d # cs))"
| "unix_newlines cs = cs"

definition split_lines :: "string \<Rightarrow> string list" where
  "split_lines text = (if length text = 0 then [] else js_split CHR 0x0A (unix_newlines text))"

section \<open>The table\<close>

text \<open>One row, from the right: \<open>next\<close> is the row below. The entry past the last column is the initial 0.\<close>

fun dp_row :: "'a \<Rightarrow> 'a list \<Rightarrow> nat list \<Rightarrow> nat list" where
  "dp_row x (y # ys) (d # ds) =
     (let right = dp_row x ys ds in
       (if x = y then 1 + hd ds else max d (hd right)) # right)"
| "dp_row x ys ds = [0]"

fun dp_table :: "'a list \<Rightarrow> 'a list \<Rightarrow> nat list list" where
  "dp_table [] b = [replicate (length b + 1) 0]"
| "dp_table (x # a) b = (let below = dp_table a b in dp_row x b (hd below) # below)"

text \<open>The walk. The index \<open>i\<close> never exceeds the number of old lines, so \<open>length a \<le> i\<close> is the code's
  \<open>i === n\<close>.\<close>

function walk :: "string list \<Rightarrow> string list \<Rightarrow> nat list list \<Rightarrow> nat \<Rightarrow> nat \<Rightarrow> line_op list" where
  "walk a b dp i j = (
     if i < length a \<or> j < length b then
       if i < length a \<and> j < length b \<and> a ! i = b ! j then EqualOp (a ! i) # walk a b dp (i + 1) (j + 1)
       else if j < length b \<and> (length a \<le> i \<or> dp ! i ! (j + 1) \<ge> dp ! (i + 1) ! j)
         then InsertOp (b ! j) # walk a b dp i (j + 1)
       else DeleteOp (a ! i) # walk a b dp (i + 1) j
     else [])"
  by pat_completeness auto
termination
  by (relation "measure (\<lambda>(a, b, dp, i, j). (length a - i) + (length b - j))") auto

declare walk.simps [simp del]

definition diff_lines_lcs :: "string list \<Rightarrow> string list \<Rightarrow> line_op list" where
  "diff_lines_lcs a b = walk a b (dp_table a b) 0 0"

section \<open>Numbered rows\<close>

definition plain_row :: "line_diff_kind \<Rightarrow> string \<Rightarrow> nat option \<Rightarrow> nat option \<Rightarrow> line_diff_row" where
  "plain_row k t old new = LineDiffRow k t old new None None None"

fun number_ops :: "line_op list \<Rightarrow> nat \<Rightarrow> nat \<Rightarrow> line_diff_row list" where
  "number_ops [] old new = []"
| "number_ops (EqualOp v # ops) old new = plain_row Same v (Some old) (Some new) # number_ops ops (old + 1) (new + 1)"
| "number_ops (DeleteOp v # ops) old new = plain_row Removed v (Some old) None # number_ops ops (old + 1) new"
| "number_ops (InsertOp v # ops) old new = plain_row Added v None (Some new) # number_ops ops old (new + 1)"

definition build_line_text_diff :: "string \<Rightarrow> string \<Rightarrow> line_diff_row list" where
  "build_line_text_diff old_text new_text = (
     let old_lines = split_lines old_text; new_lines = split_lines new_text in
     if length old_lines > max_lines \<or> length new_lines > max_lines
     then map (\<lambda>(i, t). plain_row Removed t (Some (i + 1)) None) (enumerate 0 old_lines)
        @ map (\<lambda>(i, t). plain_row Added t None (Some (i + 1))) (enumerate 0 new_lines)
     else number_ops (diff_lines_lcs old_lines new_lines) 1 1)"

section \<open>Collapsing\<close>

text \<open>Index \<open>j\<close> is kept when a changed row lies within \<open>context\<close> of it; the code collects these indices
  in a set.\<close>

definition keep_indices :: "line_diff_row list \<Rightarrow> nat \<Rightarrow> nat list" where
  "keep_indices rows ctx = foldl (\<lambda>keep i.
     if row_kind (rows ! i) = Same then keep
     else foldl set_add keep [i - ctx..<min (length rows - 1) (i + ctx) + 1]) [] [0..<length rows]"

definition number_or :: "nat option \<Rightarrow> string \<Rightarrow> string" where
  "number_or v d = (case v of Some n \<Rightarrow> show_nat n | None \<Rightarrow> d)"

definition plural_lines :: "nat \<Rightarrow> string" where
  "plural_lines n = show_nat n @ '' unchanged line'' @ (if n = 1 then [] else ''s'')"

definition gap_row :: "nat \<Rightarrow> line_diff_row list \<Rightarrow> line_diff_row" where
  "gap_row gap hidden =
     LineDiffRow Ellipsis (''Show '' @ plural_lines (length hidden)) None None (Some (length hidden)) (Some hidden)
       (Some (''gap-'' @ show_nat gap @ '':'' @ number_or (row_old (hd hidden)) ''x'' @ ''-''
         @ number_or (row_old (last hidden)) ''y'' @ '':'' @ number_or (row_new (hd hidden)) ''x'' @ ''-''
         @ number_or (row_new (last hidden)) ''y''))"

text \<open>The inner \<open>while\<close>: the end of the stretch of indices that are not kept.\<close>

function gap_end :: "nat \<Rightarrow> nat list \<Rightarrow> nat \<Rightarrow> nat" where
  "gap_end len keep j = (if j < len \<and> j \<notin> set keep then gap_end len keep (j + 1) else j)"
  by pat_completeness auto
termination by (relation "measure (\<lambda>(len, keep, j). len - j)") auto

declare gap_end.simps [simp del]

lemma gap_end_ge: "j \<le> gap_end len keep j"
proof (induction len keep j rule: gap_end.induct)
  case (1 len keep j)
  then show ?case by (subst gap_end.simps) (auto intro: Suc_leD)
qed

lemma gap_end_gt: "j < len \<Longrightarrow> j \<notin> set keep \<Longrightarrow> j < gap_end len keep j"
  using gap_end_ge [of "j + 1" len keep] by (subst gap_end.simps) simp

function collapse_loop :: "line_diff_row list \<Rightarrow> nat list \<Rightarrow> nat \<Rightarrow> nat \<Rightarrow> line_diff_row list" where
  "collapse_loop rows keep i gap = (
     if i < length rows then
       if i \<in> set keep then rows ! i # collapse_loop rows keep (i + 1) gap
       else let j = gap_end (length rows) keep i; hidden = take (j - i) (drop i rows) in
         gap_row gap hidden # collapse_loop rows keep j (gap + 1)
     else [])"
  by pat_completeness auto
termination
  by (relation "measure (\<lambda>(rows, keep, i, gap). length rows - i)")
    (auto intro: diff_less_mono2 gap_end_gt)

declare collapse_loop.simps [simp del]

definition collapse_unchanged_diff_rows :: "line_diff_row list \<Rightarrow> nat \<Rightarrow> line_diff_row list" where
  "collapse_unchanged_diff_rows rows ctx = (
     if length rows = 0 then rows
     else let keep = keep_indices rows ctx in
       if length keep = 0 then rows else collapse_loop rows keep 0 0)"

definition materialize_row :: "string list \<Rightarrow> line_diff_row \<Rightarrow> line_diff_row list" where
  "materialize_row expanded row = (
     if row_kind row \<noteq> Ellipsis then [row]
     else case (row_id row, row_hidden row) of
       (Some (c # cs), Some (h # hs)) \<Rightarrow>
         if c # cs \<in> set expanded
         then LineDiffRow Ellipsis
             (''Hide '' @ plural_lines (case row_omitted row of Some n \<Rightarrow> n | None \<Rightarrow> length (h # hs)))
             None None (row_omitted row) (Some (h # hs)) (Some (c # cs)) # h # hs
         else [row]
     | _ \<Rightarrow> [row])"

definition materialize_collapsed_diff_rows :: "line_diff_row list \<Rightarrow> string list \<Rightarrow> line_diff_row list" where
  "materialize_collapsed_diff_rows rows expanded = concat (map (materialize_row expanded) rows)"

section \<open>The table holds the lengths of longest common subsequences\<close>

fun lcs :: "'a list \<Rightarrow> 'a list \<Rightarrow> nat" where
  "lcs [] b = 0"
| "lcs (x # a) [] = 0"
| "lcs (x # a) (y # b) = (if x = y then 1 + lcs a b else max (lcs a (y # b)) (lcs (x # a) b))"

lemma lcs_nil [simp]: "lcs a [] = 0"
  by (cases a) simp_all

lemma lcs_longest: "subseq c a \<Longrightarrow> subseq c b \<Longrightarrow> length c \<le> lcs a b"
proof (induction a b arbitrary: c rule: lcs.induct)
  case (3 x a y b)
  show ?case
  proof (cases c)
    case (Cons z zs)
    show ?thesis
    proof (cases "x = y")
      case True
      have "subseq zs a" "subseq zs b"
        using 3(4,5) Cons by (auto split: if_splits dest: subseq_Cons')
      then show ?thesis using 3(1) [OF True, of zs] True Cons by simp
    next
      case False
      then consider "z \<noteq> x" | "z \<noteq> y" by blast
      then show ?thesis
      proof cases
        case 1
        then have "subseq c a" using 3(4) Cons by simp
        then show ?thesis using 3(2) [OF False, of c] 3(5) False by simp
      next
        case 2
        then have "subseq c b" using 3(5) Cons by simp
        then show ?thesis using 3(3) [OF False, of c] 3(4) False by simp
      qed
    qed
  qed simp
qed simp_all

lemma dp_row_lcs:
  "length ds = length b + 1 \<Longrightarrow> \<forall>j\<le>length b. ds ! j = lcs a (drop j b) \<Longrightarrow>
     length (dp_row x b ds) = length b + 1 \<and> (\<forall>j\<le>length b. dp_row x b ds ! j = lcs (x # a) (drop j b))"
proof (induction b arbitrary: ds)
  case Nil
  then show ?case by simp
next
  case (Cons y ys)
  obtain d es where ds: "ds = d # es" using Cons.prems(1) by (cases ds) auto
  have below: "\<forall>j\<le>length ys. es ! j = lcs a (drop j ys)"
    using Cons.prems(2) ds by (metis Suc_le_mono drop_Suc_Cons length_Cons nth_Cons_Suc)
  have d: "d = lcs a (y # ys)" using Cons.prems(2) ds by (metis drop0 le0 nth_Cons_0)
  have ih: "length (dp_row x ys es) = length ys + 1"
      "\<forall>j\<le>length ys. dp_row x ys es ! j = lcs (x # a) (drop j ys)"
    using Cons.IH [OF _ below] Cons.prems(1) ds by simp_all
  have heads: "hd es = lcs a ys" "hd (dp_row x ys es) = lcs (x # a) ys"
    using below ih Cons.prems(1) ds by (auto simp: hd_conv_nth simp flip: length_greater_0_conv)
  have "dp_row x (y # ys) ds ! j = lcs (x # a) (drop j (y # ys))" if "j \<le> length (y # ys)" for j
    using that ih(2) heads d by (cases j) (simp_all add: ds Let_def)
  then show ?case using ih(1) by (simp add: ds Let_def)
qed

lemma dp_table_lcs:
  "length (dp_table a b) = length a + 1 \<and>
   (\<forall>i\<le>length a. length (dp_table a b ! i) = length b + 1 \<and>
     (\<forall>j\<le>length b. dp_table a b ! i ! j = lcs (drop i a) (drop j b)))"
proof (induction a)
  case Nil
  have "(replicate (length b + 1) 0 :: nat list) ! j = 0" if "j \<le> length b" for j
    using that by (intro nth_replicate) simp
  then show ?case by (simp del: replicate_Suc)
next
  case (Cons x a)
  have top: "hd (dp_table a b) = dp_table a b ! 0"
    using Cons.IH by (cases "dp_table a b") auto
  have row: "length (dp_row x b (hd (dp_table a b))) = length b + 1 \<and>
      (\<forall>j\<le>length b. dp_row x b (hd (dp_table a b)) ! j = lcs (x # a) (drop j b))"
    by (rule dp_row_lcs) (use Cons.IH top in auto)
  show ?case
  proof (intro conjI allI impI)
    fix i j
    assume i: "i \<le> length (x # a)"
    show "length (dp_table (x # a) b ! i) = length b + 1"
      using i row Cons.IH by (cases i) (simp_all add: Let_def)
    assume "j \<le> length b"
    then show "dp_table (x # a) b ! i ! j = lcs (drop i (x # a)) (drop j b)"
      using i row Cons.IH by (cases i) (simp_all add: Let_def)
  qed (use Cons.IH in \<open>simp add: Let_def\<close>)
qed

section \<open>The walk writes a shortest edit script\<close>

fun old_side :: "line_op list \<Rightarrow> string list" where
  "old_side [] = []"
| "old_side (EqualOp v # ops) = v # old_side ops"
| "old_side (DeleteOp v # ops) = v # old_side ops"
| "old_side (InsertOp v # ops) = old_side ops"

fun new_side :: "line_op list \<Rightarrow> string list" where
  "new_side [] = []"
| "new_side (EqualOp v # ops) = v # new_side ops"
| "new_side (DeleteOp v # ops) = new_side ops"
| "new_side (InsertOp v # ops) = v # new_side ops"

fun kept_lines :: "line_op list \<Rightarrow> string list" where
  "kept_lines [] = []"
| "kept_lines (EqualOp v # ops) = v # kept_lines ops"
| "kept_lines (DeleteOp v # ops) = kept_lines ops"
| "kept_lines (InsertOp v # ops) = kept_lines ops"

lemma drop_here: "i < length xs \<Longrightarrow> drop i xs = xs ! i # drop (i + 1) xs"
  by (simp add: Cons_nth_drop_Suc)

lemma walk_correct:
  "i \<le> length a \<Longrightarrow> j \<le> length b \<Longrightarrow>
     old_side (walk a b (dp_table a b) i j) = drop i a \<and> new_side (walk a b (dp_table a b) i j) = drop j b
     \<and> length (kept_lines (walk a b (dp_table a b) i j)) = lcs (drop i a) (drop j b)"
proof (induction a b "dp_table a b" i j rule: walk.induct)
  case (1 a b i j)
  let ?dp = "dp_table a b"
  have cell: "?dp ! k ! l = lcs (drop k a) (drop l b)" if "k \<le> length a" "l \<le> length b" for k l
    using that dp_table_lcs [of a b] by blast
  show ?case
  proof (cases "i < length a \<or> j < length b")
    case False
    then show ?thesis by (subst (1 2 3) walk.simps) simp
  next
    case more: True
    show ?thesis
    proof (cases "i < length a \<and> j < length b \<and> a ! i = b ! j")
      case True
      then have step: "walk a b ?dp i j = EqualOp (a ! i) # walk a b ?dp (i + 1) (j + 1)"
        by (subst walk.simps) simp
      show ?thesis
        unfolding step using 1(1) [OF more True] True by (simp add: drop_here)
    next
      case differ: False
      show ?thesis
      proof (cases "j < length b \<and> (length a \<le> i \<or> ?dp ! i ! (j + 1) \<ge> ?dp ! (i + 1) ! j)")
        case True
        then have step: "walk a b ?dp i j = InsertOp (b ! j) # walk a b ?dp i (j + 1)"
          using differ by (subst walk.simps) simp
        have "lcs (drop i a) (drop j b) = lcs (drop i a) (drop (j + 1) b)"
          using True differ 1(4) cell [of i "j + 1"] cell [of "i + 1" j]
          by (cases "i < length a") (simp_all add: drop_here [of i a] drop_here [of j b])
        then show ?thesis
          unfolding step using 1(2) [OF more differ True] 1(4) True by (simp add: drop_here)
      next
        case del: False
        then have i: "i < length a" using more by auto
        have step: "walk a b ?dp i j = DeleteOp (a ! i) # walk a b ?dp (i + 1) j"
          using differ del more by (subst walk.simps) simp
        have "lcs (drop i a) (drop j b) = lcs (drop (i + 1) a) (drop j b)"
          using i differ del cell [of i "j + 1"] cell [of "i + 1" j]
          by (cases "j < length b") (auto simp add: drop_here [of i a] drop_here [of j b])
        then show ?thesis
          unfolding step using 1(3) [OF more differ del] 1(5) i by (simp add: drop_here)
      qed
    qed
  qed
qed

lemma kept_subseq: "subseq (kept_lines ops) (old_side ops) \<and> subseq (kept_lines ops) (new_side ops)"
  by (induction ops rule: kept_lines.induct) auto

text \<open>C40: The edit operations spell the old lines on one side and the new lines on the other, and they keep a
  longest common subsequence: no common subsequence of the two line lists is longer than the kept lines.\<close>

theorem diff_is_minimal_script:
  "old_side (diff_lines_lcs a b) = a \<and> new_side (diff_lines_lcs a b) = b
   \<and> subseq (kept_lines (diff_lines_lcs a b)) a \<and> subseq (kept_lines (diff_lines_lcs a b)) b
   \<and> \<not> (\<exists>c. subseq c a \<and> subseq c b \<and> length c > length (kept_lines (diff_lines_lcs a b)))"
proof -
  have ops: "old_side (diff_lines_lcs a b) = a" "new_side (diff_lines_lcs a b) = b"
    "length (kept_lines (diff_lines_lcs a b)) = lcs a b"
    using walk_correct [of 0 a 0 b] by (simp_all add: diff_lines_lcs_def)
  then show ?thesis
    using kept_subseq [of "diff_lines_lcs a b"] lcs_longest [of _ a b] by (auto simp: not_less)
qed

section \<open>Every line is shown once, in order, with its number\<close>

lemma number_ops_sides:
  "map (\<lambda>r. (row_old r, row_text r)) (filter (\<lambda>r. row_old r \<noteq> None) (number_ops ops p q))
     = map (\<lambda>(i, t). (Some i, t)) (enumerate p (old_side ops))
   \<and> map (\<lambda>r. (row_new r, row_text r)) (filter (\<lambda>r. row_new r \<noteq> None) (number_ops ops p q))
     = map (\<lambda>(i, t). (Some i, t)) (enumerate q (new_side ops))"
  by (induction ops p q rule: number_ops.induct) (simp_all add: plain_row_def)

definition kind_fits :: "line_diff_row \<Rightarrow> bool" where
  "kind_fits r = (row_kind r = (case (row_old r, row_new r) of (Some i, Some j) \<Rightarrow> Same
     | (Some i, None) \<Rightarrow> Removed | (None, Some j) \<Rightarrow> Added | (None, None) \<Rightarrow> Ellipsis))"

lemma number_ops_kinds: "r \<in> set (number_ops ops p q) \<Longrightarrow> kind_fits r \<and> row_kind r \<noteq> Ellipsis"
  by (induction ops p q rule: number_ops.induct) (auto simp: plain_row_def kind_fits_def)

lemma one_sided_rows:
  "map (\<lambda>r. (row_old r, row_text r)) (filter (\<lambda>r. row_old r \<noteq> None)
     (map (\<lambda>(i, t). plain_row Removed t (Some (i + 1)) None) (enumerate k xs)))
     = map (\<lambda>(i, t). (Some i, t)) (enumerate (k + 1) xs)"
  "map (\<lambda>r. (row_new r, row_text r)) (filter (\<lambda>r. row_new r \<noteq> None)
     (map (\<lambda>(i, t). plain_row Added t None (Some (i + 1))) (enumerate k xs)))
     = map (\<lambda>(i, t). (Some i, t)) (enumerate (k + 1) xs)"
  "filter (\<lambda>r. row_new r \<noteq> None) (map (\<lambda>(i, t). plain_row Removed t (Some (i + 1)) None) (enumerate k xs)) = []"
  "filter (\<lambda>r. row_old r \<noteq> None) (map (\<lambda>(i, t). plain_row Added t None (Some (i + 1))) (enumerate k xs)) = []"
  by (induction xs arbitrary: k) (simp_all add: plain_row_def)

text \<open>Reading the rows with an old line number gives every old line once, in order, with its number from 1;
  the rows with a new line number give the new lines the same way; and a row's kind tells which numbers it
  has. This holds for texts over the line limit too.\<close>

theorem diff_rows_show_every_line:
  "let rows = build_line_text_diff old_text new_text in
     map (\<lambda>r. (row_old r, row_text r)) (filter (\<lambda>r. row_old r \<noteq> None) rows)
       = map (\<lambda>(i, t). (Some i, t)) (enumerate 1 (split_lines old_text))
   \<and> map (\<lambda>r. (row_new r, row_text r)) (filter (\<lambda>r. row_new r \<noteq> None) rows)
       = map (\<lambda>(i, t). (Some i, t)) (enumerate 1 (split_lines new_text))
   \<and> list_all kind_fits rows"
proof (cases "length (split_lines old_text) > max_lines \<or> length (split_lines new_text) > max_lines")
  case True
  then have rows: "build_line_text_diff old_text new_text =
      map (\<lambda>(i, t). plain_row Removed t (Some (i + 1)) None) (enumerate 0 (split_lines old_text))
      @ map (\<lambda>(i, t). plain_row Added t None (Some (i + 1))) (enumerate 0 (split_lines new_text))"
    by (simp add: build_line_text_diff_def Let_def)
  have kinds: "list_all kind_fits (build_line_text_diff old_text new_text)"
    unfolding rows by (auto simp: list_all_iff plain_row_def kind_fits_def)
  show ?thesis
    unfolding Let_def using kinds
    by (simp only: rows filter_append map_append one_sided_rows append_Nil append_Nil2 list.map add_0 simp_thms)
next
  case False
  let ?ops = "diff_lines_lcs (split_lines old_text) (split_lines new_text)"
  have rows: "build_line_text_diff old_text new_text = number_ops ?ops 1 1"
    using False by (simp add: build_line_text_diff_def Let_def)
  have "old_side ?ops = split_lines old_text" "new_side ?ops = split_lines new_text"
    using walk_correct [of 0 "split_lines old_text" 0 "split_lines new_text"] by (simp_all add: diff_lines_lcs_def)
  then show ?thesis
    using number_ops_sides [of ?ops 1 1] number_ops_kinds [of _ ?ops 1 1]
    by (simp add: rows Let_def list_all_iff)
qed

section \<open>Collapsing hides unchanged lines only and loses nothing\<close>

lemma set_keep_indices:
  "set (keep_indices rows ctx) = {j. j < length rows \<and> (\<exists>i<length rows. row_kind (rows ! i) \<noteq> Same \<and> j \<le> i + ctx \<and> i \<le> j + ctx)}"
proof -
  have "set (foldl (\<lambda>keep i. if row_kind (rows ! i) = Same then keep else foldl set_add keep (f i)) K is)
      = set K \<union> {j. \<exists>i\<in>set is. row_kind (rows ! i) \<noteq> Same \<and> j \<in> set (f i)}"
    for f :: "nat \<Rightarrow> nat list" and K "is"
    by (induction "is" arbitrary: K) auto
  then have "set (keep_indices rows ctx) = {j. \<exists>i<length rows. row_kind (rows ! i) \<noteq> Same
      \<and> i - ctx \<le> j \<and> j < min (length rows - 1) (i + ctx) + 1}"
    unfolding keep_indices_def by (simp only: set_upt list.set(1) Un_empty_left atLeast0LessThan lessThan_iff
        atLeastLessThan_iff Bex_def)
  also have "\<dots> = {j. j < length rows \<and> (\<exists>i<length rows. row_kind (rows ! i) \<noteq> Same \<and> j \<le> i + ctx \<and> i \<le> j + ctx)}"
    by (auto simp: min_def split: if_splits; fastforce)
  finally show ?thesis .
qed

lemma gap_end_le: "j \<le> len \<Longrightarrow> gap_end len keep j \<le> len"
  by (induction len keep j rule: gap_end.induct) (subst gap_end.simps, simp)

lemma gap_end_skips: "j \<le> k \<Longrightarrow> k < gap_end len keep j \<Longrightarrow> k \<notin> set keep"
proof (induction len keep j rule: gap_end.induct)
  case (1 len keep j)
  then show ?case
    by (cases "j < len \<and> j \<notin> set keep"; cases "k = j") (auto simp: gap_end.simps [of len keep j])
qed

definition unfolded :: "line_diff_row list \<Rightarrow> line_diff_row list" where
  "unfolded rows = filter (\<lambda>r. row_kind r \<noteq> Ellipsis) rows"

lemma collapse_loop_visible:
  "i \<le> length rows \<Longrightarrow> \<forall>r\<in>set rows. row_kind r \<noteq> Ellipsis \<Longrightarrow>
     unfolded (collapse_loop rows keep i gap) = map ((!) rows) (filter (\<lambda>j. j \<in> set keep) [i..<length rows])"
proof (induction rows keep i gap rule: collapse_loop.induct)
  case (1 rows keep i gap)
  consider "\<not> i < length rows" | "i < length rows" "i \<in> set keep" | "i < length rows" "i \<notin> set keep" by blast
  then show ?case
  proof cases
    case 1
    then show ?thesis by (subst collapse_loop.simps) (simp add: unfolded_def)
  next
    case 2
    then show ?thesis using 1
      by (subst collapse_loop.simps) (simp add: unfolded_def upt_rec [of i])
  next
    case 3
    let ?j = "gap_end (length rows) keep i"
    have split: "[i..<length rows] = [i..<?j] @ [?j..<length rows]"
      using gap_end_ge [of i "length rows" keep] gap_end_le [of i "length rows" keep] 3(1)
      by (metis le_add_diff_inverse less_imp_le upt_add_eq_append)
    have none: "filter (\<lambda>j. j \<in> set keep) [i..<?j] = []"
      using gap_end_skips [of i] by (auto simp: filter_empty_conv)
    show ?thesis
      using 1(2) [OF 3 refl refl] 3 1(4) gap_end_le [of i "length rows" keep] none
      by (subst collapse_loop.simps) (simp add: unfolded_def Let_def gap_row_def split)
  qed
qed

lemma collapse_loop_lossless:
  "i \<le> length rows \<Longrightarrow> \<forall>r\<in>set rows. row_kind r \<noteq> Ellipsis \<Longrightarrow>
     \<forall>r\<in>set (collapse_loop rows keep i gap). row_kind r = Ellipsis \<longrightarrow> the (row_id r) \<in> set ids \<Longrightarrow>
     unfolded (materialize_collapsed_diff_rows (collapse_loop rows keep i gap) ids) = drop i rows"
proof (induction rows keep i gap rule: collapse_loop.induct)
  case (1 rows keep i gap)
  consider "\<not> i < length rows" | "i < length rows" "i \<in> set keep" | "i < length rows" "i \<notin> set keep" by blast
  then show ?case
  proof cases
    case 1
    then show ?thesis by (subst collapse_loop.simps) (simp add: unfolded_def materialize_collapsed_diff_rows_def)
  next
    case 2
    have step: "collapse_loop rows keep i gap = rows ! i # collapse_loop rows keep (i + 1) gap"
      using 2 by (subst collapse_loop.simps) simp
    show ?thesis
      using 1(1) [OF 2] 1(4,5) 2 unfolding step
      by (simp add: unfolded_def materialize_collapsed_diff_rows_def materialize_row_def drop_here)
  next
    case 3
    let ?j = "gap_end (length rows) keep i" and ?h = "take (gap_end (length rows) keep i - i) (drop i rows)"
    have step: "collapse_loop rows keep i gap = gap_row gap ?h # collapse_loop rows keep ?j (gap + 1)"
      using 3 by (subst collapse_loop.simps) (simp add: Let_def)
    have j: "i < ?j" "?j \<le> length rows" using gap_end_gt gap_end_le 3 by auto
    obtain h hs where h: "?h = h # hs" using j 3(1) by (cases ?h) auto
    have plain: "unfolded ?h = ?h"
      using 1(4) by (auto simp: unfolded_def filter_id_conv dest!: in_set_takeD in_set_dropD)
    have "unfolded (materialize_row ids (gap_row gap ?h)) = unfolded ?h"
      using 1(5) unfolding step h by (simp add: materialize_row_def gap_row_def unfolded_def)
    moreover have "?h @ drop ?j rows = drop i rows"
      using j by (metis append_take_drop_id drop_drop le_add_diff_inverse2 less_imp_le)
    ultimately show ?thesis
      using 1(2) [OF 3 refl refl j(2) 1(4)] 1(5) plain unfolding step
      by (simp add: unfolded_def materialize_collapsed_diff_rows_def)
  qed
qed

lemma keep_none: "keep_indices rows ctx = [] \<longleftrightarrow> list_all (\<lambda>r. row_kind r = Same) rows"
proof -
  have "set (keep_indices rows ctx) = {} \<longleftrightarrow> (\<forall>i<length rows. row_kind (rows ! i) = Same)"
    unfolding set_keep_indices using le_add1 by blast
  then show ?thesis by (simp add: list_all_length)
qed

lemma build_rows_plain: "r \<in> set (build_line_text_diff old_text new_text) \<Longrightarrow> row_kind r \<noteq> Ellipsis"
  using number_ops_kinds by (auto simp: build_line_text_diff_def Let_def plain_row_def split: if_splits)

text \<open>Collapsing a diff keeps exactly the rows within the context of a changed row (all rows when nothing
  changed), and it loses nothing: expanding every gap gives the original rows back.\<close>

theorem collapse_keeps_context_losslessly:
  "let rows = build_line_text_diff old_text new_text;
       shown = collapse_unchanged_diff_rows rows ctx;
       ids = map (\<lambda>r. the (row_id r)) (filter (\<lambda>r. row_kind r = Ellipsis) shown) in
     filter (\<lambda>r. row_kind r \<noteq> Ellipsis) (materialize_collapsed_diff_rows shown ids) = rows
   \<and> filter (\<lambda>r. row_kind r \<noteq> Ellipsis) shown
       = (if list_all (\<lambda>r. row_kind r = Same) rows then rows
          else map ((!) rows) (filter (\<lambda>j. list_ex (\<lambda>i. row_kind (rows ! i) \<noteq> Same \<and> j \<le> i + ctx \<and> i \<le> j + ctx)
                 [0..<length rows]) [0..<length rows]))"
proof -
  let ?rows = "build_line_text_diff old_text new_text"
  let ?shown = "collapse_unchanged_diff_rows ?rows ctx"
  let ?ids = "map (\<lambda>r. the (row_id r)) (filter (\<lambda>r. row_kind r = Ellipsis) ?shown)"
  have plain: "\<forall>r\<in>set ?rows. row_kind r \<noteq> Ellipsis" using build_rows_plain by blast
  have ids: "\<forall>r\<in>set ?shown. row_kind r = Ellipsis \<longrightarrow> the (row_id r) \<in> set ?ids" by simp
  show ?thesis
  proof (cases "keep_indices ?rows ctx = []")
    case True
    then have shown: "?shown = ?rows" by (simp add: collapse_unchanged_diff_rows_def Let_def)
    have "materialize_collapsed_diff_rows rs is = rs" if "\<forall>r\<in>set rs. row_kind r \<noteq> Ellipsis" for rs "is"
      using that by (induction rs) (simp_all add: materialize_collapsed_diff_rows_def materialize_row_def)
    then show ?thesis
      using plain True [unfolded keep_none] unfolding Let_def shown by (simp add: filter_id_conv)
  next
    case False
    then have "?rows \<noteq> []" by (auto simp: keep_indices_def)
    then have shown: "?shown = collapse_loop ?rows (keep_indices ?rows ctx) 0 0"
      using False by (simp add: collapse_unchanged_diff_rows_def Let_def)
    have visible: "unfolded ?shown = map ((!) ?rows)
        (filter (\<lambda>j. list_ex (\<lambda>i. row_kind (?rows ! i) \<noteq> Same \<and> j \<le> i + ctx \<and> i \<le> j + ctx)
          [0..<length ?rows]) [0..<length ?rows])"
      unfolding shown collapse_loop_visible [OF le0 plain] set_keep_indices
      by (rule arg_cong [where f = "map ((!) ?rows)"]) (auto simp: list_ex_iff intro!: filter_cong)
    have "unfolded (materialize_collapsed_diff_rows ?shown ?ids) = ?rows"
      using collapse_loop_lossless [OF le0 plain, of "keep_indices ?rows ctx" 0 ?ids] ids unfolding shown by simp
    then show ?thesis
      using visible False [unfolded keep_none] unfolding Let_def unfolded_def by simp
  qed
qed

end
