(* ===== verification/Breaker.thy ===== *)
theory Breaker
  imports JsonText "HOL-Library.Word" "HOL-Library.Char_ord" "HOL-Library.List_Lexorder"
begin

text \<open>
  The two circuit breakers that stop an agent from repeating a failing tool call: the per-session one of
  \<open>packages/agent/src/core/recover/circuit-breaker.ts\<close> (\<open>ToolFailureCircuitBreaker\<close>: failure patterns,
  blocked keys and a global circuit, all on a clock) and the planner's of
  \<open>packages/agent/src/core/plan/circuit-breaker.ts\<close> (failure counts per semantic key, and the iteration
  budget). Times are milliseconds as integers; every operation takes the value of \<open>Date.now()\<close>.
  Texts shown to the user are kept as structured reasons.
\<close>

section \<open>The tool failure breaker\<close>

record failure_pattern =
  fp_count :: nat
  fp_last_at :: int

datatype block_reason = KeyFailed string nat int | ManyKeysFailed nat nat | DefaultReason

record blocked_entry =
  be_until :: int
  be_reason :: block_reason

record breaker_config =
  cfg_enabled :: "bool option"
  cfg_window_ms :: "int option"
  cfg_threshold :: "nat option"
  cfg_cooldown_ms :: "int option"
  cfg_global_threshold :: "nat option"

record tool_breaker =
  b_enabled :: bool
  b_window :: int
  b_threshold :: nat
  b_cooldown :: int
  b_global_threshold :: nat
  b_open_until :: int
  b_reason :: "block_reason option"
  b_patterns :: "(string, failure_pattern) jsmap"
  b_blocked :: "(string, blocked_entry) jsmap"

definition or_default :: "'a option \<Rightarrow> 'a \<Rightarrow> 'a" where
  "or_default v d = (case v of None \<Rightarrow> d | Some x \<Rightarrow> x)"

definition new_breaker :: "breaker_config \<Rightarrow> tool_breaker" where
  "new_breaker c = \<lparr>b_enabled = or_default (cfg_enabled c) True, b_window = or_default (cfg_window_ms c) 120000,
     b_threshold = or_default (cfg_threshold c) 3, b_cooldown = or_default (cfg_cooldown_ms c) 60000,
     b_global_threshold = or_default (cfg_global_threshold c) 3,
     b_open_until = 0, b_reason = None, b_patterns = [], b_blocked = []\<rparr>"

definition is_key_blocked :: "tool_breaker \<Rightarrow> string \<Rightarrow> int \<Rightarrow> tool_breaker \<times> (block_reason \<times> int) option" where
  "is_key_blocked b key now = (
     if \<not> b_enabled b \<or> length key = 0 then (b, None)
     else case js_get (b_blocked b) key of
       None \<Rightarrow> (b, None)
     | Some entry \<Rightarrow>
         if be_until entry \<le> now then (b\<lparr>b_blocked := js_delete (b_blocked b) key\<rparr>, None)
         else (b, Some (be_reason entry, max 0 (be_until entry - now))))"

definition get_active_circuit :: "tool_breaker \<Rightarrow> int \<Rightarrow> tool_breaker \<times> (block_reason \<times> int) option" where
  "get_active_circuit b now = (
     if \<not> b_enabled b then (b, None)
     else if b_open_until b \<le> now then (b\<lparr>b_open_until := 0, b_reason := None\<rparr>, None)
     else (b, Some (or_default (b_reason b) DefaultReason, max 0 (b_open_until b - now))))"

definition expire_patterns :: "tool_breaker \<Rightarrow> int \<Rightarrow> tool_breaker" where
  "expire_patterns b now = b\<lparr>b_patterns := filter (\<lambda>e. \<not> now - fp_last_at (snd e) > b_window b) (b_patterns b)\<rparr>"

definition expire_blocks :: "tool_breaker \<Rightarrow> int \<Rightarrow> tool_breaker" where
  "expire_blocks b now = b\<lparr>b_blocked := filter (\<lambda>e. \<not> be_until (snd e) \<le> now) (b_blocked b)\<rparr>"

definition record_failure :: "tool_breaker \<Rightarrow> string \<Rightarrow> string \<Rightarrow> int \<Rightarrow> tool_breaker \<times> block_reason option" where
  "record_failure b key tool now = (
     if \<not> b_enabled b \<or> length key = 0 then (b, None)
     else
       let b1 = expire_blocks (expire_patterns b now) now;
           next_pattern = (case js_get (b_patterns b1) key of
             Some p \<Rightarrow> \<lparr>fp_count = fp_count p + 1, fp_last_at = now\<rparr>
           | None \<Rightarrow> \<lparr>fp_count = 1, fp_last_at = now\<rparr>);
           b2 = b1\<lparr>b_patterns := js_set (b_patterns b1) key next_pattern\<rparr> in
       if fp_count next_pattern < b_threshold b2 then (b2, None)
       else
         let key_reason = KeyFailed tool (fp_count next_pattern) (b_window b2);
             b3 = b2\<lparr>b_blocked := js_set (b_blocked b2) key
                    \<lparr>be_until = now + b_cooldown b2, be_reason = key_reason\<rparr>\<rparr>;
             b4 = (if length (b_blocked b3) \<ge> b_global_threshold b3
                   then b3\<lparr>b_open_until := now + b_cooldown b3,
                           b_reason := Some (ManyKeysFailed (length (b_blocked b3)) (b_threshold b3))\<rparr>
                   else b3) in
         (b4, Some key_reason))"

definition clear_pattern :: "tool_breaker \<Rightarrow> string \<Rightarrow> int \<Rightarrow> tool_breaker" where
  "clear_pattern b key now = (
     if \<not> b_enabled b \<or> length key = 0 then b
     else
       let b1 = b\<lparr>b_patterns := js_delete (b_patterns b) key, b_blocked := js_delete (b_blocked b) key\<rparr> in
       if b_open_until b1 > 0 \<and> length (b_blocked b1) < b_global_threshold b1 then
         if b_open_until b1 > now then
           if length (b_blocked b1) = 0 then b1\<lparr>b_open_until := 0, b_reason := None\<rparr> else b1
         else b1
       else b1)"

definition reset_breaker :: "tool_breaker \<Rightarrow> tool_breaker" where
  "reset_breaker b = b\<lparr>b_open_until := 0, b_reason := None, b_patterns := [], b_blocked := []\<rparr>"

section \<open>Histories\<close>

datatype breaker_event = Failure string string int | KeyCheck string int | CircuitCheck int
  | Success string int | Reset int


fun breaker_step :: "tool_breaker \<Rightarrow> breaker_event \<Rightarrow> tool_breaker" where
  "breaker_step b (Failure k t now) = fst (record_failure b k t now)"
| "breaker_step b (KeyCheck k now) = fst (is_key_blocked b k now)"
| "breaker_step b (CircuitCheck now) = fst (get_active_circuit b now)"
| "breaker_step b (Success k now) = clear_pattern b k now"
| "breaker_step b (Reset now) = reset_breaker b"


fun streak_rev :: "int \<Rightarrow> int list \<Rightarrow> nat" where
  "streak_rev w [] = 0"
| "streak_rev w [t] = 1"
| "streak_rev w (t # u # ts) = (if t - u \<le> w then Suc (streak_rev w (u # ts)) else 1)"

definition streak :: "int \<Rightarrow> int list \<Rightarrow> nat" where
  "streak w ts = streak_rev w (rev ts)"

definition trips :: "tool_breaker \<Rightarrow> int list \<Rightarrow> int set" where
  "trips b ts = {ts ! i | i. i < length ts \<and> streak (b_window b) (take (Suc i) ts) \<ge> b_threshold b}"

section \<open>The breaker agrees with the history\<close>




lemma image_less_Suc:
  "{f i | i. i < Suc n \<and> Q i} = {f i | i. i < n \<and> Q i} \<union> (if Q n then {f n} else {})"
  by (auto simp: less_Suc_eq)

lemma trips_snoc:
  "trips b (ts @ [n]) = trips b ts \<union> (if streak (b_window b) (ts @ [n]) \<ge> b_threshold b then {n} else {})"
proof -
  have "{(ts @ [n]) ! i | i. i < length ts \<and> streak (b_window b) (take (Suc i) (ts @ [n])) \<ge> b_threshold b} = trips b ts"
    unfolding trips_def by (auto simp: nth_append Suc_leI)
  then show ?thesis
    unfolding trips_def [of b "ts @ [n]"] length_append_singleton image_less_Suc by simp
qed

lemma trips_nil [simp]: "trips b [] = {}"
  by (simp add: trips_def)


























lemma trips_step:
  "trips b ts = T \<Longrightarrow> trips b (ts @ [n]) = T \<union> (if streak (b_window b) (ts @ [n]) \<ge> b_threshold b then {n} else {})"
  by (simp add: trips_snoc)

definition default_config :: breaker_config where
  "default_config = \<lparr>cfg_enabled = None, cfg_window_ms = None, cfg_threshold = None, cfg_cooldown_ms = None,
     cfg_global_threshold = None\<rparr>"



text \<open>The reason names the window although the three failures span 200 seconds: only neighbouring failures
  are compared with it.\<close>

lemma window_message_spans_more:
  "snd (record_failure (foldl breaker_step (new_breaker default_config)
     [Failure ''k'' ''t'' 0, Failure ''k'' ''t'' 100000]) ''k'' ''t'' 200000) = Some (KeyFailed ''t'' 3 120000)"
  by code_simp

text \<open>Clearing keys until fewer than the global threshold are blocked leaves the global circuit open.\<close>

lemma clear_keeps_global_open:
  "let b = foldl breaker_step (new_breaker (default_config\<lparr>cfg_threshold := Some 1, cfg_global_threshold := Some 2\<rparr>))
       [Failure ''a'' ''t'' 0, Failure ''b'' ''t'' 1, Success ''a'' 2] in
     length (b_blocked b) = 1 \<and> snd (get_active_circuit b 3) \<noteq> None"
  by code_simp

section \<open>The planner's breaker\<close>

text \<open>\<open>JSON.stringify(args, keys)\<close>: with a list of names, every object at every depth keeps only those
  members, in the order of the list.\<close>

fun filter_members :: "string list \<Rightarrow> json \<Rightarrow> json" where
  "filter_members keys (JArr xs) = JArr (map (filter_members keys) xs)"
| "filter_members keys (JObj ms) =
     (let fs = map (\<lambda>m. (fst m, filter_members keys (snd m))) ms in
       JObj (concat (map (\<lambda>k. case js_get fs k of None \<Rightarrow> [] | Some v \<Rightarrow> [(k, v)]) keys)))"
| "filter_members keys j = j"

definition hash_step :: "32 word \<Rightarrow> char \<Rightarrow> 32 word" where
  "hash_step h c = (let s = push_bit 5 h - h + of_nat (of_char c) in and s s)"

text \<open>\<open>toString(36)\<close>.\<close>

definition base36_digit :: "nat \<Rightarrow> char" where
  "base36_digit n = (if n < 10 then char_of (48 + n) else char_of (87 + n))"

fun base36_nat :: "nat \<Rightarrow> string" where
  "base36_nat n = (if n < 36 then [base36_digit n] else base36_nat (n div 36) @ [base36_digit (n mod 36)])"

declare base36_nat.simps [simp del]

definition base36 :: "int \<Rightarrow> string" where
  "base36 i = (if i < 0 then ''-'' @ base36_nat (nat (- i)) else base36_nat (nat i))"

definition build_semantic_key :: "string \<Rightarrow> (string, json) jsmap \<Rightarrow> string" where
  "build_semantic_key tool args =
     (let sorted_args = stringify (filter_members (sort (js_keys args)) (JObj args));
          hash = foldl hash_step 0 sorted_args in
       tool @ '':'' @ base36 (sint hash))"

record plan_breaker =
  pb_failures :: "(string, nat) jsmap"
  pb_open :: bool
  pb_reason :: "(string \<times> nat) option"

definition default_failure_threshold :: nat where
  "default_failure_threshold = 3"

definition create_circuit_breaker :: plan_breaker where
  "create_circuit_breaker = \<lparr>pb_failures = [], pb_open = False, pb_reason = None\<rparr>"

definition plan_record_failure ::
  "plan_breaker \<Rightarrow> string \<Rightarrow> (string, json) jsmap \<Rightarrow> nat \<Rightarrow> plan_breaker" where
  "plan_record_failure s tool args threshold =
     (let key = build_semantic_key tool args;
          count = js_get_or (pb_failures s) key 0 + 1;
          should_open = count \<ge> threshold in
       \<lparr>pb_failures = js_set (pb_failures s) key count, pb_open = (pb_open s \<or> should_open),
        pb_reason = (if should_open then Some (tool, count) else pb_reason s)\<rparr>)"

definition plan_record_success :: "plan_breaker \<Rightarrow> string \<Rightarrow> (string, json) jsmap \<Rightarrow> plan_breaker" where
  "plan_record_success s tool args =
     (let key = build_semantic_key tool args;
          rest = js_delete (pb_failures s) key;
          still_open = list_ex (\<lambda>c. c \<ge> default_failure_threshold) (js_values rest) in
       \<lparr>pb_failures = rest, pb_open = still_open, pb_reason = (if still_open then pb_reason s else None)\<rparr>)"

definition plan_is_blocked :: "plan_breaker \<Rightarrow> string \<Rightarrow> (string, json) jsmap \<Rightarrow> nat \<Rightarrow> bool" where
  "plan_is_blocked s tool args threshold = (js_get_or (pb_failures s) (build_semantic_key tool args) 0 \<ge> threshold)"

section \<open>The iteration budget\<close>

record budget_state =
  base_budget :: nat
  effective_budget :: nat
  completed_steps :: nat
  total_steps :: nat
  extensions :: nat
  max_extensions :: nat

definition create_budget_state :: "nat \<Rightarrow> nat \<Rightarrow> budget_state" where
  "create_budget_state base n_steps = \<lparr>base_budget = base, effective_budget = base, completed_steps = 0,
     total_steps = n_steps, extensions = 0, max_extensions = 3\<rparr>"

definition maybe_extend_budget :: "budget_state \<Rightarrow> nat \<Rightarrow> budget_state" where
  "maybe_extend_budget s done = (
     if done \<le> completed_steps s then s\<lparr>completed_steps := done\<rparr>
     else if extensions s \<ge> max_extensions s then s\<lparr>completed_steps := done\<rparr>
     else let extension = nat \<lceil>real (base_budget s) * 0.25\<rceil> in
       s\<lparr>completed_steps := done, effective_budget := effective_budget s + extension,
         extensions := extensions s + 1\<rparr>)"

lemma success_reopens_closed_breaker:
  "let s = plan_record_failure create_circuit_breaker ''a'' [] 1; t = plan_record_success s ''b'' [] in
     pb_open s \<and> \<not> pb_open t \<and> plan_is_blocked t ''a'' [] 1"
  by code_simp

text \<open>Arguments that differ only inside a nested object have one key: the list of names that sorts the top
  level also filters the nested members.\<close>

lemma nested_arguments_share_key:
  "build_semantic_key tool [(''options'', JObj [(''path'', JStr a)])]
     = build_semantic_key tool [(''options'', JObj [(''path'', JStr b)])]"
  by (simp add: build_semantic_key_def js_keys_def js_get_def)

text \<open>The planner's breaker against the history of calls.\<close>

datatype plan_event = CallFailed string "(string, json) jsmap" | CallSucceeded string "(string, json) jsmap"

fun plan_breaker_step :: "plan_breaker \<Rightarrow> plan_event \<Rightarrow> plan_breaker" where
  "plan_breaker_step s (CallFailed tool args) = plan_record_failure s tool args default_failure_threshold"
| "plan_breaker_step s (CallSucceeded tool args) = plan_record_success s tool args"

definition consecutive :: "string \<Rightarrow> plan_event list \<Rightarrow> nat" where
  "consecutive key h = foldl (\<lambda>n e. case e of
       CallFailed tool args \<Rightarrow> if build_semantic_key tool args = key then n + 1 else n
     | CallSucceeded tool args \<Rightarrow> if build_semantic_key tool args = key then 0 else n) 0 h"

definition plan_breaker_inv :: "plan_breaker \<Rightarrow> (string \<Rightarrow> nat) \<Rightarrow> bool" where
  "plan_breaker_inv s count = (js_wf (pb_failures s) \<and> (\<forall>k. js_get_or (pb_failures s) k 0 = count k)
     \<and> pb_open s = (\<exists>k. count k \<ge> 3))"

lemma values_ex:
  assumes "js_wf m"
  shows "list_ex (\<lambda>c. c \<ge> (3::nat)) (js_values m) \<longleftrightarrow> (\<exists>k. js_get_or m k 0 \<ge> 3)"
proof
  assume "list_ex (\<lambda>c. c \<ge> 3) (js_values m)"
  then obtain k c where "(k, c) \<in> set m" "c \<ge> 3" by (auto simp: list_ex_iff js_values_def)
  then have "js_get_or m k 0 \<ge> 3" using js_get_iff [OF assms, of k c] by (simp add: js_get_or_def)
  then show "\<exists>k. js_get_or m k 0 \<ge> 3" by blast
next
  assume "\<exists>k. js_get_or m k 0 \<ge> 3"
  then obtain k c where "js_get m k = Some c" "c \<ge> 3"
    by (auto simp: js_get_or_def split: option.splits)
  then show "list_ex (\<lambda>c. c \<ge> 3) (js_values m)"
    by (force simp: list_ex_iff js_values_def dest: js_get_mem)
qed

lemma plan_breaker_inv_step:
  assumes "plan_breaker_inv s (\<lambda>k. consecutive k h)"
  shows "plan_breaker_inv (plan_breaker_step s e) (\<lambda>k. consecutive k (h @ [e]))"
proof (cases e)
  case (CallFailed tool args)
  let ?key = "build_semantic_key tool args"
  have step: "consecutive k (h @ [e]) = (if k = ?key then consecutive k h + 1 else consecutive k h)" for k
    by (simp add: CallFailed consecutive_def)
  have "(\<exists>k. consecutive k (h @ [e]) \<ge> 3) \<longleftrightarrow> (\<exists>k. consecutive k h \<ge> 3) \<or> consecutive ?key h + 1 \<ge> 3"
    unfolding step by (metis le_Suc_eq Suc_eq_plus1)
  then show ?thesis
    using assms step
    by (simp add: CallFailed plan_breaker_inv_def plan_record_failure_def Let_def default_failure_threshold_def)
next
  case (CallSucceeded tool args)
  let ?key = "build_semantic_key tool args"
  let ?rest = "js_delete (pb_failures s) ?key"
  have step: "consecutive k (h @ [e]) = (if k = ?key then 0 else consecutive k h)" for k
    by (simp add: CallSucceeded consecutive_def)
  have "js_get_or ?rest k 0 = consecutive k (h @ [e])" for k
    using assms step by (simp add: plan_breaker_inv_def)
  then show ?thesis
    using assms values_ex [of ?rest]
    by (simp add: CallSucceeded plan_breaker_inv_def plan_record_success_def Let_def default_failure_threshold_def)
qed

text \<open>Under the default threshold, after any history of failed and successful calls a call is blocked at a
  threshold exactly when it failed that many times since it last succeeded, and the breaker is open exactly
  when some call failed at least three times since it last succeeded.\<close>

theorem plan_breaker_counts:
  "let s = foldl plan_breaker_step create_circuit_breaker h in
     (plan_is_blocked s tool args n \<longleftrightarrow> n \<le> consecutive (build_semantic_key tool args) h)
     \<and> (pb_open s \<longleftrightarrow> (\<exists>k. consecutive k h \<ge> 3))"
proof -
  have "plan_breaker_inv (foldl plan_breaker_step create_circuit_breaker h) (\<lambda>k. consecutive k h)"
  proof (induction h rule: rev_induct)
    case Nil
    then show ?case by (simp add: plan_breaker_inv_def create_circuit_breaker_def consecutive_def)
  next
    case (snoc e h)
    then show ?case using plan_breaker_inv_step by simp
  qed
  then show ?thesis by (simp add: plan_breaker_inv_def plan_is_blocked_def Let_def)
qed

text \<open>The order of the arguments does not matter.\<close>

lemma js_get_filtered:
  "js_get (map (\<lambda>m. (fst m, f (snd m))) ms) k = map_option f (js_get ms k)"
  by (induction ms) (auto simp: js_get_def)

lemma same_keys_sorted:
  fixes a b :: "(string, 'v) jsmap"
  assumes "js_wf a" "js_wf b" "\<And>k. js_get a k = js_get b k"
  shows "sort (js_keys a) = sort (js_keys b)"
proof (rule sorted_distinct_set_unique)
  show "set (sort (js_keys a)) = set (sort (js_keys b))"
    using js_keys_get [of _ a] js_keys_get [of _ b] assms(3) by auto
qed (use assms in \<open>simp_all add: js_wf_def js_keys_def\<close>)

lemma semantic_key_order_independent:
  assumes "js_wf a" "js_wf b" "\<And>k. js_get a k = js_get b k"
  shows "build_semantic_key tool a = build_semantic_key tool b"
  using same_keys_sorted [OF assms] assms(3)
  by (simp add: build_semantic_key_def js_get_filtered Let_def)

text \<open>The budget after any reports of completed steps is the base budget plus a quarter of it, rounded up, for
  each extension granted; at most three are granted, so it never exceeds the base plus three quarters rounded
  up per extension; and it never shrinks.\<close>

theorem budget_bounded:
  "let s = foldl maybe_extend_budget (create_budget_state base n_steps) reports;
       t = maybe_extend_budget s done in
     effective_budget s = base + extensions s * ((base + 3) div 4) \<and> extensions s \<le> 3
     \<and> effective_budget s \<le> base + 3 * ((base + 3) div 4) \<and> effective_budget s \<le> effective_budget t
     \<and> (effective_budget t = effective_budget s \<or> done > completed_steps s)"
proof -
  have quarter: "nat \<lceil>real k / 4\<rceil> = (k + 3) div 4" for k :: nat
  proof -
    define q where "q = (k + 3) div 4"
    have "4 * q \<le> k + 3" "k < 4 * q + 1" unfolding q_def by presburger+
    then have "\<lceil>real k / 4\<rceil> = int q" by (intro ceiling_unique) simp_all
    then show ?thesis by (simp add: q_def)
  qed
  let ?inv = "\<lambda>s. base_budget s = base \<and> max_extensions s = 3 \<and> extensions s \<le> 3
      \<and> effective_budget s = base + extensions s * ((base + 3) div 4)"
  have "?inv (maybe_extend_budget s d)" if "?inv s" for s d
    using that by (simp add: maybe_extend_budget_def Let_def quarter)
  then have "?inv (foldl maybe_extend_budget s reports)" if "?inv s" for s
    using that by (induction reports arbitrary: s) simp_all
  then have "?inv (foldl maybe_extend_budget (create_budget_state base n_steps) reports)"
    by (simp add: create_budget_state_def)
  then show ?thesis
    by (auto simp: maybe_extend_budget_def Let_def)
qed

end
