(* ===== verification/Retry.thy ===== *)
theory Retry
  imports Prelude
begin

text \<open>
  The two retry loops: tool calls (\<open>packages/agent/src/core/recover/retry.ts\<close>) and channel messages
  (\<open>packages/server/src/infra/queue/channels/retry.ts\<close>). What the retried function does at each attempt,
  the random numbers and the observations of the abort signal are arguments; a loop returns its result and the
  delays it slept. Delays are reals; attempt counts are naturals. \<open>bounded_retry\<close> is the interface both
  loops satisfy.
\<close>

section \<open>Policies, delays, errors\<close>

record retry_policy =
  max_retries :: nat
  base_delay_ms :: real
  max_delay_ms :: real
  backoff_multiplier :: real
  jitter_factor :: real

definition tool_retry_policy :: retry_policy where
  "tool_retry_policy = \<lparr>max_retries = 2, base_delay_ms = 500, max_delay_ms = 5000, backoff_multiplier = 2,
     jitter_factor = 3/10\<rparr>"

definition default_retry_policy :: retry_policy where
  "default_retry_policy = \<lparr>max_retries = 5, base_delay_ms = 1000, max_delay_ms = 60000, backoff_multiplier = 2,
     jitter_factor = 5/10\<rparr>"

definition compute_delay :: "nat \<Rightarrow> retry_policy \<Rightarrow> real \<Rightarrow> real" where
  "compute_delay attempt p rnd =
     (let exponential = base_delay_ms p * backoff_multiplier p ^ attempt;
          capped = min exponential (max_delay_ms p);
          jitter = capped * jitter_factor p * rnd in
       capped + jitter)"

definition channel_compute_delay :: "nat \<Rightarrow> retry_policy \<Rightarrow> real \<Rightarrow> real" where
  "channel_compute_delay attempt p rnd =
     (let exponential = base_delay_ms p * backoff_multiplier p ^ attempt;
          capped = min exponential (max_delay_ms p);
          jitter = capped * jitter_factor p * rnd in
       capped + jitter)"

text \<open>What \<open>throw\<close> can carry: an \<open>Error\<close>, a \<open>ChannelApiError\<close> with its status, or another
  value with the text \<open>String(v)\<close> gives.\<close>

datatype thrown = JsError string | ApiError string nat | OtherValue string

definition error_message :: "thrown \<Rightarrow> string" where
  "error_message e = (case e of JsError m \<Rightarrow> m | ApiError m s \<Rightarrow> m | OtherValue m \<Rightarrow> m)"

datatype 'v outcome = Returned 'v | Threw thrown

definition transient_marks :: "string list" where
  "transient_marks = [''timeout'', ''timed out'', ''econnreset'', ''econnrefused'', ''enotfound'', ''socket hang up'',
     ''network'', ''rate limit'', ''429'', ''503'', ''502'', ''500'']"

definition is_retryable_error :: "thrown \<Rightarrow> bool" where
  "is_retryable_error err = (case err of
     OtherValue m \<Rightarrow> False
   | _ \<Rightarrow> let msg = js_lower (error_message err) in list_ex (js_includes msg) transient_marks)"

definition is_retryable_status :: "nat \<Rightarrow> bool" where
  "is_retryable_status status = (status = 429 \<or> status \<ge> 500 \<and> status < 600)"

record 'v retry_result =
  rr_success :: bool
  rr_value :: "'v option"
  rr_attempts :: nat
  rr_last_error :: "string option"

definition retry_ok :: "'v \<Rightarrow> nat \<Rightarrow> 'v retry_result" where
  "retry_ok v n = \<lparr>rr_success = True, rr_value = Some v, rr_attempts = n, rr_last_error = None\<rparr>"

definition retry_failed :: "nat \<Rightarrow> string option \<Rightarrow> 'v retry_result" where
  "retry_failed n e = \<lparr>rr_success = False, rr_value = None, rr_attempts = n, rr_last_error = e\<rparr>"

section \<open>The loops\<close>

text \<open>The environment of one call: the outcome of each attempt, whether the abort signal had fired when the
  loop looked before an attempt and after a failure, and the random number drawn.\<close>

record 'v retry_env =
  env_fn :: "nat \<Rightarrow> 'v outcome"
  env_aborted_before :: "nat \<Rightarrow> bool"
  env_aborted_after :: "nat \<Rightarrow> bool"
  env_random :: "nat \<Rightarrow> real"

function tool_retry_loop ::
  "'v retry_env \<Rightarrow> retry_policy \<Rightarrow> nat \<Rightarrow> string option \<Rightarrow> 'v retry_result \<times> real list" where
  "tool_retry_loop env p attempt last_error = (
     if attempt \<le> max_retries p then
       if env_aborted_before env attempt
       then (retry_failed attempt (Some (case last_error of Some e \<Rightarrow> e | None \<Rightarrow> ''Cancelled'')), [])
       else case env_fn env attempt of
         Returned value \<Rightarrow> (retry_ok value (attempt + 1), [])
       | Threw err \<Rightarrow>
           let e = error_message err in
           if env_aborted_after env attempt \<or> js_includes e ''cancelled''
           then (retry_failed (attempt + 1) (Some e), [])
           else if \<not> is_retryable_error err then (retry_failed (attempt + 1) (Some e), [])
           else if attempt < max_retries p
             then (let rest = tool_retry_loop env p (attempt + 1) (Some e) in
               (fst rest, compute_delay attempt p (env_random env attempt) # snd rest))
             else tool_retry_loop env p (attempt + 1) (Some e)
     else (retry_failed (max_retries p + 1) last_error, []))"
  by pat_completeness auto
termination by (relation "measure (\<lambda>(env, p, attempt, e). max_retries p + 1 - attempt)") auto

declare tool_retry_loop.simps [simp del]

definition with_tool_retry :: "'v retry_env \<Rightarrow> retry_policy \<Rightarrow> 'v retry_result \<times> real list" where
  "with_tool_retry env p = tool_retry_loop env p 0 None"

function channel_retry_loop ::
  "(nat \<Rightarrow> 'v outcome) \<Rightarrow> (nat \<Rightarrow> real) \<Rightarrow> retry_policy \<Rightarrow> nat \<Rightarrow> string option \<Rightarrow> 'v retry_result \<times> real list" where
  "channel_retry_loop fn rnd p attempt last_error = (
     if attempt \<le> max_retries p then
       case fn attempt of
         Returned value \<Rightarrow> (retry_ok value (attempt + 1), [])
       | Threw err \<Rightarrow>
           let e = error_message err in
           if (case err of ApiError m status \<Rightarrow> \<not> is_retryable_status status | _ \<Rightarrow> False)
           then (retry_failed (attempt + 1) (Some e), [])
           else if attempt < max_retries p
             then (let rest = channel_retry_loop fn rnd p (attempt + 1) (Some e) in
               (fst rest, channel_compute_delay attempt p (rnd attempt) # snd rest))
             else channel_retry_loop fn rnd p (attempt + 1) (Some e)
     else (retry_failed (max_retries p + 1) last_error, []))"
  by pat_completeness auto
termination by (relation "measure (\<lambda>(fn, rnd, p, attempt, e). max_retries p + 1 - attempt)") auto

declare channel_retry_loop.simps [simp del]

definition with_retry :: "(nat \<Rightarrow> 'v outcome) \<Rightarrow> (nat \<Rightarrow> real) \<Rightarrow> retry_policy \<Rightarrow> 'v retry_result \<times> real list" where
  "with_retry fn rnd p = channel_retry_loop fn rnd p 0 None"

section \<open>What a bounded retry loop computes\<close>

locale bounded_retry =
  fixes loop :: "nat \<Rightarrow> 'r \<times> real list"
    and stop :: "nat \<Rightarrow> 'r option"
    and wait :: "nat \<Rightarrow> real"
    and limit :: nat
    and give_up :: 'r
  assumes loop_stop: "i \<le> limit \<Longrightarrow> stop i = Some r \<Longrightarrow> loop i = (r, [])"
    and loop_next: "i < limit \<Longrightarrow> stop i = None \<Longrightarrow> loop i = (fst (loop (i + 1)), wait i # snd (loop (i + 1)))"
    and loop_last: "stop limit = None \<Longrightarrow> loop limit = (give_up, [])"
begin

lemma loop_from:
  "i \<le> limit \<Longrightarrow> loop i = (case find_index (\<lambda>k. stop k \<noteq> None) [i..<limit + 1] of
     None \<Rightarrow> (give_up, map wait [i..<limit])
   | Some k \<Rightarrow> (the (stop (i + k)), map wait [i..<i + k]))"
proof (induction "limit - i" arbitrary: i)
  case 0
  then have [simp]: "i = limit" by simp
  show ?case by (cases "stop limit") (simp_all add: loop_last loop_stop)
next
  case (Suc d)
  then have less: "i < limit" by simp
  have upt: "[i..<limit + 1] = i # [i + 1..<limit + 1]" using less by (simp add: upt_rec)
  show ?case
  proof (cases "stop i")
    case None
    have "loop (i + 1) = (case find_index (\<lambda>k. stop k \<noteq> None) [i + 1..<limit + 1] of
        None \<Rightarrow> (give_up, map wait [i + 1..<limit])
      | Some k \<Rightarrow> (the (stop (i + 1 + k)), map wait [i + 1..<i + 1 + k]))"
      using Suc by (intro Suc(1)) simp_all
    moreover have "[i..<limit] = i # [i + 1..<limit]" "[i..<i + Suc k] = i # [i + 1..<i + 1 + k]" for k
      using less by (simp_all add: upt_rec)
    ultimately show ?thesis
      unfolding upt using None loop_next [OF less None] by (auto split: option.splits)
  next
    case (Some r)
    then show ?thesis unfolding upt using less by (simp add: loop_stop)
  qed
qed

lemma loop_result:
  "loop 0 = (case find_index (\<lambda>k. stop k \<noteq> None) [0..<limit + 1] of
     None \<Rightarrow> (give_up, map wait [0..<limit])
   | Some k \<Rightarrow> (the (stop k), map wait [0..<k]))"
  using loop_from [of 0] by (simp cong: option.case_cong)

end

lemma loops_done:
  "attempt > max_retries p \<Longrightarrow> tool_retry_loop env p attempt e = (retry_failed (max_retries p + 1) e, [])"
  "attempt > max_retries p \<Longrightarrow> channel_retry_loop fn rnd p attempt e = (retry_failed (max_retries p + 1) e, [])"
  by (subst tool_retry_loop.simps channel_retry_loop.simps, simp)+

text \<open>How one attempt of a tool call ends the loop, if it does.\<close>

definition last_message :: "(nat \<Rightarrow> 'v outcome) \<Rightarrow> nat \<Rightarrow> string option" where
  "last_message fn i = (if i = 0 then None else (case fn (i - 1) of Threw e \<Rightarrow> Some (error_message e) | Returned v \<Rightarrow> None))"

definition tool_stop :: "'v retry_env \<Rightarrow> nat \<Rightarrow> 'v retry_result option" where
  "tool_stop env i = (
     if env_aborted_before env i
     then Some (retry_failed i (Some (case last_message (env_fn env) i of Some e \<Rightarrow> e | None \<Rightarrow> ''Cancelled'')))
     else case env_fn env i of
       Returned v \<Rightarrow> Some (retry_ok v (i + 1))
     | Threw e \<Rightarrow>
         if env_aborted_after env i \<or> js_includes (error_message e) ''cancelled'' \<or> \<not> is_retryable_error e
         then Some (retry_failed (i + 1) (Some (error_message e))) else None)"

interpretation tool_retry: bounded_retry
  "\<lambda>i. tool_retry_loop env p i (last_message (env_fn env) i)" "tool_stop env"
  "\<lambda>i. compute_delay i p (env_random env i)" "max_retries p"
  "retry_failed (max_retries p + 1) (last_message (env_fn env) (max_retries p + 1))"
  for env p
proof
  fix i r
  assume "i \<le> max_retries p" "tool_stop env i = Some r"
  then show "tool_retry_loop env p i (last_message (env_fn env) i) = (r, [])"
    by (subst tool_retry_loop.simps) (auto simp: tool_stop_def Let_def split: outcome.splits if_splits)
next
  fix i
  assume "i < max_retries p" "tool_stop env i = None"
  then show "tool_retry_loop env p i (last_message (env_fn env) i)
      = (fst (tool_retry_loop env p (i + 1) (last_message (env_fn env) (i + 1))),
         compute_delay i p (env_random env i) # snd (tool_retry_loop env p (i + 1) (last_message (env_fn env) (i + 1))))"
    by (subst tool_retry_loop.simps)
      (auto simp: tool_stop_def Let_def last_message_def split: outcome.splits if_splits)
next
  assume "tool_stop env (max_retries p) = None"
  then show "tool_retry_loop env p (max_retries p) (last_message (env_fn env) (max_retries p))
      = (retry_failed (max_retries p + 1) (last_message (env_fn env) (max_retries p + 1)), [])"
    by (subst tool_retry_loop.simps)
      (auto simp: tool_stop_def Let_def last_message_def loops_done
        split: outcome.splits if_splits)
qed

definition channel_stop :: "(nat \<Rightarrow> 'v outcome) \<Rightarrow> nat \<Rightarrow> 'v retry_result option" where
  "channel_stop fn i = (case fn i of
     Returned v \<Rightarrow> Some (retry_ok v (i + 1))
   | Threw (ApiError m s) \<Rightarrow> if is_retryable_status s then None else Some (retry_failed (i + 1) (Some m))
   | Threw e \<Rightarrow> None)"

interpretation channel_retry: bounded_retry
  "\<lambda>i. channel_retry_loop fn rnd p i (last_message fn i)" "channel_stop fn"
  "\<lambda>i. channel_compute_delay i p (rnd i)" "max_retries p"
  "retry_failed (max_retries p + 1) (last_message fn (max_retries p + 1))"
  for fn rnd p
proof
  fix i r
  assume "i \<le> max_retries p" "channel_stop fn i = Some r"
  then show "channel_retry_loop fn rnd p i (last_message fn i) = (r, [])"
    by (subst channel_retry_loop.simps)
      (auto simp: channel_stop_def error_message_def Let_def split: outcome.splits thrown.splits if_splits)
next
  fix i
  assume "i < max_retries p" "channel_stop fn i = None"
  then show "channel_retry_loop fn rnd p i (last_message fn i)
      = (fst (channel_retry_loop fn rnd p (i + 1) (last_message fn (i + 1))),
         channel_compute_delay i p (rnd i) # snd (channel_retry_loop fn rnd p (i + 1) (last_message fn (i + 1))))"
    by (subst channel_retry_loop.simps)
      (auto simp: channel_stop_def last_message_def Let_def split: outcome.splits thrown.splits if_splits)
next
  assume "channel_stop fn (max_retries p) = None"
  then show "channel_retry_loop fn rnd p (max_retries p) (last_message fn (max_retries p))
      = (retry_failed (max_retries p + 1) (last_message fn (max_retries p + 1)), [])"
    by (subst channel_retry_loop.simps)
      (auto simp: channel_stop_def last_message_def Let_def loops_done
        split: outcome.splits thrown.splits if_splits)
qed

section \<open>What the loops promise\<close>

text \<open>An attempt after which a tool call goes on: it ran, failed with a transient error, and nobody cancelled.\<close>

definition transient :: "'v retry_env \<Rightarrow> nat \<Rightarrow> bool" where
  "transient env i = (\<not> env_aborted_before env i \<and> (case env_fn env i of Returned v \<Rightarrow> False
     | Threw e \<Rightarrow> \<not> env_aborted_after env i \<and> \<not> js_includes (error_message e) ''cancelled'' \<and> is_retryable_error e))"

lemma tool_stop_transient: "tool_stop env i = None \<longleftrightarrow> transient env i"
  by (auto simp: tool_stop_def transient_def split: outcome.splits)

lemma with_tool_retry_cases:
  obtains (gave_up) "\<forall>i\<le>max_retries p. transient env i"
      "with_tool_retry env p = (retry_failed (max_retries p + 1) (last_message (env_fn env) (max_retries p + 1)),
         map (\<lambda>i. compute_delay i p (env_random env i)) [0..<max_retries p])"
  | (stopped) k r where "k \<le> max_retries p" "\<forall>i<k. transient env i" "tool_stop env k = Some r"
      "with_tool_retry env p = (r, map (\<lambda>i. compute_delay i p (env_random env i)) [0..<k])"
proof (cases "find_index (\<lambda>k. tool_stop env k \<noteq> None) [0..<max_retries p + 1]")
  case None
  then have "\<forall>i\<le>max_retries p. transient env i"
    by (auto simp: find_index_None tool_stop_transient le_eq_less_or_eq)
  moreover have "with_tool_retry env p = (retry_failed (max_retries p + 1) (last_message (env_fn env) (max_retries p + 1)),
         map (\<lambda>i. compute_delay i p (env_random env i)) [0..<max_retries p])"
    using tool_retry.loop_result [where env = env and p = p] None
    by (simp add: with_tool_retry_def last_message_def [of _ 0])
  ultimately show ?thesis by (rule gave_up)
next
  case (Some k)
  then have k: "k \<le> max_retries p" "tool_stop env k \<noteq> None" "\<forall>i<k. tool_stop env i = None"
    by (auto simp: find_index_Some nth_upt simp del: upt_Suc)
  then obtain r where r: "tool_stop env k = Some r" by blast
  have "\<forall>i<k. transient env i" using k(3) tool_stop_transient by blast
  moreover have "with_tool_retry env p = (r, map (\<lambda>i. compute_delay i p (env_random env i)) [0..<k])"
    using tool_retry.loop_result [where env = env and p = p] Some r
    by (simp add: with_tool_retry_def last_message_def [of _ 0])
  ultimately show ?thesis using stopped k(1) r by blast
qed

text \<open>C37: A tool call succeeds exactly when some attempt within the limit returns a value, no abort is seen before it
  and every earlier attempt failed transiently, and then the result carries that value and the number of
  attempts; there are at most one more attempts than retries, a delay between two attempts and none after the
  last; a call that fails without an abort used all attempts or ended on an error that is not transient.\<close>

theorem tool_retry_contract:
  "let (r, waits) = with_tool_retry env p in
     (rr_success r \<longleftrightarrow> (\<exists>k\<le>max_retries p. (\<forall>i<k. transient env i) \<and> \<not> env_aborted_before env k
        \<and> (\<exists>v. env_fn env k = Returned v \<and> r = retry_ok v (k + 1))))
   \<and> rr_attempts r \<le> max_retries p + 1
   \<and> waits = map (\<lambda>i. compute_delay i p (env_random env i)) [0..<length waits]
   \<and> length waits \<le> max_retries p \<and> length waits \<le> rr_attempts r
   \<and> (rr_success r \<or> rr_attempts r = max_retries p + 1 \<or> env_aborted_before env (rr_attempts r)
      \<or> (\<exists>e. env_fn env (rr_attempts r - 1) = Threw e
          \<and> (env_aborted_after env (rr_attempts r - 1) \<or> js_includes (error_message e) ''cancelled'' \<or> \<not> is_retryable_error e)))"
proof (cases rule: with_tool_retry_cases [of p env])
  case gave_up
  have "\<not> (env_fn env k = Returned v)" if "k \<le> max_retries p" for k v
    using gave_up(1) that by (auto simp: transient_def split: outcome.splits)
  then show ?thesis using gave_up(2) by (auto simp: retry_failed_def)
next
  case (stopped k r)
  have first: "j = k" if "\<forall>i<j. transient env i" "\<not> transient env j" for j
    using that stopped(2,3) tool_stop_transient [of env k] by (metis linorder_neqE_nat option.distinct(1))
  have returned: "\<not> transient env j" if "env_fn env j = Returned v" for j v
    using that by (simp add: transient_def)
  show ?thesis
  proof (cases "rr_success r")
    case True
    then obtain v where "env_fn env k = Returned v" "\<not> env_aborted_before env k" "r = retry_ok v (k + 1)"
      using stopped(3) by (auto simp: tool_stop_def retry_failed_def split: if_splits outcome.splits)
    then show ?thesis using stopped True by (auto simp: retry_ok_def)
  next
    case False
    have "\<not> (env_fn env j = Returned v \<and> \<not> env_aborted_before env j)" if "\<forall>i<j. transient env i" for j v
      using first [OF that] returned [of j v] stopped(3) False
      by (auto simp: tool_stop_def retry_ok_def split: if_splits)
    moreover have "rr_attempts r = k \<and> env_aborted_before env k \<or> rr_attempts r = k + 1 \<and> (\<exists>e. env_fn env k = Threw e
          \<and> (env_aborted_after env k \<or> js_includes (error_message e) ''cancelled'' \<or> \<not> is_retryable_error e))"
      using stopped(3) False
      by (auto simp: tool_stop_def retry_failed_def retry_ok_def split: if_splits outcome.splits)
    ultimately show ?thesis using stopped(1,4) False by auto
  qed
qed

definition flaky :: "string retry_env" where
  "flaky = \<lparr>env_fn = (\<lambda>i. if i = 0 then Threw (JsError ''network down'') else Returned ''ok''),
     env_aborted_before = (\<lambda>i. False), env_aborted_after = (\<lambda>i. False), env_random = (\<lambda>i. 1/2)\<rparr>"

theorem tool_retry_contract_witness:
  "(\<lambda>(r, waits). rr_attempts r \<le> 3 \<and> length waits \<le> 2) (with_tool_retry flaky tool_retry_policy)
   \<and> transient flaky 0"
proof
  show "(\<lambda>(r, waits). rr_attempts r \<le> 3 \<and> length waits \<le> 2) (with_tool_retry flaky tool_retry_policy)"
    using tool_retry_contract [of flaky tool_retry_policy]
    by (auto simp: tool_retry_policy_def split: prod.splits)
  show "transient flaky 0" by (simp add: flaky_def transient_def) code_simp
qed

text \<open>Delays.\<close>

definition sane_policy :: "retry_policy \<Rightarrow> bool" where
  "sane_policy p = (base_delay_ms p \<ge> 0 \<and> max_delay_ms p \<ge> 0 \<and> backoff_multiplier p \<ge> 0 \<and> jitter_factor p \<ge> 0)"

lemma delay_bounds:
  assumes "sane_policy p" "0 \<le> rnd" "rnd < 1"
  shows "0 \<le> compute_delay i p rnd" "compute_delay i p rnd \<le> max_delay_ms p * (1 + jitter_factor p)"
proof -
  let ?c = "min (base_delay_ms p * backoff_multiplier p ^ i) (max_delay_ms p)"
  have c: "0 \<le> ?c" "?c \<le> max_delay_ms p" using assms(1) by (simp_all add: sane_policy_def)
  have j: "0 \<le> jitter_factor p * rnd" "jitter_factor p * rnd \<le> jitter_factor p"
    using assms mult_left_mono [of rnd 1 "jitter_factor p"] by (simp_all add: sane_policy_def)
  have d: "compute_delay i p rnd = ?c * (1 + jitter_factor p * rnd)"
    by (simp add: compute_delay_def Let_def algebra_simps)
  show "0 \<le> compute_delay i p rnd" unfolding d using c(1) j(1) by (intro mult_nonneg_nonneg) simp_all
  show "compute_delay i p rnd \<le> max_delay_ms p * (1 + jitter_factor p)"
    unfolding d using c j by (intro mult_mono) auto
qed

lemma sum_list_bound: "(\<And>x. x \<in> set xs \<Longrightarrow> x \<le> (b::real)) \<Longrightarrow> sum_list xs \<le> real (length xs) * b"
proof (induction xs)
  case (Cons x xs)
  then have "x \<le> b" "sum_list xs \<le> real (length xs) * b" by simp_all
  then show ?case by (simp add: algebra_simps)
qed simp

text \<open>With non-negative settings and random numbers below one, the delays of a tool call add up to at most the
  number of retries times the delay cap with full jitter.\<close>

theorem tool_retry_wait_bounded:
  assumes "sane_policy p" "\<forall>i. 0 \<le> env_random env i \<and> env_random env i < 1"
  shows "sum_list (snd (with_tool_retry env p)) \<le> real (max_retries p) * (max_delay_ms p * (1 + jitter_factor p))"
proof -
  let ?waits = "snd (with_tool_retry env p)" and ?b = "max_delay_ms p * (1 + jitter_factor p)"
  have "?waits = map (\<lambda>i. compute_delay i p (env_random env i)) [0..<length ?waits] \<and> length ?waits \<le> max_retries p"
    by (cases rule: with_tool_retry_cases [of p env]) auto
  then have waits: "\<And>x. x \<in> set ?waits \<Longrightarrow> x \<le> ?b" "length ?waits \<le> max_retries p"
    using delay_bounds(2) [OF assms(1)] assms(2) by (metis (no_types, lifting) imageE set_map)+
  have "0 \<le> ?b" using assms(1) by (simp add: sane_policy_def)
  then have "real (length ?waits) * ?b \<le> real (max_retries p) * ?b"
    using waits(2) by (intro mult_right_mono) simp_all
  moreover have "sum_list ?waits \<le> real (length ?waits) * ?b" by (rule sum_list_bound) (rule waits(1))
  ultimately show ?thesis by linarith
qed

theorem tool_retry_wait_bounded_witness:
  "sum_list (snd (with_tool_retry \<lparr>env_fn = (\<lambda>i. Threw (JsError ''fetch timeout'') :: string outcome),
     env_aborted_before = (\<lambda>i. False), env_aborted_after = (\<lambda>i. False), env_random = (\<lambda>i. 1/2)\<rparr> tool_retry_policy)) \<le> 13000"
proof -
  have "sane_policy tool_retry_policy" by (simp add: sane_policy_def tool_retry_policy_def)
  then show ?thesis
    using tool_retry_wait_bounded [of tool_retry_policy "\<lparr>env_fn = (\<lambda>i. Threw (JsError ''fetch timeout'') :: string outcome),
      env_aborted_before = (\<lambda>i. False), env_aborted_after = (\<lambda>i. False), env_random = (\<lambda>i. 1/2)\<rparr>"]
    by (simp add: tool_retry_policy_def)
qed

text \<open>The channel loop: an error that is not a \<open>ChannelApiError\<close> is retried whatever it is.\<close>

lemma channel_retries_plain_errors:
  "with_retry (\<lambda>i. Threw (JsError ''bad recipient'') :: string outcome) rnd p
     = (retry_failed (max_retries p + 1) (Some ''bad recipient''),
        map (\<lambda>i. channel_compute_delay i p (rnd i)) [0..<max_retries p])"
proof -
  let ?fn = "\<lambda>i. Threw (JsError ''bad recipient'') :: string outcome"
  have "find_index (\<lambda>k. channel_stop ?fn k \<noteq> None) ks = None" for ks
    by (simp add: find_index_None channel_stop_def)
  then show ?thesis
    using channel_retry.loop_result [where fn = ?fn and rnd = rnd and p = p]
    by (simp add: with_retry_def last_message_def error_message_def)
qed

end
