(* ===== verification/MessageQueue.thy ===== *)
theory MessageQueue
  imports Retry
begin

text \<open>
  The outbound message queue of \<open>packages/server/src/infra/queue/channels/queue.ts\<close>. The code is
  asynchronous: \<open>processQueue\<close> runs one coroutine per (channel, recipient) key and gives up control at every
  \<open>await\<close>. The state therefore holds, for each key in \<open>processing\<close>, the await its coroutine is
  suspended at, and \<open>mq_step\<close> is the step relation: new messages arrive, a suspended call comes back, a
  store call is rejected, the retry timer ticks. Everything between two awaits is one step, as on the
  JavaScript event loop. The send itself is the retry loop of \<open>Retry\<close>. Status broadcasts are a log.
\<close>

section \<open>Messages and state\<close>

datatype delivery_status = Queued | Sending | Delivered | Failed | Retrying

record outbound_message =
  msg_id :: nat
  msg_channel :: string
  msg_recipient :: string
  msg_text :: string
  msg_status :: delivery_status
  msg_attempts :: nat
  msg_next_retry_at :: "int option"
  msg_last_error :: "string option"
  msg_delivered_at :: "int option"

datatype broadcast = MessageQueued nat | MessageDelivered nat nat | MessageFailed nat string

text \<open>The awaits of \<open>deliverMessage\<close>: the status update of a message without a channel, the update to
  sending, \<open>withRetry\<close>, the final update, and \<open>saveAttempt\<close>.\<close>

datatype await_point = AwaitNoChannel | AwaitSending | AwaitSend | AwaitResult | AwaitAttempt

record message_queue =
  mq_channels :: "string list"
  mq_queues :: "(string, outbound_message list) jsmap"
  mq_processing :: "(string, await_point) jsmap"
  mq_resolved :: "outbound_message list"
  mq_broadcasts :: "broadcast list"

definition new_message_queue :: message_queue where
  "new_message_queue = \<lparr>mq_channels = [], mq_queues = [], mq_processing = [], mq_resolved = [], mq_broadcasts = []\<rparr>"

definition register_channel :: "message_queue \<Rightarrow> string \<Rightarrow> message_queue" where
  "register_channel q c = q\<lparr>mq_channels := set_add (mq_channels q) c\<rparr>"

definition new_message :: "nat \<Rightarrow> string \<Rightarrow> string \<Rightarrow> string \<Rightarrow> outbound_message" where
  "new_message mid chan recipient text = \<lparr>msg_id = mid, msg_channel = chan, msg_recipient = recipient, msg_text = text,
     msg_status = Queued, msg_attempts = 0, msg_next_retry_at = None, msg_last_error = None, msg_delivered_at = None\<rparr>"

definition queue_key :: "outbound_message \<Rightarrow> string" where
  "queue_key m = msg_channel m @ '':'' @ msg_recipient m"

section \<open>Processing\<close>

definition queue_of :: "message_queue \<Rightarrow> string \<Rightarrow> outbound_message list" where
  "queue_of q key = js_get_or (mq_queues q) key []"

text \<open>The message object is shared with the queue, so its fields change in place.\<close>

definition update_head :: "message_queue \<Rightarrow> string \<Rightarrow> (outbound_message \<Rightarrow> outbound_message) \<Rightarrow> message_queue" where
  "update_head q key f = (case queue_of q key of [] \<Rightarrow> q
     | m # ms \<Rightarrow> q\<lparr>mq_queues := js_set (mq_queues q) key (f m # ms)\<rparr>)"

definition suspend :: "message_queue \<Rightarrow> string \<Rightarrow> await_point \<Rightarrow> message_queue" where
  "suspend q key a = q\<lparr>mq_processing := js_set (mq_processing q) key a\<rparr>"

definition leave :: "message_queue \<Rightarrow> string \<Rightarrow> message_queue" where
  "leave q key = q\<lparr>mq_processing := js_delete (mq_processing q) key\<rparr>"

definition no_channel_error :: "outbound_message \<Rightarrow> string" where
  "no_channel_error m = ''No channel registered for type '' @ [CHR 0x22] @ msg_channel m @ [CHR 0x22]"

text \<open>\<open>deliverMessage\<close> up to its first await.\<close>

definition begin_delivery :: "message_queue \<Rightarrow> string \<Rightarrow> outbound_message \<Rightarrow> message_queue" where
  "begin_delivery q key m = (
     if msg_channel m \<notin> set (mq_channels q)
     then suspend (update_head q key (\<lambda>x. x\<lparr>msg_status := Failed, msg_last_error := Some (no_channel_error x)\<rparr>))
            key AwaitNoChannel
     else suspend (update_head q key (\<lambda>x. x\<lparr>msg_status := Sending\<rparr>)) key AwaitSending)"

text \<open>One round of the \<open>while\<close> loop of \<open>processQueue\<close>, with the clean-up and the \<open>finally\<close> when
  it ends.\<close>

definition process_loop :: "message_queue \<Rightarrow> string \<Rightarrow> int \<Rightarrow> message_queue" where
  "process_loop q key now = (case queue_of q key of
     [] \<Rightarrow> leave (q\<lparr>mq_queues := js_delete (mq_queues q) key\<rparr>) key
   | m # ms \<Rightarrow>
       (case msg_next_retry_at m of
          Some t \<Rightarrow> if t > now then leave q key else begin_delivery q key m
        | None \<Rightarrow> begin_delivery q key m))"

definition process_queue :: "message_queue \<Rightarrow> string \<Rightarrow> int \<Rightarrow> message_queue" where
  "process_queue q key now = (if js_has (mq_processing q) key then q else process_loop q key now)"

definition enqueue_internal :: "message_queue \<Rightarrow> outbound_message \<Rightarrow> int \<Rightarrow> message_queue" where
  "enqueue_internal q m now =
     (let key = queue_key m in
       process_queue (q\<lparr>mq_queues := js_set (mq_queues q) key (queue_of q key @ [m])\<rparr>) key now)"

text \<open>\<open>entry.resolve(message)\<close>, \<open>queue.shift()\<close> and the next round.\<close>

definition finish_delivery :: "message_queue \<Rightarrow> string \<Rightarrow> int \<Rightarrow> message_queue" where
  "finish_delivery q key now = (case queue_of q key of [] \<Rightarrow> q
     | m # ms \<Rightarrow> process_loop (q\<lparr>mq_resolved := mq_resolved q @ [m], mq_queues := js_set (mq_queues q) key ms\<rparr>) key now)"

definition announce :: "message_queue \<Rightarrow> broadcast \<Rightarrow> message_queue" where
  "announce q b = q\<lparr>mq_broadcasts := mq_broadcasts q @ [b]\<rparr>"

definition head_message :: "message_queue \<Rightarrow> string \<Rightarrow> outbound_message" where
  "head_message q key = hd (queue_of q key)"

definition after_no_channel :: "message_queue \<Rightarrow> string \<Rightarrow> int \<Rightarrow> message_queue" where
  "after_no_channel q key now = finish_delivery
     (announce q (MessageFailed (msg_id (head_message q key)) (no_channel_error (head_message q key)))) key now"

definition after_send :: "message_queue \<Rightarrow> string \<Rightarrow> string retry_result \<Rightarrow> int \<Rightarrow> message_queue" where
  "after_send q key r now = suspend (update_head q key (\<lambda>x.
     if rr_success r
     then x\<lparr>msg_attempts := rr_attempts r, msg_status := Delivered, msg_delivered_at := Some now\<rparr>
     else x\<lparr>msg_attempts := rr_attempts r, msg_status := Failed,
            msg_last_error := Some (case rr_last_error r of Some e \<Rightarrow> e | None \<Rightarrow> ''Unknown error'')\<rparr>)) key AwaitResult"

definition after_attempt :: "message_queue \<Rightarrow> string \<Rightarrow> int \<Rightarrow> message_queue" where
  "after_attempt q key now =
     (let m = head_message q key in
       finish_delivery (announce q (if msg_status m = Delivered then MessageDelivered (msg_id m) (msg_attempts m)
         else MessageFailed (msg_id m) (case msg_last_error m of Some e \<Rightarrow> e | None \<Rightarrow> ''Unknown error''))) key now)"

text \<open>The retry timer.\<close>

definition process_retry :: "int \<Rightarrow> message_queue \<Rightarrow> string \<Rightarrow> message_queue" where
  "process_retry now q key = (case queue_of q key of
     [] \<Rightarrow> q
   | m # ms \<Rightarrow>
       if js_has (mq_processing q) key then q
       else (case msg_next_retry_at m of
          Some t \<Rightarrow> if t \<le> now then process_queue q key now else q
        | None \<Rightarrow> q))"

definition process_retries :: "message_queue \<Rightarrow> int \<Rightarrow> message_queue" where
  "process_retries q now = foldl (process_retry now) q (js_keys (mq_queues q))"

definition pending_count :: "message_queue \<Rightarrow> nat" where
  "pending_count q = sum_list (map length (js_values (mq_queues q)))"

section \<open>Steps\<close>

datatype queue_label =
    Register string
  | Enqueue nat string string string int
  | Recover outbound_message int
  | StoreOk string int
  | SendDone string "nat \<Rightarrow> string outcome" "nat \<Rightarrow> real" retry_policy int
  | StoreRejected string
  | Tick int

inductive mq_step :: "message_queue \<Rightarrow> queue_label \<Rightarrow> message_queue \<Rightarrow> bool" where
  register: "mq_step q (Register c) (register_channel q c)"
| enqueue: "mq_step q (Enqueue mid chan recipient text now)
    (enqueue_internal (announce q (MessageQueued mid)) (new_message mid chan recipient text) now)"
| recover: "mq_step q (Recover m now) (enqueue_internal q m now)"
| no_channel: "js_get (mq_processing q) key = Some AwaitNoChannel \<Longrightarrow>
    mq_step q (StoreOk key now) (after_no_channel q key now)"
| sending: "js_get (mq_processing q) key = Some AwaitSending \<Longrightarrow>
    mq_step q (StoreOk key now) (suspend q key AwaitSend)"
| sent: "js_get (mq_processing q) key = Some AwaitSend \<Longrightarrow>
    mq_step q (SendDone key fn rnd p now) (after_send q key (fst (with_retry fn rnd p)) now)"
| result: "js_get (mq_processing q) key = Some AwaitResult \<Longrightarrow>
    mq_step q (StoreOk key now) (suspend q key AwaitAttempt)"
| attempt: "js_get (mq_processing q) key = Some AwaitAttempt \<Longrightarrow>
    mq_step q (StoreOk key now) (after_attempt q key now)"
| rejected: "js_get (mq_processing q) key = Some a \<Longrightarrow> a \<noteq> AwaitSend \<Longrightarrow>
    mq_step q (StoreRejected key) (leave q key)"
| tick: "mq_step q (Tick now) (process_retries q now)"

inductive_cases RegisterE: "mq_step q (Register c) r"
inductive_cases EnqueueE: "mq_step q (Enqueue mid chan recipient text now) r"
inductive_cases RecoverE: "mq_step q (Recover m now) r"
inductive_cases StoreOkE: "mq_step q (StoreOk key now) r"
inductive_cases SendDoneE: "mq_step q (SendDone key fn rnd p now) r"
inductive_cases StoreRejectedE: "mq_step q (StoreRejected key) r"
inductive_cases TickE: "mq_step q (Tick now) r"

inductive mq_run :: "message_queue \<Rightarrow> queue_label list \<Rightarrow> message_queue \<Rightarrow> bool" where
  start: "mq_run q [] q"
| step: "mq_run q ls r \<Longrightarrow> mq_step r l s \<Longrightarrow> mq_run q (ls @ [l]) s"

section \<open>What holds in every reachable state\<close>

definition final_status :: "outbound_message \<Rightarrow> bool" where
  "final_status m = (msg_status m = Delivered \<or> msg_status m = Failed)"

definition fits :: "await_point \<Rightarrow> outbound_message \<Rightarrow> bool" where
  "fits a m = (case a of AwaitSending \<Rightarrow> msg_status m = Sending | AwaitSend \<Rightarrow> msg_status m = Sending
     | _ \<Rightarrow> final_status m)"

definition own_key :: "message_queue \<Rightarrow> bool" where
  "own_key q = (\<forall>k. \<forall>m\<in>set (queue_of q k). queue_key m = k)"

definition suspended_ok :: "message_queue \<Rightarrow> string \<Rightarrow> bool" where
  "suspended_ok q k = (\<forall>a. js_get (mq_processing q) k = Some a \<longrightarrow>
     queue_of q k \<noteq> [] \<and> fits a (hd (queue_of q k)))"

definition resolved_ok :: "message_queue \<Rightarrow> bool" where
  "resolved_ok q = (\<forall>m\<in>set (mq_resolved q). final_status m)"

definition mq_ok :: "message_queue \<Rightarrow> bool" where
  "mq_ok q = (own_key q \<and> resolved_ok q \<and> (\<forall>k. suspended_ok q k))"

text \<open>The same while the loop of one key is between two awaits.\<close>

definition mq_ok_but :: "message_queue \<Rightarrow> string \<Rightarrow> bool" where
  "mq_ok_but q key = (own_key q \<and> resolved_ok q \<and> (\<forall>k. k \<noteq> key \<longrightarrow> suspended_ok q k))"

text \<open>Where a key's messages are: resolved, then waiting.\<close>

definition trail :: "message_queue \<Rightarrow> string \<Rightarrow> nat list" where
  "trail q k = map msg_id (filter (\<lambda>m. queue_key m = k) (mq_resolved q)) @ map msg_id (queue_of q k)"

lemma queue_of_simps [simp]:
  "queue_of (q\<lparr>mq_queues := js_set (mq_queues q) key x\<rparr>) k = (if k = key then x else queue_of q k)"
  "queue_of (q\<lparr>mq_resolved := rs, mq_queues := js_set (mq_queues q) key x\<rparr>) k = (if k = key then x else queue_of q k)"
  "queue_of (q\<lparr>mq_queues := js_delete (mq_queues q) key\<rparr>) k = (if k = key then [] else queue_of q k)"
  "queue_of (suspend q key a) k = queue_of q k"
  "queue_of (leave q key) k = queue_of q k"
  "queue_of (announce q b) k = queue_of q k"
  "queue_of (register_channel q c) k = queue_of q k"
  by (simp_all add: queue_of_def suspend_def leave_def announce_def register_channel_def)

lemma queue_of_update_head [simp]:
  "queue_of (update_head q key f) k = (if k = key \<and> queue_of q k \<noteq> [] then f (hd (queue_of q k)) # tl (queue_of q k) else queue_of q k)"
  by (auto simp: update_head_def split: list.splits)

lemma processing_simps [simp]:
  "mq_processing (update_head q key f) = mq_processing q"
  "mq_processing (suspend q key a) = js_set (mq_processing q) key a"
  "mq_processing (leave q key) = js_delete (mq_processing q) key"
  "mq_processing (announce q b) = mq_processing q"
  "mq_processing (register_channel q c) = mq_processing q"
  by (auto simp: update_head_def suspend_def leave_def announce_def register_channel_def split: list.splits)

lemma resolved_simps [simp]:
  "mq_resolved (update_head q key f) = mq_resolved q"
  "mq_resolved (suspend q key a) = mq_resolved q"
  "mq_resolved (leave q key) = mq_resolved q"
  "mq_resolved (announce q b) = mq_resolved q"
  "mq_resolved (register_channel q c) = mq_resolved q"
  by (auto simp: update_head_def suspend_def leave_def announce_def register_channel_def split: list.splits)

lemma mq_ok_but_weaken: "mq_ok q \<Longrightarrow> mq_ok_but q key"
  by (simp add: mq_ok_def mq_ok_but_def)

text \<open>Changing the head in place, keeping its identity, and suspending at a point that fits.\<close>

lemma head_change:
  assumes "mq_ok_but q key" "queue_of q key \<noteq> []"
    and "\<And>m. msg_id (f m) = msg_id m" "\<And>m. queue_key (f m) = queue_key m" "fits a (f (hd (queue_of q key)))"
  shows "mq_ok (suspend (update_head q key f) key a)" "trail (suspend (update_head q key f) key a) k = trail q k"
proof -
  obtain m ms where q: "queue_of q key = m # ms" using assms(2) by (cases "queue_of q key") auto
  show "mq_ok (suspend (update_head q key f) key a)"
    using assms q by (auto simp: mq_ok_def mq_ok_but_def own_key_def resolved_ok_def suspended_ok_def)
  show "trail (suspend (update_head q key f) key a) k = trail q k"
    using assms(3) q by (simp add: trail_def)
qed

lemma begin_delivery_ok:
  assumes "mq_ok_but q key" "queue_of q key = m # ms"
  shows "mq_ok (begin_delivery q key m)" "trail (begin_delivery q key m) k = trail q k"
  using assms head_change [of q key "\<lambda>x. x\<lparr>msg_status := Failed, msg_last_error := Some (no_channel_error x)\<rparr>" AwaitNoChannel]
    head_change [of q key "\<lambda>x. x\<lparr>msg_status := Sending\<rparr>" AwaitSending]
  by (simp_all add: begin_delivery_def queue_key_def fits_def final_status_def)

lemma leave_ok:
  "mq_ok_but q key \<Longrightarrow> mq_ok (leave q key)" "trail (leave q key) k = trail q k"
  by (auto simp: mq_ok_def mq_ok_but_def own_key_def resolved_ok_def suspended_ok_def trail_def)

lemma process_loop_ok:
  assumes "mq_ok_but q key"
  shows "mq_ok (process_loop q key now)" "trail (process_loop q key now) k = trail q k"
proof -
  let ?d = "q\<lparr>mq_queues := js_delete (mq_queues q) key\<rparr>"
  have empty: "mq_ok_but ?d key \<and> trail ?d k = trail q k" if "queue_of q key = []"
    using assms that by (auto simp: mq_ok_but_def own_key_def resolved_ok_def suspended_ok_def trail_def)
  show "mq_ok (process_loop q key now)"
    using assms empty leave_ok(1) begin_delivery_ok(1)
    by (auto simp: process_loop_def split: list.splits option.splits)
  show "trail (process_loop q key now) k = trail q k"
    using assms empty leave_ok(2) begin_delivery_ok(2)
    by (auto simp: process_loop_def split: list.splits option.splits)
qed

lemma process_queue_ok:
  assumes "mq_ok q"
  shows "mq_ok (process_queue q key now)" "trail (process_queue q key now) k = trail q k"
  using process_loop_ok [OF mq_ok_but_weaken [OF assms]] assms by (simp_all add: process_queue_def)

lemma enqueue_internal_ok:
  assumes "mq_ok q"
  shows "mq_ok (enqueue_internal q m now)"
    "trail (enqueue_internal q m now) k = trail q k @ (if queue_key m = k then [msg_id m] else [])"
proof -
  let ?q = "q\<lparr>mq_queues := js_set (mq_queues q) (queue_key m) (queue_of q (queue_key m) @ [m])\<rparr>"
  have ok: "mq_ok ?q"
    using assms by (auto simp: mq_ok_def own_key_def resolved_ok_def suspended_ok_def)
  have "trail ?q k = trail q k @ (if queue_key m = k then [msg_id m] else [])"
    by (simp add: trail_def)
  then show "mq_ok (enqueue_internal q m now)"
    "trail (enqueue_internal q m now) k = trail q k @ (if queue_key m = k then [msg_id m] else [])"
    using process_queue_ok [OF ok] by (simp_all add: enqueue_internal_def Let_def)
qed

lemma finish_delivery_ok:
  assumes "mq_ok_but q key" "queue_of q key \<noteq> []" "final_status (hd (queue_of q key))"
  shows "mq_ok (finish_delivery q key now)" "trail (finish_delivery q key now) k = trail q k"
proof -
  obtain m ms where q: "queue_of q key = m # ms" using assms(2) by (cases "queue_of q key") auto
  let ?q = "q\<lparr>mq_resolved := mq_resolved q @ [m], mq_queues := js_set (mq_queues q) key ms\<rparr>"
  have "queue_key m = key" using assms(1) q by (auto simp: mq_ok_but_def own_key_def dest!: spec [where x = key])
  then have "mq_ok_but ?q key" "trail ?q k = trail q k"
    using assms q by (auto simp: mq_ok_but_def own_key_def resolved_ok_def suspended_ok_def trail_def)
  then show "mq_ok (finish_delivery q key now)" "trail (finish_delivery q key now) k = trail q k"
    using process_loop_ok [of ?q key] q by (simp_all add: finish_delivery_def)
qed

lemma announce_ok: "mq_ok q \<Longrightarrow> mq_ok (announce q b)" "trail (announce q b) k = trail q k"
  by (auto simp: mq_ok_def own_key_def resolved_ok_def suspended_ok_def trail_def announce_def queue_of_def)

lemma at_await:
  "mq_ok q \<Longrightarrow> js_get (mq_processing q) key = Some a \<Longrightarrow> queue_of q key \<noteq> [] \<and> fits a (hd (queue_of q key))"
  by (auto simp: mq_ok_def suspended_ok_def dest!: spec [where x = key])

lemma finish_announced_ok:
  assumes "mq_ok q" "js_get (mq_processing q) key = Some a" "\<And>m. fits a m \<Longrightarrow> final_status m"
  shows "mq_ok (finish_delivery (announce q b) key now)" "trail (finish_delivery (announce q b) key now) k = trail q k"
proof -
  have "queue_of (announce q b) key \<noteq> []" "final_status (hd (queue_of (announce q b) key))"
    using at_await [OF assms(1,2)] assms(3) by simp_all
  then show "mq_ok (finish_delivery (announce q b) key now)" "trail (finish_delivery (announce q b) key now) k = trail q k"
    using finish_delivery_ok [OF mq_ok_but_weaken [OF announce_ok(1) [OF assms(1)]]] announce_ok(2) by metis+
qed

lemma process_retry_ok:
  assumes "mq_ok q"
  shows "mq_ok (process_retry now q key)" "trail (process_retry now q key) k = trail q k"
  using assms process_queue_ok [OF assms] by (auto simp: process_retry_def split: list.splits option.splits)

lemma process_retries_ok:
  assumes "mq_ok q"
  shows "mq_ok (process_retries q now)" "trail (process_retries q now) k = trail q k"
proof -
  have "mq_ok (foldl (process_retry now) q ks) \<and> trail (foldl (process_retry now) q ks) k = trail q k" for ks
    using assms by (induction ks arbitrary: q) (simp_all add: process_retry_ok)
  then show "mq_ok (process_retries q now)" "trail (process_retries q now) k = trail q k"
    by (simp_all add: process_retries_def)
qed

definition arrival :: "string \<Rightarrow> queue_label \<Rightarrow> nat list" where
  "arrival k l = (case l of Enqueue mid chan recipient text now \<Rightarrow>
       if queue_key (new_message mid chan recipient text) = k then [mid] else []
     | Recover m now \<Rightarrow> if queue_key m = k then [msg_id m] else []
     | _ \<Rightarrow> [])"

lemma mq_step_ok:
  assumes "mq_step q l r" "mq_ok q"
  shows "mq_ok r \<and> trail r k = trail q k @ arrival k l"
  using assms
proof (cases rule: mq_step.cases)
  case (register c)
  then show ?thesis using assms(2)
    by (auto simp: mq_ok_def own_key_def resolved_ok_def suspended_ok_def trail_def arrival_def)
next
  case (enqueue mid ch rc bd tm)
  then show ?thesis
    using enqueue_internal_ok [OF announce_ok(1) [OF assms(2)]] announce_ok(2)
    by (simp add: arrival_def) (simp add: new_message_def)
next
  case (recover m now)
  then show ?thesis using enqueue_internal_ok [OF assms(2)] by (simp add: arrival_def)
next
  case (no_channel key now)
  then show ?thesis
    using finish_announced_ok [OF assms(2) no_channel(3)] by (simp add: after_no_channel_def arrival_def fits_def)
next
  case (sending key now)
  have "fits AwaitSend (hd (queue_of q key))" "queue_of q key \<noteq> []"
    using at_await [OF assms(2) sending(3)] by (simp_all add: fits_def)
  then show ?thesis using sending assms(2)
    by (auto simp: mq_ok_def own_key_def resolved_ok_def suspended_ok_def trail_def arrival_def)
next
  case (sent key fn rnd p now)
  then show ?thesis
    using at_await [OF assms(2) sent(3)]
      head_change [OF mq_ok_but_weaken [OF assms(2)], where key = key and a = AwaitResult]
    by (auto simp: after_send_def arrival_def fits_def final_status_def queue_key_def)
next
  case (result key now)
  have "fits AwaitAttempt (hd (queue_of q key))" "queue_of q key \<noteq> []"
    using at_await [OF assms(2) result(3)] by (simp_all add: fits_def)
  then show ?thesis using result assms(2)
    by (auto simp: mq_ok_def own_key_def resolved_ok_def suspended_ok_def trail_def arrival_def)
next
  case (attempt key now)
  then show ?thesis
    using finish_announced_ok [OF assms(2) attempt(3)] by (simp add: after_attempt_def Let_def arrival_def fits_def)
next
  case (rejected key a)
  then show ?thesis using leave_ok mq_ok_but_weaken [OF assms(2)] by (simp add: arrival_def)
next
  case (tick now)
  then show ?thesis using process_retries_ok [OF assms(2)] by (simp add: arrival_def)
qed

lemma mq_run_ok:
  "mq_run q ls r \<Longrightarrow> mq_ok q \<Longrightarrow> mq_ok r \<and> trail r k = trail q k @ concat (map (arrival k) ls)"
proof (induction rule: mq_run.induct)
  case (step q ls r l s)
  then show ?case using mq_step_ok [of r l s k] by auto
qed simp

lemma new_queue_ok: "mq_ok new_message_queue" "trail new_message_queue k = []"
  by (simp_all add: new_message_queue_def mq_ok_def own_key_def resolved_ok_def suspended_ok_def trail_def queue_of_def)

text \<open>C11: In every reachable state, whatever the interleaving of arrivals, sends, store answers, store failures and
  timer ticks: for each channel and recipient the resolved messages followed by the waiting ones are exactly
  the messages that arrived, in the order of arrival, and every resolved message was delivered or failed.\<close>

theorem messages_stay_in_order:
  assumes "mq_run new_message_queue ls q"
  shows "map msg_id (filter (\<lambda>m. queue_key m = k) (mq_resolved q)) @ map msg_id (queue_of q k)
       = concat (map (arrival k) ls)
    \<and> list_all final_status (mq_resolved q)"
proof -
  have "mq_ok q \<and> trail q k = concat (map (arrival k) ls)"
    using mq_run_ok [OF assms new_queue_ok(1)] new_queue_ok(2) by simp
  then show ?thesis by (simp add: trail_def mq_ok_def resolved_ok_def list_all_iff)
qed

section \<open>Progress\<close>

definition internal :: "queue_label \<Rightarrow> bool" where
  "internal l = (case l of StoreOk key now \<Rightarrow> True | SendDone key fn rnd p now \<Rightarrow> True | _ \<Rightarrow> False)"

text \<open>No store call was rejected and no message is scheduled for later: then every waiting message's key is
  being processed.\<close>

definition undisturbed :: "queue_label \<Rightarrow> bool" where
  "undisturbed l = (case l of StoreRejected key \<Rightarrow> False | Recover m now \<Rightarrow> msg_next_retry_at m = None | _ \<Rightarrow> True)"

definition calm_but :: "message_queue \<Rightarrow> string set \<Rightarrow> bool" where
  "calm_but q K = (js_wf (mq_queues q) \<and> (\<forall>k. \<forall>m\<in>set (queue_of q k). msg_next_retry_at m = None)
     \<and> (\<forall>k. k \<notin> K \<and> queue_of q k \<noteq> [] \<longrightarrow> js_has (mq_processing q) k))"

abbreviation calm :: "message_queue \<Rightarrow> bool" where
  "calm q \<equiv> calm_but q {}"

lemma wf_queues_simps [simp]:
  "js_wf (mq_queues (suspend q key a)) = js_wf (mq_queues q)"
  "js_wf (mq_queues (leave q key)) = js_wf (mq_queues q)"
  "js_wf (mq_queues (announce q b)) = js_wf (mq_queues q)"
  "js_wf (mq_queues (register_channel q c)) = js_wf (mq_queues q)"
  by (simp_all add: suspend_def leave_def announce_def register_channel_def)

lemma wf_update_head [simp]: "js_wf (mq_queues q) \<Longrightarrow> js_wf (mq_queues (update_head q key f))"
  by (simp add: update_head_def split: list.splits)

lemma head_change_calm:
  assumes "calm_but q {key}" "\<And>m. msg_next_retry_at (f m) = msg_next_retry_at m"
  shows "calm (suspend (update_head q key f) key a)"
proof -
  have "\<forall>m\<in>set (queue_of q key). msg_next_retry_at m = None" using assms(1) by (simp add: calm_but_def)
  then show ?thesis using assms by (cases "queue_of q key") (auto simp: calm_but_def js_has_get)
qed

lemma process_loop_calm:
  assumes "calm_but q {key}"
  shows "calm (process_loop q key now)"
proof (cases "queue_of q key")
  case Nil
  then show ?thesis using assms by (auto simp: process_loop_def calm_but_def js_has_get)
next
  case (Cons m ms)
  then have "process_loop q key now = begin_delivery q key m"
    using assms by (auto simp: process_loop_def calm_but_def dest!: spec [where x = key])
  then show ?thesis using head_change_calm [OF assms] by (simp add: begin_delivery_def)
qed

lemma calm_weaken: "calm q \<Longrightarrow> calm_but q {key}"
  by (simp add: calm_but_def)

lemma enqueue_internal_calm:
  assumes "calm q" "msg_next_retry_at m = None"
  shows "calm (enqueue_internal q m now)"
proof -
  let ?q = "q\<lparr>mq_queues := js_set (mq_queues q) (queue_key m) (queue_of q (queue_key m) @ [m])\<rparr>"
  have "calm_but ?q {queue_key m}" using assms by (auto simp: calm_but_def)
  then show ?thesis
    using process_loop_calm [of ?q "queue_key m" now]
    by (auto simp: enqueue_internal_def process_queue_def Let_def calm_but_def)
qed

lemma finish_delivery_calm:
  assumes "calm q"
  shows "calm (finish_delivery q key now)"
proof (cases "queue_of q key")
  case (Cons m ms)
  let ?q = "q\<lparr>mq_resolved := mq_resolved q @ [m], mq_queues := js_set (mq_queues q) key ms\<rparr>"
  have "calm_but ?q {key}"
    using assms Cons by (auto simp: calm_but_def dest!: spec [where x = key])
  then show ?thesis using process_loop_calm [of ?q key now] Cons by (simp add: finish_delivery_def)
qed (use assms in \<open>simp add: finish_delivery_def\<close>)

lemma announce_calm: "calm q \<Longrightarrow> calm (announce q b)"
  by (auto simp: calm_but_def)

lemma process_retries_calm: "calm q \<Longrightarrow> process_retries q now = q"
proof -
  assume "calm q"
  then have "process_retry now q key = q" for key
    by (auto simp: process_retry_def calm_but_def split: list.splits option.splits dest!: spec [where x = key])
  then have "foldl (process_retry now) q ks = q" for ks by (induction ks) simp_all
  then show ?thesis by (simp add: process_retries_def)
qed

lemma mq_step_calm:
  assumes "mq_step q l r" "calm q" "undisturbed l"
  shows "calm r"
  using assms
proof (cases rule: mq_step.cases)
  case (enqueue mid ch rc bd tm)
  then show ?thesis
    using enqueue_internal_calm [OF announce_calm [OF assms(2)]] by (simp add: new_message_def)
next
  case (recover m now)
  then show ?thesis using enqueue_internal_calm [OF assms(2)] assms(3) by (simp add: undisturbed_def)
next
  case (no_channel key now)
  then show ?thesis using finish_delivery_calm announce_calm assms(2) by (simp add: after_no_channel_def)
next
  case (sent key fn rnd p now)
  then show ?thesis using head_change_calm [OF calm_weaken [OF assms(2)]] by (simp add: after_send_def)
next
  case (attempt key now)
  then show ?thesis using finish_delivery_calm announce_calm assms(2) by (simp add: after_attempt_def Let_def)
next
  case (rejected key a)
  then show ?thesis using assms(3) by (simp add: undisturbed_def)
next
  case (tick now)
  then show ?thesis using assms(2) by (simp add: process_retries_calm)
qed (auto simp: calm_but_def js_has_get)

lemma mq_run_calm: "mq_run q ls r \<Longrightarrow> calm q \<Longrightarrow> list_all undisturbed ls \<Longrightarrow> calm r"
  by (induction rule: mq_run.induct) (auto intro: mq_step_calm)

text \<open>Each waiting message takes at most four more answers.\<close>

definition stage :: "await_point option \<Rightarrow> nat" where
  "stage a = (case a of None \<Rightarrow> 0 | Some AwaitSending \<Rightarrow> 0 | Some AwaitSend \<Rightarrow> 1 | Some AwaitResult \<Rightarrow> 2
     | Some AwaitAttempt \<Rightarrow> 3 | Some AwaitNoChannel \<Rightarrow> 3)"

definition weight :: "message_queue \<Rightarrow> string \<Rightarrow> nat" where
  "weight q k = 4 * length (queue_of q k) - stage (js_get (mq_processing q) k)"

definition total_weight :: "message_queue \<Rightarrow> nat" where
  "total_weight q = (\<Sum>k\<in>set (js_keys (mq_queues q)). weight q k)"

lemma total_weight_over:
  assumes "finite K" "set (js_keys (mq_queues q)) \<subseteq> K"
  shows "total_weight q = (\<Sum>k\<in>K. weight q k)"
proof -
  have "weight q k = 0" if "k \<notin> set (js_keys (mq_queues q))" for k
    using that by (simp add: weight_def queue_of_def js_get_or_def js_keys_get)
  then show ?thesis
    unfolding total_weight_def using assms by (intro sum.mono_neutral_left) auto
qed

lemma weight_decreases:
  assumes "weight r key < weight q key" "\<And>k. k \<noteq> key \<Longrightarrow> weight r k = weight q k"
  shows "total_weight r < total_weight q"
proof -
  let ?K = "insert key (set (js_keys (mq_queues q)) \<union> set (js_keys (mq_queues r)))"
  have "(\<Sum>k\<in>?K. weight r k) < (\<Sum>k\<in>?K. weight q k)"
  proof (rule sum_strict_mono_ex1)
    show "\<forall>k\<in>?K. weight r k \<le> weight q k" using assms by (metis less_imp_le order_refl)
    show "\<exists>k\<in>?K. weight r k < weight q k" using assms(1) by blast
  qed simp
  moreover have "total_weight q = (\<Sum>k\<in>?K. weight q k)" "total_weight r = (\<Sum>k\<in>?K. weight r k)"
    by (rule total_weight_over; blast)+
  ultimately show ?thesis by simp
qed

lemma process_loop_weight:
  "weight (process_loop q key now) key \<le> 4 * length (queue_of q key)"
  "k \<noteq> key \<Longrightarrow> weight (process_loop q key now) k = weight q k"
  by (auto simp: process_loop_def begin_delivery_def weight_def split: list.splits option.splits)

lemma finish_delivery_weight:
  assumes "queue_of q key \<noteq> []"
  shows "weight (finish_delivery q key now) key \<le> 4 * (length (queue_of q key) - 1)"
    "k \<noteq> key \<Longrightarrow> weight (finish_delivery q key now) k = weight q k"
proof -
  obtain m ms where m: "queue_of q key = m # ms" using assms by (cases "queue_of q key") auto
  let ?q = "q\<lparr>mq_resolved := mq_resolved q @ [m], mq_queues := js_set (mq_queues q) key ms\<rparr>"
  show "weight (finish_delivery q key now) key \<le> 4 * (length (queue_of q key) - 1)"
    using process_loop_weight(1) [of ?q key now] m by (simp add: finish_delivery_def)
  show "weight (finish_delivery q key now) k = weight q k" if "k \<noteq> key"
    using process_loop_weight(2) [of k key ?q now] m that by (simp add: finish_delivery_def weight_def)
qed

lemma weight_announce [simp]: "weight (announce q b) k = weight q k"
  by (simp add: weight_def)

lemma length_update_head: "length (queue_of (update_head q key f) k) = length (queue_of q k)"
  by (cases "queue_of q key") simp_all

lemma internal_step_decreases:
  assumes "mq_step q l r" "mq_ok q" "internal l"
  shows "total_weight r < total_weight q"
proof -
  have finish: "total_weight (finish_delivery (announce q b) key now) < total_weight q"
    if "js_get (mq_processing q) key = Some a" "stage (Some a) = 3" for key a b now
  proof (rule weight_decreases [of _ key])
    have "queue_of (announce q b) key \<noteq> []" using at_await [OF assms(2) that(1)] by simp
    note fin = finish_delivery_weight [OF this, where now = now]
    show "weight (finish_delivery (announce q b) key now) key < weight q key"
      using fin(1) at_await [OF assms(2) that(1)] that by (cases "queue_of q key") (auto simp: weight_def)
    show "weight (finish_delivery (announce q b) key now) k = weight q k" if "k \<noteq> key" for k
      using fin(2) [OF that] by simp
  qed
  have further: "total_weight s < total_weight q"
    if "js_get (mq_processing q) key = Some a" "stage (Some a) < stage (Some b)"
      "\<And>k. length (queue_of s k) = length (queue_of q k)" "mq_processing s = js_set (mq_processing q) key b" for key a b s
  proof (rule weight_decreases [of _ key])
    have "stage (Some b) \<le> 3" by (cases b) (simp_all add: stage_def)
    then show "weight s key < weight q key"
      using at_await [OF assms(2) that(1)] that by (cases "queue_of q key") (auto simp: weight_def)
    show "weight s k = weight q k" if "k \<noteq> key" for k
      using that \<open>\<And>k. length (queue_of s k) = length (queue_of q k)\<close> \<open>mq_processing s = js_set (mq_processing q) key b\<close>
      by (simp add: weight_def)
  qed
  show ?thesis
    using assms
  proof (cases rule: mq_step.cases)
    case (no_channel key now)
    then show ?thesis using finish by (simp add: after_no_channel_def stage_def)
  next
    case (sending key now)
    then show ?thesis using further [of key AwaitSending AwaitSend r] by (simp add: stage_def)
  next
    case (sent key fn rnd p now)
    have "length (queue_of r k) = length (queue_of q k)" for k
      using sent by (simp add: after_send_def length_update_head del: queue_of_update_head)
    then show ?thesis using further [of key AwaitSend AwaitResult r] sent by (simp add: stage_def after_send_def)
  next
    case (result key now)
    then show ?thesis using further [of key AwaitResult AwaitAttempt r] by (simp add: stage_def)
  next
    case (attempt key now)
    then show ?thesis using finish by (simp add: after_attempt_def Let_def stage_def)
  qed (simp_all add: internal_def)
qed

lemma internal_run_length:
  "mq_run q ls r \<Longrightarrow> mq_ok q \<Longrightarrow> list_all internal ls \<Longrightarrow> length ls + total_weight r \<le> total_weight q"
proof (induction rule: mq_run.induct)
  case (step q ls r l s)
  then have "mq_ok r" using mq_run_ok by blast
  then show ?case using step internal_step_decreases [OF step(2)] by force
qed simp

lemma internal_enabled:
  assumes "js_get (mq_processing q) key = Some a"
  shows "\<exists>l r. internal l \<and> mq_step q l r"
proof -
  let ?send = "SendDone key (\<lambda>i. Returned []) (\<lambda>i. 0) default_retry_policy 0"
  have "internal (StoreOk key 0)" "internal ?send" by (simp_all add: internal_def)
  then show ?thesis
    using assms mq_step.no_channel [of q key 0] mq_step.sending [of q key 0] mq_step.result [of q key 0]
      mq_step.attempt [of q key 0] mq_step.sent [of q key "\<lambda>i. Returned []" "\<lambda>i. 0" default_retry_policy 0]
    by (cases a) blast+
qed

lemma pending_sum:
  "js_wf (mq_queues q) \<Longrightarrow> pending_count q = (\<Sum>k\<in>set (js_keys (mq_queues q)). length (queue_of q k))"
proof -
  have "sum_list (map length (js_values m)) = (\<Sum>k\<in>set (js_keys m). length (js_get_or m k []))" if "js_wf m"
    for m :: "(string, outbound_message list) jsmap"
    using that
  proof (induction m)
    case Nil
    then show ?case by (simp add: js_values_def js_keys_def)
  next
    case (Cons e m)
    have "fst e \<notin> set (js_keys m)" using Cons.prems by (simp add: js_wf_def js_keys_def)
    moreover have "js_get_or (e # m) k [] = (if k = fst e then snd e else js_get_or m k [])" for k
      by (simp add: js_get_or_def js_get_def)
    moreover have "(\<Sum>k\<in>set (js_keys m). length (if k = fst e then snd e else js_get_or m k []))
        = (\<Sum>k\<in>set (js_keys m). length (js_get_or m k []))"
      using \<open>fst e \<notin> set (js_keys m)\<close> by (intro sum.cong) auto
    ultimately show ?case
      using Cons by (simp add: js_values_def js_keys_def js_wf_def)
  qed
  then show "js_wf (mq_queues q) \<Longrightarrow> pending_count q = (\<Sum>k\<in>set (js_keys (mq_queues q)). length (queue_of q k))"
    by (simp add: pending_count_def queue_of_def)
qed

lemma weight_pending:
  assumes "js_wf (mq_queues q)"
  shows "total_weight q \<le> 4 * pending_count q"
proof -
  have "total_weight q \<le> (\<Sum>k\<in>set (js_keys (mq_queues q)). 4 * length (queue_of q k))"
    unfolding total_weight_def by (intro sum_mono) (simp add: weight_def)
  then show ?thesis by (simp add: pending_sum [OF assms] sum_distrib_left)
qed

lemma calm_new: "calm new_message_queue"
  by (simp add: calm_but_def new_message_queue_def queue_of_def)

lemma internal_undisturbed: "internal l \<Longrightarrow> undisturbed l"
  by (cases l) (simp_all add: internal_def undisturbed_def)

lemma idle_queue_empty:
  assumes "calm q" "\<forall>l r. internal l \<longrightarrow> \<not> mq_step q l r"
  shows "pending_count q = 0"
proof -
  have "queue_of q k = []" for k
  proof (rule ccontr)
    assume "queue_of q k \<noteq> []"
    then obtain a where "js_get (mq_processing q) k = Some a"
      using assms(1) by (auto simp: calm_but_def js_has_get)
    then show False using internal_enabled assms(2) by blast
  qed
  then show ?thesis using assms(1) by (simp add: pending_sum calm_but_def)
qed

text \<open>C12: Progress: when no store call was rejected and no recovered message was scheduled for later, the answers to
  pending calls alone drain the queue. At most four per waiting message can come in before none is pending, in
  whatever order and whatever the sends return, and when none is pending no message waits.\<close>

theorem queue_drains:
  assumes "mq_run new_message_queue ls q" "list_all undisturbed ls"
    and "mq_run q answers r" "list_all internal answers"
  shows "length answers \<le> 4 * pending_count q
    \<and> ((\<forall>l s. internal l \<longrightarrow> \<not> mq_step r l s) \<longrightarrow> pending_count r = 0)"
proof -
  have calm: "calm q" by (rule mq_run_calm [OF assms(1) calm_new assms(2)])
  have "list_all undisturbed answers" using assms(4) internal_undisturbed by (simp add: list_all_iff)
  then have "calm r" by (rule mq_run_calm [OF assms(3) calm])
  moreover have "mq_ok q" using mq_run_ok [OF assms(1) new_queue_ok(1)] by blast
  then have "length answers \<le> total_weight q"
    using internal_run_length [OF assms(3) _ assms(4)] by simp
  moreover have "total_weight q \<le> 4 * pending_count q"
    using calm by (intro weight_pending) (simp add: calm_but_def)
  ultimately show ?thesis using idle_queue_empty by auto
qed

section \<open>A delivery\<close>

definition sample_arrivals :: "queue_label list" where
  "sample_arrivals = [Register ''wa'', Enqueue 1 ''wa'' ''r'' ''hi'' 0]"

definition sample_waiting :: message_queue where
  "sample_waiting = enqueue_internal (announce (register_channel new_message_queue ''wa'') (MessageQueued 1))
     (new_message 1 ''wa'' ''r'' ''hi'') 0"

definition sample_result :: "string retry_result" where
  "sample_result = fst (with_retry (\<lambda>i. Returned ''id'') (\<lambda>i. 0) default_retry_policy)"

definition sample_sent :: message_queue where
  "sample_sent = after_send (suspend sample_waiting ''wa:r'' AwaitSend) ''wa:r'' sample_result 5"

definition sample_done :: message_queue where
  "sample_done = after_attempt (suspend sample_sent ''wa:r'' AwaitAttempt) ''wa:r'' 6"

lemma sample_result_eval: "sample_result = retry_ok ''id'' 1"
  by (simp add: sample_result_def with_retry_def channel_retry_loop.simps)

lemmas sample_eval = sample_done_def sample_sent_def sample_result_eval sample_waiting_def after_attempt_def after_send_def
  enqueue_internal_def process_queue_def process_loop_def begin_delivery_def finish_delivery_def announce_def
  suspend_def leave_def update_head_def queue_of_def register_channel_def new_message_queue_def new_message_def
  queue_key_def head_message_def retry_ok_def js_get_or_def js_get_def js_set_def js_delete_def js_has_def set_add_def

lemma sample_states:
  "js_get (mq_processing sample_waiting) ''wa:r'' = Some AwaitSending"
  "js_get (mq_processing sample_sent) ''wa:r'' = Some AwaitResult"
  "mq_processing sample_done = []" "pending_count sample_waiting = 1"
  by (simp_all add: sample_eval Let_def pending_count_def js_values_def)

lemma sample_arrival_run: "mq_run new_message_queue sample_arrivals sample_waiting"
  using mq_run.step [OF mq_run.step [OF mq_run.start mq_step.register [of _ "''wa''"]] mq_step.enqueue [of _ 1 "''wa''" "''r''" "''hi''" 0]]
  by (simp add: sample_arrivals_def sample_waiting_def)

definition sample_answers :: "queue_label list" where
  "sample_answers = [StoreOk ''wa:r'' 1, SendDone ''wa:r'' (\<lambda>i. Returned ''id'') (\<lambda>i. 0) default_retry_policy 5,
     StoreOk ''wa:r'' 5, StoreOk ''wa:r'' 6]"

lemma sample_answer_run: "mq_run sample_waiting sample_answers sample_done"
proof -
  let ?p = "default_retry_policy" and ?k = "''wa:r''"
  have 1: "mq_step sample_waiting (StoreOk ?k 1) (suspend sample_waiting ?k AwaitSend)"
    by (rule mq_step.sending) (rule sample_states)
  have 2: "mq_step (suspend sample_waiting ?k AwaitSend) (SendDone ?k (\<lambda>i. Returned ''id'') (\<lambda>i. 0) ?p 5) sample_sent"
    unfolding sample_sent_def sample_result_def by (rule mq_step.sent) simp
  have 3: "mq_step sample_sent (StoreOk ?k 5) (suspend sample_sent ?k AwaitAttempt)"
    by (rule mq_step.result) (rule sample_states)
  have 4: "mq_step (suspend sample_sent ?k AwaitAttempt) (StoreOk ?k 6) sample_done"
    unfolding sample_done_def by (rule mq_step.attempt) simp
  show ?thesis
    using mq_run.step [OF mq_run.step [OF mq_run.step [OF mq_run.step [OF mq_run.start 1] 2] 3] 4]
    by (simp add: sample_answers_def)
qed

theorem queue_drains_witness: "pending_count sample_waiting = 1 \<and> pending_count sample_done = 0"
proof -
  have "\<not> mq_step sample_done l s" if "internal l" for l s
    using that sample_states(3) by (auto simp: internal_def elim!: mq_step.cases)
  then show ?thesis
    using queue_drains [OF sample_arrival_run _ sample_answer_run] sample_states(4)
    by (simp add: sample_arrivals_def sample_answers_def undisturbed_def internal_def)
qed

theorem messages_stay_in_order_witness:
  "map msg_id (filter (\<lambda>m. queue_key m = ''wa:r'') (mq_resolved sample_waiting))
     @ map msg_id (queue_of sample_waiting ''wa:r'') = [1]"
  using messages_stay_in_order [OF sample_arrival_run, of "''wa:r''"]
  by (simp add: sample_arrivals_def arrival_def queue_key_def new_message_def)

section \<open>When the store fails\<close>

text \<open>A rejected status update leaves the head waiting with nobody processing it, and the timer does not pick it
  up, because it has no retry time.\<close>

lemma rejected_update_strands_queue:
  "mq_step sample_sent (StoreRejected ''wa:r'') (leave sample_sent ''wa:r'')
   \<and> map msg_id (queue_of (leave sample_sent ''wa:r'') ''wa:r'') = [1]
   \<and> mq_processing (leave sample_sent ''wa:r'') = []
   \<and> process_retries (leave sample_sent ''wa:r'') now = leave sample_sent ''wa:r''"
proof (intro conjI)
  show "mq_step sample_sent (StoreRejected ''wa:r'') (leave sample_sent ''wa:r'')"
    by (rule mq_step.rejected [OF sample_states(2)]) simp
qed (simp_all add: sample_eval Let_def process_retries_def process_retry_def js_keys_def)

text \<open>And the next message for the recipient makes the queue send the delivered one again.\<close>

lemma rejected_update_sends_again:
  "map msg_status (queue_of (leave sample_sent ''wa:r'') ''wa:r'') = [Delivered]
   \<and> map msg_status (queue_of (enqueue_internal (leave sample_sent ''wa:r'') (new_message 2 ''wa'' ''r'' ''yo'') 9) ''wa:r'')
     = [Sending, Queued]"
  by (simp add: sample_eval Let_def)

end
