(* ===== verification/GovernTool.thy ===== *)
theory GovernTool
  imports RunModel Policy Retry
begin

text \<open>
  The governed tool call of \<open>packages/agent/src/core/govern-tools/govern-tool.ts\<close> and \<open>types.ts\<close>, where
  the policy engine, the step life cycle, the retry loop and the audit trail meet. A call appends a step to the
  run, asks the policy, and then refuses, pauses for approval, or runs the tool under the retry loop and
  records what happened. The services are the in-memory ones the factory builds: audit entries, events and
  execution records are lists, \<open>runRepo.save\<close> stores the run. A tool attempt is what wins the race between
  the tool, its timer and the abort signal. A step is identified by its id, as the code shares the object.
\<close>

section \<open>State\<close>

type_synonym tool_step = "tool_args step"
type_synonym tool_run = "tool_args agent_run"

datatype audit_action =
    AuditBlocked string string string
  | AuditDenied string string string
  | AuditInvoked string tool_args string
  | AuditCompleted string string int nat nat
  | AuditFailed string string string int nat

record audit_entry =
  ae_actor :: string
  ae_resource_id :: string
  ae_action :: audit_action

datatype domain_event = StepStarted string string | StepCompletedEvent string string | StepFailedEvent string string string

record execution_record =
  x_run_id :: string
  x_step_id :: string
  x_action :: string
  x_success :: bool
  x_duration_ms :: int
  x_error :: "string option"

record gov_state =
  g_run :: tool_run
  g_actor :: string
  g_step_counter :: nat
  g_audit :: "audit_entry list"
  g_events :: "domain_event list"
  g_records :: "execution_record list"
  g_saved :: "tool_run option"

text \<open>What one attempt of the tool comes to.\<close>

datatype tool_race = ToolReturned string | ToolThrew thrown | TimerWon | AbortWon

record govern_config =
  gc_cwd :: string
  gc_regex :: "string \<Rightarrow> string \<Rightarrow> string \<Rightarrow> bool option"
  gc_rules :: "policy_rule list"
  gc_context :: "policy_context option"
  gc_policy_args :: "(string \<Rightarrow> tool_args \<Rightarrow> tool_args) option"
  gc_retry :: retry_policy
  gc_timeout_ms :: int

text \<open>The environment of one call: the step's fresh id, the clock, the attempts' races, the abort signal and
  the random numbers.\<close>

record call_env =
  ce_uuid :: string
  ce_planner_step :: "string option"
  ce_start :: int
  ce_end :: int
  ce_race :: "nat \<Rightarrow> tool_race"
  ce_aborted_before :: "nat \<Rightarrow> bool"
  ce_aborted_after :: "nat \<Rightarrow> bool"
  ce_random :: "nat \<Rightarrow> real"

datatype call_result = ToolResult string | CallDenied string | ApprovalRequired string string tool_args string string
  | CallFailed string

section \<open>The step of a call\<close>

definition create_tool_step :: "string \<Rightarrow> string option \<Rightarrow> string \<Rightarrow> tool_args \<Rightarrow> gov_state \<Rightarrow> tool_step \<times> gov_state" where
  "create_tool_step uuid planner tool args s =
     (let ord = g_step_counter s in
       (\<lparr>s_id = uuid, s_definition_id = ''tool-'' @ tool @ ''-'' @ show_nat ord, s_name = tool @ '' (#'' @ show_nat ord @ '')'',
         s_action = tool, s_input = args, s_condition = None, s_on_error = OnContinue, s_status = StepPending,
         s_order = int ord, s_output = [], s_error = None, s_started_at = None, s_completed_at = None,
         s_planner_step_name = planner\<rparr>,
        s\<lparr>g_step_counter := ord + 1\<rparr>))"

definition push_step :: "tool_step \<Rightarrow> gov_state \<Rightarrow> gov_state" where
  "push_step st s = s\<lparr>g_run := add_step_to_run_pure (g_run s) st\<rparr>"

text \<open>The step object in the run changes with every mutation.\<close>

definition put_step :: "tool_step \<Rightarrow> gov_state \<Rightarrow> gov_state" where
  "put_step st s = s\<lparr>g_run := replace_step_in_run_pure (g_run s) st\<rparr>"

definition log_audit :: "audit_action \<Rightarrow> gov_state \<Rightarrow> gov_state" where
  "log_audit a s = s\<lparr>g_audit := g_audit s @ [\<lparr>ae_actor = g_actor s, ae_resource_id = r_id (g_run s), ae_action = a\<rparr>]\<rparr>"

definition publish :: "domain_event \<Rightarrow> gov_state \<Rightarrow> gov_state" where
  "publish e s = s\<lparr>g_events := g_events s @ [e]\<rparr>"

definition learn :: "execution_record \<Rightarrow> gov_state \<Rightarrow> gov_state" where
  "learn x s = s\<lparr>g_records := g_records s @ [x]\<rparr>"

definition save_run :: "gov_state \<Rightarrow> gov_state" where
  "save_run s = s\<lparr>g_saved := Some (g_run s)\<rparr>"

text \<open>\<open>PolicyViolationError\<close>'s message.\<close>

definition violation_message :: "string \<Rightarrow> string \<Rightarrow> string" where
  "violation_message name reason = ''Policy '' @ [CHR 0x27] @ name @ [CHR 0x27] @ '' violated: '' @ reason"

text \<open>\<open>/^Policy '([^']+)'/\<close> on the approval reason, with its fallbacks.\<close>

definition approval_policy_name :: "string \<Rightarrow> string" where
  "approval_policy_name reason = (
     if starts_with reason (''Policy '' @ [CHR 0x27]) then
       (let rest = drop 8 reason; name = takeWhile (\<lambda>c. c \<noteq> CHR 0x27) rest in
         if name \<noteq> [] \<and> length name < length rest then name else ''require_approval'')
     else ''require_approval'')"

section \<open>The call\<close>

definition policy_view :: "tool_step \<Rightarrow> policy_step" where
  "policy_view st = \<lparr>step_action = s_action st, step_input = s_input st\<rparr>"

definition block_call :: "call_env \<Rightarrow> string \<Rightarrow> tool_args \<Rightarrow> tool_step \<Rightarrow> string \<Rightarrow> gov_state \<Rightarrow> gov_state \<times> call_result" where
  "block_call e tool step_args st reason s =
     (let st1 = fst (start_step (ce_start e) st);
          st2 = fst (block_step (ce_start e) st1 reason);
          s1 = save_run (log_audit (AuditBlocked tool reason (s_id st2)) (put_step st2 s)) in
       (s1, ApprovalRequired (r_id (g_run s1)) (s_id st2) step_args reason (approval_policy_name reason)))"

definition deny_call :: "call_env \<Rightarrow> string \<Rightarrow> tool_step \<Rightarrow> string \<Rightarrow> gov_state \<Rightarrow> gov_state \<times> call_result" where
  "deny_call e tool st msg s =
     (let st1 = fst (start_step (ce_start e) st);
          st2 = fst (fail_step (ce_start e) st1 (''Denied by policy: '' @ msg));
          s1 = save_run (log_audit (AuditDenied tool msg (s_id st2)) (put_step st2 s)) in
       (s1, CallDenied (''DENIED: '' @ msg @ ''. This action is forbidden by governance policy.'')))"

definition race_outcome :: "string \<Rightarrow> int \<Rightarrow> tool_race \<Rightarrow> string outcome" where
  "race_outcome tool timeout_ms r =
     (let named = ''Tool '' @ [CHR 0x22] @ tool @ [CHR 0x22] in
       case r of ToolReturned v \<Rightarrow> Returned v
       | ToolThrew err \<Rightarrow> Threw err
       | TimerWon \<Rightarrow> Threw (JsError (named @ '' timed out after '' @ show_int timeout_ms @ ''ms''))
       | AbortWon \<Rightarrow> Threw (JsError (named @ '' cancelled'')))"

definition retry_of :: "govern_config \<Rightarrow> call_env \<Rightarrow> string \<Rightarrow> string retry_env" where
  "retry_of c e tool = \<lparr>env_fn = (\<lambda>i. race_outcome tool (gc_timeout_ms c) (ce_race e i)),
     env_aborted_before = ce_aborted_before e, env_aborted_after = ce_aborted_after e, env_random = ce_random e\<rparr>"

definition execution :: "gov_state \<Rightarrow> call_env \<Rightarrow> string \<Rightarrow> tool_step \<Rightarrow> string option \<Rightarrow> execution_record" where
  "execution s e tool st err = \<lparr>x_run_id = r_id (g_run s), x_step_id = s_id st, x_action = tool, x_success = (err = None),
     x_duration_ms = ce_end e - ce_start e, x_error = err\<rparr>"

definition run_call :: "govern_config \<Rightarrow> call_env \<Rightarrow> string \<Rightarrow> tool_args \<Rightarrow> tool_step \<Rightarrow> gov_state \<Rightarrow> gov_state \<times> call_result" where
  "run_call c e tool step_args st s =
     (let st1 = fst (start_step (ce_start e) st);
          s1 = log_audit (AuditInvoked tool step_args (s_id st1))
                 (publish (StepStarted (r_id (g_run s)) (s_id st1)) (put_step st1 s));
          r = fst (with_tool_retry (retry_of c e tool) (gc_retry c));
          duration = ce_end e - ce_start e in
       if \<not> rr_success r then
         let msg = (case rr_last_error r of Some m \<Rightarrow> m | None \<Rightarrow> ''Tool execution failed'');
             st2 = fst (fail_step (ce_end e) st1 msg);
             s2 = publish (StepFailedEvent (r_id (g_run s1)) (s_id st2) msg) (put_step st2 s1);
             s3 = save_run (log_audit (AuditFailed tool (s_id st2) msg duration (rr_attempts r))
                    (learn (execution s2 e tool st2 (Some msg)) s2)) in
         (s3, CallFailed msg)
       else
         let result = the (rr_value r);
             st2 = fst (complete_step [] (ce_end e) st1
               (Some [(''result'', JStr result), (''durationMs'', JNum duration), (''attempts'', JNum (int (rr_attempts r)))]));
             s2 = publish (StepCompletedEvent (r_id (g_run s1)) (s_id st2)) (put_step st2 s1);
             s3 = save_run (log_audit (AuditCompleted tool (s_id st2) duration (length result) (rr_attempts r))
                    (learn (execution s2 e tool st2 None) s2)) in
         (s3, ToolResult result))"

definition govern_execute :: "govern_config \<Rightarrow> call_env \<Rightarrow> string \<Rightarrow> tool_args \<Rightarrow> gov_state \<Rightarrow> gov_state \<times> call_result" where
  "govern_execute c e tool args s =
     (let persisted = strip_runtime_tool_args args;
          step_args = (case gc_policy_args c of Some f \<Rightarrow> f tool persisted | None \<Rightarrow> persisted);
          (st, s0) = create_tool_step (ce_uuid e) (ce_planner_step e) tool step_args s;
          s1 = push_step st s0 in
       case evaluate_pre_step (gc_cwd c) (gc_regex c) (gc_rules c) (policy_view st) (gc_context c) of
         AskApproval reason \<Rightarrow> block_call e tool step_args st reason s1
       | PolicyViolation name reason \<Rightarrow> deny_call e tool st (violation_message name reason) s1
       | Proceed \<Rightarrow> run_call c e tool step_args st s1)"

section \<open>What a call leaves behind\<close>

definition fresh_step :: "call_env \<Rightarrow> string \<Rightarrow> tool_args \<Rightarrow> gov_state \<Rightarrow> tool_step" where
  "fresh_step e tool step_args s = fst (create_tool_step (ce_uuid e) (ce_planner_step e) tool step_args s)"

lemma fresh_step_simps [simp]:
  "s_id (fresh_step e tool a s) = ce_uuid e" "s_status (fresh_step e tool a s) = StepPending"
  "s_action (fresh_step e tool a s) = tool" "s_input (fresh_step e tool a s) = a"
  "s_order (fresh_step e tool a s) = int (g_step_counter s)"
  by (simp_all add: fresh_step_def create_tool_step_def Let_def)

text \<open>The moves the call makes are all allowed.\<close>

lemma started_step:
  "s_status st = StepPending \<Longrightarrow>
     start_step now st = (st\<lparr>s_status := StepRunning, s_started_at := Some now\<rparr>, None)"
  by (simp add: start_step_def transition_step_def)

lemma running_moves:
  "s_status st = StepRunning \<Longrightarrow> fail_step now st msg = (st\<lparr>s_status := StepFailed, s_error := Some msg, s_completed_at := Some now\<rparr>, None)"
  "s_status st = StepRunning \<Longrightarrow> block_step now st msg = (st\<lparr>s_status := StepBlocked, s_error := Some msg, s_completed_at := Some now\<rparr>, None)"
  "s_status st = StepRunning \<Longrightarrow> complete_step d now st (Some out) = (st\<lparr>s_status := StepCompleted, s_output := out, s_completed_at := Some now\<rparr>, None)"
  by (simp_all add: fail_step_def block_step_def complete_step_def transition_step_def)

definition step_args_of :: "govern_config \<Rightarrow> string \<Rightarrow> tool_args \<Rightarrow> tool_args" where
  "step_args_of c tool args = (case gc_policy_args c of Some f \<Rightarrow> f tool (strip_runtime_tool_args args)
     | None \<Rightarrow> strip_runtime_tool_args args)"

definition call_decision :: "govern_config \<Rightarrow> string \<Rightarrow> tool_args \<Rightarrow> decision" where
  "call_decision c tool args = evaluate_pre_step (gc_cwd c) (gc_regex c) (gc_rules c)
     \<lparr>step_action = tool, step_input = step_args_of c tool args\<rparr> (gc_context c)"

lemma govern_execute_cases:
  "govern_execute c e tool args s =
    (let a = step_args_of c tool args; st = fresh_step e tool a s;
         s1 = s\<lparr>g_step_counter := g_step_counter s + 1, g_run := add_step_to_run_pure (g_run s) st\<rparr> in
     case call_decision c tool args of
       AskApproval reason \<Rightarrow> block_call e tool a st reason s1
     | PolicyViolation name reason \<Rightarrow> deny_call e tool st (violation_message name reason) s1
     | Proceed \<Rightarrow> run_call c e tool a st s1)"
proof -
  have args: "(case gc_policy_args c of Some f \<Rightarrow> f tool (strip_runtime_tool_args args)
      | None \<Rightarrow> strip_runtime_tool_args args) = step_args_of c tool args"
    by (simp add: step_args_of_def)
  have create: "create_tool_step (ce_uuid e) (ce_planner_step e) tool a s
      = (fresh_step e tool a s, s\<lparr>g_step_counter := g_step_counter s + 1\<rparr>)" for a
    by (simp add: fresh_step_def create_tool_step_def Let_def)
  have push: "push_step st (s\<lparr>g_step_counter := n\<rparr>)
      = s\<lparr>g_step_counter := n, g_run := add_step_to_run_pure (g_run s) st\<rparr>" for st n
    by (simp add: push_step_def)
  have view: "policy_view (fresh_step e tool a s) = \<lparr>step_action = tool, step_input = a\<rparr>" for a
    by (simp add: policy_view_def)
  show ?thesis
    unfolding govern_execute_def Let_def args create prod.case push view call_decision_def ..
qed

text \<open>The result of the retry loop, as the call reads it.\<close>

definition call_retry :: "govern_config \<Rightarrow> call_env \<Rightarrow> string \<Rightarrow> string retry_result" where
  "call_retry c e tool = fst (with_tool_retry (retry_of c e tool) (gc_retry c))"

definition failure_text :: "string retry_result \<Rightarrow> string" where
  "failure_text r = (case rr_last_error r of Some m \<Rightarrow> m | None \<Rightarrow> ''Tool execution failed'')"

definition entry :: "gov_state \<Rightarrow> audit_action \<Rightarrow> audit_entry" where
  "entry s a = \<lparr>ae_actor = g_actor s, ae_resource_id = r_id (g_run s), ae_action = a\<rparr>"

definition settled_step :: "govern_config \<Rightarrow> call_env \<Rightarrow> string \<Rightarrow> tool_args \<Rightarrow> gov_state \<Rightarrow> tool_step" where
  "settled_step c e tool args s =
     (let st = (fresh_step e tool (step_args_of c tool args) s)\<lparr>s_status := StepRunning, s_started_at := Some (ce_start e)\<rparr>;
          r = call_retry c e tool in
      case call_decision c tool args of
        AskApproval reason \<Rightarrow> st\<lparr>s_status := StepBlocked, s_error := Some reason, s_completed_at := Some (ce_start e)\<rparr>
      | PolicyViolation name reason \<Rightarrow> st\<lparr>s_status := StepFailed,
          s_error := Some (''Denied by policy: '' @ violation_message name reason), s_completed_at := Some (ce_start e)\<rparr>
      | Proceed \<Rightarrow>
          if rr_success r
          then st\<lparr>s_status := StepCompleted, s_output := [(''result'', JStr (the (rr_value r))),
                 (''durationMs'', JNum (ce_end e - ce_start e)), (''attempts'', JNum (int (rr_attempts r)))],
               s_completed_at := Some (ce_end e)\<rparr>
          else st\<lparr>s_status := StepFailed, s_error := Some (failure_text r), s_completed_at := Some (ce_end e)\<rparr>)"

definition call_audit :: "govern_config \<Rightarrow> call_env \<Rightarrow> string \<Rightarrow> tool_args \<Rightarrow> audit_action list" where
  "call_audit c e tool args = (let r = call_retry c e tool; id = ce_uuid e; ms = ce_end e - ce_start e in
     case call_decision c tool args of
       AskApproval reason \<Rightarrow> [AuditBlocked tool reason id]
     | PolicyViolation name reason \<Rightarrow> [AuditDenied tool (violation_message name reason) id]
     | Proceed \<Rightarrow> [AuditInvoked tool (step_args_of c tool args) id,
         if rr_success r then AuditCompleted tool id ms (length (the (rr_value r))) (rr_attempts r)
         else AuditFailed tool id (failure_text r) ms (rr_attempts r)])"

definition call_answer :: "govern_config \<Rightarrow> call_env \<Rightarrow> string \<Rightarrow> tool_args \<Rightarrow> gov_state \<Rightarrow> call_result" where
  "call_answer c e tool args s = (let r = call_retry c e tool in
     case call_decision c tool args of
       AskApproval reason \<Rightarrow> ApprovalRequired (r_id (g_run s)) (ce_uuid e) (step_args_of c tool args) reason (approval_policy_name reason)
     | PolicyViolation name reason \<Rightarrow>
         CallDenied (''DENIED: '' @ violation_message name reason @ ''. This action is forbidden by governance policy.'')
     | Proceed \<Rightarrow> if rr_success r then ToolResult (the (rr_value r)) else CallFailed (failure_text r))"

lemmas gov_defs = put_step_def log_audit_def publish_def learn_def save_run_def add_step_to_run_pure_def

lemma put_fresh:
  assumes "uuid \<notin> s_id ` set (r_steps (g_run s))" "s_id st = uuid"
  shows "replace_step_in_run_pure ((g_run s)\<lparr>r_steps := r_steps (g_run s) @ [x]\<rparr>) st
    = (if s_id x = uuid then (g_run s)\<lparr>r_steps := r_steps (g_run s) @ [st]\<rparr>
       else (g_run s)\<lparr>r_steps := r_steps (g_run s) @ [x]\<rparr>)"
proof -
  have "map (\<lambda>s. if s_id s = uuid then st else s) (r_steps (g_run s)) = r_steps (g_run s)"
    using assms(1) by (intro map_idI) auto
  then show ?thesis using assms(2) by (simp add: replace_step_in_run_pure_def)
qed

lemma govern_call_effect:
  assumes "ce_uuid e \<notin> s_id ` set (r_steps (g_run s))"
  shows "let (t, answer) = govern_execute c e tool args s in
    r_steps (g_run t) = r_steps (g_run s) @ [settled_step c e tool args s]
    \<and> g_step_counter t = g_step_counter s + 1
    \<and> g_audit t = g_audit s @ map (entry s) (call_audit c e tool args)
    \<and> length (g_events t) = length (g_events s) + (if call_decision c tool args = Proceed then 2 else 0)
    \<and> length (g_records t) = length (g_records s) + (if call_decision c tool args = Proceed then 1 else 0)
    \<and> answer = call_answer c e tool args s
    \<and> g_saved t = Some (g_run t) \<and> r_status (g_run t) = r_status (g_run s)"
proof (cases "call_decision c tool args")
  case Proceed
  then show ?thesis
    using assms
    by (simp add: govern_execute_cases run_call_def Let_def gov_defs started_step running_moves put_fresh
        settled_step_def call_audit_def call_answer_def call_retry_def [symmetric] failure_text_def entry_def)
next
  case (AskApproval reason)
  then show ?thesis
    using assms
    by (simp add: govern_execute_cases block_call_def Let_def gov_defs started_step running_moves put_fresh
        settled_step_def call_audit_def call_answer_def entry_def)
next
  case (PolicyViolation name reason)
  then show ?thesis
    using assms
    by (simp add: govern_execute_cases deny_call_def Let_def gov_defs started_step running_moves put_fresh
        settled_step_def call_audit_def call_answer_def entry_def)
qed


text \<open>A call the policy refuses or pauses never depends on the tool: whatever the tool, its timer, the abort signal
  and the random numbers would have done, the state and the answer are the same.\<close>

theorem refused_call_never_runs:
  assumes "call_decision c tool args \<noteq> Proceed"
  shows "govern_execute c (e\<lparr>ce_end := x, ce_race := r, ce_aborted_before := b, ce_aborted_after := f, ce_random := n\<rparr>) tool args s
    = govern_execute c e tool args s"
  using assms
  by (cases "call_decision c tool args")
    (simp_all add: govern_execute_cases Let_def block_call_def deny_call_def fresh_step_def create_tool_step_def)

section \<open>Sequences of calls\<close>

type_synonym governed_call = "call_env \<times> string \<times> tool_args"

definition govern_all :: "govern_config \<Rightarrow> governed_call list \<Rightarrow> gov_state \<Rightarrow> gov_state" where
  "govern_all c calls s = foldl (\<lambda>s (e, tool, args). fst (govern_execute c e tool args s)) s calls"

definition new_gov_state :: "tool_run \<Rightarrow> string \<Rightarrow> gov_state" where
  "new_gov_state r who = \<lparr>g_run = r, g_actor = who, g_step_counter = 0, g_audit = [], g_events = [], g_records = [], g_saved = None\<rparr>"

fun audit_step :: "audit_action \<Rightarrow> string" where
  "audit_step (AuditBlocked tool reason i) = i"
| "audit_step (AuditDenied tool reason i) = i"
| "audit_step (AuditInvoked tool args i) = i"
| "audit_step (AuditCompleted tool i ms n k) = i"
| "audit_step (AuditFailed tool i msg ms k) = i"

definition trail_of :: "gov_state \<Rightarrow> string \<Rightarrow> audit_action list" where
  "trail_of s i = filter (\<lambda>a. audit_step a = i) (map ae_action (g_audit s))"

fun trail_fits :: "step_status \<Rightarrow> audit_action list \<Rightarrow> bool" where
  "trail_fits StepCompleted [AuditInvoked t a i, AuditCompleted u j ms n k] = True"
| "trail_fits StepFailed [AuditDenied t m i] = True"
| "trail_fits StepFailed [AuditInvoked t a i, AuditFailed u j m ms k] = True"
| "trail_fits StepBlocked [AuditBlocked t m i] = True"
| "trail_fits st as = False"

lemma call_audit_step: "a \<in> set (call_audit c e tool args) \<Longrightarrow> audit_step a = ce_uuid e"
  by (auto simp: call_audit_def Let_def split: decision.splits if_splits)

lemma call_audit_fits: "trail_fits (s_status (settled_step c e tool args s)) (call_audit c e tool args)"
  by (auto simp: call_audit_def settled_step_def Let_def split: decision.splits)

lemma settled_step_simps [simp]:
  "s_id (settled_step c e tool args s) = ce_uuid e" "s_order (settled_step c e tool args s) = int (g_step_counter s)"
  by (simp_all add: settled_step_def Let_def split: decision.splits)

definition is_invoked :: "audit_action \<Rightarrow> bool" where
  "is_invoked a = (case a of AuditInvoked t args i \<Rightarrow> True | _ \<Rightarrow> False)"

lemma call_audit_invoked:
  "length (filter is_invoked (call_audit c e tool args)) = (if call_decision c tool args = Proceed then 1 else 0)"
  by (simp add: call_audit_def is_invoked_def Let_def split: decision.splits)

definition trail_inv :: "governed_call list \<Rightarrow> gov_state \<Rightarrow> bool" where
  "trail_inv calls t = (map s_id (r_steps (g_run t)) = map (\<lambda>x. ce_uuid (fst x)) calls
     \<and> map s_order (r_steps (g_run t)) = map int [0..<length calls] \<and> g_step_counter t = length calls
     \<and> (\<forall>st\<in>set (r_steps (g_run t)). trail_fits (s_status st) (trail_of t (s_id st)))
     \<and> (\<forall>a\<in>set (map ae_action (g_audit t)). audit_step a \<in> s_id ` set (r_steps (g_run t)))
     \<and> length (g_records t) = length (filter is_invoked (map ae_action (g_audit t))))"

lemma trail_inv_step:
  assumes "trail_inv calls s" "distinct (map (\<lambda>x. ce_uuid (fst x)) (calls @ [(e, tool, args)]))"
  shows "trail_inv (calls @ [(e, tool, args)]) (fst (govern_execute c e tool args s))"
proof -
  let ?t = "fst (govern_execute c e tool args s)"
  have ids: "s_id ` set (r_steps (g_run s)) = (\<lambda>x. ce_uuid (fst x)) ` set calls"
    using assms(1) unfolding trail_inv_def by (metis list.set_map)
  then have fresh: "ce_uuid e \<notin> s_id ` set (r_steps (g_run s))" using assms(2) by auto
  have eff: "r_steps (g_run ?t) = r_steps (g_run s) @ [settled_step c e tool args s]"
      "g_step_counter ?t = g_step_counter s + 1"
      "map ae_action (g_audit ?t) = map ae_action (g_audit s) @ call_audit c e tool args"
      "length (g_records ?t) = length (g_records s) + (if call_decision c tool args = Proceed then 1 else 0)"
    using govern_call_effect [OF fresh, of c tool args] by (auto simp: entry_def comp_def split: prod.splits)
  have old: "trail_of ?t i = trail_of s i" if "i \<noteq> ce_uuid e" for i
    using that call_audit_step [of _ c e tool args] by (auto simp: trail_of_def eff(3) filter_empty_conv)
  have none: "trail_of s (ce_uuid e) = []"
  proof -
    define ids where "ids = s_id ` set (r_steps (g_run s))"
    have "\<forall>a\<in>set (g_audit s). audit_step (ae_action a) \<in> ids" "ce_uuid e \<notin> ids"
      using assms(1) fresh by (simp_all add: trail_inv_def ids_def)
    then show ?thesis by (auto simp: trail_of_def filter_empty_conv)
  qed
  then have new: "trail_of ?t (ce_uuid e) = call_audit c e tool args"
    using call_audit_step [of _ c e tool args] by (auto simp: trail_of_def eff(3) filter_id_conv)
  have "\<forall>st\<in>set (r_steps (g_run ?t)). trail_fits (s_status st) (trail_of ?t (s_id st))"
  proof
    fix st
    assume "st \<in> set (r_steps (g_run ?t))"
    then consider "st = settled_step c e tool args s" | "st \<in> set (r_steps (g_run s))" "s_id st \<noteq> ce_uuid e"
      using fresh unfolding eff(1) by simp (metis image_eqI)
    then show "trail_fits (s_status st) (trail_of ?t (s_id st))"
    proof cases
      case 1
      then show ?thesis using new call_audit_fits by simp
    next
      case 2
      then show ?thesis using old assms(1) by (simp add: trail_inv_def)
    qed
  qed
  moreover have "\<forall>a\<in>set (map ae_action (g_audit ?t)). audit_step a \<in> s_id ` set (r_steps (g_run ?t))"
    using assms(1) call_audit_step [of _ c e tool args] unfolding eff(1,3) by (auto simp: trail_inv_def)
  moreover have "length (g_records ?t) = length (filter is_invoked (map ae_action (g_audit ?t)))"
    using assms(1) unfolding eff(3,4) by (simp add: trail_inv_def call_audit_invoked)
  moreover have "map s_id (r_steps (g_run ?t)) = map (\<lambda>x. ce_uuid (fst x)) (calls @ [(e, tool, args)])"
    "map s_order (r_steps (g_run ?t)) = map int [0..<length (calls @ [(e, tool, args)])]"
    "g_step_counter ?t = length (calls @ [(e, tool, args)])"
    using assms(1) by (simp_all add: trail_inv_def eff(1,2))
  ultimately show ?thesis unfolding trail_inv_def by blast
qed

text \<open>C10: After any sequence of governed calls with distinct step ids on a run without steps: the run has one step per
  call, in order and numbered from zero; no step is left pending or running; each step's audit entries are
  exactly the ones its status calls for; and there is one execution record per invoked tool.\<close>

theorem audit_trail_complete:
  assumes "distinct (map (\<lambda>x. ce_uuid (fst x)) calls)" "r_steps r = []"
  shows "let t = govern_all c calls (new_gov_state r who) in
    map s_id (r_steps (g_run t)) = map (\<lambda>x. ce_uuid (fst x)) calls
    \<and> map s_order (r_steps (g_run t)) = map int [0..<length calls]
    \<and> list_all (\<lambda>st. s_status st \<in> {StepCompleted, StepFailed, StepBlocked}
         \<and> trail_fits (s_status st) (trail_of t (s_id st))) (r_steps (g_run t))
    \<and> length (g_records t) = length (filter is_invoked (map ae_action (g_audit t)))"
proof -
  have inv: "trail_inv calls (govern_all c calls (new_gov_state r who))"
    using assms(1)
  proof (induction calls rule: rev_induct)
    case Nil
    then show ?case using assms(2) by (simp add: trail_inv_def govern_all_def new_gov_state_def)
  next
    case (snoc call calls)
    obtain e tool args where call: "call = (e, tool, args)" by (cases call) auto
    have "trail_inv calls (govern_all c calls (new_gov_state r who))" using snoc by simp
    then show ?case
      using trail_inv_step [of calls _ e tool args c] snoc.prems call by (simp add: govern_all_def)
  qed
  have "trail_fits k as \<Longrightarrow> k \<in> {StepCompleted, StepFailed, StepBlocked}" for k as
    by (cases k) auto
  then show ?thesis
    using inv by (auto simp: trail_inv_def Let_def list_all_iff)
qed

section \<open>A run with a paused and a refused call\<close>

definition sample_call_env :: "string \<Rightarrow> call_env" where
  "sample_call_env i = \<lparr>ce_uuid = i, ce_planner_step = None, ce_start = 10, ce_end = 15, ce_race = (\<lambda>k. ToolReturned ''ok''),
     ce_aborted_before = (\<lambda>k. False), ce_aborted_after = (\<lambda>k. False), ce_random = (\<lambda>k. 0)\<rparr>"

definition sample_config :: govern_config where
  "sample_config = \<lparr>gc_cwd = ''/srv'', gc_regex = (\<lambda>s f t. None), gc_rules = [
     \<lparr>rule_name = ''ask'', rule_effect = RequireApproval, rule_condition = ''action:write_file'',
      rule_parameters = \<lparr>p_priority = None, p_selectors = None, p_reason = None\<rparr>\<rparr>],
     gc_context = None, gc_policy_args = None, gc_retry = tool_retry_policy, gc_timeout_ms = 60000\<rparr>"

definition sample_state :: gov_state where
  "sample_state = new_gov_state (create_run ''u'' 0 ''wf'' [] (Some ''run1'')) ''agent''"

definition sample_calls :: "governed_call list" where
  "sample_calls = [(sample_call_env ''s1'', ''read_file'', []), (sample_call_env ''s2'', ''write_file'', [])]"

lemma sample_decisions:
  "call_decision sample_config ''read_file'' [] = Proceed"
  "call_decision sample_config ''write_file'' [] \<noteq> Proceed"
  by (simp_all add: call_decision_def sample_config_def evaluate_pre_step_def has_tool_approval_grant_def
      matches_legacy_def resolve_selector_rules_def better_rule_def)


theorem refused_call_never_runs_witness:
  "govern_execute sample_config ((sample_call_env ''s2'')\<lparr>ce_race := (\<lambda>k. ToolThrew (JsError ''boom''))\<rparr>) ''write_file'' [] sample_state
   = govern_execute sample_config (sample_call_env ''s2'') ''write_file'' [] sample_state"
  using refused_call_never_runs [OF sample_decisions(2), where e = "sample_call_env ''s2''" and x = 15
      and r = "\<lambda>k. ToolThrew (JsError ''boom'')" and b = "\<lambda>k. False" and f = "\<lambda>k. False" and n = "\<lambda>k. 0"
      and s = sample_state]
  by (simp add: sample_call_env_def)

theorem audit_trail_complete_witness:
  "map s_order (r_steps (g_run (govern_all sample_config sample_calls sample_state))) = [0, 1]"
proof -
  have "map s_order (r_steps (g_run (govern_all sample_config sample_calls
      (new_gov_state (create_run ''u'' 0 ''wf'' [] (Some ''run1'')) ''agent'')))) = map int [0..<length sample_calls]"
    using audit_trail_complete [of sample_calls "create_run ''u'' 0 ''wf'' [] (Some ''run1'')" sample_config "''agent''"]
    by (simp add: sample_calls_def sample_call_env_def create_run_def Let_def)
  then show ?thesis by (simp add: sample_state_def sample_calls_def)
qed

end
