(* ===== verification/VerifyModel.thy ===== *)
theory VerifyModel
  imports Pipeline Regex "HOL-Library.Sublist" "HOL-Library.Char_ord" "HOL-Library.List_Lexorder"
begin

text \<open>
  What the planner makes of a verification: the classification of an issue from its text, its owners, the
  enriched assessments, the identity by which a repeated failure is recognised, the repair plan and the
  acceptance states (\<open>packages/agent/src/core/plan/internal/verification-inference.ts\<close>,
  \<open>core/plan/verification-model/index.ts\<close>, \<open>applyVerificationAcceptanceStates\<close> of
  \<open>core/plan/orchestrator/helpers.ts\<close>). Confidences are real numbers.
\<close>

section \<open>Inference from the text of an issue\<close>

definition unique_strings :: "string list \<Rightarrow> string list" where
  "unique_strings values = set_of_list (filter (\<lambda>v. v \<noteq> []) values)"

definition extract_paths :: "string \<Rightarrow> string list" where
  "extract_paths t = unique_strings (map normalize_artifact_path
     (rx_all flag_none ''(?:[A-Za-z0-9_./-]+~.[A-Za-z0-9]{1,8})'' t))"

definition issue_code_patterns :: "(string \<times> string) list" where
  "issue_code_patterns =
     [(''Cross-file signature mismatch'', ''cross_file_signature_mismatch''),
      (''Import~/export mismatch'', ''import_export_mismatch''),
      (''Integration gap'', ''integration_gap''),
      (''Browser module mismatch'', ''browser_module_mismatch''),
      (''Style integration gap'', ''style_integration_gap''),
      (''SPEC FUNCTION MISMATCH'', ''spec_function_mismatch''),
      (''SPEC STRUCTURE MISMATCH'', ''spec_structure_mismatch''),
      (''SPEC MAPPING MISSING'', ''spec_mapping_missing''),
      (''PATH MISMATCH'', ''path_mismatch''),
      (''SCOPE VIOLATION'', ''scope_violation''),
      (''Test run|Syntax error|Syntax validation failed'', ''syntax_failure''),
      (''Placeholder|stub'', ''placeholder_logic''),
      (''VERIFICATION MODALITY GAP|CRITERIA PROOF MISSING'', ''verification_gap''),
      (''FUNCTION LOSS'', ''function_loss'')]"

definition slug :: "string \<Rightarrow> string" where
  "slug summary =
     (let s = take 80 (rx_replace_all flag_none ''^_+|_+$'' []
                (rx_replace_all flag_none ''[^a-z0-9]+'' ''_'' (js_lower summary)))
      in if s = [] then ''verification_issue'' else s)"

definition infer_issue_code :: "string \<Rightarrow> string" where
  "infer_issue_code summary =
     (let c = (case rx_capture flag_none ''^~[contract:'' ''~w+'' ''~]'' summary of None \<Rightarrow> [] | Some c \<Rightarrow> c)
      in if c \<noteq> [] then ''contract_'' @ c
         else (case find (\<lambda>p. rx_test flag_i (fst p) summary) issue_code_patterns of
             Some p \<Rightarrow> snd p
           | None \<Rightarrow> slug summary))"

definition infer_severity :: "string \<Rightarrow> severity" where
  "infer_severity summary =
     (if rx_test flag_i ''FUNCTION LOSS|contradictory_completion_claim|unresolved_handoff_output|fatal'' summary
      then SevFatal
      else if rx_test flag_i ''fail|error|mismatch|missing|violation|corrupted|gibberish|syntax|rejected'' summary
      then SevError else SevWarning)"

definition integration_re :: string where
  "integration_re =
     ''Cross-file signature mismatch|Import~/export mismatch|Integration gap|Browser module mismatch|Style integration gap''"

definition infer_repair_class :: "string \<Rightarrow> repair_class" where
  "infer_repair_class summary = (let has = (\<lambda>re. rx_test flag_i re summary) in
     if has integration_re then IntegrationWiring
     else if has ''Browser check|runtime|Uncaught Exceptions|Console Errors|Network Failures'' then RuntimeFailure
     else if has ''Syntax error|Syntax validation failed'' then SyntaxFailure
     else if has ''Placeholder|stub|trivial return|returns constant'' then PlaceholderLogic
     else if has ''PATH MISMATCH|SCOPE VIOLATION'' then PathScope
     else if has ''SPEC FUNCTION MISMATCH|SPEC STRUCTURE MISMATCH|BLUEPRINT|contract'' then ContractDrift
     else if has ''Integration gap|module mismatch|wiring|load|stylesheet rules'' then IntegrationWiring
     else if has ''VERIFICATION MODALITY GAP|CRITERIA PROOF MISSING'' then VerificationGap
     else OwnerImplementation)"

definition infer_issue_confidence :: "evidence_source \<Rightarrow> string \<Rightarrow> ownership_mode \<Rightarrow> string list \<Rightarrow> real" where
  "infer_issue_confidence source summary mode suspected =
     (let base = (case source of FromContract \<Rightarrow> 95 / 100 | FromDeterministic \<Rightarrow> 85 / 100 | FromLlm \<Rightarrow> 65 / 100);
          ambiguity = (case mode of DeterministicOwner \<Rightarrow> 0 | SharedOwners \<Rightarrow> 12 / 100
            | IntegrationLayer \<Rightarrow> 18 / 100 | PlannerFault \<Rightarrow> 15 / 100 | Ambiguous \<Rightarrow> 22 / 100);
          owners = (if length suspected \<le> 1 then 0 else min (2 / 10) ((real (length suspected) - 1) * (7 / 100)));
          wording = (if rx_test flag_i ''maybe|appears|likely|suggests|possible'' summary then 8 / 100 else 0)
      in max (2 / 10) (min (99 / 100) (base - ambiguity - owners - wording)))"

definition is_dependency_gate_issue :: "verifier_issue \<Rightarrow> bool" where
  "is_dependency_gate_issue issue =
     (starts_with (vi_code issue) ''waiting_on_accepted_upstream_artifacts''
      \<or> rx_test flag_i ''^Waiting on accepted upstream artifacts:'' (vi_summary issue))"

definition source_name :: "evidence_source \<Rightarrow> string" where
  "source_name s = (case s of FromContract \<Rightarrow> ''contract'' | FromDeterministic \<Rightarrow> ''deterministic'' | FromLlm \<Rightarrow> ''llm'')"

definition build_evidence_id :: "string \<Rightarrow> evidence_source \<Rightarrow> nat \<Rightarrow> string \<Rightarrow> string" where
  "build_evidence_id n source i code =
     n @ '':'' @ source_name source @ '':'' @ show_nat i @ '':'' @ code"

definition get_subagent_step :: "plan \<Rightarrow> string \<Rightarrow> subagent_step option" where
  "get_subagent_step p n = (case find (\<lambda>s. step_name s = n) (steps p) of
      None \<Rightarrow> None
    | Some s \<Rightarrow> (case body s of SubagentTask sa \<Rightarrow> Some sa | DeterministicTool t \<Rightarrow> None))"

definition is_blueprint_like_step :: "string \<Rightarrow> subagent_step option \<Rightarrow> bool" where
  "is_blueprint_like_step n sa = (case sa of None \<Rightarrow> False
     | Some s \<Rightarrow> rx_test flag_i ''blueprint'' n
         \<or> list_ex (rx_test flag_i ''(?:^|~/)BLUEPRINT~.md$'') (target_artifacts (sa_context s)))"

definition normalized_targets :: "subagent_step option \<Rightarrow> string list" where
  "normalized_targets sa = (case sa of None \<Rightarrow> []
     | Some s \<Rightarrow> map normalize_artifact_path (target_artifacts (sa_context s)))"

definition normalized_sources :: "subagent_step option \<Rightarrow> string list" where
  "normalized_sources sa = (case sa of None \<Rightarrow> []
     | Some s \<Rightarrow> map normalize_artifact_path (required_source_artifacts (sa_context s)))"

definition infer_affected_artifacts :: "subagent_step option \<Rightarrow> string \<Rightarrow> string list" where
  "infer_affected_artifacts sa summary =
     (let extracted = extract_paths summary in if length extracted > 0 then extracted else normalized_targets sa)"

definition infer_source_artifacts :: "subagent_step option \<Rightarrow> string \<Rightarrow> string list" where
  "infer_source_artifacts sa summary =
     (let sources = filter (\<lambda>path. path \<notin> set (normalized_targets sa)) (extract_paths summary)
      in if length sources > 0 then sources else normalized_sources sa)"

section \<open>Owners\<close>

record attribution =
  at_owner :: string
  at_suspected :: "string list"
  at_primary :: "string option"
  at_mode :: ownership_mode
  at_confidence :: real

definition owner_of_artifact :: "runtime_model \<Rightarrow> string \<Rightarrow> string option" where
  "owner_of_artifact rm artifact = (case js_get (ownership_graph rm) artifact of None \<Rightarrow> None | Some n \<Rightarrow> own_step n)"

definition candidate_owners_of :: "runtime_model \<Rightarrow> string list \<Rightarrow> string list \<Rightarrow> string list" where
  "candidate_owners_of rm affected sources =
     unique_strings (List.map_filter (owner_of_artifact rm)
       (unique_strings (map normalize_artifact_path (affected @ sources))))"

definition choose_owners ::
  "string \<Rightarrow> bool \<Rightarrow> bool \<Rightarrow> bool \<Rightarrow> string list \<Rightarrow> ownership_mode \<times> string list \<times> string option" where
  "choose_owners n blueprint_fault mentions_planner is_integration owners =
     (if blueprint_fault then (PlannerFault, [n], Some n)
      else if mentions_planner then
        (PlannerFault, unique_strings (n # owners), Some (case owners of [] \<Rightarrow> n | w # ws \<Rightarrow> w))
      else if is_integration \<and> length owners > 1 then (IntegrationLayer, owners, None)
      else if length owners > 1 then (SharedOwners, owners, Some (hd owners))
      else if length owners = 1 then (DeterministicOwner, owners, Some (hd owners))
      else (if is_integration then IntegrationLayer else Ambiguous, [n], Some n))"

definition derive_ownership_attribution ::
  "plan \<Rightarrow> evidence_source \<Rightarrow> string \<Rightarrow> string list \<Rightarrow> string list \<Rightarrow> string \<Rightarrow> attribution" where
  "derive_ownership_attribution p source n affected sources summary =
     (let owners = candidate_owners_of (compile_planner_runtime p) affected sources;
          mentions_planner = (rx_test flag_i ''blueprint|plan|planner'' summary
            \<and> rx_test flag_i ''drift|missing|mapping|coverage|contract|weak'' summary);
          blueprint_fault = (rx_test flag_i ''^BLUEPRINT~b'' summary
            \<and> is_blueprint_like_step n (get_subagent_step p n));
          (mode, suspected, primary) = choose_owners n blueprint_fault mentions_planner
            (rx_test flag_i integration_re summary) owners
      in \<lparr>at_owner = (case primary of Some w \<Rightarrow> w | None \<Rightarrow> (case suspected of [] \<Rightarrow> n | w # ws \<Rightarrow> w)),
          at_suspected = suspected, at_primary = primary, at_mode = mode,
          at_confidence = infer_issue_confidence source summary mode suspected\<rparr>)"

section \<open>Evidence and issues\<close>

definition evidence_of :: "plan \<Rightarrow> evidence_source \<Rightarrow> step_assessment \<Rightarrow> evidence list" where
  "evidence_of p source a =
     map (\<lambda>(i, summary). let code = infer_issue_code summary in
            \<lparr>ev_id = build_evidence_id (va_step a) source (i + 1) code, ev_step = va_step a, ev_source = source,
             ev_kind = code, ev_message = summary,
             ev_paths = infer_affected_artifacts (get_subagent_step p (va_step a)) summary\<rparr>)
       (List.enumerate 0 (va_issues a))"

definition collect_verification_evidence ::
  "plan \<Rightarrow> step_assessment list \<Rightarrow> evidence_source \<Rightarrow> (string, evidence list) jsmap" where
  "collect_verification_evidence p assessments source =
     js_map_of_list (map (\<lambda>a. (va_step a, evidence_of p source a)) assessments)"

definition issue_of :: "plan \<Rightarrow> step_assessment \<Rightarrow> evidence \<Rightarrow> verifier_issue" where
  "issue_of p a ev =
     (let sa = get_subagent_step p (va_step a);
          affected = (if length (ev_paths ev) > 0 then ev_paths ev else infer_affected_artifacts sa (ev_message ev));
          sources = infer_source_artifacts sa (ev_message ev);
          att = derive_ownership_attribution p (ev_source ev) (va_step a) affected sources (ev_message ev)
      in \<lparr>vi_code = ev_kind ev, vi_severity = infer_severity (ev_message ev), vi_retryable = va_retryable a,
          vi_owner = at_owner att, vi_confidence = at_confidence att, vi_mode = at_mode att,
          vi_suspected = at_suspected att, vi_primary = at_primary att, vi_affected = affected,
          vi_source = Some sources, vi_evidence = [ev_id ev], vi_class = infer_repair_class (ev_message ev),
          vi_summary = ev_message ev\<rparr>)"

definition derive_issues_from_evidence ::
  "plan \<Rightarrow> step_assessment list \<Rightarrow> (string, evidence list) jsmap \<Rightarrow> (string, verifier_issue list) jsmap" where
  "derive_issues_from_evidence p assessments evidence_by_step =
     js_map_of_list (map (\<lambda>a. (va_step a, map (issue_of p a) (js_get_or evidence_by_step (va_step a) []))) assessments)"

definition enrich_verifier_assessments ::
  "plan \<Rightarrow> step_assessment list \<Rightarrow> evidence_source \<Rightarrow> step_assessment list" where
  "enrich_verifier_assessments p assessments source =
     (let evs = collect_verification_evidence p assessments source;
          issues = derive_issues_from_evidence p assessments evs
      in map (\<lambda>a. a\<lparr>va_evidence := Some (case va_evidence a of Some e \<Rightarrow> e | None \<Rightarrow> js_get_or evs (va_step a) []),
                    va_details := Some (case va_details a of Some d \<Rightarrow> d | None \<Rightarrow> js_get_or issues (va_step a) [])\<rparr>)
           assessments)"

section \<open>The identity of a failure\<close>

definition severity_name :: "severity \<Rightarrow> string" where
  "severity_name s = (case s of SevWarning \<Rightarrow> ''warning'' | SevError \<Rightarrow> ''error'' | SevFatal \<Rightarrow> ''fatal'')"

definition ownership_name :: "ownership_mode \<Rightarrow> string" where
  "ownership_name m = (case m of DeterministicOwner \<Rightarrow> ''deterministic_owner'' | SharedOwners \<Rightarrow> ''shared_owners''
     | IntegrationLayer \<Rightarrow> ''integration_layer'' | PlannerFault \<Rightarrow> ''planner_fault'' | Ambiguous \<Rightarrow> ''ambiguous'')"

definition primary_owner :: "verifier_issue \<Rightarrow> string" where
  "primary_owner issue = (case vi_primary issue of Some w \<Rightarrow> w | None \<Rightarrow> vi_owner issue)"

definition issue_line :: "verifier_issue \<Rightarrow> string" where
  "issue_line issue = vi_code issue @ '':'' @ severity_name (vi_severity issue) @ '':'' @ primary_owner issue
     @ '':'' @ ownership_name (vi_mode issue) @ '':'' @ js_join '','' (vi_affected issue)"

definition build_issue_identity :: "step_assessment \<Rightarrow> string" where
  "build_issue_identity a =
     (let typed = (case va_details a of None \<Rightarrow> [] | Some ds \<Rightarrow> sort (map issue_line ds))
      in if length typed > 0 then js_join ''|'' typed else js_join ''|'' (sort (va_issues a)))"

section \<open>The repair plan\<close>

definition details_of :: "step_assessment \<Rightarrow> verifier_issue list" where
  "details_of a = (case va_details a of None \<Rightarrow> [] | Some ds \<Rightarrow> ds)"

definition default_accepted :: "plan \<Rightarrow> runtime_model \<Rightarrow> results \<Rightarrow> step_assessment \<Rightarrow> string list" where
  "default_accepted p rm res a =
     unique_strings (normalized_sources (get_subagent_step p (va_step a))
       @ concat (map (\<lambda>d. case js_get res d of None \<Rightarrow> [] | Some r \<Rightarrow> r_produced r)
                   (js_get_or (accepted_dependencies rm) (va_step a) [])))"

definition fresh_task :: "string \<Rightarrow> repair_task" where
  "fresh_task n = \<lparr>rt_step = n, rt_mode = ModeReverify, rt_owned = [], rt_dependency = [], rt_required_accepted = []\<rparr>"

definition ensure_task :: "(string, repair_task) jsmap \<Rightarrow> string \<Rightarrow> repair_task" where
  "ensure_task tasks n = js_get_or tasks n (fresh_task n)"

definition is_blocked_result :: "results \<Rightarrow> string \<Rightarrow> bool" where
  "is_blocked_result res n = (case js_get res n of None \<Rightarrow> False | Some r \<Rightarrow> r_acceptance r = Some ABlocked)"

definition should_own :: "verifier_issue \<Rightarrow> string \<Rightarrow> bool" where
  "should_own issue n = (case vi_mode issue of
      DeterministicOwner \<Rightarrow> primary_owner issue = n
    | PlannerFault \<Rightarrow> primary_owner issue = n
    | _ \<Rightarrow> True)"

definition issue_sources :: "verifier_issue \<Rightarrow> string list" where
  "issue_sources issue = (case vi_source issue of None \<Rightarrow> [] | Some s \<Rightarrow> s)"

definition impacted_steps :: "step_assessment \<Rightarrow> verifier_issue \<Rightarrow> string list" where
  "impacted_steps a issue =
     unique_strings (if length (vi_suspected issue) > 0 then vi_suspected issue else [va_step a])"

definition external_sources :: "runtime_model \<Rightarrow> verifier_issue \<Rightarrow> string \<Rightarrow> string list" where
  "external_sources rm issue n =
     filter (\<lambda>artifact. case owner_of_artifact rm (normalize_artifact_path artifact) of
        None \<Rightarrow> False | Some w \<Rightarrow> w \<noteq> n) (issue_sources issue)"

definition assign_issue ::
  "runtime_model \<Rightarrow> results \<Rightarrow> (string, string list) jsmap \<Rightarrow> step_assessment \<Rightarrow> verifier_issue
     \<Rightarrow> (string, repair_task) jsmap \<Rightarrow> string \<Rightarrow> (string, repair_task) jsmap" where
  "assign_issue rm res defaults a issue tasks n =
     (let task = ensure_task tasks n;
          owns = should_own issue n;
          owned = (if owns then rt_owned task @ [issue] else rt_owned task);
          dependency = (if owns then rt_dependency task else rt_dependency task @ [issue])
      in js_set tasks n (task\<lparr>
           rt_mode := (if \<not> va_retryable a then ModeBlocked
                       else if is_blocked_result res n then ModeBlocked
                       else if length owned > 0 then ModeRepair else ModeReverify),
           rt_owned := owned, rt_dependency := dependency,
           rt_required_accepted := unique_strings (rt_required_accepted task
             @ (if \<not> owns then issue_sources issue else external_sources rm issue n)
             @ js_get_or defaults n [])\<rparr>))"

definition assign_untyped ::
  "results \<Rightarrow> (string, string list) jsmap \<Rightarrow> step_assessment \<Rightarrow> (string, repair_task) jsmap
     \<Rightarrow> (string, repair_task) jsmap" where
  "assign_untyped res defaults a tasks =
     (let task = ensure_task tasks (va_step a)
      in js_set tasks (va_step a) (task\<lparr>
           rt_mode := (if \<not> va_retryable a then ModeBlocked
                       else if is_blocked_result res (va_step a) then ModeBlocked else ModeRepair),
           rt_required_accepted := unique_strings (rt_required_accepted task @ js_get_or defaults (va_step a) [])\<rparr>))"

definition plan_assessment ::
  "runtime_model \<Rightarrow> results \<Rightarrow> (string, string list) jsmap \<Rightarrow> (string, repair_task) jsmap \<Rightarrow> step_assessment
     \<Rightarrow> (string, repair_task) jsmap" where
  "plan_assessment rm res defaults tasks a =
     (if va_outcome a = OutPass then tasks
      else if length (details_of a) > 0 \<and> list_all is_dependency_gate_issue (details_of a) then tasks
      else let tasks1 = foldl (\<lambda>ts issue. if is_dependency_gate_issue issue then ts
                 else foldl (assign_issue rm res defaults a issue) ts (impacted_steps a issue)) tasks (details_of a)
        in if length (details_of a) = 0 then assign_untyped res defaults a tasks1 else tasks1)"

definition default_artifacts :: "plan \<Rightarrow> runtime_model \<Rightarrow> results \<Rightarrow> step_assessment list \<Rightarrow> (string, string list) jsmap" where
  "default_artifacts p rm res assessments =
     js_map_of_list (map (\<lambda>a. (va_step a, default_accepted p rm res a)) assessments)"

definition repair_tasks :: "plan \<Rightarrow> results \<Rightarrow> verifier_decision \<Rightarrow> (string, repair_task) jsmap" where
  "repair_tasks p res decision =
     (let rm = compile_planner_runtime p
      in foldl (plan_assessment rm res (default_artifacts p rm res (vd_steps decision))) [] (vd_steps decision))"

definition build_repair_plan :: "plan \<Rightarrow> results \<Rightarrow> verifier_decision \<Rightarrow> repair_plan" where
  "build_repair_plan p res decision =
     (let tasks = js_values (repair_tasks p res decision)
      in \<lparr>rp_tasks = tasks,
          rp_rerun_order = filter (\<lambda>n. list_ex (\<lambda>t. rt_step t = n \<and> rt_mode t \<noteq> ModeBlocked) tasks)
            (map step_name (steps p)),
          rp_skipped = map va_step (filter (\<lambda>a. va_outcome a = OutPass) (vd_steps decision))\<rparr>)"

section \<open>Acceptance\<close>

definition derive_acceptance_state :: "step_assessment option \<Rightarrow> acceptance_state option \<Rightarrow> acceptance_state" where
  "derive_acceptance_state assessment prior = (case assessment of
      None \<Rightarrow> (case prior of Some s \<Rightarrow> s | None \<Rightarrow> APendingVerification)
    | Some a \<Rightarrow> if va_outcome a = OutPass then AAccepted
        else if \<not> va_retryable a then ARejected else ARepairRequired)"

definition blueprint_contract_issue :: "verifier_issue \<Rightarrow> bool" where
  "blueprint_contract_issue issue =
     (vi_class issue = ContractDrift \<and> rx_test flag_i ''blueprint|spec'' (vi_summary issue))"

definition accept_one :: "results \<Rightarrow> step_assessment \<Rightarrow> results" where
  "accept_one res a = (case js_get res (va_step a) of
      None \<Rightarrow> res
    | Some r \<Rightarrow> js_set res (va_step a) (r\<lparr>
        r_acceptance := Some (derive_acceptance_state (Some a) (r_acceptance r)),
        r_failure := (if list_ex blueprint_contract_issue (details_of a) then Some FailBlueprintContract
                      else r_failure r)\<rparr>))"

definition apply_verification_acceptance_states :: "results \<Rightarrow> verifier_decision \<Rightarrow> results" where
  "apply_verification_acceptance_states res decision = foldl accept_one res (vd_steps decision)"

text \<open>What a child is told to repair.\<close>

record repair_goal =
  rg_code :: string
  rg_summary :: string
  rg_severity :: severity
  rg_class :: repair_class
  rg_confidence :: real
  rg_mode :: ownership_mode
  rg_suspected :: "string list"
  rg_primary :: "string option"
  rg_affected :: "string list"
  rg_sources :: "string list"

record child_repair_payload =
  cp_mode :: verifier_mode
  cp_goals :: "repair_goal list"
  cp_dependency_goals :: "repair_goal list"
  cp_required_accepted :: "string list"
  cp_blockers :: "string list"

definition build_repair_goal :: "verifier_issue \<Rightarrow> repair_goal" where
  "build_repair_goal issue =
     \<lparr>rg_code = vi_code issue, rg_summary = vi_summary issue, rg_severity = vi_severity issue,
      rg_class = vi_class issue, rg_confidence = vi_confidence issue, rg_mode = vi_mode issue,
      rg_suspected = vi_suspected issue, rg_primary = vi_primary issue, rg_affected = vi_affected issue,
      rg_sources = issue_sources issue\<rparr>"

definition build_child_repair_payload :: "repair_task \<Rightarrow> child_repair_payload" where
  "build_child_repair_payload task =
     \<lparr>cp_mode = rt_mode task, cp_goals = map build_repair_goal (rt_owned task),
      cp_dependency_goals = map build_repair_goal (rt_dependency task),
      cp_required_accepted = rt_required_accepted task,
      cp_blockers = (if rt_mode task = ModeBlocked then map vi_summary (rt_dependency task) else [])\<rparr>"

section \<open>Who is named\<close>

lemma distinct_unique_strings [simp]: "distinct (unique_strings xs)"
  by (simp add: unique_strings_def)

lemma set_unique_strings [simp]: "set (unique_strings xs) = set xs - {[]}"
  by (auto simp: unique_strings_def)

lemma confidence_bounds:
  "2 / 10 \<le> infer_issue_confidence source summary mode suspected"
  "infer_issue_confidence source summary mode suspected \<le> 99 / 100"
proof -
  have "2 / 10 \<le> max (2 / 10) (min (99 / 100) x) \<and> max (2 / 10) (min (99 / 100) x) \<le> 99 / 100" for x :: real
    by linarith
  then show "2 / 10 \<le> infer_issue_confidence source summary mode suspected"
    "infer_issue_confidence source summary mode suspected \<le> 99 / 100"
    unfolding infer_issue_confidence_def Let_def by blast+
qed

lemma chosen_owners:
  assumes "n \<noteq> []" "distinct owners" "[] \<notin> set owners"
    and "choose_owners n blueprint mentions integration owners = (mode, suspected, primary)"
  shows "suspected \<noteq> [] \<and> distinct suspected \<and> [] \<notin> set suspected
    \<and> (case primary of None \<Rightarrow> mode = IntegrationLayer | Some w \<Rightarrow> w \<in> set suspected)"
proof -
  have hd: "length owners > 1 \<Longrightarrow> hd owners \<in> set owners" "length owners = 1 \<Longrightarrow> hd owners \<in> set owners"
    by (cases owners; simp)+
  have "unique_strings (n # owners) \<noteq> []"
    using assms(1) set_unique_strings [of "n # owners"] by (metis DiffI empty_iff list.set(1) list.set_intros(1) singletonD)
  then show ?thesis
    using assms hd by (auto simp: choose_owners_def split: if_splits list.splits)
qed

text \<open>Whatever an issue says, its attribution names somebody: the suspects are a non-empty list of distinct
  step names, the owner is one of them, the primary owner is one of them and is missing only for an integration
  issue, and the confidence lies between 0.2 and 0.99.\<close>

theorem attribution_names_an_owner:
  assumes "n \<noteq> []"
  shows "let att = derive_ownership_attribution p source n affected sources summary in
    at_suspected att \<noteq> [] \<and> distinct (at_suspected att) \<and> at_owner att \<in> set (at_suspected att)
    \<and> (case at_primary att of None \<Rightarrow> at_mode att = IntegrationLayer | Some w \<Rightarrow> w \<in> set (at_suspected att) \<and> w = at_owner att)
    \<and> 2 / 10 \<le> at_confidence att \<and> at_confidence att \<le> 99 / 100"
proof -
  define owners where "owners = candidate_owners_of (compile_planner_runtime p) affected sources"
  have owners: "distinct owners" "[] \<notin> set owners" by (simp_all add: owners_def candidate_owners_of_def)
  obtain mode suspected primary where ch: "choose_owners n
      (rx_test flag_i ''^BLUEPRINT~b'' summary \<and> is_blueprint_like_step n (get_subagent_step p n))
      (rx_test flag_i ''blueprint|plan|planner'' summary \<and> rx_test flag_i ''drift|missing|mapping|coverage|contract|weak'' summary)
      (rx_test flag_i integration_re summary) owners = (mode, suspected, primary)"
    by (metis prod_cases3)
  have att: "derive_ownership_attribution p source n affected sources summary =
      \<lparr>at_owner = (case primary of Some w \<Rightarrow> w | None \<Rightarrow> (case suspected of [] \<Rightarrow> n | w # ws \<Rightarrow> w)),
       at_suspected = suspected, at_primary = primary, at_mode = mode,
       at_confidence = infer_issue_confidence source summary mode suspected\<rparr>"
    unfolding derive_ownership_attribution_def Let_def owners_def [symmetric] ch by simp
  from chosen_owners [OF assms owners ch] show ?thesis
    unfolding att Let_def attribution.simps
    by (intro conjI confidence_bounds) (auto split: option.splits list.splits)
qed

section \<open>No issue is lost\<close>

definition tasks_ok :: "(string, repair_task) jsmap \<Rightarrow> bool" where
  "tasks_ok tasks = (js_wf tasks \<and> (\<forall>n t. js_get tasks n = Some t \<longrightarrow> rt_step t = n))"


lemma tasks_ok_empty [simp]: "tasks_ok []"
  by (simp add: tasks_ok_def)























definition sample_issue :: "string \<Rightarrow> verifier_issue" where
  "sample_issue owner = \<lparr>vi_code = ''integration_gap'', vi_severity = SevError, vi_retryable = True, vi_owner = owner,
     vi_confidence = 1 / 2, vi_mode = DeterministicOwner, vi_suspected = [owner], vi_primary = Some owner,
     vi_affected = [], vi_source = None, vi_evidence = [], vi_class = IntegrationWiring, vi_summary = ''gap''\<rparr>"

definition sample_assessment :: "string \<Rightarrow> verifier_outcome \<Rightarrow> bool \<Rightarrow> verifier_issue list \<Rightarrow> step_assessment" where
  "sample_assessment n outcome retryable issues = \<lparr>va_step = n, va_outcome = outcome, va_issues = map vi_summary issues,
     va_details = Some issues, va_evidence = None, va_retryable = retryable\<rparr>"

definition sample_plan :: plan where
  "sample_plan = \<lparr>steps = [tool_plan_step ''a'', tool_plan_step ''b''], edges = []\<rparr>"

definition decision_on :: "step_assessment list \<Rightarrow> verifier_decision" where
  "decision_on asmts = \<lparr>vd_overall = OutRetry, vd_steps = asmts, vd_unresolved = [], vd_repair = None\<rparr>"

lemma sample_issue_fields [simp]:
  "vi_suspected (sample_issue owner) = [owner]" "vi_mode (sample_issue owner) = DeterministicOwner"
  "vi_primary (sample_issue owner) = Some owner"
  by (simp_all add: sample_issue_def)

lemma sample_issue_no_gate: "\<not> is_dependency_gate_issue (sample_issue owner)"
proof -
  have "\<not> rx_test flag_i ''^Waiting on accepted upstream artifacts:'' ''gap''" by code_simp
  then show ?thesis by (simp add: is_dependency_gate_issue_def sample_issue_def)
qed

lemma attribution_names_an_owner_witness:
  "at_suspected (derive_ownership_attribution sample_plan FromLlm ''a'' [] [] ''it failed'') \<noteq> []"
  using attribution_names_an_owner [of "''a''" sample_plan FromLlm "[]" "[]" "''it failed''"] by (simp add: Let_def)


text \<open>The mode of a task is decided by the last issue that reaches it: a step whose own failure must not be retried is
  scheduled again when another step's issue names it later, and stays blocked when the assessments come in the
  other order.\<close>

lemma last_issue_decides_mode:
  "rp_rerun_order (build_repair_plan sample_plan [] (decision_on
     [sample_assessment ''a'' OutFail False [sample_issue ''a''], sample_assessment ''b'' OutRetry True [sample_issue ''a'']]))
     = [''a'']"
  "rp_rerun_order (build_repair_plan sample_plan [] (decision_on
     [sample_assessment ''b'' OutRetry True [sample_issue ''a''], sample_assessment ''a'' OutFail False [sample_issue ''a'']]))
     = []"
  by (simp_all add: build_repair_plan_def repair_tasks_def plan_assessment_def decision_on_def sample_assessment_def
      details_of_def sample_issue_no_gate impacted_steps_def unique_strings_def set_of_list_def set_add_def
      assign_issue_def ensure_task_def fresh_task_def js_get_or_def is_blocked_result_def js_values_def js_set_def
      js_get_def sample_plan_def default_artifacts_def should_own_def primary_owner_def
      list_all_iff step_names_def tool_plan_step_def Let_def)

end
