(* ===== verification/PlannerLoop.thy ===== *)
theory PlannerLoop
  imports VerifyModel
begin

text \<open>
  The planner's run of a plan: execute, verify, repair, at most three times
  (\<open>executePlannerPath\<close> of \<open>packages/agent/src/core/plan/orchestrator/orchestrate.ts\<close>), with the escalation graph
  (\<open>core/delegate-decision/escalation.ts\<close>), the regression check that decides what is carried over
  (\<open>orchestrator/regression.ts\<close>) and the final shape of the result (\<open>orchestrator/helpers.ts\<close>). The executor, the verifier
  and the abort signal are arguments; theory \<open>Pipeline\<close> models the executor, and \<open>execute_with\<close> plugs it in. Progress
  traces and the budget, which only feeds them, are left out.
\<close>

section \<open>The escalation graph\<close>

datatype escalation_action = EscPass | EscRetry | EscRevise | EscEscalate

datatype escalation_reason =
    PassReason | RetryAllowed | NeedsRevision | RetriesExhausted | RevisionUnavailable
  | DisagreementThreshold | TimeoutReason | BudgetExhausted | AllStepsStuck

record escalation_input =
  es_verdict :: verifier_outcome
  es_attempt :: nat
  es_max_attempts :: nat
  es_disagreements :: nat
  es_max_disagreements :: nat
  es_revision_available :: bool
  es_reexecute :: bool
  es_timed_out :: bool
  es_budget_exhausted :: bool
  es_all_stuck :: bool

definition resolve_escalation :: "escalation_input \<Rightarrow> escalation_action \<times> escalation_reason" where
  "resolve_escalation i =
     (if es_timed_out i then (EscEscalate, TimeoutReason)
      else if es_budget_exhausted i then (EscEscalate, BudgetExhausted)
      else if es_all_stuck i then (EscEscalate, AllStepsStuck)
      else if es_verdict i = OutPass then (EscPass, PassReason)
      else if es_disagreements i \<ge> es_max_disagreements i then (EscEscalate, DisagreementThreshold)
      else if int (es_attempt i) \<ge> int (es_max_attempts i) - 1 then (EscEscalate, RetriesExhausted)
      else if es_verdict i = OutFail then
        (if es_revision_available i then (EscRevise, NeedsRevision) else (EscEscalate, RetriesExhausted))
      else if es_verdict i = OutRetry then
        (if es_revision_available i then (EscRevise, NeedsRevision)
         else if es_reexecute i then (EscRetry, RetryAllowed)
         else (EscEscalate, RevisionUnavailable))
      else (EscRetry, RetryAllowed))"

definition build_escalation_input ::
  "verifier_outcome \<Rightarrow> nat \<Rightarrow> nat \<Rightarrow> bool \<Rightarrow> bool \<Rightarrow> bool \<Rightarrow> bool \<Rightarrow> escalation_input" where
  "build_escalation_input overall attempt max_attempts retryable stuck timed_out budget =
     \<lparr>es_verdict = overall, es_attempt = attempt, es_max_attempts = max_attempts, es_disagreements = 0,
      es_max_disagreements = 3, es_revision_available = retryable, es_reexecute = True,
      es_timed_out = timed_out, es_budget_exhausted = budget, es_all_stuck = stuck\<rparr>"

section \<open>What is carried over\<close>

datatype skip_trace = SkipExactRepeat string | SkipStubs string nat nat | AbortFatal string

record regression =
  g_prior :: results
  g_all_repeated :: bool
  g_abort :: bool
  g_force_replan :: bool
  g_issues :: "(string, string) jsmap"
  g_stubs :: "(string, nat) jsmap"
  g_trace :: "skip_trace list"

definition stub_keywords :: "string list" where
  "stub_keywords = [''stub'', ''placeholder'', ''empty array'', ''empty object'', ''returns constant'',
     ''catch-all'', ''trivial return'', ''empty function'']"

definition stub_count :: "step_assessment \<Rightarrow> nat" where
  "stub_count a = length (filter (\<lambda>i. list_ex (js_includes (js_lower i)) stub_keywords) (va_issues a))"

definition has_fatal_pattern :: "step_assessment \<Rightarrow> bool" where
  "has_fatal_pattern a = list_ex (rx_test flag_i
     ''function loss|~[contract:contradictory_completion_claim~]|~[contract:unresolved_handoff_output~]'') (va_issues a)"

definition non_retryable :: "step_result option \<Rightarrow> bool" where
  "non_retryable r = (case r of None \<Rightarrow> False
     | Some s \<Rightarrow> r_failure s = Some FailCancelled \<or> r_failure s = Some FailSpawn)"

definition keep_result :: "string \<Rightarrow> step_result option \<Rightarrow> regression \<Rightarrow> regression" where
  "keep_result n r g = (case r of None \<Rightarrow> g | Some s \<Rightarrow> g\<lparr>g_prior := js_set (g_prior g) n s\<rparr>)"

definition regress_failed :: "step_assessment \<Rightarrow> step_result option \<Rightarrow> regression \<Rightarrow> regression" where
  "regress_failed a r g =
     (let n = va_step a;
          key = build_issue_identity a;
          stubs = stub_count a;
          exact = (js_get (g_issues g) n = Some key);
          stuck = (case js_get (g_stubs g) n of None \<Rightarrow> False | Some prev \<Rightarrow> stubs \<ge> prev \<and> stubs > 0);
          g1 = (if exact \<or> stuck
                then keep_result n r (g\<lparr>g_trace := g_trace g @
                       [if exact then SkipExactRepeat n else SkipStubs n (js_get_or (g_stubs g) n 0) stubs]\<rparr>)
                else g\<lparr>g_all_repeated := False\<rparr>);
          g2 = (if has_fatal_pattern a \<and> exact
                then g1\<lparr>g_abort := True, g_force_replan := True, g_trace := g_trace g1 @ [AbortFatal n]\<rparr> else g1)
      in g2\<lparr>g_issues := js_set (g_issues g2) n key, g_stubs := js_set (g_stubs g2) n stubs\<rparr>)"

definition regress_step :: "results \<Rightarrow> regression \<Rightarrow> step_assessment \<Rightarrow> regression" where
  "regress_step res g a =
     (let n = va_step a; r = js_get res n in
      if va_outcome a = OutPass \<and> r \<noteq> None then
        (keep_result n r g)\<lparr>g_issues := js_delete (g_issues g) n, g_stubs := js_delete (g_stubs g) n\<rparr>
      else if non_retryable r then keep_result n r g
      else if length (va_issues a) > 0 then regress_failed a r g
      else g\<lparr>g_all_repeated := False\<rparr>)"

definition check_stub_count_regression ::
  "verifier_decision \<Rightarrow> results \<Rightarrow> (string, string) jsmap \<Rightarrow> (string, nat) jsmap \<Rightarrow> regression" where
  "check_stub_count_regression decision res issues stubs =
     foldl (regress_step res)
       \<lparr>g_prior = [], g_all_repeated = True, g_abort = False, g_force_replan = False,
        g_issues = issues, g_stubs = stubs, g_trace = []\<rparr>
       (vd_steps decision)"

definition retryable_task_count :: "repair_plan \<Rightarrow> nat" where
  "retryable_task_count rp = length (filter (\<lambda>t. rt_mode t \<noteq> ModeBlocked) (rp_tasks rp))"

section \<open>The loop\<close>

record pipeline_outcome =
  po_status :: pipeline_status
  po_results :: results
  po_completed :: nat

text \<open>One pass of the loop: what the executor was given, what it returned and the verdict.\<close>

record planner_pass =
  pp_prior :: "results option"
  pp_repair :: "repair_plan option"
  pp_outcome :: pipeline_outcome
  pp_decision :: verifier_decision

record planner_state =
  l_prior :: "results option"
  l_repair :: "repair_plan option"
  l_issues :: "(string, string) jsmap"
  l_stubs :: "(string, nat) jsmap"
  l_force_replan :: bool
  l_passes :: "planner_pass list"

datatype planner_result =
    Cancelled
  | PlatformUnconfigured pipeline_outcome
  | Finished pipeline_outcome verifier_decision bool

record planner_env =
  pe_plan :: plan
  pe_execute :: "nat \<Rightarrow> results option \<Rightarrow> repair_plan option \<Rightarrow> pipeline_outcome"
  pe_verify :: "nat \<Rightarrow> pipeline_outcome \<Rightarrow> verifier_decision"
  pe_aborted :: "nat \<Rightarrow> bool"

definition max_pipeline_retries :: nat where
  "max_pipeline_retries = 2"

definition platform_unconfigured :: "results \<Rightarrow> bool" where
  "platform_unconfigured res = list_ex (\<lambda>r. r_failure r = Some FailPlatformUnconfigured) (js_values res)"

definition has_retryable_steps :: "verifier_decision \<Rightarrow> bool" where
  "has_retryable_steps d = list_ex (\<lambda>a. va_outcome a \<noteq> OutPass \<and> va_retryable a) (vd_steps d)"

definition all_repeated_failure :: "(string, string) jsmap \<Rightarrow> verifier_decision \<Rightarrow> bool" where
  "all_repeated_failure issues d =
     list_all (\<lambda>a. va_outcome a = OutPass \<or> js_get issues (va_step a) = Some (build_issue_identity a)) (vd_steps d)"

text \<open>\<open>finalizePlannerRun\<close>: the flag says that the result carries the reason of a failed verification.\<close>

definition finalize_planner_run :: "planner_pass \<Rightarrow> planner_result" where
  "finalize_planner_run p = Finished (pp_outcome p) (pp_decision p) (vd_overall (pp_decision p) \<noteq> OutPass)"

definition verified_pass :: "planner_env \<Rightarrow> nat \<Rightarrow> planner_state \<Rightarrow> planner_pass" where
  "verified_pass e attempt st =
     (let out = pe_execute e attempt (l_prior st) (l_repair st);
          d = pe_verify e attempt out;
          d' = d\<lparr>vd_repair := Some (build_repair_plan (pe_plan e) (po_results out) d)\<rparr>
      in \<lparr>pp_prior = l_prior st, pp_repair = l_repair st,
          pp_outcome = out\<lparr>po_results := apply_verification_acceptance_states (po_results out) d'\<rparr>,
          pp_decision = d'\<rparr>)"

definition repair_plan_of :: "planner_pass \<Rightarrow> repair_plan" where
  "repair_plan_of p = (case vd_repair (pp_decision p) of Some rp \<Rightarrow> rp
     | None \<Rightarrow> \<lparr>rp_tasks = [], rp_rerun_order = [], rp_skipped = []\<rparr>)"

definition escalation_of :: "nat \<Rightarrow> planner_state \<Rightarrow> planner_pass \<Rightarrow> escalation_action \<times> escalation_reason" where
  "escalation_of attempt st p = resolve_escalation (build_escalation_input (vd_overall (pp_decision p)) attempt
     (max_pipeline_retries + 1) (has_retryable_steps (pp_decision p)) (all_repeated_failure (l_issues st) (pp_decision p))
     False False)"

definition regression_of :: "planner_state \<Rightarrow> planner_pass \<Rightarrow> regression" where
  "regression_of st p =
     check_stub_count_regression (pp_decision p) (po_results (pp_outcome p)) (l_issues st) (l_stubs st)"

definition stops_after :: "nat \<Rightarrow> planner_state \<Rightarrow> planner_pass \<Rightarrow> bool" where
  "stops_after attempt st p =
     (vd_overall (pp_decision p) = OutPass
      \<or> fst (escalation_of attempt st p) = EscPass \<or> fst (escalation_of attempt st p) = EscEscalate
      \<or> g_all_repeated (regression_of st p) \<and> retryable_task_count (repair_plan_of p) = 0
      \<or> g_abort (regression_of st p))"

definition next_state :: "planner_state \<Rightarrow> planner_pass \<Rightarrow> planner_state" where
  "next_state st p = (let g = regression_of st p in
     st\<lparr>l_prior := Some (g_prior g), l_repair := Some (repair_plan_of p), l_issues := g_issues g,
        l_stubs := g_stubs g, l_force_replan := (l_force_replan st \<or> g_force_replan g),
        l_passes := l_passes st @ [p]\<rparr>)"

fun planner_loop :: "planner_env \<Rightarrow> nat \<Rightarrow> nat \<Rightarrow> planner_state \<Rightarrow> planner_result \<times> planner_state" where
  "planner_loop e 0 attempt st = (finalize_planner_run (last (l_passes st)), st)"
| "planner_loop e (Suc k) attempt st =
     (if pe_aborted e attempt then (Cancelled, st)
      else let out = pe_execute e attempt (l_prior st) (l_repair st) in
        if platform_unconfigured (po_results out) then (PlatformUnconfigured out, st)
        else let p = verified_pass e attempt st in
          if stops_after attempt st p then (finalize_planner_run p, st\<lparr>l_passes := l_passes st @ [p]\<rparr>)
          else planner_loop e k (attempt + 1) (next_state st p))"

definition start_state :: planner_state where
  "start_state = \<lparr>l_prior = None, l_repair = None, l_issues = [], l_stubs = [], l_force_replan = False, l_passes = []\<rparr>"

definition execute_planner_path :: "planner_env \<Rightarrow> planner_result \<times> planner_state" where
  "execute_planner_path e = planner_loop e (max_pipeline_retries + 1) 0 start_state"

text \<open>\<open>withFullToolAccess\<close>: the envelope a child is given allows every tool of the parent.\<close>

definition with_full_tool_access :: "string list \<Rightarrow> execution_envelope \<Rightarrow> execution_envelope" where
  "with_full_tool_access all_tool_names envelope =
     envelope\<lparr>allowed_tools := set_of_list (allowed_tools envelope @ all_tool_names)\<rparr>"

section \<open>The executor of theory \<open>Pipeline\<close>\<close>

definition pass_config :: "plan \<Rightarrow> nat \<Rightarrow> results option \<Rightarrow> repair_plan option \<Rightarrow> pipe_config" where
  "pass_config p max_parallel prior repair =
     \<lparr>c_plan = p, c_model = compile_planner_runtime p, c_repair = map_option rp_tasks repair,
      c_prior = prior, c_max_parallel = max_parallel\<rparr>"

definition execute_with ::
  "plan \<Rightarrow> nat \<Rightarrow> (nat \<Rightarrow> pipe_event list) \<Rightarrow> nat \<Rightarrow> results option \<Rightarrow> repair_plan option \<Rightarrow> pipeline_outcome" where
  "execute_with p max_parallel events attempt prior repair =
     (let s = run_pipeline (pass_config p max_parallel prior repair) (events attempt)
      in \<lparr>po_status = fst (pipeline_result s), po_results = p_results s, po_completed = snd (pipeline_result s)\<rparr>)"

section \<open>Escalation\<close>

text \<open>In the loop nothing times out, no budget runs dry and no disagreement is counted: another pass is allowed exactly when
  attempts remain, the failures are not all repeats, and a failed verdict has something retryable.\<close>

definition may_repeat :: "nat \<Rightarrow> planner_state \<Rightarrow> verifier_decision \<Rightarrow> bool" where
  "may_repeat attempt st d =
     (vd_overall d \<noteq> OutPass \<and> attempt < max_pipeline_retries \<and> \<not> all_repeated_failure (l_issues st) d
      \<and> (vd_overall d = OutRetry \<or> has_retryable_steps d))"

lemma escalation_exact:
  "vd_overall (pp_decision p) \<noteq> OutPass \<Longrightarrow>
     (fst (escalation_of attempt st p) \<noteq> EscPass \<and> fst (escalation_of attempt st p) \<noteq> EscEscalate)
     \<longleftrightarrow> may_repeat attempt st (pp_decision p)"
  by (cases "vd_overall (pp_decision p)")
     (auto simp: escalation_of_def resolve_escalation_def build_escalation_input_def may_repeat_def max_pipeline_retries_def)

lemma continues_may_repeat: "\<not> stops_after attempt st p \<Longrightarrow> may_repeat attempt st (pp_decision p)"
  using escalation_exact [of p attempt st] by (auto simp: stops_after_def)

section \<open>Carried-over results\<close>

lemma keep_result_prior:
  "js_get (g_prior (keep_result n r g)) m = (if m = n \<and> r \<noteq> None then r else js_get (g_prior g) m)"
  by (simp add: keep_result_def split: option.split)

lemma keep_result_frame [simp]:
  "g_issues (keep_result n r g) = g_issues g" "g_stubs (keep_result n r g) = g_stubs g"
  by (simp_all add: keep_result_def split: option.split)

text \<open>A step result is only ever carried over under its own name.\<close>

definition prior_from :: "results \<Rightarrow> regression \<Rightarrow> bool" where
  "prior_from res g = (\<forall>n r. js_get (g_prior g) n = Some r \<longrightarrow> js_get res n = Some r)"

lemma regress_failed_prior:
  "js_get (g_prior (regress_failed a r g)) m = js_get (g_prior g) m
   \<or> m = va_step a \<and> r \<noteq> None \<and> js_get (g_prior (regress_failed a r g)) m = r"
  by (cases r) (simp_all add: regress_failed_def Let_def keep_result_prior)

lemma regress_step_prior:
  "js_get (g_prior (regress_step res g a)) m = js_get (g_prior g) m
   \<or> m = va_step a \<and> js_get res m \<noteq> None \<and> js_get (g_prior (regress_step res g a)) m = js_get res m"
  using regress_failed_prior [of a "js_get res (va_step a)" g m]
  by (cases "js_get res (va_step a)") (auto simp: regress_step_def Let_def keep_result_prior)

lemma regress_step_from: "prior_from res g \<Longrightarrow> prior_from res (regress_step res g a)"
  unfolding prior_from_def using regress_step_prior [of res g a] by metis

lemma regress_step_keeps:
  assumes "prior_from res g" "js_get (g_prior g) n = Some r"
  shows "js_get (g_prior (regress_step res g a)) n = Some r"
  using assms regress_step_prior [of res g a n] by (auto simp: prior_from_def)

lemma regress_step_passed:
  assumes "va_outcome a = OutPass" "js_get res (va_step a) = Some r"
  shows "js_get (g_prior (regress_step res g a)) (va_step a) = Some r"
  using assms by (simp add: regress_step_def Let_def keep_result_prior)

lemma regression_keeps_passed:
  assumes "a \<in> set (vd_steps d)" "va_outcome a = OutPass" "js_get res (va_step a) = Some r"
  shows "js_get (g_prior (check_stub_count_regression d res issues stubs)) (va_step a) = Some r"
proof -
  have kept: "js_get (g_prior (foldl (regress_step res) g as)) (va_step a) = Some r"
    if "prior_from res g" "js_get (g_prior g) (va_step a) = Some r \<or> a \<in> set as" for g as
    using that
  proof (induction as arbitrary: g)
    case (Cons b as)
    have "prior_from res (regress_step res g b)" using Cons.prems by (simp add: regress_step_from)
    moreover have "js_get (g_prior (regress_step res g b)) (va_step a) = Some r \<or> a \<in> set as"
      using Cons.prems regress_step_keeps regress_step_passed [OF assms(2,3)] by auto
    ultimately show ?case using Cons.IH by simp
  qed simp
  show ?thesis
    unfolding check_stub_count_regression_def by (rule kept) (simp_all add: prior_from_def assms(1))
qed

definition carried_to :: "planner_pass \<Rightarrow> results option \<Rightarrow> bool" where
  "carried_to p prior = (\<forall>a\<in>set (vd_steps (pp_decision p)). va_outcome a = OutPass \<longrightarrow>
     (\<forall>r. js_get (po_results (pp_outcome p)) (va_step a) = Some r \<longrightarrow>
        (\<exists>pr. prior = Some pr \<and> js_get pr (va_step a) = Some r)))"

lemma next_carries: "carried_to p (l_prior (next_state st p))"
  by (auto simp: carried_to_def next_state_def Let_def regression_of_def regression_keeps_passed)

section \<open>What the loop guarantees\<close>

text \<open>A pass after which the loop goes on, as far as its verdict shows it.\<close>

definition repeatable :: "planner_pass \<Rightarrow> bool" where
  "repeatable p = (vd_overall (pp_decision p) \<noteq> OutPass
     \<and> (vd_overall (pp_decision p) = OutRetry \<or> has_retryable_steps (pp_decision p)))"

definition loop_inv :: "nat \<Rightarrow> planner_state \<Rightarrow> bool" where
  "loop_inv attempt st = (length (l_passes st) = attempt \<and> list_all repeatable (l_passes st)
     \<and> successively (\<lambda>p q. carried_to p (pp_prior q)) (l_passes st)
     \<and> (l_passes st \<noteq> [] \<longrightarrow> carried_to (last (l_passes st)) (l_prior st)))"

definition well_ended :: "planner_env \<Rightarrow> planner_result \<times> planner_state \<Rightarrow> bool" where
  "well_ended e o1 = (let (r, st) = o1 in
     list_all repeatable (butlast (l_passes st))
     \<and> successively (\<lambda>p q. carried_to p (pp_prior q)) (l_passes st)
     \<and> (case r of
          Cancelled \<Rightarrow> list_ex (pe_aborted e) [0, 1, 2]
        | PlatformUnconfigured out \<Rightarrow> platform_unconfigured (po_results out)
        | Finished out d failed \<Rightarrow> l_passes st \<noteq> [] \<and> pp_outcome (last (l_passes st)) = out
            \<and> pp_decision (last (l_passes st)) = d \<and> failed = (vd_overall d \<noteq> OutPass)))"

lemma verified_prior [simp]: "pp_prior (verified_pass e attempt st) = l_prior st"
  by (simp add: verified_pass_def Let_def)

lemma successively_snoc:
  "successively R (xs @ [x]) \<longleftrightarrow> successively R xs \<and> (xs \<noteq> [] \<longrightarrow> R (last xs) x)"
  by (auto simp: successively_append_iff)

lemma loop_inv_extends:
  assumes "loop_inv attempt st"
  shows "successively (\<lambda>p q. carried_to p (pp_prior q)) (l_passes st @ [verified_pass e attempt st])"
  using assms by (simp add: loop_inv_def successively_snoc)

lemma loop_inv_next:
  assumes "loop_inv attempt st" "\<not> stops_after attempt st (verified_pass e attempt st)"
  shows "loop_inv (attempt + 1) (next_state st (verified_pass e attempt st))"
proof -
  let ?p = "verified_pass e attempt st"
  have passes: "l_passes (next_state st ?p) = l_passes st @ [?p]" by (simp add: next_state_def Let_def)
  have "repeatable ?p"
    using continues_may_repeat [OF assms(2)] by (auto simp: may_repeat_def repeatable_def)
  then show ?thesis
    using assms(1) loop_inv_extends [OF assms(1), of e] next_carries [of ?p st]
    by (simp add: loop_inv_def passes)
qed

lemma planner_loop_ends:
  assumes "loop_inv attempt st" "attempt + k = 3" "k > 0"
  shows "well_ended e (planner_loop e k attempt st) \<and> length (l_passes (snd (planner_loop e k attempt st))) \<le> 3"
  using assms
proof (induction k arbitrary: attempt st)
  case (Suc k)
  let ?p = "verified_pass e attempt st"
  have butl: "list_all repeatable (butlast (l_passes st))"
    using Suc.prems(1) by (auto simp: loop_inv_def list_all_iff dest: in_set_butlastD)
  have inv: "list_all repeatable (l_passes st)" "length (l_passes st) = attempt"
    "successively (\<lambda>p q. carried_to p (pp_prior q)) (l_passes st)"
    using Suc.prems(1) by (simp_all add: loop_inv_def)
  have abort: "list_ex (pe_aborted e) [0, 1, 2]" if "pe_aborted e attempt"
  proof -
    have "attempt = 0 \<or> attempt = 1 \<or> attempt = 2" using Suc.prems(2) by linarith
    with that show ?thesis by auto
  qed
  show ?case
  proof (cases "pe_aborted e attempt \<or> platform_unconfigured (po_results (pe_execute e attempt (l_prior st) (l_repair st)))
      \<or> stops_after attempt st ?p")
    case True
    then show ?thesis
      using butl inv abort loop_inv_extends [OF Suc.prems(1), of e] Suc.prems(2)
      by (auto simp: well_ended_def Let_def finalize_planner_run_def)
  next
    case False
    have "stops_after attempt st ?p" if "k = 0"
    proof (rule ccontr)
      assume "\<not> stops_after attempt st ?p"
      from continues_may_repeat [OF this] show False using Suc.prems(2) that by (simp add: may_repeat_def max_pipeline_retries_def)
    qed
    then have "k > 0" using False by blast
    then show ?thesis
      using Suc.IH [OF loop_inv_next [OF Suc.prems(1), of e]] False Suc.prems(2) by (simp add: Let_def)
  qed
qed simp

lemma planner_path_ends:
  "well_ended e (execute_planner_path e) \<and> length (l_passes (snd (execute_planner_path e))) \<le> 3"
  unfolding execute_planner_path_def max_pipeline_retries_def
  by (rule planner_loop_ends) (simp_all add: loop_inv_def start_state_def)

text \<open>C27: The planner runs a plan at most three times, whatever the executor and the verifier do. When it ends by
  itself, the result it reports is the outcome and the verdict of the last pass, marked as a failed verification exactly
  when that verdict is not a pass; otherwise a pass was cancelled or a step needed a platform that is not
  configured. After every pass but the last the verdict was a retry, or a failure with a retryable step.\<close>

theorem planner_run_ends:
  "case execute_planner_path e of (result, st) \<Rightarrow>
     length (l_passes st) \<le> 3
     \<and> list_all (\<lambda>p. vd_overall (pp_decision p) \<noteq> OutPass
          \<and> (vd_overall (pp_decision p) = OutRetry \<or> has_retryable_steps (pp_decision p))) (butlast (l_passes st))
     \<and> (case result of
          Cancelled \<Rightarrow> list_ex (pe_aborted e) [0, 1, 2]
        | PlatformUnconfigured out \<Rightarrow> platform_unconfigured (po_results out)
        | Finished out d failed \<Rightarrow> l_passes st \<noteq> [] \<and> pp_outcome (last (l_passes st)) = out
            \<and> pp_decision (last (l_passes st)) = d \<and> failed = (vd_overall d \<noteq> OutPass))"
  using planner_path_ends [of e]
  by (simp add: well_ended_def repeatable_def [abs_def] split_beta Let_def)

text \<open>C24: A step that passed verification is not run again: in the next pass the executor is given its result, and
  whatever the order in which the other steps settle, it never starts the step.\<close>

theorem verified_steps_stay_done:
  assumes "Suc i < length (l_passes (snd (execute_planner_path e)))"
    and "a \<in> set (vd_steps (pp_decision (l_passes (snd (execute_planner_path e)) ! i)))" "va_outcome a = OutPass"
    and "js_get (po_results (pp_outcome (l_passes (snd (execute_planner_path e)) ! i))) (va_step a) = Some r"
    and "r_status r = SCompleted" "va_step a \<in> set (step_names (pe_plan e))"
  shows "case l_passes (snd (execute_planner_path e)) ! Suc i of q \<Rightarrow>
      \<exists>prior. pp_prior q = Some prior \<and> js_get prior (va_step a) = Some r
      \<and> va_step a \<notin> set (p_started (run_pipeline (pass_config (pe_plan e) max_parallel (pp_prior q) (pp_repair q)) evs))"
proof -
  let ?ps = "l_passes (snd (execute_planner_path e))"
  have "successively (\<lambda>p q. carried_to p (pp_prior q)) ?ps"
    using planner_path_ends [of e] by (simp add: well_ended_def split_beta Let_def)
  then have "carried_to (?ps ! i) (pp_prior (?ps ! Suc i))"
    using assms(1) by (rule successively_nth)
  then obtain prior where prior: "pp_prior (?ps ! Suc i) = Some prior" "js_get prior (va_step a) = Some r"
    using assms(2-4) by (auto simp: carried_to_def)
  have "va_step a \<notin> set (p_started (run_pipeline (pass_config (pe_plan e) max_parallel (Some prior) repair) evs))" for repair
    by (rule carried_over_never_starts [OF _ prior(2) assms(5)]) (simp_all add: pass_config_def assms(6))
  with prior show ?thesis by simp
qed

definition sample_outcome :: pipeline_outcome where
  "sample_outcome = \<lparr>po_status = PCompleted,
     po_results = [(''a'', done_result ''a''), (''b'', done_result ''b'')], po_completed = 2\<rparr>"

definition sample_env :: planner_env where
  "sample_env = \<lparr>pe_plan = sample_plan, pe_execute = (\<lambda>attempt prior repair. sample_outcome),
     pe_verify = (\<lambda>attempt out. decision_on [sample_assessment ''a'' OutPass False [],
        sample_assessment ''b'' OutRetry True [sample_issue ''b'']]),
     pe_aborted = (\<lambda>attempt. False)\<rparr>"

lemma sample_passes: "length (l_passes (snd (execute_planner_path sample_env))) = 2"
  by code_simp

lemma sample_first_pass:
  "vd_steps (pp_decision (l_passes (snd (execute_planner_path sample_env)) ! 0)) =
     [sample_assessment ''a'' OutPass False [], sample_assessment ''b'' OutRetry True [sample_issue ''b'']]"
  "map_option r_status (js_get (po_results (pp_outcome (l_passes (snd (execute_planner_path sample_env)) ! 0))) ''a'')
     = Some SCompleted"
  by code_simp+

lemma verified_steps_stay_done_witness:
  "''a'' \<notin> set (p_started (run_pipeline (pass_config sample_plan 4
      (pp_prior (l_passes (snd (execute_planner_path sample_env)) ! 1))
      (pp_repair (l_passes (snd (execute_planner_path sample_env)) ! 1))) [Turn False]))"
proof -
  let ?a = "sample_assessment ''a'' OutPass False []"
  obtain r where r: "js_get (po_results (pp_outcome (l_passes (snd (execute_planner_path sample_env)) ! 0))) (va_step ?a) = Some r"
    "r_status r = SCompleted"
    using sample_first_pass(2) by (auto simp: sample_assessment_def)
  have "Suc 0 < length (l_passes (snd (execute_planner_path sample_env)))" by (simp add: sample_passes)
  moreover have "?a \<in> set (vd_steps (pp_decision (l_passes (snd (execute_planner_path sample_env)) ! 0)))"
    by (simp add: sample_first_pass)
  moreover have "va_outcome ?a = OutPass" "va_step ?a \<in> set (step_names (pe_plan sample_env))"
    by (simp_all add: sample_assessment_def sample_env_def sample_plan_def step_names_def tool_plan_step_def)
  ultimately have "va_step ?a \<notin> set (p_started (run_pipeline (pass_config (pe_plan sample_env) 4
      (pp_prior (l_passes (snd (execute_planner_path sample_env)) ! Suc 0))
      (pp_repair (l_passes (snd (execute_planner_path sample_env)) ! Suc 0))) [Turn False]))"
    using verified_steps_stay_done [of 0 sample_env ?a r 4 "[Turn False]"] r by blast
  then show ?thesis by (simp add: sample_env_def sample_assessment_def)
qed

section \<open>Repairs that do not happen\<close>

text \<open>When the owner of an issue passed its own verification, the repair plan lists it for a rerun, but its result is
  carried over and the executor never starts it: the repair is announced and not made.\<close>

lemma passed_owner_not_repaired:
  assumes "js_get res ''a'' = Some r" "r_status r = SCompleted"
  defines "d \<equiv> decision_on [sample_assessment ''a'' OutPass True [], sample_assessment ''b'' OutRetry True [sample_issue ''a'']]"
  shows "rp_rerun_order (build_repair_plan sample_plan [] d) = [''a'']"
    and "''a'' \<notin> set (p_started (run_pipeline (pass_config sample_plan m
           (Some (g_prior (check_stub_count_regression d res issues stubs))) repair) evs))"
proof -
  show "rp_rerun_order (build_repair_plan sample_plan [] d) = [''a'']" unfolding d_def by code_simp
  have "js_get (g_prior (check_stub_count_regression d res issues stubs)) ''a'' = Some r"
    using regression_keeps_passed [of "sample_assessment ''a'' OutPass True []" d res r] assms(1)
    by (simp add: d_def decision_on_def sample_assessment_def)
  then show "''a'' \<notin> set (p_started (run_pipeline (pass_config sample_plan m
           (Some (g_prior (check_stub_count_regression d res issues stubs))) repair) evs))"
    by (intro carried_over_never_starts [OF _ _ assms(2)])
       (simp_all add: pass_config_def sample_plan_def step_names_def tool_plan_step_def)
qed

text \<open>A step whose failure repeats is reported as skipped and its result is handed to the next pass, but the executor
  takes over completed results only: a failed step runs again.\<close>

lemma skipped_failure_runs_again:
  "''b'' \<in> set (p_started (run_pipeline (pass_config sample_plan 4
     (Some [(''b'', (done_result ''b'')\<lparr>r_status := SFailed, r_execution := SFailed\<rparr>)]) None) [Turn False]))"
  by code_simp

end
