(* ===== verification/Routing.thy ===== *)
theory Routing
  imports ChatMessages PlanTypes
begin

text \<open>
  How a goal is routed before anything runs: whether it gets a plan or the direct tool loop
  (\<open>packages/agent/src/core/plan/decision/assess.ts\<close>, \<open>decision/signals.ts\<close>, the patterns of
  \<open>core/plan/internal/decision-patterns.ts\<close> and \<open>goalContainsDomainKeyword\<close> of
  \<open>domain/tenant/known-vocabulary.ts\<close>), and whether it is mere conversation (\<open>core/goal-intent.ts\<close>).
  Every pattern is the source's, in the notation of theory \<open>Regex\<close>; alternatives whose character is above
  code unit 255 (the bullet sign of the list marker) are left out, as no modelled text contains it.
\<close>

section \<open>Patterns\<close>

definition multi_step_re :: string where
  "multi_step_re =
     ''~b(?:first|then|next|after that|step ~d|phase ~d|(?:^|[~n;])~s*~d+~.~s|~bfinally~b)''"

definition tool_diversity_re :: string where
  "tool_diversity_re =
     ''~b(?:create|write|build|implement|verify|run|deploy|configure|install)~b''"

definition delegation_re :: string where
  "delegation_re =
     ''~b(sub[~s-]?agent|child agent|execute_with_agent|delegate|delegation|parallel(?:ize|ism)?|fanout)~b''"

definition implementation_scope_re :: string where
  "implementation_scope_re =
     ''~b(?:build|create|implement|develop|make|write)~b[~s~S]{0,100}~b(?:app(?:lication)?|game|website|site|project|system|platform|service|api|dashboard|tool|library|framework|clone|full|complete|entire|whole)~b''"

definition verification_re :: string where
  "verification_re =
     ''~b(?:test|verify|ensure|check|validate|confirm|working|functional|playable|interactive)~b''"

definition simple_dialogue_re :: string where
  "simple_dialogue_re =
     ''^(?:hi|hello|hey|howdy|yo|sup|thanks?|thank you|thx|ty|good (?:morning|afternoon|evening|night)|what(?:\\'s| is) up|what is|how do|how are you|can you explain|tell me about)~b''"

definition session_meta_dialogue_re :: string where
  "session_meta_dialogue_re =
     ''~b(?:what are we (?:doing|working on)|what(?:\\'s| is) (?:the|our) (?:plan|goal|task|status|progress)|where are we(?: at)?|what have we (?:done|been doing)|catch me up|what did we (?:do|decide|work on)|remind me what|what was (?:the|our)|status update|any updates)~b''"

definition review_question_re :: string where
  "review_question_re =
     ''~b(?:read~s+through|review|analyze|check|look~s+at|go~s+through|evaluate|assess)~b[~s~S]{0,60}~?''"

definition exact_response_re :: string where
  "exact_response_re =
     ''~b(?:respond~s+with|output~s+exactly|just~s+(?:say|write|output|reply|return)|^(?:say|write|echo)~b)''"

definition dialogue_memory_re :: string where
  "dialogue_memory_re =
     ''~b(?:remember|memorize|save~s+(?:this|that)|store~s+(?:this|that)|note~s+that|keep~s+in~s+mind)~b''"

definition dialogue_recall_re :: string where
  "dialogue_recall_re =
     ''~b(?:what~s+did~s+(?:I|you|we)|recall|do~s+you~s+remember|earlier~s+(?:I|you|we))~b''"

definition dialogue_recall_reference_re :: string where
  "dialogue_recall_reference_re =
     ''~b(?:from~s+(?:earlier|before|above|prior|previous|last~s+turn|prior~s+turn)|(?:you|i)~s+(?:stored|memorized|remembered|told)|those~s+facts|these~s+facts|the~s+facts|last~s+turn|prior~s+turn|previous~s+turn|continuity~s+test)~b''"

definition explicit_env_action_re :: string where
  "explicit_env_action_re =
     ''~b(?:use|call|invoke|run|start|stop|create|write|edit|save|open|navigate|click|search|browse|inspect|read|check|verify|delegate|spawn|launch|post|publish|deploy|install|build|implement|refactor|migrate|continue)~b[~s~S]{0,96}~b(?:tool|tools|file|files|server|process|service|api|endpoint|project|tests?|[a-z][~w-]*~.[a-z][~w.-]*)~b''"

definition edit_artifact_re :: string where
  "edit_artifact_re =
     ''~b(?:edit|update|change|modify|fix|patch|rename|refactor|replace)~b[~s~S]{0,80}~b(?:in|of|the~s+file|this~s+file|~.(?:ts|js|tsx|jsx|css|html|json|md|py|rs|go))~b''"

definition plan_creation_re :: string where
  "plan_creation_re =
     ''~b(?:write|create|draft|make)~s+(?:a~s+)?(?:plan|spec|proposal|document|outline|summary|report|readme|changelog)~b''"

definition conversational_data_query_re :: string where
  "conversational_data_query_re =
     ''~b(?:are~s+there~s+(?:any|some)|do~s+(?:any|some|we~s+have)|which~b|find~b|show~s+me~b)~b[~s~S]{0,200}~b(?:created|modified|changed|updated|authored|owned|added|deleted)~b[~s~S]{0,60}~bby~b''"

definition run_history_query_re :: string where
  "run_history_query_re =
     ''~b(?:what|which|show|list|find)~b[~s~S]{0,120}~b(?:first|latest|last|earliest|recent|oldest|failed|failure|successful|status)~b[~s~S]{0,120}~b(?:run|runs|pipeline|pipelines|job|jobs|execution|executions)~b''"

definition db_investigation_re :: string where
  "db_investigation_re =
     ''~b(?:identify|find(?:~s+out)?|discover|analyse|analyze|inspect|examine|scan|look~s+for|explore)~b[~s~S]{0,120}~b(?:view|views|join|joins|table|tables|schema|schemas|index|indexes|indices|column|columns|slow|duplicate~s+join|unnecessary~s+join|redundant|inefficien)~b|~b(?:view|views|join|joins|schema|schemas)~b[~s~S]{0,80}~b(?:slow|redundant|unnecessary|duplicate|inefficien|identify|find|discover|analyze|analyse|inspect)~b''"

definition data_fetch_pipeline_re :: string where
  "data_fetch_pipeline_re =
     ''~b(?:query|fetch|get|pull|retrieve|select|show|display|list|report~s+on|generate~s+(?:a~s+)?report)~b[~s~S]{0,80}~b(?:from~s+)?(?:database|db|mssql|sql~s+server|sql|table|data)~b|~b(?:mssql|sql~s+server|database|db)~b[~s~S]{0,80}~b(?:report|table|chart|display|html|dashboard|page|export|output|result)~b''"

definition top_n_data_list_re :: string where
  "top_n_data_list_re =
     ''~b(?:top~s+~d+|create~s+(?:a~s+)?top~s+~d+)~b[~s~S]{0,100}~b(?:list|bankers?|banker|clients?|client|officers?|officer|products?|accounts?|revenue|ranking|rank)~b''"

definition simple_function_write_re :: string where
  "simple_function_write_re =
     ''^~s*(?:create|implement|write|add|make)~b[^~n]{0,80}~b(?:function|method|class|script|algorithm|utility|helper|snippet|module)~b[^~n]{0,80}$''"

definition target_file_re :: string where
  "target_file_re =
     ''~b[~w./-]+~.(?:ts|tsx|js|jsx|py|go|rs|java|kt|html|css|sql)~b''"

definition multi_target_cue_re :: string where
  "multi_target_cue_re =
     ''~b(?:and|plus|along with|together with)~b[~s~S]{0,40}~b(?:files?|modules?|components?|pages?|scripts?|api|services?|backend|frontend|database|schema|tests?)~b''"

definition recovery_hint_re :: string where
  "recovery_hint_re =
     ''~[recovery~]|no[_~s]progress|stuck|repeated[_~s]failure|escalat''"

definition existing_code_coupling_re :: string where
  "existing_code_coupling_re =
     ''~b(?:existing|current|already|integrat(?:e|ion)|hook~s+into|wire~s+into|refactor|migrat(?:e|ion)|extend|modify|update|patch|rename|repair)~b''"

definition coordination_heavy_re :: string where
  "coordination_heavy_re =
     ''~b(?:multiple|several|coordinated|shared|cross[- ]file|cross[- ]module|across|between|independent)~b[~s~S]{0,40}~b(?:files?|modules?|components?|pages?|sections?|widgets?|panels?|interactions?)~b''"

definition external_service_re :: string where
  "external_service_re =
     ''~b(?:mssql|sql~s+server|postgres|mysql|mongo|redis|kafka|rabbitmq|deploy|kubernetes|docker~s+swarm|aws|azure|gcp|cloud~s+run|lambda|microservice|oauth|saml|stripe|twilio|sendgrid|broker|message~s+queue)~b''"

definition multi_page_re :: string where
  "multi_page_re = ''~b~w+~s+page(?:,~s*(?:~w+~s+)?page)+~b''"

section \<open>Signals\<close>

record message =
  msg_role :: message_role
  msg_content :: "string option"
  msg_section :: "string option"

record request_signals =
  rs_normalized :: string
  rs_multi_step :: bool
  rs_tool_diversity :: bool
  rs_delegation :: bool
  rs_implementation_scope :: bool
  rs_verification :: bool
  rs_long_task :: bool
  rs_bullets :: nat
  rs_prior_tool_messages :: nat
  rs_target_files :: "string list"
  rs_prior_no_progress :: bool

abbreviation flag_m :: rx_flags where
  "flag_m \<equiv> \<lparr>ignore_case = False, multiline = True\<rparr>"

definition last_n :: "nat \<Rightarrow> 'a list \<Rightarrow> 'a list" where
  "last_n n xs = drop (length xs - n) xs"

definition structured_bullets :: "string \<Rightarrow> nat" where
  "structured_bullets n = length (rx_all flag_m ''^[~s]*[-*]~s'' n) + length (rx_all flag_m ''^~s*~d+[.)]~s'' n)"

definition collect_signals :: "string \<Rightarrow> message list \<Rightarrow> request_signals" where
  "collect_signals message_text history =
     (let normalized = js_trim message_text;
          bullets = structured_bullets normalized;
          history_tail = last_n 4 (filter (\<lambda>m. msg_role m \<noteq> SystemRole) history)
      in \<lparr>rs_normalized = normalized,
          rs_multi_step = rx_test flag_im multi_step_re normalized,
          rs_tool_diversity = rx_test flag_i tool_diversity_re normalized,
          rs_delegation = rx_test flag_i delegation_re normalized,
          rs_implementation_scope = rx_test flag_i implementation_scope_re normalized,
          rs_verification = rx_test flag_i verification_re normalized,
          rs_long_task = (length normalized > 200 \<or> bullets \<ge> 3),
          rs_bullets = bullets,
          rs_prior_tool_messages = length (filter (\<lambda>m. msg_role m = ToolRole) history),
          rs_target_files = set_of_list (map strip_leading_dot_slash (rx_all flag_i target_file_re normalized)),
          rs_prior_no_progress = list_ex (\<lambda>m. case msg_content m of None \<Rightarrow> False
            | Some c \<Rightarrow> rx_test flag_i recovery_hint_re c) history_tail\<rparr>)"

text \<open>Each signal that counts adds its weight and its reason.\<close>

definition score_parts :: "request_signals \<Rightarrow> (bool \<times> nat \<times> string) list" where
  "score_parts s =
     [(rs_multi_step s, 3, ''multi_step''),
      (rs_tool_diversity s, 1, ''tool_diversity''),
      (rs_delegation s, 4, ''delegation''),
      (rs_implementation_scope s, 3, ''implementation_scope''),
      (rs_verification s \<and> rs_implementation_scope s, 1, ''verification_on_impl''),
      (rs_long_task s, 1, ''long_or_structured''),
      (rs_prior_tool_messages s \<ge> 4, 2, ''prior_tool_activity''),
      (rs_prior_no_progress s, 2, ''prior_no_progress''),
      (rx_test flag_i existing_code_coupling_re (rs_normalized s), 2, ''existing_code_coupling''),
      (rx_test flag_i coordination_heavy_re (rs_normalized s), 2, ''coordination_heavy'')]"

definition compute_planner_score :: "request_signals \<Rightarrow> nat \<times> string list" where
  "compute_planner_score s =
     foldl (\<lambda>(score, reasons) (present, weight, reason).
              if present then (score + weight, reasons @ [reason]) else (score, reasons))
       (0, []) (score_parts s)"

section \<open>The route\<close>

datatype route = Direct | Planner

record route_decision =
  rd_route :: route
  rd_reason :: string
  rd_should_plan :: bool
  rd_score :: nat

definition direct :: "string \<Rightarrow> nat \<Rightarrow> route_decision" where
  "direct reason score = \<lparr>rd_route = Direct, rd_reason = reason, rd_should_plan = False, rd_score = score\<rparr>"

definition planner :: "string \<Rightarrow> nat \<Rightarrow> route_decision" where
  "planner reason score = \<lparr>rd_route = Planner, rd_reason = reason, rd_should_plan = True, rd_score = score\<rparr>"

definition goal_contains_domain_keyword :: "string \<Rightarrow> string list \<Rightarrow> bool" where
  "goal_contains_domain_keyword t keywords =
     (if length keywords = 0 then False
      else rx_test flag_i (''~b(?:'' @ js_join ''|'' (map escape_regex keywords) @ '')~b'') t)"

definition needs_planner_coordination :: "request_signals \<Rightarrow> bool" where
  "needs_planner_coordination s =
     (rs_delegation s \<or> rs_multi_step s \<and> rs_implementation_scope s \<or> rs_bullets s > 0
      \<or> length (rs_target_files s) \<ge> 2 \<or> rx_test flag_i coordination_heavy_re (rs_normalized s)
      \<or> rx_test flag_i existing_code_coupling_re (rs_normalized s))"

text \<open>The gates in the order in which they are tried; the first whose condition holds decides.\<close>

definition direct_gates :: "request_signals \<Rightarrow> string list \<Rightarrow> (bool \<times> string) list" where
  "direct_gates s keywords =
     (let n = rs_normalized s; has = (\<lambda>re. rx_test flag_i re n);
          plain = \<not> rs_delegation s \<and> \<not> rs_implementation_scope s in
      [(has simple_dialogue_re, ''simple_dialogue''),
       (has review_question_re, ''review_question''),
       (length n < 20, ''too_short''),
       (has exact_response_re \<and> \<not> has explicit_env_action_re, ''exact_response_turn''),
       (has dialogue_memory_re \<and> \<not> has explicit_env_action_re, ''dialogue_memory_turn''),
       (has dialogue_recall_re \<and> has dialogue_recall_reference_re \<and> \<not> has explicit_env_action_re,
          ''dialogue_recall_turn''),
       (has edit_artifact_re \<and> \<not> rs_delegation s, ''edit_artifact''),
       (has simple_function_write_re \<and> \<not> rs_delegation s \<and> \<not> rs_multi_step s
          \<and> \<not> has external_service_re \<and> \<not> has existing_code_coupling_re, ''simple_function_write''),
       (has plan_creation_re \<and> \<not> rs_delegation s, ''plan_generation''),
       (has db_investigation_re \<and> plain, ''db_investigation''),
       (has data_fetch_pipeline_re \<and> \<not> rs_delegation s, ''data_fetch_pipeline''),
       (has run_history_query_re \<and> plain, ''run_history_query''),
       (has conversational_data_query_re \<and> plain, ''conversational_data_query''),
       (has top_n_data_list_re \<and> plain, ''top_n_data_list''),
       (goal_contains_domain_keyword n keywords \<and> plain \<and> \<not> has existing_code_coupling_re, ''domain_data_query'')])"

definition planner_gates :: "request_signals \<Rightarrow> nat \<Rightarrow> string list \<Rightarrow> (bool \<times> string) list" where
  "planner_gates s score reasons =
     (let n = rs_normalized s; joined = js_join ''+'' reasons in
      [(rs_delegation s, ''delegation_cue''),
       (rs_multi_step s \<and> rs_implementation_scope s, ''multi_step_implementation''),
       (rs_implementation_scope s \<and> rx_test flag_i multi_target_cue_re n, ''multi_target''),
       (rs_implementation_scope s \<and> rx_test flag_i multi_page_re n, ''multi_page''),
       (score \<ge> 4 \<and> needs_planner_coordination s, if joined = [] then ''high_complexity'' else joined)])"

definition first_gate :: "(bool \<times> string) list \<Rightarrow> string option" where
  "first_gate gates = map_option snd (find fst gates)"

definition assess_planner_decision :: "string \<Rightarrow> message list \<Rightarrow> string list option \<Rightarrow> route_decision" where
  "assess_planner_decision message_text history domain_keywords =
     (let s = collect_signals message_text history;
          (score, reasons) = compute_planner_score s
      in case first_gate (direct_gates s (case domain_keywords of None \<Rightarrow> [] | Some ks \<Rightarrow> ks)) of
           Some reason \<Rightarrow> direct reason score
         | None \<Rightarrow>
             (case first_gate (planner_gates s score reasons) of
                Some reason \<Rightarrow> planner reason score
              | None \<Rightarrow> direct ''default'' score))"

section \<open>Conversation\<close>

definition task_intent_re :: string where
  "task_intent_re =
     ''~b(?:build|create|write|run|fix|implement|deploy|query|count|analyze|analyse|find|list|show|generate|delete|update|edit|modify|verify|sync|migrate|refactor|fetch|pull|retrieve|inspect|scan|explore|calculate|compute|split|how many|how much)~b''"

definition bare_checkin_re :: string where
  "bare_checkin_re =
     ''^(?:test|ping|pong|echo)~s*[!.?]*$''"

definition assent_phrase_re :: string where
  "assent_phrase_re =
     ''^(?:ok(?:ay)?|k|yes|yep|yeah|y|sure|do it|go ahead|please|go for it|please do|sounds good|that works|let\\'s do it|let\\'s go)~s*[!.?]*$''"

definition leading_assent_re :: string where
  "leading_assent_re =
     ''^(?:ok(?:ay)?|k|yes|yep|yeah|y|sure|please|go ahead|do it|go for it|please do|sounds good|that works|let\\'s do it|let\\'s go)[,.:;]?~s+''"

definition passive_ack_re :: string where
  "passive_ack_re =
     ''^(?:thanks?|thank you|thx|ty|got it|understood|cool|great|nice|perfect|awesome)~s*[!.?]*$''"

definition assistant_offer_re :: string where
  "assistant_offer_re =
     ''~b(?:(?:I|we) can also|if you (?:want|like)|would you like (?:me to)?|do you want (?:me to)?|should i(?:~s+(?:continue|proceed|implement|fix))?|want me to|let me know if|I could also|happy to|shall I|I can (?:also |)(?:split|run|check|verify|explore|show|list|generate|build|create|fix|update|help|do))~b''"

definition assistant_open_offer_re :: string where
  "assistant_open_offer_re =
     ''~b(?:if you(?:\\'d| would)? like|optional(?:ly)?|up to you|your call|just (?:say|let me know))~b''"

definition direct_sync_execute_command_re :: string where
  "direct_sync_execute_command_re =
     ''^~s*sync_execute~b[~s~S]{0,160}?~bplanId~s*=~s*['' @ [CHR 0x22] @ ''\\']?[A-Za-z0-9:_-]+['' @ [CHR 0x22] @ ''\\']?[~s~S]{0,160}?~bconfirm~s*=~s*true~b''"

fun answer_lines :: "string list \<Rightarrow> string list" where
  "answer_lines [] = []"
| "answer_lines (l # ls) =
     (if rx_test flag_none ''^Turn -~d+~b'' l then []
      else if starts_with l ''When the user uses pronouns'' then []
      else if l = ''</prior_turns>'' then []
      else if starts_with l ''    '' then drop 4 l # answer_lines ls
      else if js_trim l = [] then [] # answer_lines ls
      else [])"

definition newline_char :: char where
  "newline_char = CHR 0x0A"

definition extract_turn_minus_one_answer :: "string \<Rightarrow> string option" where
  "extract_turn_minus_one_answer block =
     (case rx_search flag_m ''^Turn -1~b'' block of
        None \<Rightarrow> None
      | Some slice \<Rightarrow>
          (case rx_search flag_m ''^ {2}Answer:~s*$'' slice of
             None \<Rightarrow> None
           | Some answer \<Rightarrow>
               (let t = js_trim (js_join [newline_char] (answer_lines (drop 1 (js_split newline_char answer))))
                in if length t > 0 then Some t else None)))"

definition prior_turn_answer :: "message \<Rightarrow> string option" where
  "prior_turn_answer m = (case msg_content m of None \<Rightarrow> None
     | Some c \<Rightarrow> if js_includes c ''<prior_turns>'' then extract_turn_minus_one_answer c else None)"

definition extract_prior_assistant_narrative :: "message list option \<Rightarrow> string option" where
  "extract_prior_assistant_narrative messages = (case messages of
      None \<Rightarrow> None
    | Some ms \<Rightarrow>
        (case first_match prior_turn_answer (rev ms) of
           Some a \<Rightarrow> Some a
         | None \<Rightarrow>
             (case find (\<lambda>m. msg_role m = AssistantRole \<and> msg_section m \<noteq> Some ''system_anchor'') (rev ms) of
                None \<Rightarrow> None
              | Some m \<Rightarrow> (case msg_content m of None \<Rightarrow> None
                  | Some c \<Rightarrow> if js_trim c \<noteq> [] then Some c else None))))"

definition is_assent_phrase :: "string \<Rightarrow> bool" where
  "is_assent_phrase normalized = rx_test flag_i assent_phrase_re normalized"

definition strip_assent_prefix :: "string \<Rightarrow> string option" where
  "strip_assent_prefix normalized =
     (case rx_capture flag_i ''^(?:ok(?:ay)?|yes|yep|yeah|sure|please|go ahead)[,.]?~s+'' ''.+'' ''$'' normalized of
        None \<Rightarrow> None
      | Some m \<Rightarrow> if length (js_trim m) > 0 then Some (js_trim m) else None)"

definition has_actionable_assistant_context :: "message list option \<Rightarrow> bool" where
  "has_actionable_assistant_context ctx = (case extract_prior_assistant_narrative ctx of
      None \<Rightarrow> False
    | Some narrative \<Rightarrow> rx_test flag_i assistant_offer_re narrative \<or> rx_test flag_i assistant_open_offer_re narrative)"

definition is_direct_dialogue_goal :: "string \<Rightarrow> message list option \<Rightarrow> bool" where
  "is_direct_dialogue_goal goal ctx =
     (let normalized = js_trim goal; has = (\<lambda>re. rx_test flag_i re normalized) in
      if normalized = [] then True
      else if has explicit_env_action_re then False
      else if has task_intent_re then False
      else if (case strip_assent_prefix normalized of None \<Rightarrow> False
               | Some rest \<Rightarrow> rx_test flag_i task_intent_re rest \<or> length rest > 8) then False
      else if is_assent_phrase normalized \<and> has_actionable_assistant_context ctx then False
      else has simple_dialogue_re \<or> has passive_ack_re \<or> has session_meta_dialogue_re \<or> has exact_response_re
        \<or> has dialogue_memory_re \<or> has dialogue_recall_re \<and> has dialogue_recall_reference_re
        \<or> is_assent_phrase normalized)"

definition is_conversational_no_tool_goal :: "string \<Rightarrow> message list option \<Rightarrow> bool" where
  "is_conversational_no_tool_goal goal ctx =
     (is_direct_dialogue_goal goal ctx
      \<or> length (js_trim goal) > 0 \<and> rx_test flag_i bare_checkin_re (js_trim goal))"

definition is_direct_sync_execute_command :: "string \<Rightarrow> bool" where
  "is_direct_sync_execute_command goal =
     (let stripped = js_trim (rx_delete flag_i leading_assent_re (js_trim goal)) in
      if stripped = [] \<or> ends_with stripped ''?'' then False
      else rx_test flag_i direct_sync_execute_command_re stripped)"

definition is_clarification_exempt_goal :: "string \<Rightarrow> message list option \<Rightarrow> bool" where
  "is_clarification_exempt_goal goal ctx =
     (if is_direct_sync_execute_command goal then True else is_conversational_no_tool_goal goal ctx)"

section \<open>What decides the route\<close>

lemma score_fold:
  "foldl (\<lambda>(score, reasons) (present, weight, reason).
            if present then (score + weight, reasons @ [reason]) else (score, reasons)) (k :: nat, rs) parts
     = (k + sum_list (map (\<lambda>p. fst (snd p)) (filter fst parts)), rs @ map (\<lambda>p. snd (snd p)) (filter fst parts))"
  by (induction parts arbitrary: k rs) auto

lemma planner_score:
  "compute_planner_score s =
     (sum_list (map (\<lambda>p. fst (snd p)) (filter fst (score_parts s))),
      map (\<lambda>p. snd (snd p)) (filter fst (score_parts s)))"
  by (simp add: compute_planner_score_def score_fold)



lemma first_gate_None: "first_gate gates = None \<longleftrightarrow> \<not> list_ex fst gates"
  by (induction gates) (auto simp: first_gate_def)

definition wants_plan :: "request_signals \<Rightarrow> bool" where
  "wants_plan s =
     (rs_delegation s
      \<or> rs_implementation_scope s \<and> (rs_multi_step s \<or> rx_test flag_i multi_target_cue_re (rs_normalized s)
                                     \<or> rx_test flag_i multi_page_re (rs_normalized s))
      \<or> fst (compute_planner_score s) \<ge> 4 \<and> needs_planner_coordination s)"

lemma planner_gates_open:
  "list_ex fst (planner_gates s (fst (compute_planner_score s)) rs) \<longleftrightarrow> wants_plan s"
  by (auto simp: planner_gates_def wants_plan_def Let_def)

lemma assess_cases:
  "rd_route (assess_planner_decision t h ks) = Planner \<longleftrightarrow>
     \<not> list_ex fst (direct_gates (collect_signals t h) (case ks of None \<Rightarrow> [] | Some k \<Rightarrow> k))
     \<and> wants_plan (collect_signals t h)"
proof -
  let ?s = "collect_signals t h"
  obtain score reasons where sc: "compute_planner_score ?s = (score, reasons)" by fastforce
  have "wants_plan ?s \<longleftrightarrow> list_ex fst (planner_gates ?s score reasons)"
    using planner_gates_open [of ?s reasons] sc by simp
  moreover have "list_ex fst gates \<longleftrightarrow> first_gate gates \<noteq> None" for gates
    by (simp add: first_gate_None)
  ultimately show ?thesis
    by (auto simp: assess_planner_decision_def Let_def sc direct_def planner_def split: option.splits)
qed

lemma assess_score:
  "rd_score (assess_planner_decision t h ks) = fst (compute_planner_score (collect_signals t h))"
  "rd_should_plan (assess_planner_decision t h ks) \<longleftrightarrow> rd_route (assess_planner_decision t h ks) = Planner"
  by (simp_all add: assess_planner_decision_def Let_def direct_def planner_def split: prod.split option.split)


text \<open>The comment of \<open>computePlannerScore\<close> says a score of 4 is enough for a plan. A goal with several steps and
  diverse tools but no cue for coordination reaches 4 and is routed directly.\<close>

lemma score_alone_is_not_enough:
  assumes "rs_multi_step (collect_signals t h)" "rs_tool_diversity (collect_signals t h)"
    "\<not> rs_implementation_scope (collect_signals t h)" "\<not> needs_planner_coordination (collect_signals t h)"
  shows "rd_score (assess_planner_decision t h ks) \<ge> 4 \<and> rd_route (assess_planner_decision t h ks) = Direct"
proof -
  have "\<not> wants_plan (collect_signals t h)"
    using assms by (auto simp: wants_plan_def needs_planner_coordination_def)
  then have "rd_route (assess_planner_decision t h ks) \<noteq> Planner" by (simp add: assess_cases)
  moreover have "rd_score (assess_planner_decision t h ks) \<ge> 4"
    using assms by (simp add: assess_score planner_score score_parts_def)
  ultimately show ?thesis using route.exhaust by blast
qed

text \<open>A goal the agent may answer without tools as mere conversation names no task: once it is trimmed it is empty, or it
  matches neither the explicit-action pattern nor the task verbs, what follows a leading assent is at most eight
  characters long and names no task either, and it is not a go-ahead to an offer the assistant made.\<close>

theorem dialogue_goal_names_no_task:
  assumes "is_direct_dialogue_goal goal ctx" "js_trim goal \<noteq> []"
  shows "\<not> rx_test flag_i explicit_env_action_re (js_trim goal) \<and> \<not> rx_test flag_i task_intent_re (js_trim goal)
    \<and> (case strip_assent_prefix (js_trim goal) of None \<Rightarrow> True
       | Some rest \<Rightarrow> \<not> rx_test flag_i task_intent_re rest \<and> length rest \<le> 8)
    \<and> \<not> (is_assent_phrase (js_trim goal) \<and> has_actionable_assistant_context ctx)"
  using assms by (auto simp: is_direct_dialogue_goal_def Let_def split: if_splits option.splits)

lemma greeting_no_action: "\<not> rx_test flag_i explicit_env_action_re ''hi''"
  by code_simp

lemma greeting_no_task: "\<not> rx_test flag_i task_intent_re ''hi''"
  by code_simp

lemma greeting_no_assent: "strip_assent_prefix ''hi'' = None" "\<not> is_assent_phrase ''hi''"
  by code_simp+

lemma greeting_simple: "rx_test flag_i simple_dialogue_re ''hi''"
  by code_simp

lemma greeting_trimmed: "js_trim ''hi'' = ''hi''"
  by code_simp

lemma dialogue_goal_names_no_task_witness:
  "is_direct_dialogue_goal ''hi'' None \<and> \<not> rx_test flag_i task_intent_re (js_trim ''hi'')"
proof -
  have "is_direct_dialogue_goal ''hi'' None"
    by (simp add: is_direct_dialogue_goal_def Let_def greeting_trimmed greeting_no_action greeting_no_task
        greeting_no_assent greeting_simple)
  from dialogue_goal_names_no_task [OF this] this show ?thesis by (simp add: greeting_trimmed)
qed

end
