(* ===== verification/Delegation.thy ===== *)
theory Delegation
  imports Routing
begin

text \<open>
  The delegation decision (\<open>packages/agent/src/core/delegate-decision\<close>: \<open>types.ts\<close>, \<open>config.ts\<close>,
  \<open>economics.ts\<close>, \<open>check-decision-safety.ts\<close>, \<open>build-decision.ts\<close>, \<open>index.ts\<close>) and the gate of the planner
  that uses it (\<open>core/plan/orchestrator/setup-delegation.ts\<close>): whether a plan is stopped, and whether its
  sub-agents run in parallel, one at a time or guided by the parent. Scores are real numbers: rounding of the
  floating-point sums is not modelled. The text of the failure payload is kept as the decision it prints.
\<close>

section \<open>Types and configuration\<close>

datatype delegation_reason =
    DelegationDisabled | NoSubagentSteps | HardBlockedTaskClass | TrivialRequest | SingleHopRequest
  | SharedContextReview | SharedArtifactWriterInline | FanoutExceeded | DepthExceeded
  | HandoffConfidenceBelowThreshold | SafetyRiskHigh | ScoreBelowThreshold | MissingExecutionEnvelope
  | ParallelGainInsufficient | DependencyCouplingHigh | ToolOverlapHigh | VerifierCostHigh | RetryCostHigh
  | NegativeEconomics | NoSafeDelegationShape | Approved

datatype task_class = WalletSigning | WalletTransfer | StakeOrRewards | DestructiveHostMutation | CredentialExfiltration

datatype match_source = CapabilitySource | TextSource

datatype step_effect = ReadOnlyStep | WriteStep | MixedStep

record delegation_config =
  dc_enabled :: "bool option"
  dc_score_threshold :: "real option"
  dc_max_fanout :: "real option"
  dc_max_depth :: "real option"
  dc_hard_blocked :: "string list option"

record resolved_config =
  rc_enabled :: bool
  rc_threshold :: real
  rc_max_fanout :: int
  rc_max_depth :: int
  rc_hard_blocked :: "task_class list"

record step_profile =
  sp_name :: string
  sp_objective :: "string option"
  sp_depends_on :: "string list option"
  sp_acceptance :: "string list"
  sp_capabilities :: "string list"
  sp_parallel :: bool
  sp_effect :: "step_effect option"

record decision_input =
  di_message :: string
  di_explicit :: "bool option"
  di_confidence :: "real option"
  di_complexity :: real
  di_total_steps :: nat
  di_synthesis_steps :: nat
  di_subagents :: "step_profile list"
  di_config :: "delegation_config option"
  di_depth :: "int option"

record hard_block_match =
  hb_class :: task_class
  hb_source :: match_source
  hb_signal :: string

record delegation_decision =
  dd_should_delegate :: bool
  dd_reason :: delegation_reason
  dd_threshold :: real
  dd_utility :: real
  dd_benefit :: real
  dd_overhead :: real
  dd_latency :: real
  dd_safety_risk :: real
  dd_confidence :: real
  dd_hard_block :: "hard_block_match option"
  dd_enabled :: bool
  dd_max_fanout :: int
  dd_max_depth :: int

definition clamp01 :: "real \<Rightarrow> real" where
  "clamp01 v = max 0 (min 1 v)"

definition safety_risk_hard_block_threshold :: real where
  "safety_risk_hard_block_threshold = 9 / 10"

definition default_hard_blocked_task_classes :: "task_class list" where
  "default_hard_blocked_task_classes = [WalletSigning, WalletTransfer, StakeOrRewards, CredentialExfiltration]"

definition valid_hard_blocked_class :: "string \<Rightarrow> task_class option" where
  "valid_hard_blocked_class v =
     (if v = ''wallet_signing'' then Some WalletSigning
      else if v = ''wallet_transfer'' then Some WalletTransfer
      else if v = ''stake_or_rewards'' then Some StakeOrRewards
      else if v = ''destructive_host_mutation'' then Some DestructiveHostMutation
      else if v = ''credential_exfiltration'' then Some CredentialExfiltration
      else None)"

definition or_else :: "'a option \<Rightarrow> 'a \<Rightarrow> 'a" where
  "or_else v d = (case v of None \<Rightarrow> d | Some x \<Rightarrow> x)"

definition resolve_delegation_decision_config :: "delegation_config option \<Rightarrow> resolved_config" where
  "resolve_delegation_decision_config config =
     (let c = or_else config \<lparr>dc_enabled = None, dc_score_threshold = None, dc_max_fanout = None,
                dc_max_depth = None, dc_hard_blocked = None\<rparr>
      in \<lparr>rc_enabled = or_else (dc_enabled c) True,
          rc_threshold = clamp01 (or_else (dc_score_threshold c) (2 / 10)),
          rc_max_fanout = max 1 \<lfloor>or_else (dc_max_fanout c) 8\<rfloor>,
          rc_max_depth = max 1 \<lfloor>or_else (dc_max_depth c) 4\<rfloor>,
          rc_hard_blocked = (case dc_hard_blocked c of
              Some configured \<Rightarrow> set_of_list (List.map_filter valid_hard_blocked_class configured)
            | None \<Rightarrow> set_of_list default_hard_blocked_task_classes)\<rparr>)"

section \<open>Safety risk\<close>

definition high_risk_capability_patterns :: "string list" where
  "high_risk_capability_patterns =
     [''^(?:wallet|solana|crypto)~.'',
      ''^(?:system~.)?(?:delete|execute|open)$'']"

definition moderate_risk_capability_patterns :: "string list" where
  "moderate_risk_capability_patterns =
     [''^(?:run_command|write_file)$'',
      ''^(?:fetch_url)$'']"

definition any_matches :: "string list \<Rightarrow> string \<Rightarrow> bool" where
  "any_matches ps s = list_ex (\<lambda>p. rx_test flag_i p s) ps"

definition high_risk_capability :: "string \<Rightarrow> bool" where
  "high_risk_capability cap = any_matches high_risk_capability_patterns (js_lower (js_trim cap))"

definition moderate_risk_capability :: "string \<Rightarrow> bool" where
  "moderate_risk_capability cap =
     (\<not> high_risk_capability cap \<and> any_matches moderate_risk_capability_patterns (js_lower (js_trim cap)))"

definition parallel_mutable :: "step_profile \<Rightarrow> bool" where
  "parallel_mutable s = (sp_parallel s \<and> (case sp_effect s of None \<Rightarrow> False | Some e \<Rightarrow> e \<noteq> ReadOnlyStep))"

definition fraction :: "nat \<Rightarrow> nat \<Rightarrow> real" where
  "fraction a b = real a / real b"

definition compute_safety_risk :: "step_profile list \<Rightarrow> real" where
  "compute_safety_risk profiles =
     (let caps = concat (map sp_capabilities profiles);
          high = length (filter high_risk_capability caps);
          moderate = length (filter moderate_risk_capability caps);
          exposure = clamp01 (if length profiles > 0
            then fraction (length (filter parallel_mutable profiles)) (length profiles) else 0)
      in clamp01 (5 / 100 + real high * (22 / 100) + real moderate * (8 / 100) + exposure * (18 / 100)))"

section \<open>Hard blocks\<close>

definition wallet_signing_text_re :: string where
  "wallet_signing_text_re = ''~b(sign|authorize|approve)~b[~s~S]{0,48}~b(wallet|transaction|tx)~b''"

definition wallet_transfer_text_re :: string where
  "wallet_transfer_text_re =
     ''~b(transfer|send|withdraw|pay)~b[~s~S]{0,48}~b(sol|token|fund|wallet|usdc|usdt)~b''"

definition stake_or_rewards_text_patterns :: "string list" where
  "stake_or_rewards_text_patterns =
     [''~b(stake|unstake|undelegate)~b[~s~S]{0,48}~b(sol|token|tokens|validator|stake|staking|reward|rewards|yield|wallet)~b'',
      ''~b(delegate)~b[~s~S]{0,48}~b(stake|staking|validator|vote~s+account|sol|token|tokens)~b'',
      ''~b(claim|reward|rewards)~b[~s~S]{0,48}~b(stake|staking|validator|sol|token|tokens|wallet|yield)~b'']"

definition credential_marker_patterns :: "string list" where
  "credential_marker_patterns =
     [''~bsecret(?:s)?~b'',
      ''~bapi(?:[_-]?key|~s+key)~b'',
      ''~b(?:access|auth|bearer|refresh|session)~s+token~b'',
      ''~bpassword(?:s)?~b'',
      ''~bprivate[_~s-]?key~b'',
      ''~bseed~s+phrase~b'',
      ''~bmnemonic~b'',
      ''~bssh~s+key~b'',
      ''~bcredentials?~b'',
      ''~b~.env~b'']"

definition credential_exfil_intent_patterns :: "string list" where
  "credential_exfil_intent_patterns =
     [''~b(?:exfiltrat(?:e|ion)|leak|steal|dump|export|extract|copy|print|echo|reveal|expose|show|send|upload|post|curl|transmit|forward)~b[~s~S]{0,72}~b(?:secret|api(?:[_-]?key|~s+key)|token|password|private[_~s-]?key|seed~s+phrase|mnemonic|credentials?|~.env)~b'',
      ''~b(?:secret|api(?:[_-]?key|~s+key)|token|password|private[_~s-]?key|seed~s+phrase|mnemonic|credentials?|~.env)~b[~s~S]{0,72}~b(?:exfiltrat(?:e|ion)|leak|steal|dump|export|extract|copy|print|echo|reveal|expose|show|send|upload|post|curl|transmit|forward)~b'']"

definition network_egress_capability_re :: string where
  "network_egress_capability_re = ''^(?:run_command|fetch_url)$''"

definition destructive_capability_re :: string where
  "destructive_capability_re = ''^(?:delete|execute|rm)$''"

definition find_capability_match :: "string list \<Rightarrow> string \<Rightarrow> string option" where
  "find_capability_match capabilities pat = find (rx_test flag_i pat) capabilities"

fun find_text_match :: "string \<Rightarrow> string list \<Rightarrow> string option" where
  "find_text_match blob [] = None"
| "find_text_match blob (p # ps) =
     (case rx_exec flag_i p blob of
        Some m \<Rightarrow> if m \<noteq> [] then Some m else find_text_match blob ps
      | None \<Rightarrow> find_text_match blob ps)"

text \<open>\<open>replace(/\s+/g, " ")\<close>.\<close>

fun collapse_spaces :: "string \<Rightarrow> string" where
  "collapse_spaces [] = []"
| "collapse_spaces (c # cs) =
     (if is_space c then
        (case cs of
           [] \<Rightarrow> '' ''
         | d # ds \<Rightarrow> if is_space d then collapse_spaces cs else CHR '' '' # collapse_spaces cs)
      else c # collapse_spaces cs)"

definition summarize_signal :: "string \<Rightarrow> string" where
  "summarize_signal s = (let normalized = js_trim (collapse_spaces s) in
     if length normalized \<le> 96 then normalized else take 93 normalized @ ''...'')"

definition newline :: string where
  "newline = [CHR 0x0A]"

definition decision_text :: "decision_input \<Rightarrow> string" where
  "decision_text input = js_join newline
     ([di_message input] @ map sp_name (di_subagents input)
      @ map (\<lambda>s. or_else (sp_objective s) []) (di_subagents input)
      @ concat (map sp_acceptance (di_subagents input)))"

definition decision_capabilities :: "decision_input \<Rightarrow> string list" where
  "decision_capabilities input = concat (map (\<lambda>s. map js_trim (sp_capabilities s)) (di_subagents input))"

definition text_block :: "task_class \<Rightarrow> string option \<Rightarrow> hard_block_match option" where
  "text_block cls m = map_option (\<lambda>t. \<lparr>hb_class = cls, hb_source = TextSource, hb_signal = summarize_signal t\<rparr>) m"

definition credential_block :: "string \<Rightarrow> string list \<Rightarrow> hard_block_match option" where
  "credential_block blob caps =
     (case find_capability_match caps network_egress_capability_re of
        None \<Rightarrow> None
      | Some cap \<Rightarrow>
          if cap \<noteq> [] \<and> find_text_match blob credential_marker_patterns \<noteq> None
             \<and> find_text_match blob credential_exfil_intent_patterns \<noteq> None
          then Some \<lparr>hb_class = CredentialExfiltration, hb_source = CapabilitySource, hb_signal = summarize_signal cap\<rparr>
          else None)"

text \<open>What the check of one class finds, and the classes in the order in which they are checked.\<close>

definition class_match :: "string \<Rightarrow> string list \<Rightarrow> task_class \<Rightarrow> hard_block_match option" where
  "class_match blob caps cls = (case cls of
      WalletSigning \<Rightarrow> text_block cls (find_text_match blob [wallet_signing_text_re])
    | WalletTransfer \<Rightarrow> text_block cls (find_text_match blob [wallet_transfer_text_re])
    | StakeOrRewards \<Rightarrow> text_block cls (find_text_match blob stake_or_rewards_text_patterns)
    | DestructiveHostMutation \<Rightarrow>
        (case find_capability_match caps destructive_capability_re of
           None \<Rightarrow> None
         | Some cap \<Rightarrow> if cap \<noteq> [] then Some \<lparr>hb_class = cls, hb_source = CapabilitySource, hb_signal = cap\<rparr> else None)
    | CredentialExfiltration \<Rightarrow> credential_block blob caps)"

definition checked_classes :: "task_class list" where
  "checked_classes = [WalletSigning, WalletTransfer, StakeOrRewards, DestructiveHostMutation, CredentialExfiltration]"

definition detect_hard_blocked_task_class :: "decision_input \<Rightarrow> resolved_config \<Rightarrow> hard_block_match option" where
  "detect_hard_blocked_task_class input config =
     (if length (rc_hard_blocked config) = 0 then None
      else first_match (class_match (decision_text input) (decision_capabilities input))
             (filter (\<lambda>c. c \<in> set (rc_hard_blocked config)) checked_classes))"

section \<open>Economics\<close>

record economics =
  ec_utility :: real
  ec_benefit :: real
  ec_overhead :: real
  ec_latency :: real

definition compute_economics :: "decision_input \<Rightarrow> economics" where
  "compute_economics input =
     (let profiles = di_subagents input;
          total_steps = max 1 (length profiles);
          parallel_fraction = fraction (length (filter sp_parallel profiles)) total_steps;
          benefit = clamp01 (3 / 10 * parallel_fraction + 3 / 10 * min 1 (di_complexity input / 8)
            + 2 / 10 * (if length profiles \<ge> 3 then 1 else 5 / 10)
            + 2 / 10 * (if di_explicit input = Some True then 1 else 0));
          dependents = filter (\<lambda>s. case sp_depends_on s of None \<Rightarrow> False | Some ds \<Rightarrow> length ds > 0) profiles;
          dependency_fraction = fraction (length dependents) total_steps;
          overhead = clamp01 (3 / 10 * dependency_fraction + 2 / 10 * (1 - parallel_fraction)
            + 1 / 10 * fraction (di_synthesis_steps input) (max 1 (di_total_steps input)));
          verifier_cost = clamp01 (1 / 10 * real total_steps);
          retry_cost = clamp01 (8 / 100 * real total_steps);
          latency = clamp01 (verifier_cost * (45 / 100) + retry_cost * (45 / 100) + 1 / 10)
      in \<lparr>ec_utility = benefit - overhead * (4 / 10) - latency * (2 / 10),
          ec_benefit = benefit, ec_overhead = overhead, ec_latency = latency\<rparr>)"

section \<open>The decision\<close>

definition build_decision ::
  "bool \<Rightarrow> delegation_reason \<Rightarrow> resolved_config \<Rightarrow> economics option \<Rightarrow> real \<Rightarrow> real
     \<Rightarrow> hard_block_match option \<Rightarrow> delegation_decision" where
  "build_decision should reason c econ risk conf hard =
     \<lparr>dd_should_delegate = should, dd_reason = reason, dd_threshold = rc_threshold c,
      dd_utility = (case econ of None \<Rightarrow> 0 | Some e \<Rightarrow> ec_utility e),
      dd_benefit = (case econ of None \<Rightarrow> 0 | Some e \<Rightarrow> ec_benefit e),
      dd_overhead = (case econ of None \<Rightarrow> 0 | Some e \<Rightarrow> ec_overhead e),
      dd_latency = (case econ of None \<Rightarrow> 0 | Some e \<Rightarrow> ec_latency e),
      dd_safety_risk = risk, dd_confidence = conf, dd_hard_block = hard,
      dd_enabled = rc_enabled c, dd_max_fanout = rc_max_fanout c, dd_max_depth = rc_max_depth c\<rparr>"

definition approval_confidence :: "decision_input \<Rightarrow> real \<Rightarrow> real \<Rightarrow> real" where
  "approval_confidence input conf risk =
     clamp01 (25 / 100 + conf * (35 / 100) + (if length (di_subagents input) > 1 then 2 / 10 else 1 / 10)
              + (1 - risk) * (2 / 10))"

definition assess_delegation_decision :: "decision_input \<Rightarrow> delegation_decision" where
  "assess_delegation_decision input =
     (let c = resolve_delegation_decision_config (di_config input);
          hard = detect_hard_blocked_task_class input c;
          risk = compute_safety_risk (di_subagents input);
          conf = clamp01 (or_else (di_confidence input) 0);
          econ = compute_economics input
      in if \<not> rc_enabled c then build_decision False DelegationDisabled c None risk conf hard
         else if length (di_subagents input) = 0 then build_decision False NoSubagentSteps c None risk conf hard
         else if hard \<noteq> None then build_decision False HardBlockedTaskClass c None risk conf hard
         else if risk \<ge> safety_risk_hard_block_threshold then build_decision False SafetyRiskHigh c None risk conf hard
         else if int (length (di_subagents input)) > rc_max_fanout c then
           build_decision False FanoutExceeded c None risk conf hard
         else if or_else (di_depth input) 0 \<ge> rc_max_depth c then
           build_decision False DepthExceeded c None risk conf hard
         else if ec_utility econ < rc_threshold c then
           build_decision False ScoreBelowThreshold c (Some econ) risk conf hard
         else if ec_overhead econ > 7 / 10 then
           build_decision False DependencyCouplingHigh c (Some econ) risk conf hard
         else if ec_utility econ < 0 then
           build_decision False NegativeEconomics c (Some econ) risk conf hard
         else build_decision True Approved c (Some econ) risk (approval_confidence input conf risk) hard)"

section \<open>The planner's gate\<close>

datatype execution_mode = ParallelMode | SerialMode | GuidedMode | StopMode

definition step_effect_of :: "effect_class \<Rightarrow> step_effect" where
  "step_effect_of e = (case e of Readonly \<Rightarrow> ReadOnlyStep | FilesystemWrite \<Rightarrow> WriteStep
     | FilesystemScaffold \<Rightarrow> WriteStep | ShellEffect \<Rightarrow> MixedStep | MixedEffect \<Rightarrow> MixedStep)"

definition profile_of :: "plan_step \<times> subagent_step \<Rightarrow> step_profile" where
  "profile_of ssa = (let (s, sa) = ssa in
     \<lparr>sp_name = step_name s, sp_objective = Some (sa_objective sa), sp_depends_on = Some (depends_on s),
      sp_acceptance = sa_acceptance_criteria sa, sp_capabilities = sa_required_tools sa,
      sp_parallel = sa_can_run_parallel sa,
      sp_effect = Some (step_effect_of (effect_class_of (sa_context sa)))\<rparr>)"

definition has_useful_subagent_contracts :: "step_profile list \<Rightarrow> bool" where
  "has_useful_subagent_contracts profiles =
     list_ex (\<lambda>p. length (sp_capabilities p) > 0 \<or> length (sp_acceptance p) > 0) profiles"

definition is_tool_step :: "plan_step \<Rightarrow> bool" where
  "is_tool_step s = (case body s of DeterministicTool t \<Rightarrow> True | SubagentTask sa \<Rightarrow> False)"

definition gate_input :: "plan \<Rightarrow> string \<Rightarrow> route_decision \<Rightarrow> decision_input" where
  "gate_input p goal d =
     \<lparr>di_message = goal, di_explicit = Some (rd_route d = Planner),
      di_confidence = Some (real (rd_score d) / 10), di_complexity = real (rd_score d),
      di_total_steps = length (steps p), di_synthesis_steps = length (filter is_tool_step (steps p)),
      di_subagents = map profile_of (subagents (steps p)), di_config = None, di_depth = None\<rparr>"

definition delegation_fatal :: "delegation_reason \<Rightarrow> bool" where
  "delegation_fatal r = (r = SafetyRiskHigh \<or> r = HardBlockedTaskClass)"

datatype trace_reason = EconomicsSerial delegation_reason | EconomicsGuided delegation_reason | PlainReason delegation_reason

record gate_trace =
  gt_decision :: delegation_decision
  gt_reason :: trace_reason
  gt_mode :: execution_mode

datatype gate_outcome = GateBlocked delegation_decision | GateOpen execution_mode

definition gate_mode :: "step_profile list \<Rightarrow> delegation_decision \<Rightarrow> execution_mode" where
  "gate_mode profiles dd =
     (if \<not> dd_should_delegate dd \<and> delegation_fatal (dd_reason dd) then StopMode
      else if dd_should_delegate dd then ParallelMode
      else if has_useful_subagent_contracts profiles then SerialMode
      else GuidedMode)"

definition run_delegation_gate :: "plan \<Rightarrow> string \<Rightarrow> route_decision \<Rightarrow> gate_trace list \<times> gate_outcome" where
  "run_delegation_gate p goal d =
     (let profiles = map profile_of (subagents (steps p)) in
      if length profiles = 0 then ([], GateOpen ParallelMode)
      else let dd = assess_delegation_decision (gate_input p goal d);
               mode = gate_mode profiles dd;
               reason = (case mode of SerialMode \<Rightarrow> EconomicsSerial (dd_reason dd)
                 | GuidedMode \<Rightarrow> EconomicsGuided (dd_reason dd) | _ \<Rightarrow> PlainReason (dd_reason dd));
               trace = [\<lparr>gt_decision = dd, gt_reason = reason, gt_mode = mode\<rparr>]
           in if mode = StopMode then (trace, GateBlocked dd) else (trace, GateOpen mode))"

section \<open>Scores\<close>

lemma clamp01_bounds [simp]: "0 \<le> clamp01 v" "clamp01 v \<le> 1"
  by (simp_all add: clamp01_def)

lemma clamp01_id: "0 \<le> v \<Longrightarrow> v \<le> 1 \<Longrightarrow> clamp01 v = v"
  by (simp add: clamp01_def)

lemma clamp01_le: "v \<le> u \<Longrightarrow> 0 \<le> u \<Longrightarrow> clamp01 v \<le> u"
  by (simp add: clamp01_def)

lemma fraction_bounds [simp]: "0 \<le> fraction a b" "a \<le> b \<Longrightarrow> fraction a b \<le> 1"
  by (auto simp: fraction_def divide_le_eq_1)


lemma overhead_bounded:
  assumes "di_synthesis_steps i \<le> di_total_steps i"
  shows "ec_overhead (compute_economics i) \<le> 6 / 10"
proof -
  let ?ps = "di_subagents i"
  let ?n = "max 1 (length ?ps)"
  have len: "length (filter P ?ps) \<le> ?n" for P
    using length_filter_le [of P ?ps] by linarith
  have synth: "fraction (di_synthesis_steps i) (max 1 (di_total_steps i)) \<le> 1"
    using assms by (intro fraction_bounds) linarith
  have sum: "3 / 10 * a + 2 / 10 * (1 - b) + 1 / 10 * c \<le> 6 / 10" if "a \<le> 1" "0 \<le> b" "c \<le> 1" for a b c :: real
  proof -
    have "3 / 10 * a \<le> 3 / 10" "2 / 10 * (1 - b) \<le> 2 / 10" "1 / 10 * c \<le> 1 / 10"
      using that by simp_all
    then show ?thesis by linarith
  qed
  show ?thesis
    unfolding compute_economics_def Let_def economics.simps
    by (intro clamp01_le sum fraction_bounds len synth) simp
qed

lemma threshold_nonneg: "0 \<le> rc_threshold (resolve_delegation_decision_config c)"
  by (simp add: resolve_delegation_decision_config_def Let_def)

text \<open>The decision as the list of its conditions.\<close>

definition delegation_acceptable :: "decision_input \<Rightarrow> bool" where
  "delegation_acceptable i = (let c = resolve_delegation_decision_config (di_config i) in
     rc_enabled c \<and> di_subagents i \<noteq> []
     \<and> list_all (\<lambda>cls. class_match (decision_text i) (decision_capabilities i) cls = None) (rc_hard_blocked c)
     \<and> compute_safety_risk (di_subagents i) < 9 / 10
     \<and> int (length (di_subagents i)) \<le> rc_max_fanout c \<and> or_else (di_depth i) 0 < rc_max_depth c
     \<and> rc_threshold c \<le> ec_utility (compute_economics i) \<and> ec_overhead (compute_economics i) \<le> 7 / 10)"

lemma checked_all [simp]: "c \<in> set checked_classes"
  by (cases c) (simp_all add: checked_classes_def)

lemma no_hard_block:
  "detect_hard_blocked_task_class i c = None \<longleftrightarrow>
     (\<forall>cls\<in>set (rc_hard_blocked c). class_match (decision_text i) (decision_capabilities i) cls = None)"
  by (auto simp: detect_hard_blocked_task_class_def first_match_None)

lemma assess_fields:
  "dd_safety_risk (assess_delegation_decision i) = compute_safety_risk (di_subagents i)"
  "dd_hard_block (assess_delegation_decision i) =
     detect_hard_blocked_task_class i (resolve_delegation_decision_config (di_config i))"
  by (simp_all add: assess_delegation_decision_def build_decision_def Let_def)

lemma assess_accepts: "dd_should_delegate (assess_delegation_decision i) \<longleftrightarrow> delegation_acceptable i"
  unfolding assess_delegation_decision_def delegation_acceptable_def Let_def
  using threshold_nonneg [of "di_config i"]
  by (simp add: build_decision_def no_hard_block list_all_iff safety_risk_hard_block_threshold_def)



lemma gate_synthesis_part: "di_synthesis_steps (gate_input p goal d) \<le> di_total_steps (gate_input p goal d)"
  by (simp add: gate_input_def)

lemma default_config:
  "resolve_delegation_decision_config None =
     \<lparr>rc_enabled = True, rc_threshold = 1 / 5, rc_max_fanout = 8, rc_max_depth = 4,
      rc_hard_blocked = default_hard_blocked_task_classes\<rparr>"
  by (simp add: resolve_delegation_decision_config_def or_else_def clamp01_def
      default_hard_blocked_task_classes_def set_of_list_distinct)

text \<open>What stops a plan at the gate, and what lets its sub-agents run side by side.\<close>

definition gate_unsafe :: "decision_input \<Rightarrow> bool" where
  "gate_unsafe i =
     (list_ex (\<lambda>cls. class_match (decision_text i) (decision_capabilities i) cls \<noteq> None)
        default_hard_blocked_task_classes
      \<or> compute_safety_risk (di_subagents i) \<ge> 9 / 10)"

definition gate_worthwhile :: "decision_input \<Rightarrow> bool" where
  "gate_worthwhile i = (length (di_subagents i) \<le> 8 \<and> ec_utility (compute_economics i) \<ge> 1 / 5)"

lemma gate_subagents [simp]:
  "di_subagents (gate_input p goal d) = map profile_of (subagents (steps p))"
  "di_config (gate_input p goal d) = None"
  "di_depth (gate_input p goal d) = None"
  by (simp_all add: gate_input_def)

lemma gate_accepts:
  "delegation_acceptable (gate_input p goal d) \<longleftrightarrow>
     subagents (steps p) \<noteq> [] \<and> \<not> gate_unsafe (gate_input p goal d) \<and> gate_worthwhile (gate_input p goal d)"
  using overhead_bounded [OF gate_synthesis_part [of p goal d]]
  by (auto simp: delegation_acceptable_def gate_unsafe_def gate_worthwhile_def Let_def default_config
      or_else_def list_all_iff list_ex_iff not_le)

lemma assess_fatal:
  assumes "di_subagents i \<noteq> []" "di_config i = None"
  shows "\<not> dd_should_delegate (assess_delegation_decision i) \<and> delegation_fatal (dd_reason (assess_delegation_decision i))
     \<longleftrightarrow> gate_unsafe i"
proof -
  have "detect_hard_blocked_task_class i (resolve_delegation_decision_config None) \<noteq> None \<longleftrightarrow>
      list_ex (\<lambda>cls. class_match (decision_text i) (decision_capabilities i) cls \<noteq> None) default_hard_blocked_task_classes"
    by (simp add: no_hard_block default_config list_ex_iff)
  then show ?thesis
    using assms unfolding gate_unsafe_def
    by (simp add: assess_delegation_decision_def build_decision_def Let_def default_config delegation_fatal_def
        safety_risk_hard_block_threshold_def)
qed

text \<open>C26: The delegation gate of the planner, exactly. A plan without sub-agent steps passes in parallel mode. Any
  other plan is stopped when the goal or its steps match a hard-blocked task class (signing, transferring or
  staking funds, or exfiltrating credentials) or when the safety risk reaches 0.9; otherwise it is never stopped:
  it runs its sub-agents in parallel when there are at most eight of them and the utility score reaches 0.2, one at
  a time when some step states tool capabilities or acceptance criteria, and guided otherwise. No other gate of the
  decision (disabled, depth, coupling, negative economics) can change the mode.\<close>

theorem delegation_gate_exact:
  "snd (run_delegation_gate p goal d) =
     (let profiles = map profile_of (subagents (steps p)); i = gate_input p goal d in
      if profiles = [] then GateOpen ParallelMode
      else if gate_unsafe i then GateBlocked (assess_delegation_decision i)
      else if gate_worthwhile i then GateOpen ParallelMode
      else if has_useful_subagent_contracts profiles then GateOpen SerialMode
      else GateOpen GuidedMode)"
proof (cases "subagents (steps p) = []")
  case True
  then show ?thesis by (simp add: run_delegation_gate_def)
next
  case False
  then have fatal: "\<not> dd_should_delegate (assess_delegation_decision (gate_input p goal d))
      \<and> delegation_fatal (dd_reason (assess_delegation_decision (gate_input p goal d)))
      \<longleftrightarrow> gate_unsafe (gate_input p goal d)"
    by (intro assess_fatal) simp_all
  have accepts: "dd_should_delegate (assess_delegation_decision (gate_input p goal d)) \<longleftrightarrow>
      \<not> gate_unsafe (gate_input p goal d) \<and> gate_worthwhile (gate_input p goal d)"
    using False by (simp add: assess_accepts gate_accepts)
  have "gate_mode (map profile_of (subagents (steps p))) (assess_delegation_decision (gate_input p goal d)) =
      (if gate_unsafe (gate_input p goal d) then StopMode
       else if gate_worthwhile (gate_input p goal d) then ParallelMode
       else if has_useful_subagent_contracts (map profile_of (subagents (steps p))) then SerialMode
       else GuidedMode)"
    unfolding gate_mode_def fatal by (simp add: accepts)
  with False show ?thesis
    by (simp add: run_delegation_gate_def Let_def)
qed


section \<open>Gates that cannot fire, and a pattern that does not match\<close>

text \<open>The ninth gate of the decision cannot fire: the threshold is never below zero, so a negative utility is
  already refused by the seventh; and at the planner's gate the eighth cannot fire either, because the coordination
  overhead is at most 0.6.\<close>

lemma negative_economics_unreachable: "dd_reason (assess_delegation_decision i) \<noteq> NegativeEconomics"
  using threshold_nonneg [of "di_config i"]
  by (simp add: assess_delegation_decision_def build_decision_def Let_def)

lemma coupling_gate_unreachable:
  "dd_reason (assess_delegation_decision (gate_input p goal d)) \<noteq> DependencyCouplingHigh"
  using overhead_bounded [OF gate_synthesis_part [of p goal d]]
  by (simp add: assess_delegation_decision_def build_decision_def Let_def)

text \<open>The marker pattern for a \<open>.env\<close> file asks for a word boundary before the dot: it matches only when the dot
  follows a letter, a digit or an underscore, so a file named \<open>.env\<close> after a space or a slash is no marker.\<close>

lemma dotenv_regex:
  "regex_of ''~b~.env~b'' = Seq (Boundary True) (Seq (Class False [Range (CHR ''.'') (CHR ''.'')])
     (Seq (Class False [Range (CHR ''e'') (CHR ''e'')]) (Seq (Class False [Range (CHR ''n'') (CHR ''n'')])
       (Seq (Class False [Range (CHR ''v'') (CHR ''v'')]) (Seq (Boundary True) Empty)))))"
  by code_simp

lemma in_single_class: "in_class flag_i [Range (CHR ''.'') (CHR ''.'')] c \<Longrightarrow> \<not> is_word_char c"
  by (auto simp: in_class_def lower_char_def upper_char_def is_word_char_def Let_def split: if_splits)

lemma dotenv_needs_word_before:
  assumes "rx_test flag_i ''~b~.env~b'' s"
  shows "\<exists>before c rest. s = before @ c # rest \<and> is_word_char c \<and> rest \<noteq> [] \<and> \<not> is_word_char (hd rest)"
proof -
  obtain w rest q where s: "s = w @ rest" and m: "((rev w, rest), q) \<in> rx_rel flag_i (regex_of ''~b~.env~b'')"
    using assms unfolding rx_test_exact by blast
  from m obtain d ds where rest: "rest = d # ds" "in_class flag_i [Range (CHR ''.'') (CHR ''.'')] d"
    and edge: "at_boundary (rev w, rest)"
    unfolding dotenv_regex by auto
  have "\<not> is_word_char d" using rest(2) by (rule in_single_class)
  then have "word_at (rev w)" using edge rest(1) by (simp add: at_boundary_def word_at_def)
  then obtain c w' where "rev w = c # w'" "is_word_char c" by (auto simp: word_at_def split: list.splits)
  moreover from this(1) have "w = rev w' @ [c]" by (simp add: rev_eq_Cons_iff)
  ultimately show ?thesis using s rest(1) \<open>\<not> is_word_char d\<close>
    by (intro exI [of _ "rev w'"] exI [of _ c] exI [of _ rest]) simp
qed

lemma dotenv_upload_unmarked: "find_text_match ''upload .env'' credential_marker_patterns = None"
  by code_simp

lemma dotenv_upload_not_blocked: "credential_block ''upload .env'' caps = None"
  by (simp add: credential_block_def dotenv_upload_unmarked split: option.split)

end
