(* ===== verification/ShellGuard.thy ===== *)
theory ShellGuard
  imports Regex
begin

text \<open>
  The shell tool of the agent (\<open>packages/agent/src/tools/shell-command/index.ts\<close> and \<open>deny-rules.ts\<close>): the deny
  lists, the timeout, the choice between a refusal, the sandbox executor and \<open>/bin/sh\<close> on the host, the filtered
  environment, and the text of the answer. What an execution returns is an argument; every execution the
  tool starts is recorded, so that the theorems can say what runs.
\<close>

section \<open>Deny rules\<close>

type_synonym deny_rule = "rx_flags \<times> string \<times> string"

definition container_rules :: "deny_rule list" where
  "container_rules =
     [
      (flag_none, '':~(~)~s*~{.*~}.*:~s*;'', ''fork bomb''),
      (flag_i, ''~bfork~s*bomb'', ''fork bomb''),
      (flag_i, ''~bdocker~s+run~b'', ''docker run''),
      (flag_i, ''~bdocker~s+exec~b'', ''docker exec''),
      (flag_i, ''~bdocker~s+cp~b'', ''docker cp''),
      (flag_i, ''--privileged'', ''--privileged''),
      (flag_i, ''--pid=host'', ''--pid=host''),
      (flag_i, ''--net=host'', ''--net=host''),
      (flag_i, ''~bnsenter~b'', ''nsenter''),
      (flag_i, ''~bchroot~b'', ''chroot''),
      (flag_i, ''~bunshare~b'', ''unshare''),
      (flag_i, ''~bkubectl~s+exec'', ''kubectl exec''),
      (flag_i, ''~bmodprobe~b'', ''modprobe''),
      (flag_i, ''~binsmod~b'', ''insmod''),
      (flag_i, ''~brmmod~b'', ''rmmod'')
     ]"

definition host_only_rules :: "deny_rule list" where
  "host_only_rules =
     [
      (flag_i, ''rm~s+-[a-z]*r[a-z]*f?~s+~/(?!~w)'', ''rm -rf /''),
      (flag_i, ''rm~s+-[a-z]*f[a-z]*r?~s+~/(?!~w)'', ''rm -rf /''),
      (flag_i, ''rm~s+--no-preserve-root'', ''rm --no-preserve-root''),
      (flag_i, ''~bshred~b'', ''shred''),
      (flag_i, ''~bmkfs~b'', ''mkfs''),
      (flag_i, ''~bdd~s+if='', ''dd if=''),
      (flag_i, ''>~s*~/dev~/sd'', ''> /dev/sd''),
      (flag_i, ''>~s*~/dev~/nvme'', ''> /dev/nvme''),
      (flag_i, ''~bfdisk~b'', ''fdisk''),
      (flag_i, ''~bparted~b'', ''parted''),
      (flag_i, ''~bformat~s+[a-z]:'', ''format drive''),
      (flag_i, ''chmod~s+-R~s+777~s+~/'', ''chmod -R 777 /''),
      (flag_i, ''chown~s+-R~s+.*~s+~/'', ''chown -R /''),
      (flag_i, ''while~s*true.*do.*done'', ''infinite loop''),
      (flag_i, ''~bshutdown~b'', ''shutdown''),
      (flag_i, ''~breboot~b'', ''reboot''),
      (flag_i, ''~bhalt~b'', ''halt''),
      (flag_none, ''~binit~s+[06]~b'', ''init 0/6''),
      (flag_i, ''~bsystemctl~s+(poweroff|reboot|halt)'', ''systemctl poweroff/reboot''),
      (flag_none, ''~btelinit~s+[06]~b'', ''telinit 0/6''),
      (flag_i, ''~blaunchctl~b'', ''launchctl''),
      (flag_i, ''~bsysctl~s+-w~b'', ''sysctl -w''),
      (flag_i, ''~bkernelctl~b'', ''kernelctl''),
      (flag_i, ''~bcrontab~b'', ''crontab''),
      (flag_i, ''~bat~b~s+-f'', ''at -f''),
      (flag_i, ''~/etc~/cron'', ''/etc/cron''),
      (flag_i, ''~bsudo~b'', ''sudo''),
      (flag_im, ''~bsu~s+-?~s*$'', ''su''),
      (flag_i, ''~bsu~s+root'', ''su root''),
      (flag_i, ''~bdoas~b'', ''doas''),
      (flag_i, ''~bchmod~s+[u+]*s~b'', ''chmod setuid''),
      (flag_i, ''~bsetcap~b'', ''setcap''),
      (flag_i, ''~bpasswd~b'', ''passwd''),
      (flag_i, ''~busermod~b'', ''usermod''),
      (flag_i, ''~buseradd~b'', ''useradd''),
      (flag_i, ''~buserdel~b'', ''userdel''),
      (flag_i, ''~bgroupadd~b'', ''groupadd''),
      (flag_i, ''~bvisudo~b'', ''visudo''),
      (flag_i, ''~/etc~/shadow'', ''/etc/shadow''),
      (flag_i, ''~/etc~/passwd'', ''/etc/passwd''),
      (flag_i, ''~/etc~/sudoers'', ''/etc/sudoers''),
      (flag_i, ''~/etc~/ssh'', ''/etc/ssh''),
      (flag_none, ''~~~/~.ssh'', ''~/.ssh''),
      (flag_i, ''~.ssh~/id_'', ''.ssh/id_*''),
      (flag_i, ''~.aws~/credentials'', ''.aws/credentials''),
      (flag_i, ''~.env~b(?!iron)'', ''.env file''),
      (flag_i, ''~.gnupg'', ''.gnupg''),
      (flag_i, ''~.kube~/config'', ''.kube/config''),
      (flag_i, ''~.docker~/config~.json'', ''.docker/config.json''),
      (flag_i, ''~bprintenv~b'', ''printenv''),
      (flag_i, ''~/proc~/self'', ''/proc/self''),
      (flag_i, ''~/proc~/[0-9]+'', ''/proc/pid''),
      (flag_i, ''~bkeychain~b'', ''keychain''),
      (flag_i, ''~bsecurity~s+find-generic-password'', ''macOS keychain read''),
      (flag_i, ''~bnc~s+.*-[a-z]*l'', ''nc -l (listen)''),
      (flag_i, ''~bncat~s+.*-[a-z]*l'', ''ncat -l (listen)''),
      (flag_i, ''~bsocat~b'', ''socat''),
      (flag_i, ''~bnetcat~b'', ''netcat''),
      (flag_i, ''~/dev~/tcp~/'', ''/dev/tcp''),
      (flag_i, ''~/dev~/udp~/'', ''/dev/udp''),
      (flag_i, ''~bmkfifo~b.*~bnc~b'', ''mkfifo + nc (reverse shell)''),
      (flag_i, ''~btcpdump~b'', ''tcpdump''),
      (flag_i, ''~bwireshark~b'', ''wireshark''),
      (flag_i, ''~bnmap~b'', ''nmap''),
      (flag_i, ''~biptables~b'', ''iptables''),
      (flag_i, ''~bufw~b'', ''ufw''),
      (flag_i, ''curl~s.*~|~s*(?:ba)?sh'', ''curl | sh''),
      (flag_i, ''wget~s.*~|~s*(?:ba)?sh'', ''wget | sh''),
      (flag_i, ''curl~s.*~|~s*python'', ''curl | python''),
      (flag_i, ''wget~s.*~|~s*python'', ''wget | python''),
      (flag_none, ''~beval~s*~('', ''eval(''),
      (flag_none, ''~bexec~s*~('', ''exec(''),
      (flag_i, ''~bbase64~s+-d~b'', ''base64 -d''),
      (flag_i, ''~bbase64~s+--decode~b'', ''base64 --decode''),
      (flag_i, ''python[23]?~s+-c~s.*import~s+os'', ''python -c import os''),
      (flag_i, ''perl~s+-e~s.*system'', ''perl -e system''),
      (flag_i, ''ruby~s+-e~s.*system'', ''ruby -e system''),
      (flag_i, ''npm~s+.*--unsafe-perm'', ''npm --unsafe-perm''),
      (flag_i, ''pip~s+install~s+--pre'', ''pip install --pre''),
      (flag_i, ''~.bash_history'', ''.bash_history''),
      (flag_i, ''~.zsh_history'', ''.zsh_history''),
      (flag_i, ''~.histfile'', ''.histfile''),
      (flag_i, ''~/var~/log~/'', ''/var/log/''),
      (flag_i, ''~bmount~b.*~/dev~/'', ''mount /dev/''),
      (flag_i, ''~bumount~b'', ''umount''),
      (flag_i, ''~blosetup~b'', ''losetup'')
     ]"

definition rule_matches :: "string \<Rightarrow> deny_rule \<Rightarrow> bool" where
  "rule_matches command rule = (case rule of (fl, pat, label) \<Rightarrow> rx_test fl pat command)"

definition rule_label :: "deny_rule \<Rightarrow> string" where
  "rule_label rule = snd (snd rule)"

definition is_blocked :: "string \<Rightarrow> bool \<Rightarrow> string option" where
  "is_blocked command sandbox_strict =
     (case find (rule_matches command) container_rules of
        Some rule \<Rightarrow> Some (rule_label rule)
      | None \<Rightarrow>
          if sandbox_strict then None
          else map_option rule_label (find (rule_matches command) host_only_rules))"

section \<open>Running a command\<close>

datatype shell_mode = ShellDisabled | ShellSandbox | ShellHost

type_synonym environment = "string \<Rightarrow> string option"

record exec_result =
  x_stdout :: string
  x_stderr :: string
  x_exit_code :: int
  x_timed_out :: bool

record host_error =
  he_killed :: bool
  he_aborted :: bool
  he_code :: "string option"

record host_result =
  h_error :: "host_error option"
  h_stdout :: string
  h_stderr :: string

text \<open>The sandbox executor resolves or rejects with a message.\<close>

type_synonym shell_executor = "string \<Rightarrow> string \<Rightarrow> string + exec_result"

datatype timeout_argument = NoTimeout | NotFinite | Milliseconds real

datatype execution =
    SandboxExec string string
  | HostExec string real string "(string \<times> string) list"

record shell_ctx =
  sh_mode :: shell_mode
  sh_cwd :: string
  sh_executor :: "shell_executor option"
  sh_strict :: bool

definition default_timeout_ms :: real where
  "default_timeout_ms = 120000"

definition max_timeout_ms :: real where
  "max_timeout_ms = 600000"

definition timeout_ms :: "timeout_argument \<Rightarrow> real" where
  "timeout_ms a = max 1000 (min max_timeout_ms (case a of Milliseconds r \<Rightarrow> r | _ \<Rightarrow> default_timeout_ms))"

definition safe_env_keys :: "string list" where
  "safe_env_keys = [''PATH'', ''HOME'', ''USER'', ''LANG'', ''LC_ALL'', ''TERM'', ''NO_COLOR'', ''NODE_ENV'']"

definition safe_env :: "environment \<Rightarrow> (string, string) jsmap" where
  "safe_env process_env =
     foldl (\<lambda>env key. case process_env key of None \<Rightarrow> env
              | Some val \<Rightarrow> if val \<noteq> [] then js_set env key val else env)
       [(''NO_COLOR'', ''1'')] safe_env_keys"

definition nl :: string where
  "nl = [CHR 0x0A]"

definition max_output :: nat where
  "max_output = 16000"

definition truncate_output :: "string \<Rightarrow> string" where
  "truncate_output output =
     (if length output \<le> max_output then output
      else let half = max_output div 2 in
        take half output @ nl @ nl @ ''... ('' @ show_nat (length output - max_output) @ '' chars truncated) ...''
        @ nl @ nl @ drop (length output - half) output)"

definition or_no_output :: "string \<Rightarrow> string" where
  "or_no_output s = (if s = [] then ''(no output)'' else s)"

definition stream_parts :: "string \<Rightarrow> string \<Rightarrow> string list" where
  "stream_parts out err = (if out \<noteq> [] then [out] else []) @ (if err \<noteq> [] then [''[stderr] '' @ err] else [])"

definition format_result :: "exec_result \<Rightarrow> string" where
  "format_result r =
     or_no_output (truncate_output (js_trim (js_join nl (stream_parts (x_stdout r) (x_stderr r) @
       (if x_timed_out r then [''[command timed out after 30s]'']
        else if x_exit_code r \<noteq> 0 \<and> x_stdout r = [] \<and> x_stderr r = []
        then [''Command exited with code '' @ show_int (x_exit_code r) @ '' and produced no output.'']
        else [])))))"

definition host_note :: "real \<Rightarrow> host_result \<Rightarrow> string list" where
  "host_note timeout r = (case h_error r of
      None \<Rightarrow> []
    | Some e \<Rightarrow>
        if he_killed e then [''[command timed out after '' @ show_int \<lfloor>timeout / 1000 + 1 / 2\<rfloor> @ ''s]'']
        else if he_aborted e then [''[command cancelled]'']
        else if h_stdout r = [] \<and> h_stderr r = [] then
          [''Command exited with code '' @ (case he_code e of None \<Rightarrow> ''non-zero'' | Some c \<Rightarrow> c)
           @ '' and produced no output.'']
        else [])"

definition format_host_result :: "real \<Rightarrow> host_result \<Rightarrow> string" where
  "format_host_result timeout r =
     or_no_output (truncate_output (js_trim (js_join nl (stream_parts (h_stdout r) (h_stderr r) @ host_note timeout r))))"

definition run_shell ::
  "(string \<Rightarrow> real \<Rightarrow> string \<Rightarrow> (string \<times> string) list \<Rightarrow> host_result) \<Rightarrow> environment \<Rightarrow> shell_ctx
     \<Rightarrow> string \<Rightarrow> timeout_argument \<Rightarrow> execution list \<times> string" where
  "run_shell host process_env ctx command requested =
     (let timeout = timeout_ms requested in
      case is_blocked command (sh_strict ctx) of
        Some label \<Rightarrow>
          ([], ''Error: Command blocked for safety (matched: '' @ [CHR 0x22] @ label @ [CHR 0x22]
               @ ''). This command is not allowed.'')
      | None \<Rightarrow>
          (case sh_mode ctx of
             ShellDisabled \<Rightarrow> ([], ''Error: Shell commands are disabled in this deployment.'')
           | ShellSandbox \<Rightarrow>
               (case sh_executor ctx of
                  None \<Rightarrow> ([], ''Error: Shell sandbox is enabled but no sandbox executor is configured.'')
                | Some executor \<Rightarrow>
                    ([SandboxExec command (sh_cwd ctx)],
                     case executor command (sh_cwd ctx) of
                       Inl msg \<Rightarrow> ''Error: '' @ msg
                     | Inr r \<Rightarrow> format_result r))
           | ShellHost \<Rightarrow>
               (let env = safe_env process_env in
                ([HostExec command timeout (sh_cwd ctx) env],
                 format_host_result timeout (host command timeout (sh_cwd ctx) env)))))"

section \<open>What runs\<close>



text \<open>The rules that apply in a deployment.\<close>

definition active_rules :: "bool \<Rightarrow> deny_rule list" where
  "active_rules strict = (if strict then container_rules else container_rules @ host_only_rules)"


lemma is_blocked_label:
  "is_blocked command strict = Some label \<Longrightarrow>
     \<exists>rule\<in>set (active_rules strict). rule_matches command rule \<and> rule_label rule = label"
  by (auto simp: is_blocked_def active_rules_def find_Some_iff split: option.splits if_splits)







section \<open>Output\<close>

lemma truncate_short: "length output \<le> 16000 \<Longrightarrow> truncate_output output = output"
  by (simp add: truncate_output_def max_output_def)

lemma truncate_long:
  assumes "length output > 16000"
  shows "\<exists>note. truncate_output output = take 8000 output @ note @ drop (length output - 8000) output
    \<and> length note = 30 + length (show_nat (length output - 16000))"
  using assms unfolding truncate_output_def max_output_def Let_def
  by (intro exI [of _ "nl @ nl @ ''... ('' @ show_nat (length output - 16000) @ '' chars truncated) ...'' @ nl @ nl"])
     (simp add: nl_def)

section \<open>Rules that miss what they name\<close>

text \<open>The first container rule is labelled \<open>fork bomb\<close>, but its pattern asks for a semicolon after the final call,
  which the usual form of the command does not have: it passes both tiers' first check, and runs even in a strict
  sandbox.\<close>

lemma fork_bomb_passes: "is_blocked '':(){ :|:& };:'' True = None"
  by code_simp

text \<open>The tool describes a \<open>timeout_ms\<close> argument with a default of 120 seconds; in the sandbox mode neither is
  passed on.\<close>

lemma sandbox_ignores_timeout:
  "sh_mode ctx = ShellSandbox \<Longrightarrow>
     run_shell host process_env ctx command requested = run_shell host process_env ctx command other"
  by (simp add: run_shell_def Let_def split: option.split)

end
