(* ===== verification/Spec2Isabelle.thy ===== *)
theory Spec2Isabelle
  imports ContextCompaction ExecuteRuns RunModel RunQueue Rollback SyncConflicts Pipeline Policy LineDiff Breaker MessageQueue GovernTool PlannerLoop
    Delegation ShellGuard
begin

text \<open>
  A model of the agent platform in \<open>packages/\<close>: an agent that plans and runs tool calls under a policy
  (\<open>packages/agent\<close>), the server that queues its runs, records their effects and talks to channels
  (\<open>packages/server\<close>), the engine that synchronises database entities (\<open>packages/sync\<close>), and some shared and
  user-interface libraries. Every definition translates code under \<open>src/\<close>; each theory opens with the files it
  models.

  \<^bold>\<open>How the parts interact.\<close> A goal is first routed (\<open>Routing\<close>): conversation, direct tool loop or plan. A plan
  is checked as a graph (\<open>PlanGraph\<close>) and passes the delegation gate (\<open>Delegation\<close>), which stops it or chooses how its
  sub-agents run. The planner loop (\<open>PlannerLoop\<close>) then executes the plan (\<open>Pipeline\<close>), has the results verified,
  turns the issues into a repair plan (\<open>VerifyModel\<close>) and repeats at most three times. Every tool call goes through
  \<open>GovernTool\<close>: the policy (\<open>Policy\<close>) decides, the retry loop (\<open>Retry\<close>) runs the tool, the step and run records
  (\<open>RunModel\<close>) and the audit trail follow; the breakers (\<open>Breaker\<close>) stop calls that keep failing; the shell tool has
  deny lists of its own (\<open>ShellGuard\<close>). Before every call of the model the conversation is compacted (\<open>ContextCompaction\<close>) and cut to the
  prompt budget (\<open>PromptBudget\<close>, \<open>ContextTruncation\<close>). The server admits runs through \<open>RunQueue\<close>, keeps a ledger of file effects
  that \<open>Rollback\<close> undoes, and sends messages through \<open>MessageQueue\<close>. The sync engine compares tables (\<open>SyncDiff\<close>),
  checks the plan for conflicts and freezes (\<open>SyncConflicts\<close>) and prints SQL (\<open>SyncSql\<close>). A saved plan
  (\<open>PlanStore\<close>) is executed by \<open>ExecuteSync\<close>: gates over the environments (\<open>SyncEnv\<close>), the catalogs and the
  plan, the steps of the flow before and after (\<open>FlowPipeline\<close>, with their inputs from \<open>FlowInputs\<close>), and between
  them the metadata transaction (\<open>MetadataSync\<close>) with the statements of \<open>ApplyPlan\<close>. \<open>LineDiff\<close> is the diff view of
  the user interface.

  \<^bold>\<open>The theories\<close>, with the source each follows and what its lemmas show.

  \<^item> \<open>Prelude\<close>: JavaScript containers, strings and arrays, and the interfaces \<open>invariant_system\<close> (an invariant kept by
    every operation holds after every sequence of operations) and \<open>keyed_store\<close>. \<open>Regex\<close>: the regular expressions the
    sources use, with a parser for their syntax and a backtracking matcher; the matcher finds exactly the matches
    of the relation a pattern denotes. \<open>JsonText\<close>: \<open>JSON.stringify\<close>, which is injective. \<open>PlanTypes\<close>: the plan,
    result and verification records the planner theories share.
  \<^item> \<open>RunModel\<close> (\<open>agent/src/domain/types/run-models.ts\<close>): run and step life cycles as a state with operations that
    may throw; completion times, absorbing states, rejected operations, and the agreement of the immutable helpers with
    the mutating operations.
  \<^item> \<open>RunQueue\<close> (\<open>server/src/infra/queue/run-queue.ts\<close>): admission, priorities, aborts and release closures; limits,
    work conservation, fairness and single settlement in every reachable state.
  \<^item> \<open>Rollback\<close> (\<open>server/src/infra/effects\<close>, \<open>runtime/execution/workspace-effects.ts\<close>): the effect ledger over a
    file system; rolling back a run of tracked writes restores the file system, and a rollback touches nothing else.
  \<^item> \<open>SyncSql\<close>, \<open>SyncDiff\<close>, \<open>SyncConflicts\<close> (\<open>sync/src/runtime/diff-engine\<close>, \<open>sync/src/core\<close>, \<open>sql-kit\<close>): literals
    that read back, change sets that turn the target into the source, conflict probes and reconciliation.
  \<^item> \<open>SyncEnv\<close> (\<open>sync/src/core/eligibility\<close>): the environments the lists offer are those the gates accept.
    \<open>JsNumber\<close>: texts read as numbers. \<open>FlowInputs\<close> (\<open>shared-types/src\<close>, \<open>core/flow/validate-sync-flow.ts\<close>): what the
    publish-time checks of a flow leave to fail at run time. \<open>FlowPipeline\<close> (\<open>runtime/orchestrator/flow\<close>): handlers
    and regions; when a region is free of warnings, and what it may touch.
  \<^item> \<open>ApplyPlan\<close> (\<open>core/entity-registry/scd2-policy.ts\<close>, \<open>adapters/*/dialect\<close>): the columns and statements of a merge.
    \<open>MetadataSync\<close> (\<open>runtime/orchestrator/metadata\<close>, \<open>apply.ts\<close>): the transaction over databases that may fail at
    every call; a small calculus of what a computation appends to the log (\<open>appends\<close>) gives its shape, from which it is
    all or nothing. \<open>PlanStore\<close> (\<open>runtime/plan-store.ts\<close>): the cache, the files and the sink. \<open>ExecuteSync\<close> and
    \<open>ExecuteRuns\<close> (\<open>execute.ts\<close>, \<open>gates\<close>, \<open>catalog-drift.ts\<close>): the gates as a declarative condition, success, the
    atomicity of the whole run, and the record of the run.
  \<^item> \<open>PlanGraph\<close> (\<open>agent/src/core/plan/validate/graph.ts\<close> and the edge parser): cycle detection and the critical path.
  \<^item> \<open>Pipeline\<close> (\<open>core/plan/pipeline\<close>, \<open>pipeline-repair/reconcile.ts\<close>, \<open>runtime-model.ts\<close>): the scheduler as a step
    function over the order in which steps settle; dependencies, limits, results, contract reconciliation, and carried
    over steps.
  \<^item> \<open>VerifyModel\<close> (\<open>core/plan/internal/verification-inference.ts\<close>, \<open>verification-model\<close>): issue inference, owners,
    repair plan, acceptance states. \<open>PlannerLoop\<close> (\<open>core/plan/orchestrator\<close>, \<open>delegate-decision/escalation.ts\<close>): the
    loop of passes, at most three, with the executor of \<open>Pipeline\<close> plugged in by \<open>execute_with\<close>.
  \<^item> \<open>Routing\<close> (\<open>core/plan/decision\<close>, \<open>core/goal-intent.ts\<close>) and \<open>Delegation\<close> (\<open>core/delegate-decision\<close>,
    \<open>orchestrator/setup-delegation.ts\<close>): exact conditions of each route, approval and mode, and score bounds.
  \<^item> \<open>Policy\<close> (\<open>core/policy\<close>): selectors, rules, grants, sandbox scope, the order of precedence. \<open>GovernTool\<close>
    (\<open>core/govern-tools/govern-tool.ts\<close>): one governed call and its audit trail. \<open>Retry\<close> (\<open>core/recover/retry.ts\<close> and
    the channel retry): the interface \<open>bounded_retry\<close>, instantiated by both loops. \<open>Breaker\<close>
    (\<open>core/recover/circuit-breaker.ts\<close>, \<open>core/plan/circuit-breaker.ts\<close>): state against history. \<open>ShellGuard\<close>
    (\<open>tools/shell-command\<close>): what a command may start.
  \<^item> \<open>MessageQueue\<close> (\<open>server/src/infra/queue/channels/queue.ts\<close>): an inductive step relation with one step per
    \<open>await\<close>; order under every interleaving, and draining.
  \<^item> \<open>ChatMessages\<close>, \<open>PromptBudget\<close>, \<open>ContextTruncation\<close> (\<open>agent/src/memory\<close>): the messages and their size, the caps of
    the sections and their shares of the budget, the allocation, and what is sent when a conversation is too long:
    what always survives, the size of what is sent, and the cases where the limit is missed. \<open>ContextCompaction\<close>
    (\<open>memory/context-management\<close>, \<open>memory/context-compaction\<close>): only stale messages are compacted, and what a
    checkpoint keeps and records.
  \<^item> \<open>LineDiff\<close> (\<open>ui/src/lib/line-text-diff.ts\<close>): longest common subsequence, rows, collapsing.

  \<^bold>\<open>Conventions.\<close> Records and datatypes carry the source's fields and constructors; texts only shown to people are
  kept as structured values where nothing reads them. \<open>Map\<close> and objects are association lists in insertion order,
  \<open>null\<close> and \<open>undefined\<close> are \<open>None\<close>, a throw is \<open>Inl\<close> of an error datatype, strings have code units below 256.
  Counters and times are natural numbers or integers, scores are real numbers: the rounding of floating-point sums is
  not modelled; hashes and cyclic redundancy values stay machine words. What a component gets from outside (tools,
  child agents, the verifier, stores, channels, the clock, random numbers, SQL results) is an argument, so theorems hold
  for every behaviour of it.

  \<^bold>\<open>Fuel.\<close> The searches of \<open>PlanGraph\<close> take fuel; one more than the number of steps is enough and is proved to
  return. The parser of \<open>Regex\<close> takes twice the length of the pattern plus three, and a pattern that were not
  read would match nothing; repetitions need no fuel, because a round that consumes nothing ends them. All other
  definitions terminate by structural recursion.

  \<^bold>\<open>Not modelled\<close>, because it is input and output, generated text or presentation: the language-model clients and
  prompts, plan generation, the deterministic probes and the language-model verifier (arguments of the loop), the
  implementations of the tools other than the shell tool's dispatch, database drivers and migrations, HTTP routes and
  server-sent events, and the widgets of the user interface. Of the planner, normalisation passes, clarification
  detectors and recovery hints are not modelled yet; of the sync engine, the entity registry, the definition compiler and
  the reads of a preview; of the server, the proposer and the memory store.
\<close>

end
